(* ===== verification/Prelude.thy ===== *)
theory Prelude
  imports Main "HOL-Library.Char_ord"
begin

text \<open>
  Shared vocabulary of the development: the sentinel errors of the Go packages as one
  datatype, results as sums, Go integers and durations as \<open>int\<close> with their bounds written
  out, and the generic lemmas and fact collections that the component theories rely on.
\<close>

section \<open>Fact collections\<close>

named_theorems go_defs \<open>definitions of small Go helpers, unfolded together\<close>
named_theorems frame_simps \<open>what an operation leaves unchanged\<close>

section \<open>Errors and results\<close>

text \<open>
  Go's sentinel error values. The code distinguishes errors with \<open>errors.Is\<close> against these
  values only, so one constructor per value keeps every branch.
  \<open>ErrPublication\<close> carries the reason token that \<open>publicationError\<close> appends.
\<close>

datatype go_error =
    ErrInvalidRange
  | ErrContract
  | ErrDependency
  | ErrReceiptConflict
  | ErrCanceled
  | ErrDeadlineExceeded
  | ErrNotFound
  | ErrChanged
  | ErrUnavailable
  | ErrInvalid
  | ErrWorkerConfig
  | ErrSource
  | ErrEnvironment
  | ErrPublication string
  | ErrStopBatch
  | ErrInvalidDocument
  | ErrOther

type_synonym 'a result = "go_error + 'a"

definition is_ok :: "'a result \<Rightarrow> bool" where
  "is_ok r \<longleftrightarrow> (case r of Inl _ \<Rightarrow> False | Inr _ \<Rightarrow> True)"

lemma is_ok_simps [simp]: "is_ok (Inr x)" "\<not> is_ok (Inl e)"
  by (simp_all add: is_ok_def)

lemma is_ok_iff: "is_ok r \<longleftrightarrow> (\<exists>x. r = Inr x)"
  by (cases r) simp_all

section \<open>Machine integers\<close>

text \<open>
  Go's \<open>int\<close> and \<open>int64\<close> are 64-bit on every platform the images are built for. The model
  computes with \<open>int\<close>; where a value could leave the range, a lemma shows that it does not.
\<close>

definition int64_ok :: "int \<Rightarrow> bool" where
  "int64_ok x \<longleftrightarrow> - (2 ^ 63) \<le> x \<and> x < 2 ^ 63"

definition max_int64 :: int where
  "max_int64 = 2 ^ 63 - 1"

definition min_int64 :: int where
  "min_int64 = - (2 ^ 63)"

text \<open>The value a 64-bit signed operation leaves when the mathematical result is \<open>x\<close>.\<close>

definition wrap64 :: "int \<Rightarrow> int" where
  "wrap64 x = (x + 2 ^ 63) mod 2 ^ 64 - 2 ^ 63"

lemma wrap64_id: "int64_ok x \<Longrightarrow> wrap64 x = x"
  by (simp add: wrap64_def int64_ok_def)

text \<open>A \<open>time.Duration\<close> is a number of nanoseconds.\<close>

type_synonym duration = int

definition second :: duration where
  "second = 1000000000"

lemma second_pos [simp]: "0 < second" "0 \<le> second" "second \<noteq> 0"
  by (simp_all add: second_def)

section \<open>Generic list lemmas\<close>

lemma list_all_mono_set: "list_all P xs \<Longrightarrow> (\<And>x. x \<in> set xs \<Longrightarrow> P x \<Longrightarrow> Q x) \<Longrightarrow> list_all Q xs"
  by (simp add: list_all_iff)

lemma take_append_drop_mid: "take n xs @ take m (drop n xs) = take (n + m) xs"
  by (simp add: take_add)

lemma distinct_bounded_length:
  assumes "distinct xs" and "\<forall>x \<in> set xs. a \<le> x \<and> x \<le> (b::int)" and "a \<le> b + 1"
  shows "int (length xs) \<le> b - a + 1"
proof -
  have "length xs = card (set xs)"
    using assms(1) by (simp add: distinct_card)
  also have "\<dots> \<le> card {a..b}"
    using assms(2) by (intro card_mono) auto
  finally show ?thesis using assms(3) by simp
qed

end
