(* ===== verification/GoStrings.thy ===== *)
theory GoStrings
  imports Prelude
begin

text \<open>
  The parts of Go's \<open>strings\<close>, \<open>strconv\<close> and \<open>unicode/utf8\<close> packages that the program
  uses. A Go \<open>string\<close> and a \<open>[]byte\<close> are both sequences of bytes; the model uses
  \<open>string\<close> (a list of 8-bit characters) for both, so \<open>length\<close> is Go's \<open>len\<close>.
\<close>

section \<open>Bytes and character classes\<close>

abbreviation byte :: "char \<Rightarrow> nat" where
  "byte c \<equiv> of_char c"

definition between :: "char \<Rightarrow> char \<Rightarrow> char \<Rightarrow> bool" where
  [go_defs]: "between lo hi c \<longleftrightarrow> byte lo \<le> byte c \<and> byte c \<le> byte hi"

definition is_digit :: "char \<Rightarrow> bool" where
  [go_defs]: "is_digit c \<longleftrightarrow> between CHR ''0'' CHR ''9'' c"

definition is_lower :: "char \<Rightarrow> bool" where
  [go_defs]: "is_lower c \<longleftrightarrow> between CHR ''a'' CHR ''z'' c"

definition is_upper :: "char \<Rightarrow> bool" where
  [go_defs]: "is_upper c \<longleftrightarrow> between CHR ''A'' CHR ''Z'' c"

definition is_alpha :: "char \<Rightarrow> bool" where
  [go_defs]: "is_alpha c \<longleftrightarrow> is_lower c \<or> is_upper c"

definition is_alnum :: "char \<Rightarrow> bool" where
  [go_defs]: "is_alnum c \<longleftrightarrow> is_alpha c \<or> is_digit c"

definition is_lower_hex :: "char \<Rightarrow> bool" where
  [go_defs]: "is_lower_hex c \<longleftrightarrow> is_digit c \<or> between CHR ''a'' CHR ''f'' c"

lemmas char_class_defs =
  between_def is_digit_def is_lower_def is_upper_def is_alpha_def is_alnum_def is_lower_hex_def

lemmas char_eval = char_of_def bit_iff_odd

definition newline :: char where
  [go_defs]: "newline = CHR 0x0A"

definition quote_char :: char where
  [go_defs]: "quote_char = CHR 0x22"

definition backslash :: char where
  [go_defs]: "backslash = CHR 0x5C"

section \<open>Package strings\<close>

definition hasPrefix :: "string \<Rightarrow> string \<Rightarrow> bool" where
  [go_defs]: "hasPrefix s p \<longleftrightarrow> take (length p) s = p"

definition hasSuffix :: "string \<Rightarrow> string \<Rightarrow> bool" where
  [go_defs]: "hasSuffix s p \<longleftrightarrow> length p \<le> length s \<and> drop (length s - length p) s = p"

definition trimPrefix :: "string \<Rightarrow> string \<Rightarrow> string" where
  [go_defs]: "trimPrefix s p = (if hasPrefix s p then drop (length p) s else s)"

definition trimSuffix :: "string \<Rightarrow> string \<Rightarrow> string" where
  [go_defs]: "trimSuffix s p = (if hasSuffix s p then take (length s - length p) s else s)"

fun contains :: "string \<Rightarrow> string \<Rightarrow> bool" where
  "contains [] p = (p = [])"
| "contains (c # s) p = (hasPrefix (c # s) p \<or> contains s p)"

definition containsAny :: "string \<Rightarrow> string \<Rightarrow> bool" where
  [go_defs]: "containsAny s cs \<longleftrightarrow> list_ex (\<lambda>c. c \<in> set cs) s"

text \<open>\<open>strings.Split\<close> with a one-byte separator: always at least one part.\<close>

fun split :: "char \<Rightarrow> string \<Rightarrow> string list" where
  "split d [] = [[]]"
| "split d (c # s) =
     (if c = d then [] # split d s
      else (case split d s of p # ps \<Rightarrow> (c # p) # ps | [] \<Rightarrow> [[c]]))"

fun join :: "char \<Rightarrow> string list \<Rightarrow> string" where
  "join d [] = []"
| "join d [p] = p"
| "join d (p # q # ps) = p @ d # join d (q # ps)"

lemma split_nonempty [simp]: "split d s \<noteq> []"
  by (induction s) (auto split: list.splits)

lemma split_Cons_ex: "\<exists>p ps. split d s = p # ps"
  using split_nonempty [of d s] by (cases "split d s") auto

lemma join_Cons: "ps \<noteq> [] \<Longrightarrow> join d (p # ps) = p @ d # join d ps"
  by (cases ps) simp_all

lemma join_cons_head: "join d ((c # p) # ps) = c # join d (p # ps)"
  by (cases ps) simp_all

lemma join_split: "join d (split d s) = s"
proof (induction s)
  case Nil
  show ?case by simp
next
  case (Cons c s)
  obtain p ps where "split d s = p # ps" using split_Cons_ex by blast
  with Cons show ?case by (auto simp: join_Cons join_cons_head)
qed

lemma split_no_sep: "d \<notin> set s \<Longrightarrow> split d s = [s]"
  by (induction s) auto

lemma split_append_sep: "d \<notin> set p \<Longrightarrow> split d (p @ d # s) = p # split d s"
  by (induction p) auto

lemma split_join:
  "ps \<noteq> [] \<Longrightarrow> \<forall>p \<in> set ps. d \<notin> set p \<Longrightarrow> split d (join d ps) = ps"
proof (induction d ps rule: join.induct)
  case (3 d p q ps)
  then show ?case by (simp add: split_append_sep)
qed (simp_all add: split_no_sep)

lemma split_parts_no_sep: "p \<in> set (split d s) \<Longrightarrow> d \<notin> set p"
proof (induction s arbitrary: p)
  case Nil
  then show ?case by simp
next
  case (Cons c s)
  obtain q qs where q: "split d s = q # qs" using split_Cons_ex by blast
  with Cons.prems have "p = [] \<or> p \<in> set (split d s) \<or> (c \<noteq> d \<and> p = c # q)"
    by (auto split: if_splits)
  then show ?case
    using Cons.IH [of p] Cons.IH [of q] q by auto
qed

lemma split_part_subset: "p \<in> set (split d s) \<Longrightarrow> set p \<subseteq> set s"
proof (induction s arbitrary: p)
  case (Cons c s)
  obtain q qs where q: "split d s = q # qs" using split_Cons_ex by blast
  with Cons.prems Cons.IH [of p] Cons.IH [of q] show ?case
    by (auto split: if_splits)
qed simp

lemma hasPrefix_append [simp]: "hasPrefix (p @ s) p"
  by (simp add: hasPrefix_def)

lemma hasPrefix_iff: "hasPrefix s p \<longleftrightarrow> (\<exists>t. s = p @ t)"
  unfolding hasPrefix_def by (metis append_eq_conv_conj append_take_drop_id)

lemma hasSuffix_iff: "hasSuffix s p \<longleftrightarrow> (\<exists>t. s = t @ p)"
proof
  assume "hasSuffix s p"
  then have "s = take (length s - length p) s @ p"
    unfolding hasSuffix_def by (metis append_take_drop_id)
  then show "\<exists>t. s = t @ p" by blast
qed (auto simp: hasSuffix_def)

lemma trimPrefix_append [simp]: "trimPrefix (p @ s) p = s"
  by (simp add: trimPrefix_def)

section \<open>Package strconv\<close>

definition digit_value :: "char \<Rightarrow> nat" where
  [go_defs]: "digit_value c = byte c - 48"

definition digit_char :: "nat \<Rightarrow> char" where
  "digit_char d = char_of (48 + d)"

fun decimal_acc :: "nat \<Rightarrow> string \<Rightarrow> nat" where
  "decimal_acc n [] = n"
| "decimal_acc n (c # s) = decimal_acc (10 * n + digit_value c) s"

definition decimal :: "string \<Rightarrow> nat" where
  [go_defs]: "decimal s = decimal_acc 0 s"

text \<open>\<open>strconv.ParseUint(s, 10, bits)\<close>: digits only, no sign, no value of \<open>2 ^ bits\<close> or more.\<close>

definition parseUint :: "string \<Rightarrow> nat \<Rightarrow> nat option" where
  [go_defs]: "parseUint s bits =
     (if s \<noteq> [] \<and> list_all is_digit s \<and> decimal s < 2 ^ bits then Some (decimal s) else None)"

text \<open>\<open>strconv.ParseInt(s, 10, 64)\<close> and \<open>strconv.Atoi\<close>: an optional sign, then digits.\<close>

definition parseInt :: "string \<Rightarrow> int option" where
  [go_defs]: "parseInt s =
     (let neg = (case s of c # _ \<Rightarrow> c = CHR ''-'' | [] \<Rightarrow> False);
          t = (case s of c # r \<Rightarrow> if c = CHR ''-'' \<or> c = CHR ''+'' then r else s | [] \<Rightarrow> [])
      in if t = [] \<or> \<not> list_all is_digit t then None
         else let v = (if neg then - int (decimal t) else int (decimal t))
              in if int64_ok v then Some v else None)"

fun itoa_nat :: "nat \<Rightarrow> string" where
  "itoa_nat n = (if n < 10 then [digit_char n] else itoa_nat (n div 10) @ [digit_char (n mod 10)])"

declare itoa_nat.simps [simp del]

definition itoa :: "int \<Rightarrow> string" where
  "itoa i = (if i < 0 then CHR ''-'' # itoa_nat (nat (- i)) else itoa_nat (nat i))"

lemma byte_digit_char [simp]: "d < 10 \<Longrightarrow> byte (digit_char d) = 48 + d"
  by (simp add: digit_char_def)

lemma is_digit_digit_char [simp]: "d < 10 \<Longrightarrow> is_digit (digit_char d)"
  by (simp add: is_digit_def between_def)

lemma digit_value_digit_char [simp]: "d < 10 \<Longrightarrow> digit_value (digit_char d) = d"
  by (simp add: digit_value_def)

lemma decimal_acc_append: "decimal_acc n (s @ t) = decimal_acc (decimal_acc n s) t"
  by (induction s arbitrary: n) simp_all

lemma itoa_nat_digits [simp]: "list_all is_digit (itoa_nat n)"
proof (induction n rule: itoa_nat.induct)
  case (1 n)
  then show ?case by (cases "n < 10") (simp_all add: itoa_nat.simps [of n])
qed

lemma itoa_nat_nonempty [simp]: "itoa_nat n \<noteq> []"
  by (simp add: itoa_nat.simps [of n])

lemma decimal_itoa_nat [simp]: "decimal (itoa_nat n) = n"
  unfolding decimal_def
proof (induction n rule: itoa_nat.induct)
  case (1 n)
  then show ?case
    by (cases "n < 10") (simp_all add: itoa_nat.simps [of n] decimal_acc_append)
qed

lemma parseUint_itoa_nat: "n < 2 ^ b \<Longrightarrow> parseUint (itoa_nat n) b = Some n"
  by (simp add: parseUint_def)

lemma not_digit_minus [simp]: "\<not> is_digit CHR ''-''" "\<not> is_digit CHR ''+''"
  by (simp_all add: is_digit_def between_def)

lemma itoa_nat_hd_digit: "is_digit (hd (itoa_nat n))"
  using itoa_nat_digits [of n] itoa_nat_nonempty [of n]
  by (cases "itoa_nat n") auto

lemma parseInt_itoa:
  assumes "int64_ok i"
  shows "parseInt (itoa i) = Some i"
proof (cases "i < 0")
  case True
  then show ?thesis
    using assms by (simp add: parseInt_def itoa_def Let_def)
next
  case False
  obtain c s where cs: "itoa_nat (nat i) = c # s"
    using itoa_nat_nonempty by (meson list.exhaust)
  moreover have "c \<noteq> CHR ''-''" "c \<noteq> CHR ''+''"
    using itoa_nat_hd_digit [of "nat i"] cs by auto
  moreover have "list_all is_digit (c # s)" "decimal (c # s) = nat i"
    using itoa_nat_digits [of "nat i"] decimal_itoa_nat [of "nat i"] cs by auto
  ultimately show ?thesis
    using False assms by (simp add: parseInt_def itoa_def Let_def)
qed

lemma itoa_nat_length: "n < 10 ^ k \<Longrightarrow> 0 < k \<Longrightarrow> length (itoa_nat n) \<le> k"
proof (induction k arbitrary: n)
  case (Suc k)
  show ?case
  proof (cases "n < 10")
    case True
    then show ?thesis by (simp add: itoa_nat.simps [of n])
  next
    case False
    then have "0 < k" using Suc.prems by (cases k) auto
    moreover have "n div 10 < 10 ^ k" using Suc.prems by (simp add: less_mult_imp_div_less mult.commute)
    ultimately show ?thesis using Suc.IH [of "n div 10"] False by (simp add: itoa_nat.simps [of n])
  qed
qed simp

end
