(* ===== verification/Utf8.thy ===== *)
theory Utf8
  imports GoStrings
begin

text \<open>
  Go iterates over a string by UTF-8 code points (\<open>for _, r := range s\<close>, \<open>unicode/utf8\<close>,
  \<open>strings.ToLower\<close>, \<open>strings.TrimSpace\<close>, \<open>unicode.IsControl\<close>). The model splits a byte
  string into chunks, one per code point, with the replacement character U+FFFD and width 1 for
  a byte that starts no valid encoding, exactly as \<open>utf8.DecodeRune\<close> does.
\<close>

section \<open>Decoding\<close>

definition in_bytes :: "nat \<Rightarrow> nat \<Rightarrow> char \<Rightarrow> bool" where
  "in_bytes lo hi c \<longleftrightarrow> lo \<le> byte c \<and> byte c \<le> hi"

abbreviation runeError :: nat where
  "runeError \<equiv> 0xFFFD"

definition lead3_lo :: "nat \<Rightarrow> nat" where
  "lead3_lo x = (if x = 0xE0 then 0xA0 else 0x80)"

definition lead3_hi :: "nat \<Rightarrow> nat" where
  "lead3_hi x = (if x = 0xED then 0x9F else 0xBF)"

definition lead4_lo :: "nat \<Rightarrow> nat" where
  "lead4_lo x = (if x = 0xF0 then 0x90 else 0x80)"

definition lead4_hi :: "nat \<Rightarrow> nat" where
  "lead4_hi x = (if x = 0xF4 then 0x8F else 0xBF)"

definition decodeRune :: "string \<Rightarrow> nat \<times> nat" where
  "decodeRune s =
     (case s of
        [] \<Rightarrow> (runeError, 0)
      | b0 # r \<Rightarrow>
          (let x = byte b0 in
           if x < 0x80 then (x, 1)
           else if 0xC2 \<le> x \<and> x \<le> 0xDF then
             (case r of
                b1 # _ \<Rightarrow> if in_bytes 0x80 0xBF b1
                           then ((x - 0xC0) * 64 + (byte b1 - 0x80), 2) else (runeError, 1)
              | [] \<Rightarrow> (runeError, 1))
           else if 0xE0 \<le> x \<and> x \<le> 0xEF then
             (case r of
                b1 # b2 # _ \<Rightarrow>
                  if in_bytes (lead3_lo x) (lead3_hi x) b1 \<and> in_bytes 0x80 0xBF b2
                  then ((x - 0xE0) * 4096 + (byte b1 - 0x80) * 64 + (byte b2 - 0x80), 3)
                  else (runeError, 1)
              | _ \<Rightarrow> (runeError, 1))
           else if 0xF0 \<le> x \<and> x \<le> 0xF4 then
             (case r of
                b1 # b2 # b3 # _ \<Rightarrow>
                  if in_bytes (lead4_lo x) (lead4_hi x) b1 \<and> in_bytes 0x80 0xBF b2 \<and>
                     in_bytes 0x80 0xBF b3
                  then ((x - 0xF0) * 262144 + (byte b1 - 0x80) * 4096 +
                        (byte b2 - 0x80) * 64 + (byte b3 - 0x80), 4)
                  else (runeError, 1)
              | _ \<Rightarrow> (runeError, 1))
           else (runeError, 1)))"

text \<open>\<open>utf8.EncodeRune\<close>; surrogates and values above U+10FFFF encode as U+FFFD.\<close>

definition encodeRune :: "nat \<Rightarrow> string" where
  "encodeRune n =
     (let r = (if n > 0x10FFFF \<or> (0xD800 \<le> n \<and> n \<le> 0xDFFF) then runeError else n) in
      if r < 0x80 then [char_of r]
      else if r < 0x800 then [char_of (0xC0 + r div 64), char_of (0x80 + r mod 64)]
      else if r < 0x10000 then
        [char_of (0xE0 + r div 4096), char_of (0x80 + r div 64 mod 64), char_of (0x80 + r mod 64)]
      else
        [char_of (0xF0 + r div 262144), char_of (0x80 + r div 4096 mod 64),
         char_of (0x80 + r div 64 mod 64), char_of (0x80 + r mod 64)])"

text \<open>The five outcomes of decoding, as rules and as a case analysis.\<close>

lemma decodeRune_one: "byte c < 0x80 \<Longrightarrow> decodeRune (c # s) = (byte c, 1)"
  by (simp add: decodeRune_def)

lemma decodeRune_two:
  assumes "0xC2 \<le> byte b0" "byte b0 \<le> 0xDF" "in_bytes 0x80 0xBF b1"
  shows "decodeRune (b0 # b1 # s) = ((byte b0 - 0xC0) * 64 + (byte b1 - 0x80), 2)"
  using assms by (simp add: decodeRune_def)

lemma decodeRune_three:
  assumes "0xE0 \<le> byte b0" "byte b0 \<le> 0xEF" "in_bytes (lead3_lo (byte b0)) (lead3_hi (byte b0)) b1"
    "in_bytes 0x80 0xBF b2"
  shows "decodeRune (b0 # b1 # b2 # s) =
    ((byte b0 - 0xE0) * 4096 + (byte b1 - 0x80) * 64 + (byte b2 - 0x80), 3)"
  using assms by (simp add: decodeRune_def)

lemma decodeRune_four:
  assumes "0xF0 \<le> byte b0" "byte b0 \<le> 0xF4" "in_bytes (lead4_lo (byte b0)) (lead4_hi (byte b0)) b1"
    "in_bytes 0x80 0xBF b2" "in_bytes 0x80 0xBF b3"
  shows "decodeRune (b0 # b1 # b2 # b3 # s) =
    ((byte b0 - 0xF0) * 262144 + (byte b1 - 0x80) * 4096 + (byte b2 - 0x80) * 64 + (byte b3 - 0x80), 4)"
  using assms by (simp add: decodeRune_def)

lemma decodeRune_lead2:
  assumes "0xC2 \<le> byte b0" "byte b0 \<le> 0xDF"
  shows "decodeRune (b0 # r) = (runeError, 1) \<or> (\<exists>b1 t. r = b1 # t \<and> in_bytes 0x80 0xBF b1)"
  using assms by (cases r) (simp_all add: decodeRune_def)

lemma decodeRune_lead3:
  assumes "0xE0 \<le> byte b0" "byte b0 \<le> 0xEF"
  shows "decodeRune (b0 # r) = (runeError, 1) \<or>
    (\<exists>b1 b2 t. r = b1 # b2 # t \<and> in_bytes (lead3_lo (byte b0)) (lead3_hi (byte b0)) b1 \<and>
       in_bytes 0x80 0xBF b2)"
  using assms by (cases r; cases "tl r") (simp_all add: decodeRune_def Let_def)

lemma decodeRune_lead4:
  assumes "0xF0 \<le> byte b0" "byte b0 \<le> 0xF4"
  shows "decodeRune (b0 # r) = (runeError, 1) \<or>
    (\<exists>b1 b2 b3 t. r = b1 # b2 # b3 # t \<and> in_bytes (lead4_lo (byte b0)) (lead4_hi (byte b0)) b1 \<and>
       in_bytes 0x80 0xBF b2 \<and> in_bytes 0x80 0xBF b3)"
  using assms by (cases r; cases "tl r"; cases "tl (tl r)") (simp_all add: decodeRune_def Let_def)

lemma decodeRune_bad:
  assumes "0x80 \<le> byte b0" "\<not> (0xC2 \<le> byte b0 \<and> byte b0 \<le> 0xF4)"
  shows "decodeRune (b0 # r) = (runeError, 1)"
  using assms by (auto simp: decodeRune_def)

lemma decodeRune_cases:
  assumes "s \<noteq> []"
  obtains (one) c t where "s = c # t" "byte c < 0x80"
  | (bad) c t where "s = c # t" "0x80 \<le> byte c" "decodeRune s = (runeError, 1)"
  | (two) b0 b1 t where "s = b0 # b1 # t" "0xC2 \<le> byte b0" "byte b0 \<le> 0xDF" "in_bytes 0x80 0xBF b1"
  | (three) b0 b1 b2 t where "s = b0 # b1 # b2 # t" "0xE0 \<le> byte b0" "byte b0 \<le> 0xEF"
      "in_bytes (lead3_lo (byte b0)) (lead3_hi (byte b0)) b1" "in_bytes 0x80 0xBF b2"
  | (four) b0 b1 b2 b3 t where "s = b0 # b1 # b2 # b3 # t" "0xF0 \<le> byte b0" "byte b0 \<le> 0xF4"
      "in_bytes (lead4_lo (byte b0)) (lead4_hi (byte b0)) b1" "in_bytes 0x80 0xBF b2"
      "in_bytes 0x80 0xBF b3"
proof -
  obtain c t where s: "s = c # t" using assms by (meson list.exhaust)
  consider "byte c < 0x80" | "0x80 \<le> byte c" "\<not> (0xC2 \<le> byte c \<and> byte c \<le> 0xF4)"
    | "0xC2 \<le> byte c" "byte c \<le> 0xDF" | "0xE0 \<le> byte c" "byte c \<le> 0xEF"
    | "0xF0 \<le> byte c" "byte c \<le> 0xF4"
    by linarith
  then show thesis
  proof cases
    case 1
    with s show ?thesis by (rule one)
  next
    case 2
    with s bad show ?thesis by (simp add: decodeRune_bad)
  next
    case 3
    with s bad two show ?thesis using decodeRune_lead2 [of c t] by fastforce
  next
    case 4
    with s bad three show ?thesis using decodeRune_lead3 [of c t] by fastforce
  next
    case 5
    with s bad four show ?thesis using decodeRune_lead4 [of c t] by fastforce
  qed
qed

lemmas decodeRune_rules = decodeRune_one decodeRune_two decodeRune_three decodeRune_four

lemma decodeRune_width: "s \<noteq> [] \<Longrightarrow> 1 \<le> snd (decodeRune s)"
  by (auto simp: decodeRune_def Let_def split: list.splits)

lemma decodeRune_width_le: "snd (decodeRune s) \<le> length s"
  by (auto simp: decodeRune_def Let_def split: list.splits)

type_synonym chunk = "nat \<times> string"

function chunks :: "string \<Rightarrow> chunk list" where
  "chunks s =
     (if s = [] then []
      else (fst (decodeRune s), take (snd (decodeRune s)) s) # chunks (drop (snd (decodeRune s)) s))"
  by pat_completeness auto
termination
proof (relation "measure length")
  fix s :: string
  assume "s \<noteq> []"
  then show "(drop (snd (decodeRune s)) s, s) \<in> measure length"
    using decodeRune_width [of s] by simp
qed simp

declare chunks.simps [simp del]

lemma chunks_Nil [simp]: "chunks [] = []"
  by (simp add: chunks.simps)

lemma chunks_nonempty:
  "s \<noteq> [] \<Longrightarrow> chunks s =
     (fst (decodeRune s), take (snd (decodeRune s)) s) # chunks (drop (snd (decodeRune s)) s)"
  by (simp add: chunks.simps [of s])

text \<open>The chunks partition the string.\<close>

lemma concat_chunks: "concat (map snd (chunks s)) = s"
proof (induction s rule: chunks.induct)
  case (1 s)
  then show ?case by (cases "s = []") (simp_all add: chunks_nonempty)
qed

text \<open>An ASCII byte is a chunk of its own.\<close>

lemma chunks_ascii_Cons:
  assumes "byte c < 0x80"
  shows "chunks (c # s) = (byte c, [c]) # chunks s"
proof -
  have "decodeRune (c # s) = (byte c, 1)" using assms by (simp add: decodeRune_def Let_def)
  then show ?thesis by (simp add: chunks_nonempty)
qed

definition ascii :: "string \<Rightarrow> bool" where
  "ascii s \<longleftrightarrow> list_all (\<lambda>c. byte c < 0x80) s"

lemma ascii_simps [simp]: "ascii []" "ascii (c # s) \<longleftrightarrow> byte c < 0x80 \<and> ascii s"
  "ascii (s @ t) \<longleftrightarrow> ascii s \<and> ascii t"
  by (simp_all add: ascii_def)

lemma chunks_ascii: "ascii s \<Longrightarrow> chunks s = map (\<lambda>c. (byte c, [c])) s"
  by (induction s) (simp_all add: chunks_ascii_Cons)

section \<open>Validity\<close>

definition bad_chunk :: "chunk \<Rightarrow> bool" where
  "bad_chunk ch \<longleftrightarrow> fst ch = runeError \<and> length (snd ch) = 1"

definition utf8_valid :: "string \<Rightarrow> bool" where
  "utf8_valid s \<longleftrightarrow> list_all (\<lambda>ch. \<not> bad_chunk ch) (chunks s)"

lemma utf8_valid_ascii: "ascii s \<Longrightarrow> utf8_valid s"
  by (auto simp: utf8_valid_def chunks_ascii list_all_iff bad_chunk_def ascii_def)

text \<open>A valid encoding is recognised from its own bytes alone, whatever follows.\<close>

lemma decodeRune_prefix:
  assumes "decodeRune s = (r, w)" and "\<not> (r = runeError \<and> w = 1)" and "s \<noteq> []"
  shows "decodeRune (take w s @ t) = (r, w)"
  using assms(3,1,2)
  by (cases s rule: decodeRune_cases) (auto simp: decodeRune_rules)

section \<open>Control characters, spaces, lower case\<close>

definition isControl :: "nat \<Rightarrow> bool" where
  "isControl r \<longleftrightarrow> r < 0x20 \<or> (0x7f \<le> r \<and> r \<le> 0x9f)"

definition isSpace :: "nat \<Rightarrow> bool" where
  "isSpace r \<longleftrightarrow> (9 \<le> r \<and> r \<le> 13) \<or> r = 0x20 \<or> r = 0x85 \<or> r = 0xA0 \<or> r = 0x1680 \<or>
     (0x2000 \<le> r \<and> r \<le> 0x200a) \<or> r = 0x2028 \<or> r = 0x2029 \<or> r = 0x202f \<or> r = 0x205f \<or> r = 0x3000"

definition trimSpace :: "string \<Rightarrow> string" where
  "trimSpace s =
     (let sp = (\<lambda>ch. isSpace (fst ch))
      in concat (map snd (rev (dropWhile sp (rev (dropWhile sp (chunks s)))))))"

definition lower_char :: "char \<Rightarrow> char" where
  "lower_char c = (if is_upper c then char_of (byte c + 32) else c)"

text \<open>
  \<open>strings.ToLower\<close>. The two non-ASCII code points whose lower case is ASCII (U+0130 and
  U+212A) are mapped as Go maps them; every other non-ASCII code point stays non-ASCII and is
  kept as it is, which no caller can tell apart: each tests the result against ASCII patterns,
  suffixes or names only.
\<close>

definition lower_chunk :: "chunk \<Rightarrow> string" where
  "lower_chunk ch =
     (if fst ch < 0x80 then map lower_char (snd ch)
      else if bad_chunk ch then encodeRune runeError
      else if fst ch = 0x130 then ''i''
      else if fst ch = 0x212A then ''k''
      else snd ch)"

definition toLower :: "string \<Rightarrow> string" where
  "toLower s = concat (map lower_chunk (chunks s))"

lemma toLower_ascii: "ascii s \<Longrightarrow> toLower s = map lower_char s"
proof (induction s)
  case (Cons c s)
  then show ?case by (simp add: toLower_def chunks_ascii_Cons lower_chunk_def)
qed (simp add: toLower_def)

lemma lower_char_id: "\<not> is_upper c \<Longrightarrow> lower_char c = c"
  by (simp add: lower_char_def)

lemma toLower_id: "ascii s \<Longrightarrow> list_all (\<lambda>c. \<not> is_upper c) s \<Longrightarrow> toLower s = s"
  by (induction s) (simp_all add: toLower_ascii lower_char_id)

lemma concat_singletons: "concat (map snd (map (\<lambda>c. (f c, [c])) s)) = s"
  by (induction s) simp_all

lemma trimSpace_id:
  assumes "ascii s" and "s \<noteq> [] \<Longrightarrow> \<not> isSpace (byte (hd s)) \<and> \<not> isSpace (byte (last s))"
  shows "trimSpace s = s"
proof (cases "s = []")
  case True
  then show ?thesis by (simp add: trimSpace_def)
next
  case False
  let ?m = "map (\<lambda>c. (byte c, [c])) s"
  have "dropWhile (\<lambda>ch. isSpace (fst ch)) ?m = ?m"
    using assms(2) False by (cases s) auto
  moreover have "dropWhile (\<lambda>ch. isSpace (fst ch)) (rev ?m) = rev ?m"
    using assms(2) False by (cases s rule: rev_cases) auto
  ultimately show ?thesis
    using assms(1) concat_singletons [of byte s]
    by (simp only: trimSpace_def chunks_ascii Let_def rev_rev_ident)
qed

text \<open>
  A loop \<open>for _, r := range s\<close> visits the runes of \<open>s\<close>. Rune-wise and byte-wise checks for
  the ASCII control characters agree.
\<close>

definition runes :: "string \<Rightarrow> nat list" where
  "runes s = map fst (chunks s)"

definition no_ascii_control :: "string \<Rightarrow> bool" where
  "no_ascii_control s \<longleftrightarrow> list_all (\<lambda>r. \<not> (r < 0x20 \<or> r = 0x7f)) (runes s)"

lemma decodeRune_nonascii:
  assumes "decodeRune (c # s) = (r, w)" and "0x80 \<le> byte c"
  shows "0x80 \<le> r"
proof -
  have "c # s \<noteq> []" by simp
  then show ?thesis
  proof (cases rule: decodeRune_cases)
    case (two b0 b1 t)
    then have "128 \<le> (byte b0 - 0xC0) * 64" by simp
    then show ?thesis using assms two by (simp add: decodeRune_two)
  next
    case (three b0 b1 b2 t)
    then have "0x800 \<le> (byte b0 - 0xE0) * 4096 + (byte b1 - 0x80) * 64"
      by (cases "byte b0 = 0xE0") (auto simp: in_bytes_def lead3_lo_def)
    then show ?thesis using assms three by (simp add: decodeRune_three)
  next
    case (four b0 b1 b2 b3 t)
    then have "0x10000 \<le> (byte b0 - 0xF0) * 262144 + (byte b1 - 0x80) * 4096"
      by (cases "byte b0 = 0xF0") (auto simp: in_bytes_def lead4_lo_def)
    then show ?thesis using assms four by (simp add: decodeRune_four)
  qed (use assms in auto)
qed

lemma decodeRune_tail_bytes:
  assumes "decodeRune (c # s) = (r, w)" and "0x80 \<le> byte c" and "x \<in> set (take w (c # s))"
  shows "0x80 \<le> byte x"
proof -
  have lo: "0x80 \<le> lead3_lo y" "0x80 \<le> lead4_lo y" for y
    by (simp_all add: lead3_lo_def lead4_lo_def)
  have "c # s \<noteq> []" by simp
  then show ?thesis
  proof (cases rule: decodeRune_cases)
    case (two b0 b1 t)
    then show ?thesis using assms by (auto simp: decodeRune_two in_bytes_def)
  next
    case (three b0 b1 b2 t)
    then have "w = 3" using assms by (simp add: decodeRune_three)
    then show ?thesis using assms three lo(1) [of "byte b0"]
      by (auto simp: in_bytes_def)
  next
    case (four b0 b1 b2 b3 t)
    then have "w = 4" using assms by (simp add: decodeRune_four)
    then show ?thesis using assms four lo(2) [of "byte b0"] by (auto simp: in_bytes_def)
  qed (use assms in auto)
qed

lemma no_ascii_control_bytes: "no_ascii_control s \<longleftrightarrow> list_all (\<lambda>c. \<not> (byte c < 0x20 \<or> byte c = 0x7f)) s"
proof (induction s rule: chunks.induct)
  case (1 s)
  show ?case
  proof (cases s)
    case Nil
    then show ?thesis by (simp add: no_ascii_control_def runes_def)
  next
    case (Cons c t)
    obtain r w where rw: "decodeRune s = (r, w)" by fastforce
    let ?P = "\<lambda>c. \<not> (byte c < 0x20 \<or> byte c = 0x7f)"
    have step: "no_ascii_control s \<longleftrightarrow> \<not> (r < 0x20 \<or> r = 0x7f) \<and> no_ascii_control (drop w s)"
      using Cons rw by (simp add: no_ascii_control_def runes_def chunks_nonempty)
    have split: "list_all ?P s \<longleftrightarrow> list_all ?P (take w s) \<and> list_all ?P (drop w s)"
      using list_all_append [of ?P "take w s" "drop w s"] by (simp only: append_take_drop_id)
    have "(\<not> (r < 0x20 \<or> r = 0x7f)) \<longleftrightarrow> list_all ?P (take w s)"
    proof (cases "byte c < 0x80")
      case True
      then have "r = byte c" "w = 1" using rw Cons by (simp_all add: decodeRune_def Let_def)
      then show ?thesis using Cons by simp
    next
      case False
      then have hi: "0x80 \<le> byte c" by linarith
      have d: "decodeRune (c # t) = (r, w)" using rw Cons by simp
      have r: "0x80 \<le> r" using d hi by (rule decodeRune_nonascii)
      have b: "0x80 \<le> byte x" if "x \<in> set (take w s)" for x
        using decodeRune_tail_bytes [OF d hi] that Cons by simp
      have "?P x" if "x \<in> set (take w s)" for x
        using b [OF that] by linarith
      then have "list_all ?P (take w s)" unfolding list_all_iff by blast
      moreover have "\<not> (r < 0x20 \<or> r = 0x7f)" using r by linarith
      ultimately show ?thesis by blast
    qed
    moreover have "no_ascii_control (drop w s) \<longleftrightarrow> list_all ?P (drop w s)"
      using "1" Cons rw by simp
    ultimately show ?thesis using step split by blast
  qed
qed

end
