(* ===== verification/Json.thy ===== *)
theory Json
  imports Utf8
begin

text \<open>
  The parts of Go's \<open>encoding/json\<close> that the program uses, on byte strings: \<open>json.Marshal\<close>
  (compact output, HTML-safe string escapes) and the decoder behind \<open>json.NewDecoder\<close> and
  \<open>json.Unmarshal\<close> (grammar, string unescaping with surrogate pairs, field lookup by exact and
  then by folded name, \<open>DisallowUnknownFields\<close>, \<open>null\<close> as a no-op).

  The parser runs on fuel. \<open>pv_fuel_stable\<close> shows that more fuel than bytes never changes the
  result, and \<open>json_doc\<close> gives it one unit more than the document has bytes, so no document is
  refused for lack of fuel. The main result is the round trip \<open>json_doc_print\<close>: parsing a
  printed value gives the value back.
\<close>

section \<open>Values and printing\<close>

datatype json =
    JNull
  | JBool bool
  | JNum string
  | JStr string
  | JArr "json list"
  | JObj "(string \<times> json) list"

definition hexDigit :: "nat \<Rightarrow> char" where
  "hexDigit n = ''0123456789abcdef'' ! n"

definition uEscape :: "nat \<Rightarrow> string" where
  "uEscape n =
     [backslash, CHR ''u'', hexDigit (n div 4096 mod 16), hexDigit (n div 256 mod 16),
      hexDigit (n div 16 mod 16), hexDigit (n mod 16)]"

definition escByte :: "char \<Rightarrow> string" where
  "escByte c =
     (if c = quote_char \<or> c = backslash then [backslash, c]
      else if byte c = 8 then [backslash, CHR ''b'']
      else if byte c = 12 then [backslash, CHR ''f'']
      else if byte c = 10 then [backslash, CHR ''n'']
      else if byte c = 13 then [backslash, CHR ''r'']
      else if byte c = 9 then [backslash, CHR ''t'']
      else if byte c < 0x20 \<or> c = CHR ''<'' \<or> c = CHR ''>'' \<or> c = CHR ''&'' then uEscape (byte c)
      else [c])"

definition escChunk :: "chunk \<Rightarrow> string" where
  "escChunk ch =
     (if fst ch < 0x80 then concat (map escByte (snd ch))
      else if bad_chunk ch then uEscape runeError
      else if fst ch = 0x2028 \<or> fst ch = 0x2029 then uEscape (fst ch)
      else snd ch)"

definition escape :: "string \<Rightarrow> string" where
  "escape s = concat (map escChunk (chunks s))"

definition quote :: "string \<Rightarrow> string" where
  "quote s = quote_char # escape s @ [quote_char]"

fun jprint :: "json \<Rightarrow> string"
  and jprintList :: "json list \<Rightarrow> string"
  and jprintMembers :: "(string \<times> json) list \<Rightarrow> string" where
  "jprint JNull = ''null''"
| "jprint (JBool b) = (if b then ''true'' else ''false'')"
| "jprint (JNum s) = s"
| "jprint (JStr s) = quote s"
| "jprint (JArr xs) = CHR ''['' # jprintList xs"
| "jprint (JObj kvs) = CHR ''{'' # jprintMembers kvs"
| "jprintList [] = '']''"
| "jprintList [x] = jprint x @ '']''"
| "jprintList (x # y # xs) = jprint x @ CHR '','' # jprintList (y # xs)"
| "jprintMembers [] = ''}''"
| "jprintMembers [(k, v)] = quote k @ CHR '':'' # jprint v @ ''}''"
| "jprintMembers ((k, v) # kv # kvs) = quote k @ CHR '':'' # jprint v @ CHR '','' # jprintMembers (kv # kvs)"

section \<open>Parsing\<close>

definition isWs :: "char \<Rightarrow> bool" where
  "isWs c \<longleftrightarrow> byte c = 32 \<or> byte c = 9 \<or> byte c = 10 \<or> byte c = 13"

definition skipWs :: "string \<Rightarrow> string" where
  "skipWs s = dropWhile isWs s"

definition hexValue :: "char \<Rightarrow> nat option" where
  "hexValue c =
     (if is_digit c then Some (byte c - 48)
      else if between CHR ''a'' CHR ''f'' c then Some (byte c - 87)
      else if between CHR ''A'' CHR ''F'' c then Some (byte c - 55)
      else None)"

fun hex4 :: "string \<Rightarrow> (nat \<times> string) option" where
  "hex4 (a # b # c # d # s) =
     (case (hexValue a, hexValue b, hexValue c, hexValue d) of
        (Some w, Some x, Some y, Some z) \<Rightarrow> Some (((w * 16 + x) * 16 + y) * 16 + z, s)
      | _ \<Rightarrow> None)"
| "hex4 _ = None"

definition isSurrogate :: "nat \<Rightarrow> bool" where
  "isSurrogate n \<longleftrightarrow> 0xD800 \<le> n \<and> n \<le> 0xDFFF"

text \<open>
  The code point after \<open>\u\<close>: a surrogate must be the first half of a pair written as two
  escapes, otherwise it reads as U+FFFD and what follows is left in place.
\<close>

definition unicodeEscape :: "string \<Rightarrow> (nat \<times> string) option" where
  "unicodeEscape s =
     (case hex4 s of
        None \<Rightarrow> None
      | Some (u, r) \<Rightarrow>
          if \<not> isSurrogate u then Some (u, r)
          else (case r of
                  b # e # r' \<Rightarrow>
                    if b = backslash \<and> e = CHR ''u'' then
                      (case hex4 r' of
                         Some (v, r'') \<Rightarrow>
                           if u < 0xDC00 \<and> 0xDC00 \<le> v \<and> v \<le> 0xDFFF
                           then Some (0x10000 + (u - 0xD800) * 1024 + (v - 0xDC00), r'')
                           else Some (runeError, r)
                       | None \<Rightarrow> Some (runeError, r))
                    else Some (runeError, r)
                | _ \<Rightarrow> Some (runeError, r)))"

definition simpleEscape :: "char \<Rightarrow> char option" where
  "simpleEscape e =
     (if e = quote_char \<or> e = backslash \<or> e = CHR ''/'' then Some e
      else if e = CHR ''b'' then Some (CHR 0x08)
      else if e = CHR ''f'' then Some (CHR 0x0C)
      else if e = CHR ''n'' then Some (CHR 0x0A)
      else if e = CHR ''r'' then Some (CHR 0x0D)
      else if e = CHR ''t'' then Some (CHR 0x09)
      else None)"

text \<open>A valid code point is copied, an invalid byte becomes U+FFFD.\<close>

definition copyChunk :: "string \<Rightarrow> string" where
  "copyChunk s =
     (let (r, w) = decodeRune s in if r = runeError \<and> w = 1 then encodeRune runeError else take w s)"

lemma hex4_length: "hex4 s = Some (n, r) \<Longrightarrow> length r < length s"
  by (cases s rule: hex4.cases) (auto split: option.splits)

lemma unicodeEscape_length: "unicodeEscape s = Some (n, r) \<Longrightarrow> length r < length s"
  by (auto simp: unicodeEscape_def split: option.splits list.splits if_splits prod.splits
      dest!: hex4_length)

text \<open>\<open>pstr\<close> reads a string literal after its opening quote.\<close>

function pstr :: "string \<Rightarrow> (string \<times> string) option" where
  "pstr [] = None"
| "pstr (c # s) =
     (if c = quote_char then Some ([], s)
      else if c = backslash then
        (case s of
           [] \<Rightarrow> None
         | e # s' \<Rightarrow>
             if e = CHR ''u'' then
               (case unicodeEscape s' of
                  None \<Rightarrow> None
                | Some (n, r) \<Rightarrow> map_option (apfst ((@) (encodeRune n))) (pstr r))
             else (case simpleEscape e of
                     None \<Rightarrow> None
                   | Some d \<Rightarrow> map_option (apfst ((#) d)) (pstr s')))
      else if byte c < 0x20 then None
      else if byte c < 0x80 then map_option (apfst ((#) c)) (pstr s)
      else map_option (apfst ((@) (copyChunk (c # s)))) (pstr (drop (snd (decodeRune (c # s))) (c # s))))"
  by pat_completeness auto
termination
proof (relation "measure length", goal_cases)
  case (2 c s e s' x n r)
  then show ?case using unicodeEscape_length [of s' n r] by auto
next
  case (5 c s)
  then show ?case using decodeRune_width [of "c # s"] by simp
qed auto

declare pstr.simps(2) [simp del]

definition digitRun :: "string \<Rightarrow> (string \<times> string) option" where
  "digitRun s =
     (let ds = takeWhile is_digit s in if ds = [] then None else Some (ds, drop (length ds) s))"

definition pInt :: "string \<Rightarrow> (string \<times> string) option" where
  "pInt s =
     (case s of
        [] \<Rightarrow> None
      | c # r \<Rightarrow> if c = CHR ''0'' then Some ([c], r) else digitRun s)"

definition pFrac :: "string \<Rightarrow> (string \<times> string) option" where
  "pFrac s =
     (case s of
        c # r \<Rightarrow> if c = CHR ''.'' then map_option (apfst ((#) c)) (digitRun r) else Some ([], s)
      | [] \<Rightarrow> Some ([], []))"

definition pExp :: "string \<Rightarrow> (string \<times> string) option" where
  "pExp s =
     (case s of
        c # r \<Rightarrow>
          if c = CHR ''e'' \<or> c = CHR ''E'' then
            (case r of
               sg # r' \<Rightarrow>
                 if sg = CHR ''+'' \<or> sg = CHR ''-'' then map_option (apfst (\<lambda>d. c # sg # d)) (digitRun r')
                 else map_option (apfst ((#) c)) (digitRun r)
             | [] \<Rightarrow> None)
          else Some ([], s)
      | [] \<Rightarrow> Some ([], []))"

definition pNum :: "string \<Rightarrow> (string \<times> string) option" where
  "pNum s =
     (let (sg, s1) = (case s of c # r \<Rightarrow> if c = CHR ''-'' then ([c], r) else ([], s) | [] \<Rightarrow> ([], []))
      in case pInt s1 of
           None \<Rightarrow> None
         | Some (i, s2) \<Rightarrow>
             (case pFrac s2 of
                None \<Rightarrow> None
              | Some (f, s3) \<Rightarrow>
                  (case pExp s3 of
                     None \<Rightarrow> None
                   | Some (e, s4) \<Rightarrow> Some (sg @ i @ f @ e, s4))))"

definition pLit :: "string \<Rightarrow> json \<Rightarrow> string \<Rightarrow> (json \<times> string) option" where
  "pLit lit j s = (if hasPrefix s lit then Some (j, drop (length lit) s) else None)"

fun pv :: "nat \<Rightarrow> string \<Rightarrow> (json \<times> string) option"
  and pElems :: "nat \<Rightarrow> string \<Rightarrow> (json list \<times> string) option"
  and pMembers :: "nat \<Rightarrow> string \<Rightarrow> ((string \<times> json) list \<times> string) option" where
  "pv 0 s = None"
| "pv (Suc n) s =
     (case skipWs s of
        [] \<Rightarrow> None
      | c # r \<Rightarrow>
          if c = CHR ''{'' then
            (case skipWs r of
               [] \<Rightarrow> None
             | d # r' \<Rightarrow> if d = CHR ''}'' then Some (JObj [], r')
                        else map_option (apfst JObj) (pMembers n r))
          else if c = CHR ''['' then
            (case skipWs r of
               [] \<Rightarrow> None
             | d # r' \<Rightarrow> if d = CHR '']'' then Some (JArr [], r')
                        else map_option (apfst JArr) (pElems n r))
          else if c = quote_char then map_option (apfst JStr) (pstr r)
          else if c = CHR ''n'' then pLit ''null'' JNull (c # r)
          else if c = CHR ''t'' then pLit ''true'' (JBool True) (c # r)
          else if c = CHR ''f'' then pLit ''false'' (JBool False) (c # r)
          else map_option (apfst JNum) (pNum (c # r)))"
| "pElems 0 s = None"
| "pElems (Suc n) s =
     (case pv n s of
        None \<Rightarrow> None
      | Some (x, r) \<Rightarrow>
          (case skipWs r of
             [] \<Rightarrow> None
           | c # r' \<Rightarrow>
               if c = CHR '','' then map_option (apfst ((#) x)) (pElems n r')
               else if c = CHR '']'' then Some ([x], r')
               else None))"
| "pMembers 0 s = None"
| "pMembers (Suc n) s =
     (case skipWs s of
        [] \<Rightarrow> None
      | q # r \<Rightarrow>
          if q \<noteq> quote_char then None
          else (case pstr r of
                  None \<Rightarrow> None
                | Some (k, r1) \<Rightarrow>
                    (case skipWs r1 of
                       [] \<Rightarrow> None
                     | c # r2 \<Rightarrow>
                         if c \<noteq> CHR '':'' then None
                         else (case pv n r2 of
                                 None \<Rightarrow> None
                               | Some (v, r3) \<Rightarrow>
                                   (case skipWs r3 of
                                      [] \<Rightarrow> None
                                    | d # r4 \<Rightarrow>
                                        if d = CHR '','' then map_option (apfst ((#) (k, v))) (pMembers n r4)
                                        else if d = CHR ''}'' then Some ([(k, v)], r4)
                                        else None)))))"

text \<open>A whole document: one value, then nothing but white space.\<close>

definition json_doc :: "string \<Rightarrow> json option" where
  "json_doc s =
     (case pv (Suc (length s)) s of
        Some (j, r) \<Rightarrow> if skipWs r = [] then Some j else None
      | None \<Rightarrow> None)"

section \<open>Decoding into structs\<close>

text \<open>
  The name folding of the decoder: ASCII letters to upper case, and the two non-ASCII code points
  whose simple fold is an ASCII letter (U+017F and U+212A). No field name has other letters.
\<close>

definition foldChunk :: "chunk \<Rightarrow> string" where
  "foldChunk ch =
     (if fst ch < 0x80 then map (\<lambda>c. if is_lower c then char_of (byte c - 32) else c) (snd ch)
      else if fst ch = 0x17F then ''S''
      else if fst ch = 0x212A then ''K''
      else snd ch)"

definition foldName :: "string \<Rightarrow> string" where
  "foldName s = concat (map foldChunk (chunks s))"

type_synonym 'r setter = "json \<Rightarrow> 'r \<Rightarrow> 'r option"

definition findField :: "(string \<times> 'r setter) list \<Rightarrow> string \<Rightarrow> 'r setter option" where
  "findField fields k =
     (case map_of fields k of
        Some f \<Rightarrow> Some f
      | None \<Rightarrow> map_of (map (\<lambda>(n, f). (foldName n, f)) fields) (foldName k))"

fun setFields :: "(string \<times> 'r setter) list \<Rightarrow> (string \<times> json) list \<Rightarrow> 'r \<Rightarrow> 'r option" where
  "setFields fields [] r = Some r"
| "setFields fields ((k, v) # kvs) r =
     (case findField fields k of
        None \<Rightarrow> None
      | Some f \<Rightarrow> (case f v r of None \<Rightarrow> None | Some r' \<Rightarrow> setFields fields kvs r'))"

definition decodeStruct :: "(string \<times> 'r setter) list \<Rightarrow> 'r setter" where
  "decodeStruct fields j r =
     (case j of JNull \<Rightarrow> Some r | JObj kvs \<Rightarrow> setFields fields kvs r | _ \<Rightarrow> None)"

definition setString :: "(string \<Rightarrow> 'r \<Rightarrow> 'r) \<Rightarrow> 'r setter" where
  "setString upd j r = (case j of JStr s \<Rightarrow> Some (upd s r) | JNull \<Rightarrow> Some r | _ \<Rightarrow> None)"

definition setInt :: "(int \<Rightarrow> 'r \<Rightarrow> 'r) \<Rightarrow> 'r setter" where
  "setInt upd j r =
     (case j of
        JNum lit \<Rightarrow> (case parseInt lit of Some i \<Rightarrow> Some (upd i r) | None \<Rightarrow> None)
      | JNull \<Rightarrow> Some r
      | _ \<Rightarrow> None)"

definition setStringPtr :: "(string option \<Rightarrow> 'r \<Rightarrow> 'r) \<Rightarrow> 'r setter" where
  "setStringPtr upd j r =
     (case j of JStr s \<Rightarrow> Some (upd (Some s) r) | JNull \<Rightarrow> Some (upd None r) | _ \<Rightarrow> None)"

definition setIntPtr :: "(int option \<Rightarrow> 'r \<Rightarrow> 'r) \<Rightarrow> 'r setter" where
  "setIntPtr upd j r =
     (case j of
        JNum lit \<Rightarrow> (case parseInt lit of Some i \<Rightarrow> Some (upd (Some i) r) | None \<Rightarrow> None)
      | JNull \<Rightarrow> Some (upd None r)
      | _ \<Rightarrow> None)"

definition setStruct :: "(string \<times> 's setter) list \<Rightarrow> ('r \<Rightarrow> 's) \<Rightarrow> ('s \<Rightarrow> 'r \<Rightarrow> 'r) \<Rightarrow> 'r setter" where
  "setStruct fields get upd j r =
     (case decodeStruct fields j (get r) of None \<Rightarrow> None | Some s \<Rightarrow> Some (upd s r))"

definition jint :: "int \<Rightarrow> json" where
  "jint i = JNum (itoa i)"

definition jstrPtr :: "string option \<Rightarrow> json" where
  "jstrPtr p = (case p of None \<Rightarrow> JNull | Some s \<Rightarrow> JStr s)"

definition jintPtr :: "int option \<Rightarrow> json" where
  "jintPtr p = (case p of None \<Rightarrow> JNull | Some i \<Rightarrow> jint i)"

section \<open>Strings: escaping and reading are inverse\<close>

lemma hexDigit_value_all: "\<forall>n \<in> set [0..<16]. hexValue (hexDigit n) = Some n"
  by code_simp

lemma hexValue_hexDigit [simp]: "n < 16 \<Longrightarrow> hexValue (hexDigit n) = Some n"
  using hexDigit_value_all by simp

lemma hex4_uEscape:
  assumes "n < 65536"
  shows "hex4 (hexDigit (n div 4096 mod 16) # hexDigit (n div 256 mod 16) #
               hexDigit (n div 16 mod 16) # hexDigit (n mod 16) # r) = Some (n, r)"
proof -
  have "n div 16 div 16 div 16 = n div 4096" "n div 16 div 16 = n div 256"
    by (simp_all add: div_mult2_eq [symmetric])
  moreover have "n = n div 16 * 16 + n mod 16" by simp
  moreover have "n div 16 = n div 16 div 16 * 16 + n div 16 mod 16" by simp
  moreover have "n div 16 div 16 = n div 16 div 16 div 16 * 16 + n div 16 div 16 mod 16" by simp
  moreover have top: "n div 4096 mod 16 = n div 4096" using assms by simp
  ultimately have eq: "((n div 4096 mod 16 * 16 + n div 256 mod 16) * 16 + n div 16 mod 16) * 16 + n mod 16 = n"
    by metis
  have hv: "hexValue (hexDigit (k mod 16)) = Some (k mod 16)" for k by simp
  show ?thesis by (simp only: hex4.simps hv prod.case option.case eq)
qed

lemma pstr_uEscape:
  assumes "n < 65536" "\<not> isSurrogate n"
  shows "pstr (uEscape n @ r) = map_option (apfst ((@) (encodeRune n))) (pstr r)"
  using assms hex4_uEscape [OF assms(1), of r]
  by (simp add: uEscape_def pstr.simps(2) unicodeEscape_def quote_char_def backslash_def)

lemma encodeRune_ascii: "byte c < 0x80 \<Longrightarrow> encodeRune (byte c) = [c]"
  by (simp add: encodeRune_def Let_def)

lemma byte_inj: "byte c = byte d \<Longrightarrow> c = d"
  by simp

lemma pstr_escByte:
  assumes "byte c < 0x80"
  shows "pstr (escByte c @ r) = map_option (apfst ((#) c)) (pstr r)"
proof -
  have app: "(@) [c] = (#) c" by auto
  have ctl: "c = CHR 0x08 \<or> c = CHR 0x0C \<or> c = CHR 0x0A \<or> c = CHR 0x0D \<or> c = CHR 0x09"
    if "byte c \<in> {8, 12, 10, 13, 9}"
    using that byte_inj [of c "CHR 0x08"] byte_inj [of c "CHR 0x0C"] byte_inj [of c "CHR 0x0A"]
      byte_inj [of c "CHR 0x0D"] byte_inj [of c "CHR 0x09"] by auto
  have ns: "\<not> isSurrogate (byte c)" using assms by (simp add: isSurrogate_def)
  consider "c = quote_char \<or> c = backslash" | "byte c \<in> {8, 12, 10, 13, 9}"
    | "escByte c = uEscape (byte c)" | "escByte c = [c]" "\<not> byte c < 0x20" "c \<noteq> quote_char" "c \<noteq> backslash"
    by (cases "c = quote_char \<or> c = backslash"; cases "byte c \<in> {8, 12, 10, 13, 9}";
        cases "byte c < 0x20 \<or> c = CHR ''<'' \<or> c = CHR ''>'' \<or> c = CHR ''&''")
       (simp_all add: escByte_def)
  then show ?thesis
  proof cases
    case 1
    then show ?thesis by (auto simp: escByte_def pstr.simps(2) simpleEscape_def quote_char_def backslash_def)
  next
    case 2
    show ?thesis
      using ctl [OF 2]
      by (elim disjE; hypsubst)
         (simp_all add: escByte_def pstr.simps(2) simpleEscape_def quote_char_def backslash_def)
  next
    case 3
    then show ?thesis
      using pstr_uEscape [of "byte c" r] ns assms by (simp add: encodeRune_ascii app)
  next
    case 4
    then show ?thesis using assms by (simp add: pstr.simps(2))
  qed
qed

lemma divmod64: "z < 64 \<Longrightarrow> (k * 64 + z) mod 64 = z \<and> (k * 64 + z) div 64 = k" for z k :: nat
  by simp

lemma decodeRune_separator:
  assumes "decodeRune s = (n, w)" "n = 0x2028 \<or> n = 0x2029" "s \<noteq> []"
  shows "take w s = encodeRune n"
  using assms(3)
proof (cases rule: decodeRune_cases)
  case (two b0 b1 t)
  then have "n = (byte b0 - 0xC0) * 64 + (byte b1 - 0x80)" using assms(1) by (simp add: decodeRune_two)
  then show ?thesis using two assms(2) by (auto simp: in_bytes_def)
next
  case (three b0 b1 b2 t)
  define x y z where xyz: "x = byte b0 - 0xE0" "y = byte b1 - 0x80" "z = byte b2 - 0x80"
  have "0x80 \<le> byte b1" "byte b1 \<le> 0xBF" "0x80 \<le> byte b2" "byte b2 \<le> 0xBF"
    using three by (auto simp: in_bytes_def lead3_lo_def lead3_hi_def split: if_splits)
  then have lt: "y < 64" "z < 64" and bk: "0x80 + y = byte b1" "0x80 + z = byte b2" "0xE0 + x = byte b0"
    using three by (simp_all add: xyz)
  have n: "n = x * 4096 + y * 64 + z" "w = 3"
    using assms(1) three by (simp_all add: decodeRune_three xyz)
  have "n = (x * 64 + y) * 64 + z" using n(1) by simp
  then have m: "n mod 64 = z" and d: "n div 64 = x * 64 + y"
    using lt divmod64 [of z "x * 64 + y"] by auto
  have "n div 4096 = x" using d lt div_mult2_eq [of n 64 64] by simp
  moreover have "n div 64 mod 64 = y" using d lt by simp
  ultimately have "encodeRune n = [char_of (0xE0 + x), char_of (0x80 + y), char_of (0x80 + z)]"
    using assms(2) m by (auto simp: encodeRune_def Let_def)
  then show ?thesis using three n(2) by (simp add: bk)
next
  case (four b0 b1 b2 b3 t)
  have "0x10000 \<le> (byte b0 - 0xF0) * 262144 + (byte b1 - 0x80) * 4096"
    using four by (cases "byte b0 = 0xF0") (auto simp: in_bytes_def lead4_lo_def)
  then show ?thesis using four assms(1,2) by (auto simp: decodeRune_four)
qed (use assms(1,2) in \<open>auto simp: decodeRune_one\<close>)

lemma pstr_copy:
  assumes "decodeRune s = (n, w)" "s \<noteq> []" "\<not> (n = runeError \<and> w = 1)" "0x80 \<le> byte (hd s)"
  shows "pstr (take w s @ r) = map_option (apfst ((@) (take w s))) (pstr r)"
proof -
  have w: "1 \<le> w" "w \<le> length s"
    using decodeRune_width [OF assms(2)] decodeRune_width_le [of s] assms(1) by simp_all
  obtain c t where ct: "take w s = c # t" and c: "c = hd s"
    using w assms(2) by (cases s; cases w) auto
  have dec: "decodeRune (c # t @ r) = (n, w)"
    using decodeRune_prefix [OF assms(1,3,2), of r] ct by simp
  have len: "length (c # t) = w" using ct w by (metis length_take min.absorb2)
  have "c \<noteq> quote_char" "c \<noteq> backslash" "\<not> byte c < 0x80" "\<not> byte c < 0x20"
    using assms(4) c by (auto simp: quote_char_def backslash_def)
  moreover have "copyChunk (c # t @ r) = c # t"
    using dec len assms(3) by (auto simp: copyChunk_def)
  moreover have "drop w (c # t @ r) = r" using len by (metis append_Cons append_eq_conv_conj)
  ultimately have "pstr (c # t @ r) = map_option (apfst ((@) (c # t))) (pstr r)"
    using dec by (simp add: pstr.simps(2))
  then show ?thesis using ct by simp
qed

lemma pstr_escChunk:
  assumes "decodeRune s = (n, w)" "s \<noteq> []" "\<not> (n = runeError \<and> w = 1)"
  shows "pstr (escChunk (n, take w s) @ r) = map_option (apfst ((@) (take w s))) (pstr r)"
proof (cases "byte (hd s) < 0x80")
  case True
  then obtain c t where s: "s = c # t" "byte c < 0x80" using assms(2) by (cases s) auto
  then have "n = byte c" "w = 1" using assms(1) by (simp_all add: decodeRune_one)
  moreover have "(@) [c] = (#) c" by auto
  ultimately show ?thesis using s pstr_escByte [OF s(2), of r] by (simp add: escChunk_def)
next
  case False
  then have hi: "0x80 \<le> byte (hd s)" by simp
  have "0x80 \<le> n"
    using decodeRune_nonascii [of "hd s" "tl s" n w] assms hi by simp
  moreover have "\<not> bad_chunk (n, take w s)"
    using assms(3) decodeRune_width_le [of s] assms(1) by (auto simp: bad_chunk_def)
  ultimately have esc: "escChunk (n, take w s) =
      (if n = 0x2028 \<or> n = 0x2029 then uEscape n else take w s)"
    by (simp add: escChunk_def)
  show ?thesis
  proof (cases "n = 0x2028 \<or> n = 0x2029")
    case sep: True
    then have "n < 65536" "\<not> isSurrogate n" by (auto simp: isSurrogate_def)
    then show ?thesis
      using esc sep pstr_uEscape [of n r] decodeRune_separator [OF assms(1) sep assms(2)] by simp
  next
    case False
    then show ?thesis using esc pstr_copy [OF assms hi, of r] by simp
  qed
qed

lemma utf8_valid_step:
  assumes "utf8_valid s" "s \<noteq> []" "decodeRune s = (n, w)"
  shows "\<not> (n = runeError \<and> w = 1)" "utf8_valid (drop w s)"
proof -
  have "\<not> bad_chunk (n, take w s)" and "utf8_valid (drop w s)"
    using assms by (simp_all add: utf8_valid_def chunks_nonempty)
  then show "\<not> (n = runeError \<and> w = 1)" "utf8_valid (drop w s)"
    using assms(2) by (auto simp: bad_chunk_def Suc_le_eq)
qed

text \<open>
  What reading a printed string gives: each invalid byte, printed as an escape, reads as U+FFFD.
\<close>

definition validChunk :: "chunk \<Rightarrow> string" where
  "validChunk ch = (if bad_chunk ch then encodeRune runeError else snd ch)"

definition toValid :: "string \<Rightarrow> string" where
  "toValid s = concat (map validChunk (chunks s))"

lemma toValid_id: "utf8_valid s \<Longrightarrow> toValid s = s"
proof -
  assume "utf8_valid s"
  then have "map validChunk (chunks s) = map snd (chunks s)"
    by (auto simp: utf8_valid_def list_all_iff validChunk_def)
  then show ?thesis by (simp only: toValid_def concat_chunks)
qed

lemma pstr_chunk:
  assumes "decodeRune s = (n, w)" "s \<noteq> []"
  shows "pstr (escChunk (n, take w s) @ r) = map_option (apfst ((@) (validChunk (n, take w s)))) (pstr r)"
proof (cases "n = runeError \<and> w = 1")
  case True
  moreover have "length (take 1 s) = 1" using assms(2) by (simp add: Suc_le_eq)
  ultimately show ?thesis
    using pstr_uEscape [of runeError r]
    by (simp add: escChunk_def validChunk_def bad_chunk_def isSurrogate_def)
next
  case False
  moreover have "\<not> bad_chunk (n, take w s)"
    using False decodeRune_width_le [of s] assms(1) by (auto simp: bad_chunk_def)
  ultimately show ?thesis using pstr_escChunk [OF assms, of r] by (simp add: validChunk_def)
qed

lemma pstr_escape: "pstr (escape s @ quote_char # r) = Some (toValid s, r)"
proof (induction s rule: chunks.induct)
  case (1 s)
  show ?case
  proof (cases "s = []")
    case True
    then show ?thesis by (simp add: escape_def toValid_def pstr.simps(2))
  next
    case False
    obtain n w where nw: "decodeRune s = (n, w)" by fastforce
    have "escape s = escChunk (n, take w s) @ escape (drop w s)"
      "toValid s = validChunk (n, take w s) @ toValid (drop w s)"
      using False nw by (simp_all add: escape_def toValid_def chunks_nonempty)
    moreover have "pstr (escape (drop w s) @ quote_char # r) = Some (toValid (drop w s), r)"
      using "1.IH" False nw by simp
    ultimately show ?thesis
      using pstr_chunk [OF nw False, of "escape (drop w s) @ quote_char # r"] by simp
  qed
qed

section \<open>Numbers\<close>

definition stopChar :: "char \<Rightarrow> bool" where
  "stopChar c \<longleftrightarrow> c = CHR '','' \<or> c = CHR '']'' \<or> c = CHR ''}''"

definition stops :: "string \<Rightarrow> bool" where
  "stops r \<longleftrightarrow> (case r of [] \<Rightarrow> True | c # _ \<Rightarrow> stopChar c)"

lemma stops_simps [simp]: "stops []" "stops (c # r) = stopChar c"
  by (simp_all add: stops_def)

lemma stopChar_not [simp]: "stopChar c \<Longrightarrow> \<not> is_digit c" "stopChar c \<Longrightarrow> \<not> isWs c"
  by (auto simp: stopChar_def is_digit_def between_def isWs_def)

lemma itoa_nat_hd_zero: "0 < n \<Longrightarrow> hd (itoa_nat n) \<noteq> CHR ''0''"
proof (induction n rule: itoa_nat.induct)
  case (1 n)
  show ?case
  proof (cases "n < 10")
    case True
    have "byte (digit_char n) = 48 + n" using True by simp
    then have "digit_char n \<noteq> CHR ''0''" using "1.prems" arg_cong [of "digit_char n" "CHR ''0''" byte] by auto
    then show ?thesis using True by (simp add: itoa_nat.simps [of n])
  next
    case False
    then have "0 < n div 10" by (simp add: div_greater_zero_iff)
    then show ?thesis using "1.IH" False by (simp add: itoa_nat.simps [of n])
  qed
qed

lemma takeWhile_digits:
  "list_all is_digit ds \<Longrightarrow> stops r \<Longrightarrow> takeWhile is_digit (ds @ r) = ds"
  by (induction ds) (auto simp: stops_def split: list.splits)

lemma pInt_itoa: "stops r \<Longrightarrow> pInt (itoa_nat n @ r) = Some (itoa_nat n, r)"
proof -
  assume r: "stops r"
  obtain c s where cs: "itoa_nat n = c # s" using itoa_nat_nonempty by (meson list.exhaust)
  have dr: "digitRun (itoa_nat n @ r) = Some (itoa_nat n, r)"
    using takeWhile_digits [OF itoa_nat_digits r, of n] by (simp add: digitRun_def Let_def)
  show ?thesis
  proof (cases "n = 0")
    case True
    then have "itoa_nat n = [digit_char 0]" by (simp add: itoa_nat.simps [of 0])
    then show ?thesis using cs by (simp add: pInt_def digit_char_def char_eval)
  next
    case False
    then have "c \<noteq> CHR ''0''" using itoa_nat_hd_zero [of n] cs by simp
    then show ?thesis using cs dr by (simp add: pInt_def)
  qed
qed

lemma pFrac_stop: "stops r \<Longrightarrow> pFrac r = Some ([], r)"
  by (cases r) (auto simp: pFrac_def stopChar_def)

lemma pExp_stop: "stops r \<Longrightarrow> pExp r = Some ([], r)"
  by (cases r) (auto simp: pExp_def stopChar_def)

lemma pNum_itoa:
  assumes "stops r"
  shows "pNum (itoa i @ r) = Some (itoa i, r)"
proof (cases "i < 0")
  case True
  then show ?thesis
    using assms by (simp add: pNum_def itoa_def pInt_itoa pFrac_stop pExp_stop)
next
  case False
  obtain c s where cs: "itoa_nat (nat i) = c # s" using itoa_nat_nonempty by (meson list.exhaust)
  then have "c \<noteq> CHR ''-''" using itoa_nat_hd_digit [of "nat i"] by auto
  then show ?thesis
    using assms False cs pInt_itoa [OF assms, of "nat i"]
    by (simp add: pNum_def itoa_def pFrac_stop pExp_stop)
qed

lemma itoa_hd: "\<exists>c s. itoa i = c # s \<and> (is_digit c \<or> c = CHR ''-'')"
  using itoa_nat_hd_digit [of "nat i"] itoa_nat_nonempty [of "nat i"]
  by (cases "itoa_nat (nat i)") (auto simp: itoa_def)

section \<open>Documents: printing and parsing are inverse\<close>

fun jwf :: "json \<Rightarrow> bool"
  and jwfList :: "json list \<Rightarrow> bool"
  and jwfMembers :: "(string \<times> json) list \<Rightarrow> bool" where
  "jwf JNull = True"
| "jwf (JBool b) = True"
| "jwf (JNum s) = (\<exists>i. s = itoa i)"
| "jwf (JStr s) = utf8_valid s"
| "jwf (JArr xs) = jwfList xs"
| "jwf (JObj kvs) = jwfMembers kvs"
| "jwfList [] = True"
| "jwfList (x # xs) = (jwf x \<and> jwfList xs)"
| "jwfMembers [] = True"
| "jwfMembers ((k, v) # kvs) = (utf8_valid k \<and> jwf v \<and> jwfMembers kvs)"

lemma jwf_jint [simp]: "jwf (jint i)"
  by (auto simp: jint_def)

text \<open>Numbers as \<open>json.Marshal\<close> prints them, strings arbitrary; and what reading such a value gives.\<close>

fun jnums :: "json \<Rightarrow> bool"
  and jnumsList :: "json list \<Rightarrow> bool"
  and jnumsMembers :: "(string \<times> json) list \<Rightarrow> bool" where
  "jnums JNull = True"
| "jnums (JBool b) = True"
| "jnums (JNum s) = (\<exists>i. s = itoa i)"
| "jnums (JStr s) = True"
| "jnums (JArr xs) = jnumsList xs"
| "jnums (JObj kvs) = jnumsMembers kvs"
| "jnumsList [] = True"
| "jnumsList (x # xs) = (jnums x \<and> jnumsList xs)"
| "jnumsMembers [] = True"
| "jnumsMembers ((k, v) # kvs) = (jnums v \<and> jnumsMembers kvs)"

fun clean :: "json \<Rightarrow> json"
  and cleanList :: "json list \<Rightarrow> json list"
  and cleanMembers :: "(string \<times> json) list \<Rightarrow> (string \<times> json) list" where
  "clean JNull = JNull"
| "clean (JBool b) = JBool b"
| "clean (JNum s) = JNum s"
| "clean (JStr s) = JStr (toValid s)"
| "clean (JArr xs) = JArr (cleanList xs)"
| "clean (JObj kvs) = JObj (cleanMembers kvs)"
| "cleanList [] = []"
| "cleanList (x # xs) = clean x # cleanList xs"
| "cleanMembers [] = []"
| "cleanMembers ((k, v) # kvs) = (toValid k, clean v) # cleanMembers kvs"

lemma jwf_jnums:
  "jwf j \<Longrightarrow> jnums j \<and> clean j = j"
  "jwfList xs \<Longrightarrow> jnumsList xs \<and> cleanList xs = xs"
  "jwfMembers kvs \<Longrightarrow> jnumsMembers kvs \<and> cleanMembers kvs = kvs"
  by (induction j and xs and kvs rule: jwf_jwfList_jwfMembers.induct) (auto simp: toValid_id)

fun jfuel :: "json \<Rightarrow> nat"
  and jfuelList :: "json list \<Rightarrow> nat"
  and jfuelMembers :: "(string \<times> json) list \<Rightarrow> nat" where
  "jfuel (JArr xs) = Suc (jfuelList xs)"
| "jfuel (JObj kvs) = Suc (jfuelMembers kvs)"
| "jfuel _ = 1"
| "jfuelList [] = 0"
| "jfuelList (x # xs) = Suc (max (jfuel x) (jfuelList xs))"
| "jfuelMembers [] = 0"
| "jfuelMembers ((k, v) # kvs) = Suc (max (jfuel v) (jfuelMembers kvs))"

lemma jprint_length:
  "jnums j \<Longrightarrow> jfuel j \<le> length (jprint j)"
  "jnumsList xs \<Longrightarrow> jfuelList xs \<le> length (jprintList xs)"
  "jnumsMembers kvs \<Longrightarrow> jfuelMembers kvs \<le> length (jprintMembers kvs)"
proof (induction j and xs and kvs rule: jprint_jprintList_jprintMembers.induct)
  case (3 s)
  then obtain i where "s = itoa i" by auto
  then show ?case using itoa_hd [of i] by auto
qed (auto simp: quote_def)

lemma jprint_hd:
  assumes "jnums j"
  shows "\<exists>c s. jprint j = c # s \<and> \<not> isWs c \<and> c \<noteq> CHR '']'' \<and> c \<noteq> CHR ''}''"
proof (cases j)
  case (JNum s)
  then obtain i where "s = itoa i" using assms by auto
  moreover have "\<not> isWs c \<and> c \<noteq> CHR '']'' \<and> c \<noteq> CHR ''}''" if "is_digit c \<or> c = CHR ''-''" for c
    using that by (auto simp: isWs_def is_digit_def between_def)
  ultimately show ?thesis using JNum itoa_hd [of i] by auto
qed (auto simp: isWs_def quote_def quote_char_def)

lemma skipWs_Cons [simp]: "\<not> isWs c \<Longrightarrow> skipWs (c # s) = c # s"
  by (simp add: skipWs_def)

lemma isWs_punct [simp]: "\<not> isWs CHR '',''" "\<not> isWs CHR '':''" "\<not> isWs CHR ''}''" "\<not> isWs CHR '']''"
  "\<not> isWs CHR ''{''" "\<not> isWs CHR ''[''" "\<not> isWs quote_char"
  by (simp_all add: isWs_def quote_char_def)

lemma stopChar_punct [simp]: "stopChar CHR '',''" "stopChar CHR '']''" "stopChar CHR ''}''"
  by (simp_all add: stopChar_def)

lemma pv_scalar:
  "stops r \<Longrightarrow> pv (Suc n) (itoa i @ r) = Some (JNum (itoa i), r)"
  "pv (Suc n) (''null'' @ r) = Some (JNull, r)"
  "pv (Suc n) (''true'' @ r) = Some (JBool True, r)"
  "pv (Suc n) (''false'' @ r) = Some (JBool False, r)"
  "pv (Suc n) (quote s @ r) = Some (JStr (toValid s), r)"
proof -
  assume r: "stops r"
  obtain c t where ct: "itoa i = c # t" "is_digit c \<or> c = CHR ''-''" using itoa_hd by blast
  have ne: "\<not> isWs c" "c \<noteq> CHR ''{''" "c \<noteq> CHR ''[''" "c \<noteq> quote_char" "c \<noteq> CHR ''n''"
    "c \<noteq> CHR ''t''" "c \<noteq> CHR ''f''"
    using ct(2) by (auto simp: isWs_def is_digit_def between_def quote_char_def)
  show "pv (Suc n) (itoa i @ r) = Some (JNum (itoa i), r)"
    using pNum_itoa [OF r, of i] ct(1) ne by simp
next
  have "quote_char \<noteq> CHR ''{''" "quote_char \<noteq> CHR ''[''" by (simp_all add: quote_char_def)
  then show "pv (Suc n) (quote s @ r) = Some (JStr (toValid s), r)"
    using pstr_escape [of s r] by (simp add: quote_def)
qed (simp_all add: isWs_def pLit_def hasPrefix_def quote_char_def)

lemma skipWs_jprint: "jnums j \<Longrightarrow> skipWs (jprint j @ r) = jprint j @ r"
  using jprint_hd [of j] by auto

lemma pElems_last:
  "pv n (s @ CHR '']'' # r) = Some (x, CHR '']'' # r) \<Longrightarrow> pElems (Suc n) (s @ CHR '']'' # r) = Some ([x], r)"
  by simp

lemma pMembers_step:
  assumes "pv n s = Some (v, d # r)" "\<not> isWs d"
  shows "pMembers (Suc n) (quote k @ CHR '':'' # s) =
    (if d = CHR '','' then map_option (apfst ((#) (toValid k, v))) (pMembers n r)
     else if d = CHR ''}'' then Some ([(toValid k, v)], r) else None)"
  using assms pstr_escape [of k "CHR '':'' # s"] by (simp add: quote_def)

lemma pv_array:
  assumes "jnums x" "pElems n (jprintList (x # xs) @ r) = Some (ys, r)"
  shows "pv (Suc n) (jprint (JArr (x # xs)) @ r) = Some (JArr ys, r)"
proof -
  obtain c s where cs: "jprint x = c # s" "\<not> isWs c" "c \<noteq> CHR '']''" using jprint_hd [OF assms(1)] by auto
  obtain t where "jprintList (x # xs) @ r = c # t" using cs by (cases xs) auto
  then show ?thesis using assms(2) cs by simp
qed

lemma pv_object:
  assumes "pMembers n (jprintMembers (kv # kvs) @ r) = Some (ys, r)"
  shows "pv (Suc n) (jprint (JObj (kv # kvs)) @ r) = Some (JObj ys, r)"
proof -
  obtain t where "jprintMembers (kv # kvs) @ r = quote_char # t" by (cases kv; cases kvs) (auto simp: quote_def)
  moreover have "quote_char \<noteq> CHR ''}''" by (simp add: quote_char_def)
  ultimately show ?thesis using assms by simp
qed

lemma pv_print:
  "jnums j \<Longrightarrow> jfuel j \<le> n \<Longrightarrow> stops r \<Longrightarrow> pv n (jprint j @ r) = Some (clean j, r)"
  "jnumsList xs \<Longrightarrow> xs \<noteq> [] \<Longrightarrow> jfuelList xs \<le> n \<Longrightarrow> pElems n (jprintList xs @ r) = Some (cleanList xs, r)"
  "jnumsMembers kvs \<Longrightarrow> kvs \<noteq> [] \<Longrightarrow> jfuelMembers kvs \<le> n \<Longrightarrow> pMembers n (jprintMembers kvs @ r) = Some (cleanMembers kvs, r)"
proof (induction j and xs and kvs arbitrary: n r and n r and n r rule: jprint_jprintList_jprintMembers.induct)
  case 1
  then show ?case using pv_scalar(2) by (cases n) (simp_all del: pv.simps)
next
  case (2 b)
  then show ?case using pv_scalar(3,4) by (cases n) (simp_all del: pv.simps)
next
  case (3 s)
  then show ?case using pv_scalar(1) by (cases n) (auto simp del: pv.simps)
next
  case (4 s)
  then show ?case using pv_scalar(5) by (cases n) (simp_all del: pv.simps)
next
  case (5 xs)
  then obtain m where m: "n = Suc m" "jfuelList xs \<le> m" by (cases n) auto
  show ?case
  proof (cases xs)
    case (Cons x ys)
    then show ?thesis using 5 m pv_array [of x m ys r "cleanList (x # ys)"] by (simp del: pv.simps jprint.simps)
  qed (simp add: m)
next
  case (6 kvs)
  then obtain m where m: "n = Suc m" "jfuelMembers kvs \<le> m" by (cases n) auto
  show ?case
  proof (cases kvs)
    case (Cons x ys)
    then show ?thesis using 6 m pv_object [of m x ys r "cleanMembers (x # ys)"] by (simp del: pv.simps jprint.simps)
  qed (simp add: m)
next
  case 7
  then show ?case by simp
next
  case (8 x)
  then obtain m where "n = Suc m" "jfuel x \<le> m" by (cases n) auto
  then show ?case using 8 by simp
next
  case (9 x y xs)
  then obtain m where "n = Suc m" "jfuel x \<le> m" "jfuelList (y # xs) \<le> m" by (cases n) auto
  then show ?case using 9 by simp
next
  case 10
  then show ?case by simp
next
  case (11 k v)
  then obtain m where "n = Suc m" "jfuel v \<le> m" by (cases n) auto
  then show ?case using 11 pMembers_step [of m "jprint v @ CHR ''}'' # r" "clean v" "CHR ''}''" r k] by simp
next
  case (12 k v kv kvs)
  then obtain m where m: "n = Suc m" "jfuel v \<le> m" "jfuelMembers (kv # kvs) \<le> m" by (cases n) auto
  have "pv m (jprint v @ CHR '','' # jprintMembers (kv # kvs) @ r) = Some (clean v, CHR '','' # jprintMembers (kv # kvs) @ r)"
    using 12 m by simp
  from pMembers_step [OF this] 12 m show ?case by simp
qed

theorem json_doc_clean: "jnums j \<Longrightarrow> json_doc (jprint j) = Some (clean j)"
proof -
  assume j: "jnums j"
  have "pv (Suc (length (jprint j))) (jprint j @ []) = Some (clean j, [])"
    using jprint_length(1) [OF j] by (intro pv_print(1) [OF j]) auto
  then show ?thesis by (simp add: json_doc_def skipWs_def del: pv.simps)
qed

theorem json_doc_print: "jwf j \<Longrightarrow> json_doc (jprint j) = Some j"
  using json_doc_clean jwf_jnums(1) by fastforce

text \<open>A value with valid strings is the only one of its kind with its printed form.\<close>

lemma jprint_clean: "jprint j = jprint j' \<Longrightarrow> jnums j \<Longrightarrow> jwf j' \<Longrightarrow> clean j = j'"
  using json_doc_clean [of j] json_doc_print [of j'] by simp

section \<open>Fuel\<close>

text \<open>
  A parse that succeeds consumes at least as many bytes as it needs fuel, so fuel equal to the
  number of bytes consumed is enough and \<open>json_doc\<close> refuses no document for lack of fuel.
\<close>

lemma skipWs_length: "length (skipWs s) \<le> length s"
  by (simp add: skipWs_def length_dropWhile_le)

lemma pstr_length: "pstr s = Some (x, r) \<Longrightarrow> length r < length s"
proof (induction s arbitrary: x r rule: pstr.induct)
  case (2 c s)
  show ?case
  proof (cases "c = quote_char \<or> c \<noteq> backslash")
    case True
    then show ?thesis
      using "2.prems" "2.IH"(3,4) decodeRune_width [of "c # s"]
      by (auto simp: pstr.simps(2) [of c] split: if_splits)
  next
    case False
    then obtain e s' where s: "s = e # s'" using "2.prems" by (cases s) (auto simp: pstr.simps(2))
    show ?thesis
    proof (cases "e = CHR ''u''")
      case True
      then obtain n t y where "unicodeEscape s' = Some (n, t)" "pstr t = Some (y, r)"
        using "2.prems" False s by (auto simp: pstr.simps(2) [of c] split: option.splits)
      then show ?thesis using unicodeEscape_length [of s' n t] "2.IH"(1) [of e s' "(n, t)" n t y r] False True s by force
    next
      case ne: False
      then obtain d y where "simpleEscape e = Some d" "pstr s' = Some (y, r)"
        using "2.prems" False s by (auto simp: pstr.simps(2) [of c] split: option.splits)
      then show ?thesis using "2.IH"(2) [of e s' d y r] False ne s by force
    qed
  qed
qed simp

lemma digitRun_length: "digitRun s = Some (d, r) \<Longrightarrow> length r < length s"
  by (cases s) (auto simp: digitRun_def Let_def split: if_splits)

lemma pNum_length: "pNum s = Some (x, r) \<Longrightarrow> length r < length s"
proof -
  assume a: "pNum s = Some (x, r)"
  have i: "pInt u = Some (y, t) \<Longrightarrow> length t < length u" for u y t
    by (auto simp: pInt_def split: list.splits if_splits dest: digitRun_length)
  have f: "pFrac u = Some (y, t) \<Longrightarrow> length t \<le> length u" for u y t
    by (auto simp: pFrac_def split: list.splits if_splits dest!: digitRun_length)
  have e: "pExp u = Some (y, t) \<Longrightarrow> length t \<le> length u" for u y t
    by (auto simp: pExp_def split: list.splits if_splits dest!: digitRun_length)
  show ?thesis
    using a by (auto simp: pNum_def Let_def split: list.splits if_splits option.splits dest!: i f e)
qed

lemma pLit_length: "pLit lit j s = Some (x, r) \<Longrightarrow> lit \<noteq> [] \<Longrightarrow> length r < length s"
  by (cases s) (auto simp: pLit_def hasPrefix_def split: if_splits)

lemmas token_length = pstr_length pNum_length pLit_length


definition enough :: "(nat \<Rightarrow> string \<Rightarrow> ('a \<times> string) option) \<Rightarrow> string \<Rightarrow> 'a \<Rightarrow> string \<Rightarrow> bool" where
  "enough p s x r \<longleftrightarrow> length r < length s \<and> (\<forall>n. length s \<le> n + length r \<longrightarrow> p n s = Some (x, r))"

lemma enoughI:
  assumes "length r < length s" "\<And>n. length s \<le> Suc n + length r \<Longrightarrow> p (Suc n) s = Some (x, r)"
  shows "enough p s x r"
  unfolding enough_def
proof (intro conjI allI impI)
  fix n assume "length s \<le> n + length r"
  then show "p n s = Some (x, r)" using assms by (cases n) auto
qed (rule assms(1))

lemma pElems_enough:
  assumes "enough pv s x t" "skipWs t = c # t'"
    "if c = CHR '','' then \<exists>ys. enough pElems t' ys r \<and> xs = x # ys else c = CHR '']'' \<and> xs = [x] \<and> r = t'"
  shows "enough pElems s xs r"
proof (rule enoughI)
  have t': "length t' < length t" using skipWs_length [of t] assms(2) by simp
  have r: "length r \<le> length t'" using assms(3) by (auto simp: enough_def split: if_splits)
  show "length r < length s" using assms(1) t' r by (auto simp: enough_def)
  fix n assume n: "length s \<le> Suc n + length r"
  then have pv: "pv n s = Some (x, t)" using assms(1) t' r by (auto simp: enough_def)
  show "pElems (Suc n) s = Some (xs, r)"
  proof (cases "c = CHR '',''")
    case True
    then obtain ys where ys: "enough pElems t' ys r" "xs = x # ys" using assms(3) by auto
    then have "pElems n t' = Some (ys, r)" using n t' assms(1) by (auto simp: enough_def)
    then show ?thesis using pv True ys assms(2) by simp
  qed (use assms(2,3) pv in simp)
qed

lemma pMembers_enough:
  assumes "skipWs s = quote_char # s0" "pstr s0 = Some (k, s1)" "skipWs s1 = CHR '':'' # s2"
    "enough pv s2 x t" "skipWs t = c # t'"
    "if c = CHR '','' then \<exists>ys. enough pMembers t' ys r \<and> xs = (k, x) # ys else c = CHR ''}'' \<and> xs = [(k, x)] \<and> r = t'"
  shows "enough pMembers s xs r"
proof (rule enoughI)
  have t': "length t' < length t" "length s2 < length s1" "length s1 < length s0" "length s0 < length s"
    using skipWs_length [of t] skipWs_length [of s] skipWs_length [of s1] pstr_length [OF assms(2)] assms(1,3,5)
    by simp_all
  have r: "length r \<le> length t'" using assms(6) by (auto simp: enough_def split: if_splits)
  show "length r < length s" using assms(4) t' r by (auto simp: enough_def)
  fix n assume n: "length s \<le> Suc n + length r"
  then have pv: "pv n s2 = Some (x, t)" using assms(4) t' r by (auto simp: enough_def)
  show "pMembers (Suc n) s = Some (xs, r)"
  proof (cases "c = CHR '',''")
    case True
    then obtain ys where ys: "enough pMembers t' ys r" "xs = (k, x) # ys" using assms(6) by auto
    then have "pMembers n t' = Some (ys, r)" using n t' assms(4) by (auto simp: enough_def)
    then show ?thesis using pv True ys assms(1,2,3,5) by simp
  qed (use assms pv in simp)
qed

lemma pv_enough:
  assumes "skipWs s = c # s'" "enough p s' xs r"
    "\<And>n. p n s' = Some (xs, r) \<Longrightarrow> pv (Suc n) s = Some (x, r)"
  shows "enough pv s x r"
proof (rule enoughI)
  have s': "length s' < length s" using skipWs_length [of s] assms(1) by simp
  show "length r < length s" using assms(2) s' by (auto simp: enough_def)
  fix n assume "length s \<le> Suc n + length r"
  then show "pv (Suc n) s = Some (x, r)" using assms(2,3) s' by (auto simp: enough_def)
qed

lemma pv_leaf:
  assumes "skipWs s = c # s'" "c \<noteq> CHR ''{'' \<or> skipWs s' = CHR ''}'' # r" "c \<noteq> CHR ''['' \<or> skipWs s' = CHR '']'' # r"
    "pv (Suc m) s = Some (x, r)"
  shows "enough pv s x r"
proof (rule enoughI)
  show "length r < length s"
    using assms skipWs_length [of s] skipWs_length [of s']
    by (auto split: if_splits dest!: token_length)
  show "pv (Suc n) s = Some (x, r)" for n using assms by (auto simp: quote_char_def split: if_splits)
qed

lemma parse_enough:
  "pv m s = Some (x, r) \<Longrightarrow> enough pv s x r"
  "pElems m s = Some (xs, r) \<Longrightarrow> enough pElems s xs r"
  "pMembers m s = Some (kvs, r) \<Longrightarrow> enough pMembers s kvs r"
proof (induction m s and m s and m s arbitrary: x r and xs r and kvs r rule: pv_pElems_pMembers.induct)
  case (2 n s)
  obtain c s' where cs: "skipWs s = c # s'" using "2.prems" by (cases "skipWs s") auto
  consider "c = CHR ''{''" "\<nexists>t. skipWs s' = CHR ''}'' # t" | "c = CHR ''[''" "\<nexists>t. skipWs s' = CHR '']'' # t"
    | "c \<noteq> CHR ''{'' \<or> skipWs s' = CHR ''}'' # r" "c \<noteq> CHR ''['' \<or> skipWs s' = CHR '']'' # r"
    using "2.prems" cs by (cases "skipWs s'") (auto split: if_splits)
  then show ?case
  proof cases
    case 1
    then obtain d t where dt: "skipWs s' = d # t" "d \<noteq> CHR ''}''" using "2.prems" cs by (cases "skipWs s'") auto
    then obtain kvs where k: "pMembers n s' = Some (kvs, r)" "x = JObj kvs" using "2.prems" cs 1 by auto
    then have "enough pMembers s' kvs r" using "2.IH"(1) [OF cs 1(1) dt] by simp
    then show ?thesis using cs 1 dt k by (intro pv_enough [where p = pMembers]) simp_all
  next
    case 2
    then obtain d t where dt: "skipWs s' = d # t" "d \<noteq> CHR '']''" using "2.prems" cs by (cases "skipWs s'") auto
    then obtain ys where k: "pElems n s' = Some (ys, r)" "x = JArr ys" using "2.prems" cs 2 by auto
    then have "enough pElems s' ys r" using "2.IH"(2) [OF cs _ 2(1) dt] 2(1) by simp
    then show ?thesis using cs 2 dt k by (intro pv_enough [where p = pElems]) simp_all
  next
    case 3
    then show ?thesis using pv_leaf [OF cs] "2.prems" by blast
  qed
next
  case (4 n s)
  then obtain y t where y: "pv n s = Some (y, t)" by (auto split: option.splits)
  then obtain c t' where c: "skipWs t = c # t'" using "4.prems" by (cases "skipWs t") auto
  show ?case
  proof (rule pElems_enough [OF "4.IH"(1) [OF y] c])
    show "if c = CHR '','' then \<exists>ys. enough pElems t' ys r \<and> xs = y # ys else c = CHR '']'' \<and> xs = [y] \<and> r = t'"
      using "4.prems" y c "4.IH"(2) [OF y refl c] by (auto split: if_splits)
  qed
next
  case (6 n s)
  then obtain s0 where s0: "skipWs s = quote_char # s0" by (cases "skipWs s") (auto split: if_splits)
  then obtain k s1 where k: "pstr s0 = Some (k, s1)" using "6.prems" by (auto split: option.splits)
  then obtain s2 where s2: "skipWs s1 = CHR '':'' # s2" using "6.prems" s0 by (cases "skipWs s1") (auto split: if_splits)
  then obtain y t where y: "pv n s2 = Some (y, t)" using "6.prems" s0 k by (auto split: option.splits)
  then obtain c t' where c: "skipWs t = c # t'" using "6.prems" s0 k s2 by (cases "skipWs t") auto
  have ih: "enough pv s2 y t" using "6.IH"(1) [OF s0 _ k refl s2 _ y] by simp
  show ?case
  proof (rule pMembers_enough [OF s0 k s2 ih c])
    show "if c = CHR '','' then \<exists>ys. enough pMembers t' ys r \<and> kvs = (k, y) # ys
          else c = CHR ''}'' \<and> kvs = [(k, y)] \<and> r = t'"
      using "6.prems" s0 k s2 y c "6.IH"(2) [OF s0 _ k refl s2 _ y refl c] by (auto split: if_splits)
  qed
qed simp_all

theorem pv_fuel_stable:
  assumes "pv m s = Some (x, r)" "length s \<le> n"
  shows "pv n s = Some (x, r)"
  using parse_enough(1) [OF assms(1)] assms(2) by (simp add: enough_def)

section \<open>Printed documents are valid UTF-8\<close>

lemma utf8_valid_append: "utf8_valid s \<Longrightarrow> utf8_valid t \<Longrightarrow> utf8_valid (s @ t)"
proof (induction s rule: chunks.induct)
  case (1 s)
  show ?case
  proof (cases "s = []")
    case False
    obtain n w where nw: "decodeRune s = (n, w)" by fastforce
    note st = utf8_valid_step [OF "1.prems"(1) False nw]
    have w: "w \<le> length s" using decodeRune_width_le [of s] nw by simp
    have dec: "decodeRune (s @ t) = (n, w)"
      using decodeRune_prefix [OF nw st(1) False, of "drop w s @ t"] append_take_drop_id [of w s]
      by (simp flip: append_assoc)
    have "utf8_valid (drop w s @ t)" using "1.IH" False nw st(2) "1.prems"(2) by simp
    moreover have "\<not> bad_chunk (n, take w s)" using st(1) w by (auto simp: bad_chunk_def)
    ultimately show ?thesis using False w dec by (simp add: utf8_valid_def chunks_nonempty)
  qed (use "1.prems" in simp)
qed

lemma utf8_valid_Cons: "byte c < 0x80 \<Longrightarrow> utf8_valid s \<Longrightarrow> utf8_valid (c # s)"
  using utf8_valid_append [of "[c]" s] utf8_valid_ascii [of "[c]"] by simp

lemma utf8_valid_Nil [simp]: "utf8_valid []"
  by (simp add: utf8_valid_ascii)

lemma hexDigit_ascii_all: "\<forall>n \<in> set [0..<16]. byte (hexDigit n) < 0x80"
  by code_simp

lemma ascii_uEscape: "ascii (uEscape n)"
proof -
  have "byte (hexDigit (n mod 16)) < 0x80" for n using hexDigit_ascii_all by simp
  then show ?thesis by (simp add: uEscape_def backslash_def)
qed

lemma ascii_escByte: "byte c < 0x80 \<Longrightarrow> ascii (escByte c)"
  by (simp add: escByte_def ascii_uEscape backslash_def)

lemma utf8_valid_take:
  assumes "decodeRune s = (n, w)" "s \<noteq> []" "\<not> (n = runeError \<and> w = 1)"
  shows "utf8_valid (take w s)"
proof -
  have "1 \<le> w" "w \<le> length s" using decodeRune_width [of s] decodeRune_width_le [of s] assms by simp_all
  moreover have "decodeRune (take w s) = (n, w)" using decodeRune_prefix [of s n w "[]"] assms by simp
  ultimately show ?thesis using assms(2,3) by (auto simp: utf8_valid_def chunks_nonempty bad_chunk_def)
qed

lemma utf8_valid_escape: "utf8_valid s \<Longrightarrow> utf8_valid (escape s)"
proof (induction s rule: chunks.induct)
  case (1 s)
  show ?case
  proof (cases "s = []")
    case False
    obtain n w where nw: "decodeRune s = (n, w)" by fastforce
    note st = utf8_valid_step [OF "1.prems" False nw]
    have "utf8_valid (escChunk (n, take w s))"
    proof (cases "byte (hd s) < 0x80")
      case True
      then obtain c t where "s = c # t" "byte c < 0x80" using False by (cases s) auto
      then show ?thesis
        using nw ascii_escByte [of c] by (auto simp: escChunk_def decodeRune_one intro: utf8_valid_ascii)
    next
      case hi: False
      have "0x80 \<le> n" using decodeRune_nonascii [of "hd s" "tl s" n w] nw False hi by simp
      then show ?thesis
        using utf8_valid_take [OF nw False st(1)] ascii_uEscape by (simp add: escChunk_def utf8_valid_ascii)
    qed
    moreover have "escape s = escChunk (n, take w s) @ escape (drop w s)"
      using False nw by (simp add: escape_def chunks_nonempty)
    ultimately show ?thesis using "1.IH" False nw st(2) by (simp add: utf8_valid_append)
  qed (simp add: escape_def)
qed

lemma utf8_valid_quote: "utf8_valid s \<Longrightarrow> utf8_valid (quote s)"
  using utf8_valid_escape [of s]
  by (simp add: quote_def quote_char_def utf8_valid_Cons utf8_valid_append utf8_valid_ascii)

lemma ascii_itoa: "ascii (itoa i)"
proof -
  have "ascii (itoa_nat n)" for n
    using itoa_nat_digits [of n] by (auto simp: ascii_def list_all_iff is_digit_def between_def)
  then show ?thesis by (simp add: itoa_def)
qed

lemma utf8_valid_jprint:
  "jwf j \<Longrightarrow> utf8_valid (jprint j)"
  "jwfList xs \<Longrightarrow> utf8_valid (jprintList xs)"
  "jwfMembers kvs \<Longrightarrow> utf8_valid (jprintMembers kvs)"
  by (induction j and xs and kvs rule: jprint_jprintList_jprintMembers.induct)
    (auto simp: utf8_valid_quote intro!: utf8_valid_Cons utf8_valid_append intro: utf8_valid_ascii ascii_itoa)

section \<open>Strings that are read are valid UTF-8\<close>

lemma lin_3: "r = 64 * q + z \<Longrightarrow> q = 64 * x + y \<Longrightarrow> r = 4096 * x + 64 * y + z" for r q x y z :: nat
  by simp

lemma split_3: "r = 4096 * (r div 4096) + 64 * (r div 64 mod 64) + r mod 64" for r :: nat
proof (rule lin_3)
  show "r = 64 * (r div 64) + r mod 64" by simp
  show "r div 64 = 64 * (r div 4096) + r div 64 mod 64" using div_mult2_eq [of r 64 64] by simp
qed

lemma lin_4: "r = 4096 * q + y + z \<Longrightarrow> q = 64 * w + x \<Longrightarrow> r = 262144 * w + 4096 * x + y + z" for r q w x y z :: nat
  by simp

lemma split_4: "r = 262144 * (r div 262144) + 4096 * (r div 4096 mod 64) + 64 * (r div 64 mod 64) + r mod 64" for r :: nat
proof (rule lin_4)
  show "r div 4096 = 64 * (r div 262144) + r div 4096 mod 64" using div_mult2_eq [of r 4096 64] by simp
qed (rule split_3)

lemma tail_byte: "x < 64 \<Longrightarrow> in_bytes 0x80 0xBF (char_of (0x80 + x))" for x :: nat
  by (simp add: in_bytes_def)

lemma utf8_valid_wide: "s \<noteq> [] \<Longrightarrow> decodeRune s = (n, length s) \<Longrightarrow> 1 < length s \<Longrightarrow> utf8_valid s"
  by (simp add: utf8_valid_def chunks_nonempty bad_chunk_def)

lemma utf8_valid_encode3:
  assumes "0x800 \<le> r" "r < 0x10000" "\<not> isSurrogate r"
  shows "utf8_valid [char_of (0xE0 + r div 4096), char_of (0x80 + r div 64 mod 64), char_of (0x80 + r mod 64)]"
proof -
  define x y z where xyz: "x = r div 4096" "y = r div 64 mod 64" "z = r mod 64"
  have r: "r = 4096 * x + 64 * y + z" using split_3 [of r] by (simp add: xyz)
  have lt: "y < 64" "z < 64" by (simp_all add: xyz)
  have x: "x < 16" using r assms(2) by linarith
  have "x = 0 \<Longrightarrow> 32 \<le> y" using r assms(1) lt by linarith
  moreover have "x = 13 \<Longrightarrow> y \<le> 31" using r assms(3) lt by (simp add: isSurrogate_def)
  ultimately have "in_bytes (lead3_lo (0xE0 + x)) (lead3_hi (0xE0 + x)) (char_of (0x80 + y))"
    using lt by (simp add: in_bytes_def lead3_lo_def lead3_hi_def)
  then show ?thesis
    using decodeRune_three [of "char_of (0xE0 + x)" "char_of (0x80 + y)" "char_of (0x80 + z)" "[]"] x lt tail_byte
    by (intro utf8_valid_wide) (simp_all add: xyz)
qed

lemma utf8_valid_encode4:
  fixes r :: nat
  assumes "0x10000 \<le> r" "r \<le> 0x10FFFF"
  shows "utf8_valid [char_of (0xF0 + r div 262144), char_of (0x80 + r div 4096 mod 64),
    char_of (0x80 + r div 64 mod 64), char_of (0x80 + r mod 64)]"
proof -
  define w x y z where wxyz: "w = r div 262144" "x = r div 4096 mod 64" "y = r div 64 mod 64" "z = r mod 64"
  have r: "r = 262144 * w + 4096 * x + 64 * y + z" using split_4 [of r] by (simp add: wxyz)
  have lt: "x < 64" "y < 64" "z < 64" by (simp_all add: wxyz)
  have w: "w \<le> 4" using r assms(2) by linarith
  have "w = 0 \<Longrightarrow> 16 \<le> x" using r assms(1) lt by linarith
  moreover have "w = 4 \<Longrightarrow> x \<le> 15" using r assms(2) by linarith
  ultimately have "in_bytes (lead4_lo (0xF0 + w)) (lead4_hi (0xF0 + w)) (char_of (0x80 + x))"
    using lt by (simp add: in_bytes_def lead4_lo_def lead4_hi_def)
  then show ?thesis
    using decodeRune_four [of "char_of (0xF0 + w)" "char_of (0x80 + x)" "char_of (0x80 + y)" "char_of (0x80 + z)" "[]"]
      w lt tail_byte
    by (intro utf8_valid_wide) (simp_all add: wxyz)
qed

lemma utf8_valid_encode2:
  fixes r :: nat
  assumes "0x80 \<le> r" "r < 0x800"
  shows "utf8_valid [char_of (0xC0 + r div 64), char_of (0x80 + r mod 64)]"
proof -
  have "2 \<le> r div 64" using assms(1) by simp
  moreover have "r div 64 < 32" using assms(2) by simp
  ultimately show ?thesis
    using decodeRune_two [of "char_of (0xC0 + r div 64)" "char_of (0x80 + r mod 64)" "[]"] tail_byte [of "r mod 64"]
    by (intro utf8_valid_wide) simp_all
qed

lemma utf8_valid_encodeRune: "utf8_valid (encodeRune n)"
proof -
  define r where "r = (if n > 0x10FFFF \<or> isSurrogate n then runeError else n)"
  have r: "r \<le> 0x10FFFF" "\<not> isSurrogate r" by (auto simp: r_def isSurrogate_def)
  have "encodeRune n =
     (if r < 0x80 then [char_of r]
      else if r < 0x800 then [char_of (0xC0 + r div 64), char_of (0x80 + r mod 64)]
      else if r < 0x10000 then
        [char_of (0xE0 + r div 4096), char_of (0x80 + r div 64 mod 64), char_of (0x80 + r mod 64)]
      else
        [char_of (0xF0 + r div 262144), char_of (0x80 + r div 4096 mod 64),
         char_of (0x80 + r div 64 mod 64), char_of (0x80 + r mod 64)])"
    unfolding encodeRune_def Let_def r_def isSurrogate_def ..
  moreover have "r < 0x80 \<Longrightarrow> utf8_valid [char_of r]" by (rule utf8_valid_ascii) simp
  ultimately show ?thesis
    using r utf8_valid_encode2 [of r] utf8_valid_encode3 [of r] utf8_valid_encode4 [of r]
    by (cases "r < 0x80"; cases "r < 0x800"; cases "r < 0x10000") simp_all
qed

lemma utf8_valid_copyChunk: "s \<noteq> [] \<Longrightarrow> utf8_valid (copyChunk s)"
  using utf8_valid_take [of s "fst (decodeRune s)" "snd (decodeRune s)"] utf8_valid_encodeRune
  by (auto simp: copyChunk_def split: prod.splits)

lemma simpleEscape_ascii: "simpleEscape e = Some d \<Longrightarrow> byte d < 0x80"
  by (auto simp: simpleEscape_def quote_char_def backslash_def split: if_splits)

lemma pstr_valid: "pstr s = Some (x, r) \<Longrightarrow> utf8_valid x"
proof (induction s arbitrary: x r rule: pstr.induct)
  case (2 c s)
  consider "c = quote_char" | "c \<noteq> quote_char" "c = backslash" | "c \<noteq> quote_char" "c \<noteq> backslash" by blast
  then show ?case
  proof cases
    case 1
    then show ?thesis using "2.prems" by (simp add: pstr.simps(2))
  next
    case 2
    then obtain e s' where s: "s = e # s'" using "2.prems" by (cases s) (auto simp: pstr.simps(2))
    show ?thesis
    proof (cases "e = CHR ''u''")
      case True
      then obtain n t y where "unicodeEscape s' = Some (n, t)" "pstr t = Some (y, r)" "x = encodeRune n @ y"
        using "2.prems" 2 s by (auto simp: pstr.simps(2) [of backslash] split: option.splits)
      then show ?thesis
        using "2.IH"(1) [of e s' "(n, t)" n t y r] 2 True s by (simp add: utf8_valid_append utf8_valid_encodeRune)
    next
      case False
      then obtain d y where "simpleEscape e = Some d" "pstr s' = Some (y, r)" "x = d # y"
        using "2.prems" 2 s by (auto simp: pstr.simps(2) [of backslash] split: option.splits)
      then show ?thesis using "2.IH"(2) [of e s' d y r] 2 False s by (simp add: utf8_valid_Cons simpleEscape_ascii)
    qed
  next
    case 3
    then show ?thesis
      using "2.prems" "2.IH"(3,4) utf8_valid_copyChunk [of "c # s"]
      by (auto simp: pstr.simps(2) [of c] intro: utf8_valid_Cons utf8_valid_append split: if_splits)
  qed
qed simp

text \<open>Every string of a parsed value is valid UTF-8.\<close>

fun jstrings :: "json \<Rightarrow> bool" where
  "jstrings (JStr s) = utf8_valid s"
| "jstrings (JArr xs) = list_all jstrings xs"
| "jstrings (JObj kvs) = list_all jstrings (map snd kvs)"
| "jstrings _ = True"

lemma pLit_value: "pLit lit j s = Some (x, r) \<Longrightarrow> x = j"
  by (auto simp: pLit_def split: if_splits)

lemma parse_strings:
  "pv m s = Some (x, r) \<Longrightarrow> jstrings x"
  "pElems m s = Some (xs, r) \<Longrightarrow> list_all jstrings xs"
  "pMembers m s = Some (kvs, r) \<Longrightarrow> list_all jstrings (map snd kvs)"
proof (induction m s and m s and m s arbitrary: x r and xs r and kvs r rule: pv_pElems_pMembers.induct)
  case (6 n s)
  then obtain s0 where s0: "skipWs s = quote_char # s0" by (cases "skipWs s") (auto split: if_splits)
  then obtain k s1 where k: "pstr s0 = Some (k, s1)" using "6.prems" by (auto split: option.splits)
  then obtain s2 where s2: "skipWs s1 = CHR '':'' # s2" using "6.prems" s0 by (cases "skipWs s1") (auto split: if_splits)
  then obtain y t where y: "pv n s2 = Some (y, t)" using "6.prems" s0 k by (auto split: option.splits)
  then obtain c t' where c: "skipWs t = c # t'" using "6.prems" s0 k s2 by (cases "skipWs t") auto
  have "jstrings y" using "6.IH"(1) [OF s0 _ k refl s2 _ y] by simp
  then show ?case using "6.prems" s0 k s2 y c "6.IH"(2) [OF s0 _ k refl s2 _ y refl c] by (auto split: if_splits)
qed (auto split: list.splits if_splits option.splits dest!: pLit_value dest: pstr_valid)

section \<open>Sizes of printed documents\<close>

lemma escByte_length: "length (escByte c) \<le> 6"
  by (simp add: escByte_def uEscape_def)

lemma escChunk_length: "snd ch \<noteq> [] \<Longrightarrow> length (escChunk ch) \<le> 6 * length (snd ch)"
proof -
  assume ne: "snd ch \<noteq> []"
  have c: "length (concat (map escByte s)) \<le> 6 * length s" for s
  proof (induction s)
    case (Cons x s)
    then show ?case using escByte_length [of x] by simp
  qed simp
  have "1 \<le> length (snd ch)" using ne by (simp add: Suc_le_eq)
  then show ?thesis using c [of "snd ch"] by (auto simp: escChunk_def uEscape_def)
qed

lemma escape_length: "length (escape s) \<le> 6 * length s"
proof (induction s rule: chunks.induct)
  case (1 s)
  show ?case
  proof (cases "s = []")
    case False
    obtain n w where nw: "decodeRune s = (n, w)" by fastforce
    have w: "1 \<le> w" "w \<le> length s" using decodeRune_width [OF False] decodeRune_width_le [of s] nw by simp_all
    have "escape s = escChunk (n, take w s) @ escape (drop w s)" using False nw by (simp add: escape_def chunks_nonempty)
    moreover have "length (escChunk (n, take w s)) \<le> 6 * w" using escChunk_length [of "(n, take w s)"] w False by auto
    moreover have "length (escape (drop w s)) \<le> 6 * (length s - w)" using "1.IH" False nw by simp
    ultimately show ?thesis using w by simp
  qed (simp add: escape_def)
qed

lemma quote_length: "length (quote s) \<le> 2 + 6 * length s"
  using escape_length [of s] by (simp add: quote_def)

fun jbound :: "json \<Rightarrow> nat"
  and jboundList :: "json list \<Rightarrow> nat"
  and jboundMembers :: "(string \<times> json) list \<Rightarrow> nat" where
  "jbound JNull = 4"
| "jbound (JBool b) = 5"
| "jbound (JNum s) = length s"
| "jbound (JStr s) = 2 + 6 * length s"
| "jbound (JArr xs) = 2 + jboundList xs"
| "jbound (JObj kvs) = 2 + jboundMembers kvs"
| "jboundList [] = 0"
| "jboundList (x # xs) = 1 + jbound x + jboundList xs"
| "jboundMembers [] = 0"
| "jboundMembers ((k, v) # kvs) = 4 + 6 * length k + jbound v + jboundMembers kvs"

lemma jprint_bound:
  "length (jprint j) \<le> jbound j"
  "length (jprintList xs) \<le> 1 + jboundList xs"
  "length (jprintMembers kvs) \<le> 1 + jboundMembers kvs"
proof (induction j and xs and kvs rule: jprint_jprintList_jprintMembers.induct)
  case (4 s)
  then show ?case using quote_length [of s] by simp
next
  case (11 k v)
  then show ?case using quote_length [of k] by simp
next
  case (12 k v kv kvs)
  then show ?case using quote_length [of k] by simp
qed simp_all

end
