(* ===== verification/StrictJson.thy ===== *)
theory StrictJson
  imports Json Prelude
begin

text \<open>
  Package \<open>internal/strictjson\<close>: the decoder for small security-sensitive documents.
  \<open>Decode\<close> refuses empty and oversized input, invalid UTF-8, duplicate object keys at any depth,
  unknown fields, and anything but white space after the first value.
\<close>

section \<open>Duplicate keys\<close>

text \<open>
  \<open>walkValue\<close> follows the token stream of one value; the tokens of a value are read off its
  syntax tree. Each object keeps the set of keys it has seen.
\<close>

fun walkValue :: "json \<Rightarrow> bool"
  and walkElements :: "json list \<Rightarrow> bool"
  and walkMembers :: "string set \<Rightarrow> (string \<times> json) list \<Rightarrow> bool" where
  "walkValue (JObj kvs) = walkMembers {} kvs"
| "walkValue (JArr xs) = walkElements xs"
| "walkValue _ = True"
| "walkElements [] = True"
| "walkElements (x # xs) = (walkValue x \<and> walkElements xs)"
| "walkMembers seen [] = True"
| "walkMembers seen ((k, v) # kvs) =
     (if k \<in> seen then False
      else walkValue v \<and> walkMembers (insert k seen) kvs)"

definition ensureEOF :: "string \<Rightarrow> unit result" where
  "ensureEOF rest = (if skipWs rest = [] then Inr () else Inl ErrInvalidDocument)"

definition rejectDuplicateKeys :: "string \<Rightarrow> unit result" where
  "rejectDuplicateKeys raw =
     (case pv (Suc (length raw)) raw of
        None \<Rightarrow> Inl ErrInvalidDocument
      | Some (j, rest) \<Rightarrow> if walkValue j then ensureEOF rest else Inl ErrInvalidDocument)"

section \<open>Decode\<close>

definition Decode :: "string \<Rightarrow> int \<Rightarrow> 'r setter \<Rightarrow> 'r \<Rightarrow> 'r result" where
  "Decode raw maxBytes dec destination =
     (if raw = [] \<or> int (length raw) > maxBytes \<or> \<not> utf8_valid raw then Inl ErrInvalidDocument
      else case rejectDuplicateKeys raw of
        Inl _ \<Rightarrow> Inl ErrInvalidDocument
      | Inr _ \<Rightarrow>
          (case pv (Suc (length raw)) raw of
             None \<Rightarrow> Inl ErrInvalidDocument
           | Some (j, rest) \<Rightarrow>
               (case dec j destination of
                  None \<Rightarrow> Inl ErrInvalidDocument
                | Some r \<Rightarrow> (case ensureEOF rest of
                               Inl _ \<Rightarrow> Inl ErrInvalidDocument
                             | Inr _ \<Rightarrow> Inr r))))"

section \<open>Properties\<close>

text \<open>The keys of every object of a value, at any depth, are distinct.\<close>

fun distinctKeys :: "json \<Rightarrow> bool" where
  "distinctKeys (JObj kvs) = (distinct (map fst kvs) \<and> (\<forall>kv \<in> set kvs. distinctKeys (snd kv)))"
| "distinctKeys (JArr xs) = (\<forall>x \<in> set xs. distinctKeys x)"
| "distinctKeys _ = True"

lemma walkValue_iff:
  "walkValue j \<longleftrightarrow> distinctKeys j"
  "walkElements xs \<longleftrightarrow> (\<forall>x \<in> set xs. distinctKeys x)"
  "walkMembers seen kvs \<longleftrightarrow>
     distinct (map fst kvs) \<and> set (map fst kvs) \<inter> seen = {} \<and> (\<forall>kv \<in> set kvs. distinctKeys (snd kv))"
  by (induction j and xs and seen kvs rule: walkValue_walkElements_walkMembers.induct) auto

theorem Decode_iff:
  "Decode raw maxBytes dec destination = Inr r \<longleftrightarrow>
     raw \<noteq> [] \<and> int (length raw) \<le> maxBytes \<and> utf8_valid raw \<and>
     (\<exists>j. json_doc raw = Some j \<and> distinctKeys j \<and> dec j destination = Some r)"
  by (auto simp: Decode_def rejectDuplicateKeys_def ensureEOF_def json_doc_def walkValue_iff(1)
      simp del: pv.simps split: option.splits sum.splits if_splits)

lemma Decode_error: "Decode raw maxBytes dec destination = Inl e \<Longrightarrow> e = ErrInvalidDocument"
  by (auto simp: Decode_def simp del: pv.simps split: option.splits sum.splits if_splits)

text \<open>A printed value is read back, provided it fits and the destination takes it.\<close>

lemma Decode_print:
  assumes "jwf j" "distinctKeys j" "int (length (jprint j)) \<le> maxBytes" "dec j destination = Some r"
  shows "Decode (jprint j) maxBytes dec destination = Inr r"
  using assms json_doc_print [OF assms(1)] utf8_valid_jprint(1) [OF assms(1)] jprint_hd [of j] jwf_jnums(1) [OF assms(1)]
  by (auto simp: Decode_iff)

text \<open>What every setter of a struct keeps, decoding a document into the struct keeps.\<close>

lemma decodeStruct_JObj: "decodeStruct fields (JObj kvs) r = setFields fields kvs r"
  by (simp add: decodeStruct_def)

lemma findField_in: "findField fields k = Some f \<Longrightarrow> \<exists>n. (n, f) \<in> set fields"
  by (auto simp: findField_def split: option.splits dest!: map_of_SomeD)

lemma setFields_inv:
  assumes "setFields fields kvs r = Some r'" "list_all jstrings (map snd kvs)" "P r"
    and "\<And>k f j x y. (k, f) \<in> set fields \<Longrightarrow> jstrings j \<Longrightarrow> P x \<Longrightarrow> f j x = Some y \<Longrightarrow> P y"
  shows "P r'"
  using assms(1-3)
proof (induction kvs arbitrary: r)
  case (Cons kv kvs)
  obtain k v where kv: "kv = (k, v)" by fastforce
  then obtain f x where f: "findField fields k = Some f" "f v r = Some x" "setFields fields kvs x = Some r'"
    using Cons.prems(1) by (auto split: option.splits)
  then have "P x" using Cons.prems kv findField_in [OF f(1)] assms(4) by fastforce
  then show ?case using Cons.IH f(3) Cons.prems(2) by simp
qed simp

lemma decodeStruct_inv:
  assumes "decodeStruct fields j r = Some r'" "jstrings j" "P r"
    and "\<And>k f j x y. (k, f) \<in> set fields \<Longrightarrow> jstrings j \<Longrightarrow> P x \<Longrightarrow> f j x = Some y \<Longrightarrow> P y"
  shows "P r'"
proof (cases j)
  case (JObj kvs)
  then have "setFields fields kvs r = Some r'" "list_all jstrings (map snd kvs)"
    using assms(1,2) by (simp_all add: decodeStruct_def)
  then show ?thesis using setFields_inv [where P = P] assms(3,4) by blast
qed (use assms(1,3) in \<open>simp_all add: decodeStruct_def\<close>)

lemma json_doc_strings: "json_doc s = Some j \<Longrightarrow> jstrings j"
  using parse_strings(1) by (auto simp: json_doc_def simp del: pv.simps split: option.splits if_splits)

lemma Decode_inv:
  assumes "Decode raw maxBytes (decodeStruct fields) r = Inr r'" "P r"
    and "\<And>k f j x y. (k, f) \<in> set fields \<Longrightarrow> jstrings j \<Longrightarrow> P x \<Longrightarrow> f j x = Some y \<Longrightarrow> P y"
  shows "P r'"
proof -
  obtain j where j: "json_doc raw = Some j" "decodeStruct fields j r = Some r'"
    using assms(1) by (auto simp: Decode_iff)
  show ?thesis
    by (rule decodeStruct_inv [where P = P, OF j(2) json_doc_strings [OF j(1)] assms(2,3)]) assumption+
qed

section \<open>Documents and codecs\<close>

text \<open>
  The contract of a wire format: on good values decoding inverts encoding, and whatever decodes
  is the encoding of a good value. The bytes and the value then determine each other.
\<close>

locale wire_codec =
  fixes enc :: "'a \<Rightarrow> string" and dec :: "string \<Rightarrow> 'a result" and good :: "'a \<Rightarrow> bool"
  assumes dec_enc: "good x \<Longrightarrow> dec (enc x) = Inr x"
    and dec_sound: "dec raw = Inr x \<Longrightarrow> raw = enc x \<and> good x"
begin

lemma dec_iff: "dec raw = Inr x \<longleftrightarrow> raw = enc x \<and> good x"
  using dec_enc dec_sound by blast

lemma enc_inj: "good x \<Longrightarrow> good y \<Longrightarrow> enc x = enc y \<Longrightarrow> x = y"
  by (metis dec_enc sum.inject(2))

lemma dec_inj: "dec raw = Inr x \<Longrightarrow> dec raw' = Inr x \<Longrightarrow> raw = raw'"
  using dec_sound by blast

end

text \<open>
  A document type of the program: a struct with its printed form, its setters, and a parser that
  decodes strictly, insists on the canonical bytes and checks validity.
\<close>

locale document =
  fixes json_of :: "'a \<Rightarrow> json" and fields :: "(string \<times> 'a setter) list" and zero :: 'a
    and wf :: "'a \<Rightarrow> bool" and valid :: "'a \<Rightarrow> bool" and maxBytes :: int and parse :: "string \<Rightarrow> 'a result"
  assumes parse_ok: "parse raw = Inr x \<longleftrightarrow>
      Decode raw maxBytes (decodeStruct fields) zero = Inr x \<and> raw = jprint (json_of x) \<and> valid x"
    and json_wf: "wf x \<Longrightarrow> jwf (json_of x)"
    and json_keys: "distinctKeys (json_of x)"
    and decode_json: "wf x \<Longrightarrow> decodeStruct fields (json_of x) zero = Some x"
    and zero_wf: "wf zero"
    and set_wf: "(k, f) \<in> set fields \<Longrightarrow> jstrings j \<Longrightarrow> wf x \<Longrightarrow> f j x = Some y \<Longrightarrow> wf y"
begin

definition accepted :: "'a \<Rightarrow> bool" where
  "accepted x \<longleftrightarrow> wf x \<and> valid x \<and> int (length (jprint (json_of x))) \<le> maxBytes"

lemma decoded_wf: "Decode raw maxBytes (decodeStruct fields) zero = Inr x \<Longrightarrow> wf x"
  using Decode_inv [where P = wf] zero_wf set_wf by blast

lemma parse_iff: "parse raw = Inr x \<longleftrightarrow> raw = jprint (json_of x) \<and> accepted x"
proof
  assume "parse raw = Inr x"
  then show "raw = jprint (json_of x) \<and> accepted x"
    using decoded_wf by (auto simp: parse_ok accepted_def Decode_iff)
next
  assume a: "raw = jprint (json_of x) \<and> accepted x"
  then have "Decode raw maxBytes (decodeStruct fields) zero = Inr x"
    using json_wf json_keys decode_json by (auto simp: accepted_def intro: Decode_print)
  then show "parse raw = Inr x" using a by (simp add: parse_ok accepted_def)
qed

end

sublocale document \<subseteq> codec: wire_codec "\<lambda>x. jprint (json_of x)" parse accepted
  by unfold_locales (auto simp: parse_iff)

end
