(* ===== verification/Regex.thy ===== *)
theory Regex
  imports GoStrings
begin

text \<open>
  The regular expressions of the program. Go's \<open>regexp\<close> patterns used here are all anchored at
  both ends (\<open>^...$\<close>) and built from byte classes, concatenation, alternation, optional groups,
  bounded repetition and repetition, so a pattern is a term of the type below and
  \<open>MatchString\<close> is \<open>rmatch\<close>, an executable matcher that takes one derivative per byte. Every
  class is ASCII, so matching bytes agrees with Go's matching of UTF-8 code points: a byte of
  a longer code point is in no class.

  The matcher is proved equal to the language of the pattern; bounded repetitions of a class are
  then characterised by length and content, which is what the component proofs use.
\<close>

section \<open>Patterns and the matcher\<close>

datatype rexp =
    RZero
  | ROne
  | RCls "char \<Rightarrow> bool"
  | RAlt rexp rexp
  | RSeq rexp rexp
  | RStar rexp

fun nullable :: "rexp \<Rightarrow> bool" where
  "nullable RZero = False"
| "nullable ROne = True"
| "nullable (RCls P) = False"
| "nullable (RAlt r q) = (nullable r \<or> nullable q)"
| "nullable (RSeq r q) = (nullable r \<and> nullable q)"
| "nullable (RStar r) = True"

fun deriv :: "char \<Rightarrow> rexp \<Rightarrow> rexp" where
  "deriv c RZero = RZero"
| "deriv c ROne = RZero"
| "deriv c (RCls P) = (if P c then ROne else RZero)"
| "deriv c (RAlt r q) = RAlt (deriv c r) (deriv c q)"
| "deriv c (RSeq r q) =
     (if nullable r then RAlt (RSeq (deriv c r) q) (deriv c q) else RSeq (deriv c r) q)"
| "deriv c (RStar r) = RSeq (deriv c r) (RStar r)"

fun rmatch :: "rexp \<Rightarrow> string \<Rightarrow> bool" where
  "rmatch r [] = nullable r"
| "rmatch r (c # s) = rmatch (deriv c r) s"

text \<open>The repetition operators of the pattern syntax: \<open>r{n}\<close>, \<open>r{0,n}\<close>, \<open>r{m,n}\<close>, \<open>r?\<close>, \<open>r+\<close>.\<close>

fun rexact :: "nat \<Rightarrow> rexp \<Rightarrow> rexp" where
  "rexact 0 r = ROne"
| "rexact (Suc n) r = RSeq r (rexact n r)"

definition ropt :: "rexp \<Rightarrow> rexp" where
  "ropt r = RAlt ROne r"

fun rupto :: "nat \<Rightarrow> rexp \<Rightarrow> rexp" where
  "rupto 0 r = ROne"
| "rupto (Suc n) r = ropt (RSeq r (rupto n r))"

definition rbetween :: "nat \<Rightarrow> nat \<Rightarrow> rexp \<Rightarrow> rexp" where
  "rbetween m n r = RSeq (rexact m r) (rupto (n - m) r)"

definition rplus :: "rexp \<Rightarrow> rexp" where
  "rplus r = RSeq r (RStar r)"

fun rlit :: "string \<Rightarrow> rexp" where
  "rlit [] = ROne"
| "rlit (c # s) = RSeq (RCls (\<lambda>x. x = c)) (rlit s)"

fun rseqs :: "rexp list \<Rightarrow> rexp" where
  "rseqs [] = ROne"
| "rseqs [r] = r"
| "rseqs (r # q # rs) = RSeq r (rseqs (q # rs))"

section \<open>The language of a pattern\<close>

definition conc :: "string set \<Rightarrow> string set \<Rightarrow> string set" where
  "conc A B = {s @ t | s t. s \<in> A \<and> t \<in> B}"

inductive_set stars :: "string set \<Rightarrow> string set" for A where
  stars_Nil [intro!]: "[] \<in> stars A"
| stars_step: "s \<in> A \<Longrightarrow> t \<in> stars A \<Longrightarrow> s @ t \<in> stars A"

fun rlang :: "rexp \<Rightarrow> string set" where
  "rlang RZero = {}"
| "rlang ROne = {[]}"
| "rlang (RCls P) = {[c] | c. P c}"
| "rlang (RAlt r q) = rlang r \<union> rlang q"
| "rlang (RSeq r q) = conc (rlang r) (rlang q)"
| "rlang (RStar r) = stars (rlang r)"

lemma in_conc: "s \<in> conc A B \<longleftrightarrow> (\<exists>u v. s = u @ v \<and> u \<in> A \<and> v \<in> B)"
  by (auto simp: conc_def)

lemma nullable_iff: "nullable r \<longleftrightarrow> [] \<in> rlang r"
  by (induction r) (auto simp: in_conc)

lemma Cons_in_conc:
  "c # s \<in> conc A B \<longleftrightarrow>
     (\<exists>u v. s = u @ v \<and> c # u \<in> A \<and> v \<in> B) \<or> ([] \<in> A \<and> c # s \<in> B)"
  by (auto simp: in_conc Cons_eq_append_conv)

lemma Cons_in_stars_D:
  "w \<in> stars A \<Longrightarrow> w = c # s \<Longrightarrow> \<exists>u v. s = u @ v \<and> c # u \<in> A \<and> v \<in> stars A"
proof (induction arbitrary: s rule: stars.induct)
  case (stars_step u t)
  then show ?case by (cases u) auto
qed simp

lemma Cons_in_stars:
  "c # s \<in> stars A \<longleftrightarrow> (\<exists>u v. s = u @ v \<and> c # u \<in> A \<and> v \<in> stars A)"
proof
  assume "\<exists>u v. s = u @ v \<and> c # u \<in> A \<and> v \<in> stars A"
  then obtain u v where "s = u @ v" "c # u \<in> A" "v \<in> stars A" by blast
  then show "c # s \<in> stars A" using stars.stars_step [of "c # u" A v] by simp
qed (blast dest: Cons_in_stars_D)

lemma deriv_iff: "s \<in> rlang (deriv c r) \<longleftrightarrow> c # s \<in> rlang r"
proof (induction r arbitrary: s)
  case (RSeq r q)
  show ?case
  proof (cases "nullable r")
    case True
    then show ?thesis
      using RSeq by (auto simp: Cons_in_conc in_conc [of s] nullable_iff)
  next
    case False
    then show ?thesis
      using RSeq by (auto simp: Cons_in_conc in_conc [of s] nullable_iff)
  qed
next
  case (RStar r)
  then show ?case by (auto simp: Cons_in_stars in_conc)
qed auto

lemma rmatch_iff: "rmatch r s \<longleftrightarrow> s \<in> rlang r"
  by (induction r s rule: rmatch.induct) (simp_all add: nullable_iff deriv_iff)

section \<open>Matching by the structure of the pattern\<close>

lemma rmatch_ROne [simp]: "rmatch ROne s \<longleftrightarrow> s = []"
  by (auto simp: rmatch_iff)

lemma rmatch_RZero [simp]: "\<not> rmatch RZero s"
  by (auto simp: rmatch_iff)

lemma rmatch_RCls: "rmatch (RCls P) s \<longleftrightarrow> (\<exists>c. s = [c] \<and> P c)"
  by (auto simp: rmatch_iff)

lemma rmatch_RAlt [simp]: "rmatch (RAlt r q) s \<longleftrightarrow> rmatch r s \<or> rmatch q s"
  by (auto simp: rmatch_iff)

lemma rmatch_RSeq: "rmatch (RSeq r q) s \<longleftrightarrow> (\<exists>u v. s = u @ v \<and> rmatch r u \<and> rmatch q v)"
  by (auto simp: rmatch_iff in_conc)

lemma rmatch_ropt [simp]: "rmatch (ropt r) s \<longleftrightarrow> s = [] \<or> rmatch r s"
  by (simp add: ropt_def)

lemma rmatch_RSeqI: "rmatch r u \<Longrightarrow> rmatch q v \<Longrightarrow> rmatch (RSeq r q) (u @ v)"
  by (auto simp: rmatch_RSeq)

lemma rmatch_cls_seq:
  "rmatch (RSeq (RCls P) q) s \<longleftrightarrow> (case s of [] \<Rightarrow> False | c # t \<Rightarrow> P c \<and> rmatch q t)"
  by (cases s) (auto simp: rmatch_RSeq rmatch_RCls Cons_eq_append_conv)

lemma rmatch_rlit: "rmatch (rlit p) s \<longleftrightarrow> s = p"
  by (induction p arbitrary: s) (auto simp: rmatch_cls_seq split: list.splits)

lemma rmatch_rlit_seq: "rmatch (RSeq (rlit p) q) s \<longleftrightarrow> (\<exists>t. s = p @ t \<and> rmatch q t)"
  by (auto simp: rmatch_RSeq rmatch_rlit)

lemma rmatch_rexact_cls:
  "rmatch (rexact n (RCls P)) s \<longleftrightarrow> length s = n \<and> list_all P s"
  by (induction n arbitrary: s) (auto simp: rmatch_cls_seq split: list.splits)

lemma rmatch_rupto_cls:
  "rmatch (rupto n (RCls P)) s \<longleftrightarrow> length s \<le> n \<and> list_all P s"
  by (induction n arbitrary: s) (auto simp: rmatch_cls_seq split: list.splits)

lemma rmatch_rbetween_cls:
  assumes "m \<le> n"
  shows "rmatch (rbetween m n (RCls P)) s \<longleftrightarrow> m \<le> length s \<and> length s \<le> n \<and> list_all P s"
proof
  assume "rmatch (rbetween m n (RCls P)) s"
  then show "m \<le> length s \<and> length s \<le> n \<and> list_all P s"
    using assms by (auto simp: rbetween_def rmatch_RSeq rmatch_rexact_cls rmatch_rupto_cls)
next
  assume h: "m \<le> length s \<and> length s \<le> n \<and> list_all P s"
  then have "rmatch (rexact m (RCls P)) (take m s)" "rmatch (rupto (n - m) (RCls P)) (drop m s)"
    by (auto simp: rmatch_rexact_cls rmatch_rupto_cls list_all_iff dest: in_set_takeD in_set_dropD)
  then show "rmatch (rbetween m n (RCls P)) s"
    using rmatch_RSeqI [of "rexact m (RCls P)" "take m s" _ "drop m s"]
    by (simp add: rbetween_def)
qed

lemma stars_cls: "s \<in> stars {[c] | c. P c} \<longleftrightarrow> list_all P s"
proof
  assume "s \<in> stars {[c] | c. P c}"
  then show "list_all P s" by (induction rule: stars.induct) auto
next
  assume "list_all P s"
  then show "s \<in> stars {[c] | c. P c}"
  proof (induction s)
    case (Cons c s)
    then show ?case
      using stars.stars_step [of "[c]" "{[c] | c. P c}" s] by simp
  qed auto
qed

lemma rmatch_star_cls: "rmatch (RStar (RCls P)) s \<longleftrightarrow> list_all P s"
  by (simp add: rmatch_iff stars_cls)

lemma rmatch_rplus_cls: "rmatch (rplus (RCls P)) s \<longleftrightarrow> s \<noteq> [] \<and> list_all P s"
  by (auto simp: rplus_def rmatch_cls_seq rmatch_star_cls split: list.splits)

section \<open>The bytes a pattern can match\<close>

text \<open>Every byte of a matched string is in one of the pattern's classes.\<close>

fun rbytes :: "rexp \<Rightarrow> char \<Rightarrow> bool" where
  "rbytes RZero c = False"
| "rbytes ROne c = False"
| "rbytes (RCls P) c = P c"
| "rbytes (RAlt r q) c = (rbytes r c \<or> rbytes q c)"
| "rbytes (RSeq r q) c = (rbytes r c \<or> rbytes q c)"
| "rbytes (RStar r) c = rbytes r c"

lemma stars_bytes: "w \<in> stars A \<Longrightarrow> (\<And>s. s \<in> A \<Longrightarrow> list_all P s) \<Longrightarrow> list_all P w"
  by (induction rule: stars.induct) auto

lemma rlang_bytes: "s \<in> rlang r \<Longrightarrow> list_all (rbytes r) s"
proof (induction r arbitrary: s)
  case (RAlt r q)
  then show ?case by (auto simp: list_all_iff)
next
  case (RSeq r q)
  then show ?case by (fastforce simp: list_all_iff in_conc)
next
  case (RStar r)
  then show ?case using stars_bytes [of s "rlang r" "rbytes (RStar r)"] by (auto simp: list_all_iff)
qed auto

lemma rmatch_bytes: "rmatch r s \<Longrightarrow> c \<in> set s \<Longrightarrow> rbytes r c"
  using rlang_bytes [of s r] by (auto simp: rmatch_iff list_all_iff)

lemma rbytes_rexact: "rbytes (rexact n r) c \<Longrightarrow> rbytes r c"
  by (induction n) auto

lemma rbytes_rupto: "rbytes (rupto n r) c \<Longrightarrow> rbytes r c"
  by (induction n) (auto simp: ropt_def)

lemma rbytes_rlit: "rbytes (rlit s) c \<longleftrightarrow> c \<in> set s"
  by (induction s) auto

end
