(* ===== verification/Url.thy ===== *)
theory Url
  imports Utf8
begin

text \<open>
  The part of \<open>net/url\<close> (and of \<open>net/netip\<close>, for bracketed hosts) behind \<open>url.Parse\<close>,
  \<open>URL.Hostname\<close>, \<open>URL.Port\<close> and \<open>URL.String\<close>: scheme, opaque part, user info, host, path, query and fragment,
  with the percent-decoding rules of each part. A port is checked from the first colon of an
  unbracketed host.
\<close>

section \<open>Cutting strings\<close>

definition cut :: "char \<Rightarrow> string \<Rightarrow> string \<times> string" where
  "cut d s = (takeWhile (\<lambda>c. c \<noteq> d) s, tl (dropWhile (\<lambda>c. c \<noteq> d) s))"

fun lastCut :: "char \<Rightarrow> string \<Rightarrow> (string \<times> string) option" where
  "lastCut d [] = None"
| "lastCut d (c # s) =
     (case lastCut d s of
        Some (a, b) \<Rightarrow> Some (c # a, b)
      | None \<Rightarrow> if c = d then Some ([], s) else None)"

section \<open>Percent decoding\<close>

datatype encoding = EncodePath | EncodeUser | EncodeFragment | EncodeHost | EncodeZone

definition hexVal :: "char \<Rightarrow> nat option" where
  "hexVal c =
     (if is_digit c then Some (byte c - 48)
      else if between CHR ''a'' CHR ''f'' c then Some (byte c - 87)
      else if between CHR ''A'' CHR ''F'' c then Some (byte c - 55)
      else None)"

text \<open>ASCII bytes that may stand unescaped in a host.\<close>

definition hostChar :: "char \<Rightarrow> bool" where
  "hostChar c \<longleftrightarrow> is_alnum c \<or> c \<in> set ''-_.~!$&'()*+,;=:[]<>'' \<or> c = quote_char"

definition escapeAllowed :: "encoding \<Rightarrow> char \<Rightarrow> nat \<Rightarrow> bool" where
  "escapeAllowed mode c v =
     (case mode of
        EncodeHost \<Rightarrow> 8 \<le> v div 16 \<or> v = 0x25
      | EncodeZone \<Rightarrow> v = 0x25 \<or> v = 0x20 \<or> hostChar (char_of v)
      | _ \<Rightarrow> True)"

definition plainAllowed :: "encoding \<Rightarrow> char \<Rightarrow> bool" where
  "plainAllowed mode c =
     (if mode = EncodeHost \<or> mode = EncodeZone then 0x80 \<le> byte c \<or> hostChar c else True)"

fun unescape :: "encoding \<Rightarrow> string \<Rightarrow> string option" where
  "unescape mode [] = Some []"
| "unescape mode (c # s) =
     (if c = CHR ''%'' then
        (case s of
           h # l # r \<Rightarrow>
             (case (hexVal h, hexVal l) of
                (Some x, Some y) \<Rightarrow>
                  if escapeAllowed mode c (x * 16 + y)
                  then map_option ((#) (char_of (x * 16 + y))) (unescape mode r)
                  else None
              | _ \<Rightarrow> None)
         | _ \<Rightarrow> None)
      else if plainAllowed mode c then map_option ((#) c) (unescape mode s)
      else None)"

section \<open>Percent encoding\<close>

definition shouldEscape :: "encoding \<Rightarrow> char \<Rightarrow> bool" where
  "shouldEscape mode c =
     (if is_alnum c then False
      else if (mode = EncodeHost \<or> mode = EncodeZone) \<and> hostChar c then False
      else if c \<in> set ''-_.~'' then False
      else if c \<in> set ''$&+,/:;=?@'' \<and> mode = EncodePath then c = CHR ''?''
      else if c \<in> set ''$&+,/:;=?@'' \<and> mode = EncodeUser then c \<in> set ''@/?:''
      else if c \<in> set ''$&+,/:;=?@!()*'' \<and> mode = EncodeFragment then False
      else True)"

definition upperHexDigit :: "nat \<Rightarrow> char" where
  "upperHexDigit n = ''0123456789ABCDEF'' ! n"

definition percent :: "encoding \<Rightarrow> string \<Rightarrow> string" where
  "percent mode s =
     concat (map (\<lambda>c. if shouldEscape mode c
                      then [CHR ''%'', upperHexDigit (byte c div 16), upperHexDigit (byte c mod 16)] else [c]) s)"

definition validEncoded :: "string \<Rightarrow> bool" where
  "validEncoded s \<longleftrightarrow> list_all (\<lambda>c. c \<in> set ''!$&'()*+,;=:@[]%'' \<or> \<not> shouldEscape EncodePath c) s"

section \<open>IPv6 literals\<close>

definition octet :: "string \<Rightarrow> bool" where
  "octet s \<longleftrightarrow> s \<noteq> [] \<and> list_all is_digit s \<and> length s \<le> 3 \<and> decimal s \<le> 255 \<and>
     (length s = 1 \<or> hd s \<noteq> CHR ''0'')"

definition ipv4Fields :: "string \<Rightarrow> bool" where
  "ipv4Fields s \<longleftrightarrow> (let fs = split CHR ''.'' s in length fs = 4 \<and> list_all octet fs)"

text \<open>
  The group loop of \<open>parseIPv6\<close>: \<open>left\<close> counts the 16-bit groups still to fill, \<open>ell\<close> says
  whether the ellipsis has been seen.
\<close>

fun ipv6Groups :: "nat \<Rightarrow> bool \<Rightarrow> string \<Rightarrow> bool" where
  "ipv6Groups 0 ell s = False"
| "ipv6Groups (Suc left) ell s =
     (let ds = takeWhile (\<lambda>c. hexVal c \<noteq> None) s; r = drop (length ds) s
      in if ds = [] \<or> length ds > 4 then False
         else case r of
             [] \<Rightarrow> (if left = 0 then \<not> ell else ell)
           | c # r' \<Rightarrow>
               if c = CHR ''.'' then
                 (ell \<or> left = 1) \<and> 1 \<le> left \<and> ipv4Fields s \<and> (if left = 1 then \<not> ell else ell)
               else if c \<noteq> CHR '':'' \<or> r' = [] then False
               else if hd r' = CHR '':'' then
                 (if ell then False
                  else if tl r' = [] then left \<noteq> 0
                  else ipv6Groups left True (tl r'))
               else ipv6Groups left ell r')"

definition parseIPv6 :: "string \<Rightarrow> bool" where
  "parseIPv6 s =
     (let (a, zone) = cut CHR ''%'' s
      in if CHR ''%'' \<in> set s \<and> zone = [] then False
         else if hasPrefix a ''::'' then (if drop 2 a = [] then True else ipv6Groups 8 True (drop 2 a))
         else ipv6Groups 8 False a)"

text \<open>\<open>netip.ParseAddr\<close> succeeds with an address that is not IPv4.\<close>

definition bracketAddr :: "string \<Rightarrow> bool" where
  "bracketAddr s =
     (case dropWhile (\<lambda>c. c \<noteq> CHR ''.'' \<and> c \<noteq> CHR '':'' \<and> c \<noteq> CHR ''%'') s of
        c # _ \<Rightarrow> c = CHR '':'' \<and> parseIPv6 s
      | [] \<Rightarrow> False)"

section \<open>Authority\<close>

definition validOptionalPort :: "string \<Rightarrow> bool" where
  "validOptionalPort s = (case s of [] \<Rightarrow> True | c # r \<Rightarrow> c = CHR '':'' \<and> list_all is_digit r)"

fun cutZone :: "string \<Rightarrow> (string \<times> string) option" where
  "cutZone [] = None"
| "cutZone (c # s) =
     (if hasPrefix (c # s) ''%25'' then Some ([], c # s)
      else map_option (apfst ((#) c)) (cutZone s))"

definition bracketHost :: "string \<Rightarrow> string option" where
  "bracketHost h =
     (case cutZone h of
        None \<Rightarrow> unescape EncodeHost h
      | Some (a, z) \<Rightarrow>
          (case (unescape EncodeHost a, unescape EncodeZone z) of
             (Some a', Some z') \<Rightarrow> Some (a' @ z')
           | _ \<Rightarrow> None))"

definition parseHost :: "string \<Rightarrow> string option" where
  "parseHost host =
     (case lastCut CHR ''['' host of
        Some (a, inner) \<Rightarrow>
          if a \<noteq> [] then None
          else (case lastCut CHR '']'' inner of
                  None \<Rightarrow> None
                | Some (h, colonPort) \<Rightarrow>
                    if \<not> validOptionalPort colonPort then None
                    else (case (unescape EncodeHost colonPort, bracketHost h) of
                            (Some p, Some h') \<Rightarrow>
                              if bracketAddr h' then Some (CHR ''['' # h' @ CHR '']'' # p) else None
                          | _ \<Rightarrow> None))
      | None \<Rightarrow>
          if validOptionalPort (dropWhile (\<lambda>c. c \<noteq> CHR '':'') host) then unescape EncodeHost host
          else None)"

definition userinfoChar :: "char \<Rightarrow> bool" where
  "userinfoChar c \<longleftrightarrow> is_alnum c \<or> c \<in> set ''-._:~!$&'()*+,;=%@''"

definition parseUser :: "string \<Rightarrow> (string \<times> string option) option" where
  "parseUser info =
     (if \<not> list_all userinfoChar info then None
      else if CHR '':'' \<in> set info then
        (case (unescape EncodeUser (fst (cut CHR '':'' info)), unescape EncodeUser (snd (cut CHR '':'' info))) of
           (Some u, Some p) \<Rightarrow> Some (u, Some p)
         | _ \<Rightarrow> None)
      else map_option (\<lambda>u. (u, None)) (unescape EncodeUser info))"

definition parseAuthority :: "string \<Rightarrow> ((string \<times> string option) option \<times> string) option" where
  "parseAuthority authority =
     (case lastCut CHR ''@'' authority of
        None \<Rightarrow> map_option (\<lambda>h. (None, h)) (parseHost authority)
      | Some (info, hostPart) \<Rightarrow>
          (case parseHost hostPart of
             None \<Rightarrow> None
           | Some h \<Rightarrow> map_option (\<lambda>u. (Some u, h)) (parseUser info)))"

section \<open>Parse\<close>

record url =
  u_scheme :: string
  u_opaque :: string
  u_user :: "(string \<times> string option) option"
  u_host :: string
  u_path :: string
  u_rawPath :: string
  u_rawQuery :: string
  u_forceQuery :: bool
  u_fragment :: string

definition emptyUrl :: url where
  "emptyUrl = \<lparr>u_scheme = [], u_opaque = [], u_user = None, u_host = [], u_path = [],
     u_rawPath = [], u_rawQuery = [], u_forceQuery = False, u_fragment = []\<rparr>"

definition schemeChar :: "char \<Rightarrow> bool" where
  "schemeChar c \<longleftrightarrow> is_alnum c \<or> c = CHR ''+'' \<or> c = CHR ''-'' \<or> c = CHR ''.''"

definition getScheme :: "string \<Rightarrow> (string \<times> string) option" where
  "getScheme s =
     (let sc = takeWhile schemeChar s
      in case drop (length sc) s of
           c # r \<Rightarrow>
             if c = CHR '':'' then
               (if sc = [] then None else if is_alpha (hd sc) then Some (sc, r) else Some ([], s))
             else Some ([], s)
         | [] \<Rightarrow> Some ([], s))"

definition splitQuery :: "string \<Rightarrow> url \<Rightarrow> string \<times> url" where
  "splitQuery rest u =
     (let (a, q) = cut CHR ''?'' rest
      in (a, u\<lparr>u_rawQuery := q, u_forceQuery := (CHR ''?'' \<in> set rest \<and> q = [])\<rparr>))"

definition setPath :: "string \<Rightarrow> url \<Rightarrow> url option" where
  "setPath p u =
     map_option (\<lambda>p'. u\<lparr>u_path := p', u_rawPath := (if percent EncodePath p' = p then [] else p)\<rparr>)
       (unescape EncodePath p)"

definition parseNoFragment :: "string \<Rightarrow> url option" where
  "parseNoFragment raw =
     (if \<not> list_all (\<lambda>c. \<not> (byte c < 0x20 \<or> byte c = 0x7f)) raw then None
      else if raw = ''*'' then Some (emptyUrl\<lparr>u_path := raw\<rparr>)
      else case getScheme raw of
        None \<Rightarrow> None
      | Some (sc, rest0) \<Rightarrow>
          (let (rest, u) = splitQuery rest0 (emptyUrl\<lparr>u_scheme := toLower sc\<rparr>)
           in if \<not> hasPrefix rest ''/'' \<and> sc \<noteq> [] then Some (u\<lparr>u_opaque := rest\<rparr>)
              else if \<not> hasPrefix rest ''/'' \<and> CHR '':'' \<in> set (fst (cut CHR ''/'' rest)) then None
              else if (sc \<noteq> [] \<or> \<not> hasPrefix rest ''///'') \<and> hasPrefix rest ''//'' then
                (let authority = takeWhile (\<lambda>c. c \<noteq> CHR ''/'') (drop 2 rest);
                     path = dropWhile (\<lambda>c. c \<noteq> CHR ''/'') (drop 2 rest)
                 in case parseAuthority authority of
                      None \<Rightarrow> None
                    | Some (usr, h) \<Rightarrow> setPath path (u\<lparr>u_user := usr, u_host := h\<rparr>))
              else setPath rest u))"

definition urlParse :: "string \<Rightarrow> url option" where
  "urlParse raw =
     (let (a, frag) = cut CHR ''#'' raw
      in case parseNoFragment a of
           None \<Rightarrow> None
         | Some u \<Rightarrow>
             if frag = [] then Some u
             else map_option (\<lambda>f. u\<lparr>u_fragment := f\<rparr>) (unescape EncodeFragment frag))"

definition splitHostPort :: "string \<Rightarrow> string \<times> string" where
  "splitHostPort hp =
     (let (h, p) =
        (case lastCut CHR '':'' hp of
           Some (a, b) \<Rightarrow> if list_all is_digit b then (a, b) else (hp, [])
         | None \<Rightarrow> (hp, []))
      in (if hasPrefix h ''['' \<and> hasSuffix h '']'' then butlast (tl h) else h, p))"

definition hostname :: "url \<Rightarrow> string" where
  "hostname u = fst (splitHostPort (u_host u))"

definition urlPort :: "url \<Rightarrow> string" where
  "urlPort u = snd (splitHostPort (u_host u))"

definition escapedPath :: "url \<Rightarrow> string" where
  "escapedPath u =
     (if u_rawPath u \<noteq> [] \<and> validEncoded (u_rawPath u) \<and> unescape EncodePath (u_rawPath u) = Some (u_path u)
      then u_rawPath u
      else if u_path u = ''*'' then ''*'' else percent EncodePath (u_path u))"

text \<open>
  \<open>URL.String\<close> of a URL with a scheme and a host and without opaque part, user, query and fragment,
  the only case in which the program calls it.
\<close>

definition hostedString :: "url \<Rightarrow> string" where
  "hostedString u =
     (let path = escapedPath u
      in u_scheme u @ ''://'' @ percent EncodeHost (u_host u) @
         (if path \<noteq> [] \<and> hd path \<noteq> CHR ''/'' then ''/'' else []) @ path)"

lemmas url_defs = urlParse_def cut_def parseNoFragment_def getScheme_def schemeChar_def splitQuery_def
  setPath_def parseAuthority_def parseHost_def validOptionalPort_def hostname_def urlPort_def
  splitHostPort_def emptyUrl_def plainAllowed_def hostChar_def

section \<open>Plain https locations\<close>

lemma lastCut_None: "d \<notin> set s \<Longrightarrow> lastCut d s = None"
  by (induction s) auto

lemma unescape_plain:
  "list_all (plainAllowed mode) s \<Longrightarrow> CHR ''%'' \<notin> set s \<Longrightarrow> unescape mode s = Some s"
  by (induction s) auto

definition dnsChar :: "char \<Rightarrow> bool" where
  "dnsChar c \<longleftrightarrow> is_lower c \<or> is_digit c \<or> c = CHR ''-'' \<or> c = CHR ''.''"

definition pathChar :: "char \<Rightarrow> bool" where
  "pathChar c \<longleftrightarrow> is_alnum c \<or> c = CHR ''-'' \<or> c = CHR ''.'' \<or> c = CHR ''_'' \<or> c = CHR ''/''"

lemma dnsChar_facts:
  assumes "dnsChar c"
  shows "hostChar c" "\<not> (byte c < 0x20 \<or> byte c = 0x7f)" "byte c < 0x80" "\<not> is_upper c"
  using assms by (auto simp: dnsChar_def hostChar_def char_class_defs)

lemma pathChar_facts: "pathChar c \<Longrightarrow> \<not> (byte c < 0x20 \<or> byte c = 0x7f)"
  by (auto simp: pathChar_def char_class_defs)

lemma percent_id: "list_all (\<lambda>c. \<not> shouldEscape mode c) s \<Longrightarrow> percent mode s = s"
  by (induction s) (simp_all add: percent_def)

lemma percent_path: "list_all pathChar p \<Longrightarrow> percent EncodePath p = p"
  by (rule percent_id, erule list.pred_mono_strong) (auto simp: pathChar_def shouldEscape_def)

lemma percent_dns: "list_all dnsChar h \<Longrightarrow> percent EncodeHost h = h"
  by (rule percent_id, erule list.pred_mono_strong) (auto simp: shouldEscape_def dest: dnsChar_facts(1))

lemma list_all_notin: "list_all P s \<Longrightarrow> \<not> P d \<Longrightarrow> d \<notin> set s"
  by (auto simp: list_all_iff)

lemma delimiters [simp]:
  "\<not> dnsChar CHR ''/''" "\<not> dnsChar CHR ''@''" "\<not> dnsChar CHR ''[''" "\<not> dnsChar CHR '':''"
  "\<not> dnsChar CHR ''%''" "\<not> dnsChar CHR ''#''" "\<not> dnsChar CHR ''?''"
  "\<not> pathChar CHR ''%''" "\<not> pathChar CHR ''#''" "\<not> pathChar CHR ''?''"
  by (simp_all add: dnsChar_def pathChar_def char_class_defs)

lemma takeWhile_notin: "d \<notin> set s \<Longrightarrow> takeWhile (\<lambda>c. c \<noteq> d) s = s"
  by (induction s) auto

lemma dropWhile_notin: "d \<notin> set s \<Longrightarrow> dropWhile (\<lambda>c. c \<noteq> d) s = []"
  by (induction s) auto

lemma takeWhile_to: "d \<notin> set s \<Longrightarrow> takeWhile (\<lambda>c. c \<noteq> d) (s @ d # t) = s"
  by (induction s) auto

lemma dropWhile_to: "d \<notin> set s \<Longrightarrow> dropWhile (\<lambda>c. c \<noteq> d) (s @ d # t) = d # t"
  by (induction s) auto

lemma cut_notin: "d \<notin> set s \<Longrightarrow> cut d s = (s, [])"
  by (simp add: cut_def takeWhile_notin dropWhile_notin)

lemma parseAuthority_dns:
  assumes "list_all dnsChar h"
  shows "parseAuthority h = Some (None, h)"
proof -
  have ni: "CHR ''@'' \<notin> set h" "CHR ''['' \<notin> set h" "CHR '':'' \<notin> set h" "CHR ''%'' \<notin> set h"
    by (simp_all add: list_all_notin [OF assms])
  have "list_all (plainAllowed EncodeHost) h"
    using assms dnsChar_facts(1) by (auto simp: list_all_iff plainAllowed_def)
  then show ?thesis
    using ni by (simp add: parseAuthority_def parseHost_def lastCut_None dropWhile_notin
        validOptionalPort_def unescape_plain)
qed

lemma urlParse_https:
  assumes "list_all dnsChar h" "list_all pathChar p" "p = CHR ''/'' # p'"
  shows "urlParse (''https://'' @ h @ p) =
    Some (emptyUrl\<lparr>u_scheme := ''https'', u_host := h, u_path := p\<rparr>)"
proof -
  let ?s = "''https://'' @ h @ p"
  have ni: "CHR ''#'' \<notin> set ?s" "CHR ''?'' \<notin> set (''//'' @ h @ p)" "CHR ''/'' \<notin> set h" "CHR ''%'' \<notin> set p"
    by (simp_all add: list_all_notin [OF assms(1)] list_all_notin [OF assms(2)])
  have ctl: "list_all (\<lambda>c. \<not> (byte c < 0x20 \<or> byte c = 0x7f)) ?s"
    using assms(1,2) dnsChar_facts(2) pathChar_facts by (auto simp: list_all_iff)
  have sch: "getScheme ?s = Some (''https'', ''//'' @ h @ p)"
    by (simp add: getScheme_def schemeChar_def char_class_defs)
  have low: "toLower ''https'' = ''https''" by (rule toLower_id) (simp_all add: char_class_defs)
  have au: "takeWhile (\<lambda>c. c \<noteq> CHR ''/'') (h @ p) = h" "dropWhile (\<lambda>c. c \<noteq> CHR ''/'') (h @ p) = p"
    using ni(3) assms(3) takeWhile_to [of "CHR ''/''" h p'] dropWhile_to [of "CHR ''/''" h p'] by simp_all
  have un: "unescape EncodePath p = Some p"
    using ni(4) by (intro unescape_plain) (simp_all add: plainAllowed_def list_all_iff)
  have q: "splitQuery (''//'' @ h @ p) u = (''//'' @ h @ p, u\<lparr>u_rawQuery := [], u_forceQuery := False\<rparr>)" for u
    using ni(2) by (simp add: splitQuery_def cut_notin)
  have "parseNoFragment ?s = Some (emptyUrl\<lparr>u_scheme := ''https'', u_host := h, u_path := p\<rparr>)"
    unfolding parseNoFragment_def sch option.case prod.case low q Let_def
    using ctl au parseAuthority_dns [OF assms(1)] un
    by (simp add: hasPrefix_def setPath_def emptyUrl_def percent_path [OF assms(2)])
  then show ?thesis using ni(1) by (simp add: urlParse_def cut_notin)
qed

lemma hostname_dns: "list_all dnsChar (u_host u) \<Longrightarrow> hostname u = u_host u \<and> urlPort u = []"
proof -
  assume h: "list_all dnsChar (u_host u)"
  then have ni: "CHR '':'' \<notin> set (u_host u)" "CHR ''['' \<notin> set (u_host u)"
    by (simp_all add: list_all_notin)
  then have "\<not> hasPrefix (u_host u) ''[''" by (auto simp: hasPrefix_iff)
  then show ?thesis using ni by (simp add: hostname_def urlPort_def splitHostPort_def lastCut_None)
qed

end
