(* ===== verification/Sha256.thy ===== *)
theory Sha256
  imports GoStrings "HOL-Library.Word"
begin

unbundle bit_operations_syntax

text \<open>
  SHA-256 (FIPS 180-4), HMAC-SHA-256 and lower-case hexadecimal as the program uses them through
  \<open>crypto/sha256\<close>, \<open>crypto/hmac\<close> and \<open>encoding/hex\<close>. Words are 32 bits wide and additions wrap.
  Nothing here assumes collision resistance; the lemmas state the shape of a digest.
\<close>

section \<open>Compression\<close>

definition roundK :: "32 word list" where
  "roundK =
     [1116352408, 1899447441, 3049323471, 3921009573, 961987163, 1508970993, 2453635748, 2870763221,
      3624381080, 310598401, 607225278, 1426881987, 1925078388, 2162078206, 2614888103, 3248222580,
      3835390401, 4022224774, 264347078, 604807628, 770255983, 1249150122, 1555081692, 1996064986,
      2554220882, 2821834349, 2952996808, 3210313671, 3336571891, 3584528711, 113926993, 338241895,
      666307205, 773529912, 1294757372, 1396182291, 1695183700, 1986661051, 2177026350, 2456956037,
      2730485921, 2820302411, 3259730800, 3345764771, 3516065817, 3600352804, 4094571909, 275423344,
      430227734, 506948616, 659060556, 883997877, 958139571, 1322822218, 1537002063, 1747873779,
      1955562222, 2024104815, 2227730452, 2361852424, 2428436474, 2756734187, 3204031479, 3329325298]"

type_synonym sha_state = "32 word \<times> 32 word \<times> 32 word \<times> 32 word \<times> 32 word \<times> 32 word \<times> 32 word \<times> 32 word"

definition initH :: sha_state where
  "initH = (1779033703, 3144134277, 1013904242, 2773480762, 1359893119, 2600822924, 528734635, 1541459225)"

definition smallSigma0 :: "32 word \<Rightarrow> 32 word" where
  "smallSigma0 x = word_rotr 7 x XOR word_rotr 18 x XOR drop_bit 3 x"

definition smallSigma1 :: "32 word \<Rightarrow> 32 word" where
  "smallSigma1 x = word_rotr 17 x XOR word_rotr 19 x XOR drop_bit 10 x"

definition bigSigma0 :: "32 word \<Rightarrow> 32 word" where
  "bigSigma0 x = word_rotr 2 x XOR word_rotr 13 x XOR word_rotr 22 x"

definition bigSigma1 :: "32 word \<Rightarrow> 32 word" where
  "bigSigma1 x = word_rotr 6 x XOR word_rotr 11 x XOR word_rotr 25 x"

definition choice :: "32 word \<Rightarrow> 32 word \<Rightarrow> 32 word \<Rightarrow> 32 word" where
  "choice x y z = (x AND y) XOR (NOT x AND z)"

definition majority :: "32 word \<Rightarrow> 32 word \<Rightarrow> 32 word \<Rightarrow> 32 word" where
  "majority x y z = (x AND y) XOR (x AND z) XOR (y AND z)"

text \<open>The message schedule, built with the newest word first.\<close>

fun schedule :: "nat \<Rightarrow> 32 word list \<Rightarrow> 32 word list" where
  "schedule 0 ws = ws"
| "schedule (Suc n) ws =
     schedule n ((smallSigma1 (ws ! 1) + ws ! 6 + smallSigma0 (ws ! 14) + ws ! 15) # ws)"

fun round256 :: "sha_state \<Rightarrow> 32 word \<times> 32 word \<Rightarrow> sha_state" where
  "round256 (a, b, c, d, e, f, g, h) (k, w) =
     (let t1 = h + bigSigma1 e + choice e f g + k + w;
          t2 = bigSigma0 a + majority a b c
      in (t1 + t2, a, b, c, d + t1, e, f, g))"

fun addState :: "sha_state \<Rightarrow> sha_state \<Rightarrow> sha_state" where
  "addState (a, b, c, d, e, f, g, h) (a', b', c', d', e', f', g', h') =
     (a + a', b + b', c + c', d + d', e + e', f + f', g + g', h + h')"

definition compress :: "sha_state \<Rightarrow> 32 word list \<Rightarrow> sha_state" where
  "compress st block = addState st (fold (\<lambda>kw s. round256 s kw) (zip roundK (rev (schedule 48 (rev block)))) st)"

section \<open>Padding and digest\<close>

fun wordsOf :: "string \<Rightarrow> 32 word list" where
  "wordsOf (a # b # c # d # s) =
     of_nat (((byte a * 256 + byte b) * 256 + byte c) * 256 + byte d) # wordsOf s"
| "wordsOf _ = []"

fun blocksOf :: "nat \<Rightarrow> 32 word list \<Rightarrow> 32 word list list" where
  "blocksOf 0 ws = []"
| "blocksOf (Suc n) ws = take 16 ws # blocksOf n (drop 16 ws)"

fun bigEndian :: "nat \<Rightarrow> nat \<Rightarrow> string" where
  "bigEndian 0 n = []"
| "bigEndian (Suc k) n = bigEndian k (n div 256) @ [char_of (n mod 256)]"

definition padding :: "nat \<Rightarrow> string" where
  "padding n = char_of (0x80::nat) # replicate ((119 - n mod 64) mod 64) (char_of (0::nat)) @ bigEndian 8 (8 * n)"

definition sha256State :: "string \<Rightarrow> sha_state" where
  "sha256State s =
     (let p = s @ padding (length s)
      in fold (\<lambda>b st. compress st b) (blocksOf (length p div 64) (wordsOf p)) initH)"

definition wordBytes :: "32 word \<Rightarrow> string" where
  "wordBytes w = bigEndian 4 (unat w)"

fun stateBytes :: "sha_state \<Rightarrow> string" where
  "stateBytes (a, b, c, d, e, f, g, h) =
     wordBytes a @ wordBytes b @ wordBytes c @ wordBytes d @ wordBytes e @ wordBytes f @ wordBytes g @ wordBytes h"

definition sha256 :: "string \<Rightarrow> string" where
  "sha256 s = stateBytes (sha256State s)"

definition lowerHexDigit :: "nat \<Rightarrow> char" where
  "lowerHexDigit n = (if n < 10 then char_of (48 + n) else char_of (87 + n))"

definition hexEncode :: "string \<Rightarrow> string" where
  "hexEncode s = concat (map (\<lambda>c. [lowerHexDigit (byte c div 16), lowerHexDigit (byte c mod 16)]) s)"

definition xorByte :: "nat \<Rightarrow> char \<Rightarrow> char" where
  "xorByte k c = char_of (byte c XOR k)"

definition hmacKeyBlock :: "string \<Rightarrow> string" where
  "hmacKeyBlock key =
     (let k = (if length key > 64 then sha256 key else key)
      in k @ replicate (64 - length k) (char_of (0::nat)))"

definition hmacSha256 :: "string \<Rightarrow> string \<Rightarrow> string" where
  "hmacSha256 key s =
     (let k = hmacKeyBlock key
      in sha256 (map (xorByte 0x5c) k @ sha256 (map (xorByte 0x36) k @ s)))"

section \<open>Shape of a digest\<close>

lemma length_bigEndian [simp]: "length (bigEndian k n) = k"
  by (induction k arbitrary: n) simp_all

lemma length_sha256 [simp]: "length (sha256 s) = 32"
  by (cases "sha256State s" rule: stateBytes.cases) (simp add: sha256_def wordBytes_def)

lemma length_hmacSha256 [simp]: "length (hmacSha256 k s) = 32"
  by (simp add: hmacSha256_def Let_def)

lemma length_hexEncode [simp]: "length (hexEncode s) = 2 * length s"
  by (induction s) (simp_all add: hexEncode_def)

lemma lowerHexDigit_lower_hex: "n < 16 \<Longrightarrow> is_lower_hex (lowerHexDigit n)"
  by (simp add: lowerHexDigit_def is_lower_hex_def is_digit_def between_def)

lemma hexEncode_lower_hex: "list_all is_lower_hex (hexEncode s)"
proof (induction s)
  case (Cons c s)
  have "byte c < 256" by simp
  then have "byte c div 16 < 16" by linarith
  then show ?case using Cons by (simp add: hexEncode_def lowerHexDigit_lower_hex)
qed (simp add: hexEncode_def)

text \<open>The padded message is a whole number of blocks.\<close>

lemma padding_length: "64 dvd (n + length (padding n))"
proof -
  define q r where qr: "q = n div 64" "r = n mod 64"
  then have n: "n = 64 * q + r" and r: "r < 64" by simp_all
  have len: "length (padding n) = 9 + (119 - r) mod 64" by (simp add: padding_def qr)
  show ?thesis
  proof (cases "r \<le> 55")
    case True
    then have "(119 - r) mod 64 = 55 - r" using le_mod_geq [of 64 "119 - r"] by simp
    then have "n + length (padding n) = 64 * (q + 1)" using n len True by simp
    then show ?thesis by simp
  next
    case False
    then have "n + length (padding n) = 64 * (q + 2)" using n len r by simp
    then show ?thesis by simp
  qed
qed

end
