(* ===== verification/GoTime.thy ===== *)
theory GoTime
  imports GoStrings "HOL-Library.Monad_Syntax"
begin

text \<open>
  The parts of Go's \<open>time\<close> package that the program uses: instants, their comparison and
  difference, and formatting and parsing with the layout \<open>2006-01-02T15:04:05Z\<close> (and
  \<open>time.RFC3339\<close> for texts that end in \<open>Z\<close>, where the two layouts accept the same texts).
  An instant is a number of nanoseconds since the Unix epoch and the fact whether its location is
  \<open>time.UTC\<close>, which the code tests. The calendar is the proleptic Gregorian one.

  The main result is the round trip: parsing a formatted instant gives the instant truncated to
  whole seconds, for the years 1 to 9999 that the four-digit layout can express.
\<close>

section \<open>Instants and durations\<close>

record go_time =
  t_ns :: int
  t_utc :: bool

definition asUTC :: "go_time \<Rightarrow> go_time" where
  "asUTC t = t\<lparr>t_utc := True\<rparr>"

definition before :: "go_time \<Rightarrow> go_time \<Rightarrow> bool" where
  "before a b \<longleftrightarrow> t_ns a < t_ns b"

definition addTime :: "go_time \<Rightarrow> duration \<Rightarrow> go_time" where
  "addTime t d = t\<lparr>t_ns := t_ns t + d\<rparr>"

text \<open>\<open>Time.Sub\<close> saturates at the largest and smallest \<open>Duration\<close>.\<close>

definition subTime :: "go_time \<Rightarrow> go_time \<Rightarrow> duration" where
  "subTime a b =
     (let d = t_ns a - t_ns b
      in if d > max_int64 then max_int64 else if d < min_int64 then min_int64 else d)"

lemma asUTC_simps [simp]: "t_utc (asUTC t)" "t_ns (asUTC t) = t_ns t"
  by (simp_all add: asUTC_def)

lemma addTime_simps [simp]: "t_utc (addTime t d) = t_utc t" "t_ns (addTime t d) = t_ns t + d"
  by (simp_all add: addTime_def)

section \<open>The calendar\<close>

definition leap :: "int \<Rightarrow> bool" where
  "leap y \<longleftrightarrow> y mod 4 = 0 \<and> (y mod 100 \<noteq> 0 \<or> y mod 400 = 0)"

definition daysIn :: "int \<Rightarrow> int \<Rightarrow> int" where
  "daysIn m y =
     (if m = 2 then (if leap y then 29 else 28)
      else if m = 4 \<or> m = 6 \<or> m = 9 \<or> m = 11 then 30 else 31)"

text \<open>Years are counted from March, so that the leap day is the last of its year.\<close>

definition yearDays :: "int \<Rightarrow> int" where
  "yearDays y = 365 * y + y div 4 - y div 100 + y div 400"

definition epochShift :: int where
  "epochShift = 719468"

definition marchYear :: "int \<Rightarrow> int" where
  "marchYear z =
     (let y = 400 * z div 146097
      in if z < yearDays y then y - 1 else if yearDays (y + 1) \<le> z then y + 1 else y)"

definition monthIndex :: "int \<Rightarrow> int" where
  "monthIndex doy = (5 * doy + 2) div 153"

definition monthStart :: "int \<Rightarrow> int" where
  "monthStart mp = (153 * mp + 2) div 5"

definition civilOfDay :: "int \<Rightarrow> int \<times> int \<times> int" where
  "civilOfDay day =
     (let z = day + epochShift;
          y = marchYear z;
          doy = z - yearDays y;
          mp = monthIndex doy;
          d = doy - monthStart mp + 1
      in if mp < 10 then (y, mp + 3, d) else (y + 1, mp - 9, d))"

definition dayOfCivil :: "int \<Rightarrow> int \<Rightarrow> int \<Rightarrow> int" where
  "dayOfCivil y m d =
     (if m \<le> 2 then yearDays (y - 1) + monthStart (m + 9) + d - 1 - epochShift
      else yearDays y + monthStart (m - 3) + d - 1 - epochShift)"

section \<open>Formatting and parsing\<close>

definition padded :: "nat \<Rightarrow> int \<Rightarrow> string" where
  "padded width x =
     (let s = itoa_nat (nat \<bar>x\<bar>); p = replicate (width - length s) CHR ''0'' @ s
      in if x < 0 then CHR ''-'' # p else p)"

definition formatZ :: "int \<Rightarrow> string" where
  "formatZ ns =
     (let secs = ns div second;
          (y, m, d) = civilOfDay (secs div 86400);
          sod = secs mod 86400
      in padded 4 y @ ''-'' @ padded 2 m @ ''-'' @ padded 2 d @ ''T'' @
         padded 2 (sod div 3600) @ '':'' @ padded 2 (sod div 60 mod 60) @ '':'' @
         padded 2 (sod mod 60) @ ''Z'')"

text \<open>\<open>getnum\<close>: two digits, or one when the field is not fixed (the hour of the layout).\<close>

definition getnum :: "bool \<Rightarrow> string \<Rightarrow> (int \<times> string) option" where
  "getnum fixed s =
     (case s of
        [] \<Rightarrow> None
      | c0 # r \<Rightarrow>
          if \<not> is_digit c0 then None
          else (case r of
                  c1 # r' \<Rightarrow>
                    if is_digit c1 then Some (int (10 * digit_value c0 + digit_value c1), r')
                    else if fixed then None else Some (int (digit_value c0), r)
                | [] \<Rightarrow> if fixed then None else Some (int (digit_value c0), [])))"

definition getyear :: "string \<Rightarrow> (int \<times> string) option" where
  "getyear s =
     (if length s < 4 \<or> \<not> list_all is_digit (take 4 s) then None
      else Some (int (decimal (take 4 s)), drop 4 s))"

definition skipLit :: "char \<Rightarrow> string \<Rightarrow> string option" where
  "skipLit c s = (case s of [] \<Rightarrow> None | x # r \<Rightarrow> if x = c then Some r else None)"

text \<open>
  After the seconds Go accepts any fraction, even though the layout has none: a period or comma
  and at least one digit, of which nine count.
\<close>

definition fraction :: "string \<Rightarrow> int \<times> string" where
  "fraction s =
     (case s of
        c # d # r \<Rightarrow>
          if (c = CHR ''.'' \<or> c = CHR '','') \<and> is_digit d
          then let ds = takeWhile is_digit (d # r); k = take 9 ds
               in (int (decimal k) * 10 ^ (9 - length k), drop (length ds) (d # r))
          else (0, s)
      | _ \<Rightarrow> (0, s))"

definition inRange :: "int \<Rightarrow> int \<Rightarrow> int \<Rightarrow> unit option" where
  "inRange lo hi x = (if lo \<le> x \<and> x \<le> hi then Some () else None)"

definition parseZ :: "string \<Rightarrow> int option" where
  "parseZ s = do {
     (y, s) \<leftarrow> getyear s;
     s \<leftarrow> skipLit CHR ''-'' s;
     (m, s) \<leftarrow> getnum True s;
     inRange 1 12 m;
     s \<leftarrow> skipLit CHR ''-'' s;
     (d, s) \<leftarrow> getnum True s;
     s \<leftarrow> skipLit CHR ''T'' s;
     (h, s) \<leftarrow> getnum False s;
     inRange 0 23 h;
     s \<leftarrow> skipLit CHR '':'' s;
     (mi, s) \<leftarrow> getnum True s;
     inRange 0 59 mi;
     s \<leftarrow> skipLit CHR '':'' s;
     (se, s) \<leftarrow> getnum True s;
     inRange 0 59 se;
     let (ns, s) = fraction s;
     s \<leftarrow> skipLit CHR ''Z'' s;
     (if s \<noteq> [] then None else Some ());
     inRange 1 (daysIn m y) d;
     Some (((dayOfCivil y m d * 86400 + h * 3600 + mi * 60 + se) * second) + ns)
   }"

section \<open>Calendar lemmas\<close>

lemma yearDays_exact:
  "400 * yearDays y = 146097 * y - 100 * (y mod 4) + 4 * (y mod 100) - y mod 400"
proof -
  have "4 * (y div 4) = y - y mod 4" "100 * (y div 100) = y - y mod 100"
    "400 * (y div 400) = y - y mod 400"
    by (simp_all only: minus_mod_eq_mult_div)
  then show ?thesis unfolding yearDays_def by algebra
qed

lemma mod_range: "0 < k \<Longrightarrow> 0 \<le> y mod k \<and> y mod k \<le> k - 1" for k :: int
  by simp

lemma yearDays_lower: "146097 * y - 699 \<le> 400 * yearDays y"
  and yearDays_upper: "400 * yearDays y \<le> 146097 * y + 396"
proof -
  have r: "0 \<le> y mod 4" "y mod 4 \<le> 3" "0 \<le> y mod 100" "y mod 100 \<le> 99"
    "0 \<le> y mod 400" "y mod 400 \<le> 399"
    using mod_range [of 4 y] mod_range [of 100 y] mod_range [of 400 y] by simp_all
  show "146097 * y - 699 \<le> 400 * yearDays y" using r yearDays_exact [of y] by linarith
  show "400 * yearDays y \<le> 146097 * y + 396" using r yearDays_exact [of y] by linarith
qed

lemma marchYear_bounds: "yearDays (marchYear z) \<le> z \<and> z < yearDays (marchYear z + 1)"
proof -
  define y where "y = 400 * z div 146097"
  have y1: "146097 * y \<le> 400 * z" and y2: "400 * z < 146097 * y + 146097"
    unfolding y_def by linarith+
  have "yearDays (y - 1) \<le> z"
    using yearDays_upper [of "y - 1"] y1 y2 by (simp add: right_diff_distrib)
  moreover have "z < yearDays (y + 2)"
    using yearDays_lower [of "y + 2"] y1 y2 by (simp add: distrib_left)
  ultimately show ?thesis
    by (auto simp: marchYear_def Let_def y_def [symmetric] add.commute)
qed

lemma div_succ:
  fixes k :: int
  assumes "1 < k"
  shows "(y + 1) div k = y div k + (if (y + 1) mod k = 0 then 1 else 0)"
proof -
  have d: "(y + 1) div k = y div k + (y mod k + 1) div k"
    using div_add1_eq [of y 1 k] assms by simp
  have m: "(y + 1) mod k = (y mod k + 1) mod k"
    by (simp add: mod_add_left_eq)
  have "0 \<le> y mod k" "y mod k < k" using assms by simp_all
  then consider "y mod k + 1 = k" | "0 < y mod k + 1" "y mod k + 1 < k" by linarith
  then show ?thesis
  proof cases
    case 1
    with d m assms show ?thesis by simp
  next
    case 2
    with d m assms show ?thesis by simp
  qed
qed

lemma dvd_year: "400 dvd y \<Longrightarrow> 100 dvd y" "100 dvd y \<Longrightarrow> 4 dvd y" for y :: int
  using dvd_trans [of 100 400 y] dvd_trans [of 4 100 y] by simp_all

lemma yearDays_succ: "yearDays (y + 1) = yearDays y + 365 + (if leap (y + 1) then 1 else 0)"
proof -
  define b4 b100 b400 where b: "b4 = (4 dvd y + 1)" "b100 = (100 dvd y + 1)" "b400 = (400 dvd y + 1)"
  have imp: "b400 \<Longrightarrow> b100" "b100 \<Longrightarrow> b4" using dvd_year [of "y + 1"] by (simp_all add: b)
  have d: "(y + 1) div 4 = y div 4 + (if b4 then 1 else 0)"
    "(y + 1) div 100 = y div 100 + (if b100 then 1 else 0)"
    "(y + 1) div 400 = y div 400 + (if b400 then 1 else 0)"
    using div_succ [of 4 y] div_succ [of 100 y] div_succ [of 400 y]
    by (simp_all only: b mod_eq_0_iff_dvd)
  have l: "leap (y + 1) \<longleftrightarrow> b4 \<and> (\<not> b100 \<or> b400)"
    by (simp only: leap_def b mod_eq_0_iff_dvd)
  show ?thesis
    unfolding yearDays_def d l using imp by (cases b4; cases b100; cases b400) simp_all
qed

lemma yearDays_step: "yearDays y + 365 \<le> yearDays (y + 1)" "yearDays (y + 1) \<le> yearDays y + 366"
  by (simp_all add: yearDays_succ)

text \<open>The month table: the month and day of each of the 366 days of a year.\<close>

definition monthRow :: "int \<Rightarrow> bool" where
  "monthRow doy =
     (let mp = monthIndex doy; d = doy - monthStart mp + 1
      in 0 \<le> mp \<and> mp \<le> 11 \<and> 1 \<le> d \<and>
         d \<le> (if mp = 11 then (if doy \<le> 364 then 28 else 29)
              else if mp = 1 \<or> mp = 3 \<or> mp = 6 \<or> mp = 8 then 30 else 31))"

lemma monthRow:
  assumes "0 \<le> doy" "doy \<le> 365"
  shows "monthRow doy"
proof -
  define mp where "mp = monthIndex doy"
  have b: "153 * mp \<le> 5 * doy + 2" "5 * doy + 2 < 153 * mp + 153"
    unfolding mp_def monthIndex_def by linarith+
  have "0 \<le> mp" using assms b by linarith
  moreover have "mp \<le> 11" using assms b by linarith
  ultimately have "mp = 0 \<or> mp = 1 \<or> mp = 2 \<or> mp = 3 \<or> mp = 4 \<or> mp = 5 \<or> mp = 6 \<or> mp = 7 \<or>
      mp = 8 \<or> mp = 9 \<or> mp = 10 \<or> mp = 11"
    by arith
  then show ?thesis
    by (elim disjE) (use b assms in \<open>auto simp: monthRow_def Let_def monthStart_def mp_def [symmetric]\<close>)
qed

lemma civilOfDay_valid:
  assumes "civilOfDay day = (y, m, d)"
  shows "1 \<le> m" "m \<le> 12" "1 \<le> d" "d \<le> daysIn m y" "d \<le> 31" "dayOfCivil y m d = day"
proof -
  define z where "z = day + epochShift"
  define my where "my = marchYear z"
  define doy where "doy = z - yearDays my"
  have lo: "0 \<le> doy" and hi: "doy < 365 + (if leap (my + 1) then 1 else 0)"
    using marchYear_bounds [of z] yearDays_succ [of my] by (simp_all add: doy_def my_def)
  then have "doy \<le> 365" by (auto split: if_splits)
  with lo have row: "monthRow doy" by (rule monthRow)
  have civ: "(y, m, d) = (if monthIndex doy < 10
      then (my, monthIndex doy + 3, doy - monthStart (monthIndex doy) + 1)
      else (my + 1, monthIndex doy - 9, doy - monthStart (monthIndex doy) + 1))"
    using assms by (auto simp: civilOfDay_def Let_def z_def my_def doy_def)
  show "1 \<le> m" "m \<le> 12" "1 \<le> d" "d \<le> 31" "dayOfCivil y m d = day"
    using row civ by (auto simp: monthRow_def Let_def dayOfCivil_def doy_def z_def split: if_splits)
  show "d \<le> daysIn m y"
    using row civ hi by (auto simp: monthRow_def Let_def daysIn_def split: if_splits)
qed

section \<open>The instants the layout can express\<close>

definition printable :: "int \<Rightarrow> bool" where
  "printable ns \<longleftrightarrow> - 62135596800 \<le> ns div second \<and> ns div second \<le> 253402300799"

lemma yearDays_mono: "a \<le> b \<Longrightarrow> yearDays a \<le> yearDays b"
proof (induction b rule: int_ge_induct)
  case (step i)
  then show ?case using yearDays_step(1) [of i] by linarith
qed simp

lemma marchYear_ge: "yearDays y \<le> z \<Longrightarrow> y \<le> marchYear z"
proof (rule ccontr)
  assume h: "yearDays y \<le> z" "\<not> y \<le> marchYear z"
  then have "yearDays (marchYear z + 1) \<le> yearDays y" by (intro yearDays_mono) simp
  with h(1) marchYear_bounds [of z] show False by linarith
qed

lemma marchYear_less: "z < yearDays y \<Longrightarrow> marchYear z < y"
proof (rule ccontr)
  assume h: "z < yearDays y" "\<not> marchYear z < y"
  then have "yearDays y \<le> yearDays (marchYear z)" by (intro yearDays_mono) simp
  with h(1) marchYear_bounds [of z] show False by linarith
qed

lemma civil_year_printable:
  assumes "- 719162 \<le> day" "day \<le> 2932896" "civilOfDay day = (y, m, d)"
  shows "1 \<le> y" "y \<le> 9999"
proof -
  define z where "z = day + epochShift"
  define my where "my = marchYear z"
  define doy where "doy = z - yearDays my"
  have zb: "306 \<le> z" "z \<le> 3652364" using assms(1,2) by (simp_all add: z_def epochShift_def)
  have "0 \<le> my" unfolding my_def by (rule marchYear_ge) (use zb in \<open>simp add: yearDays_def\<close>)
  have "my < 10000" unfolding my_def by (rule marchYear_less) (use zb in \<open>simp add: yearDays_def\<close>)
  have civ: "y = (if monthIndex doy < 10 then my else my + 1)"
    using assms(3) by (auto simp: civilOfDay_def Let_def z_def my_def doy_def split: if_splits)
  have "10 \<le> monthIndex doy" if "my = 0"
    using that zb by (simp add: doy_def monthIndex_def yearDays_def)
  moreover have "monthIndex doy < 10" if "my = 9999"
    using that zb by (simp add: doy_def monthIndex_def yearDays_def)
  ultimately show "1 \<le> y" "y \<le> 9999" using civ \<open>0 \<le> my\<close> \<open>my < 10000\<close>
    by (cases "my = 0"; cases "my = 9999"; simp split: if_splits)+
qed

section \<open>Formatting and parsing are inverse\<close>

lemma itoa_nat_two: "n < 100 \<Longrightarrow> 10 \<le> n \<Longrightarrow> itoa_nat n = [digit_char (n div 10), digit_char (n mod 10)]"
  by (simp add: itoa_nat.simps [of n] itoa_nat.simps [of "n div 10"])

lemma digit_char_0: "digit_char 0 = CHR ''0''"
  by (simp add: digit_char_def char_eval)

lemma padded_two:
  assumes "0 \<le> x" "x < 100"
  shows "padded 2 x = [digit_char (nat x div 10), digit_char (nat x mod 10)]"
proof (cases "x < 10")
  case True
  then have "nat x < 10" by simp
  then show ?thesis
    using assms by (simp add: padded_def Let_def itoa_nat.simps [of "nat x"] digit_char_0 numeral_2_eq_2)
next
  case False
  then show ?thesis
    using assms by (simp add: padded_def Let_def itoa_nat_two)
qed

lemma getnum_padded:
  assumes "0 \<le> x" "x < 100"
  shows "getnum f (padded 2 x @ r) = Some (x, r)"
proof -
  have "nat x div 10 < 10" "nat x mod 10 < 10" using assms by auto
  then show ?thesis
    using assms by (simp add: padded_two getnum_def)
qed

lemma decimal_zeros: "decimal (replicate k CHR ''0'' @ s) = decimal s"
  by (induction k) (simp_all add: decimal_def digit_value_def)

lemma padded_four:
  assumes "0 \<le> y" "y \<le> 9999"
  shows "length (padded 4 y) = 4" "list_all is_digit (padded 4 y)" "decimal (padded 4 y) = nat y"
proof -
  have "length (itoa_nat (nat y)) \<le> 4" using assms by (intro itoa_nat_length) auto
  then show "length (padded 4 y) = 4" using assms by (simp add: padded_def Let_def)
  show "list_all is_digit (padded 4 y)" "decimal (padded 4 y) = nat y"
    using assms by (auto simp: padded_def Let_def decimal_zeros list_all_iff is_digit_def between_def
        dest: itoa_nat_digits [unfolded list_all_iff is_digit_def between_def, rule_format])
qed

lemma getyear_padded:
  "0 \<le> y \<Longrightarrow> y \<le> 9999 \<Longrightarrow> getyear (padded 4 y @ r) = Some (y, r)"
  using padded_four [of y] by (simp add: getyear_def)

lemma skipLit_Cons [simp]: "skipLit c (c # s) = Some s"
  by (simp add: skipLit_def)

lemma inRange_Some [simp]: "lo \<le> x \<Longrightarrow> x \<le> hi \<Longrightarrow> inRange lo hi x = Some ()"
  by (simp add: inRange_def)

lemma fraction_Z [simp]: "fraction ''Z'' = (0, ''Z'')"
  by (simp add: fraction_def)

lemma clock_split: "s = s div 3600 * 3600 + s div 60 mod 60 * 60 + s mod 60" for s :: int
proof -
  have a: "s = s div 60 * 60 + s mod 60" by simp
  have b: "s div 60 = s div 3600 * 60 + s div 60 mod 60"
    using zdiv_zmult2_eq [of 60 s 60] div_mult_mod_eq [of "s div 60" 60] by simp
  show ?thesis using a b by linarith
qed

lemma parseZ_formatZ:
  assumes "printable ns"
  shows "parseZ (formatZ ns) = Some (ns div second * second)"
proof -
  define secs where "secs = ns div second"
  define sod where "sod = secs mod 86400"
  obtain y m d where civ: "civilOfDay (secs div 86400) = (y, m, d)" by (metis prod_cases3)
  note v = civilOfDay_valid [OF civ]
  have sod: "0 \<le> sod" "sod < 86400" by (simp_all add: sod_def)
  have y: "1 \<le> y" "y \<le> 9999"
    using assms civil_year_printable [OF _ _ civ] by (auto simp: printable_def secs_def)
  have eq: "secs = secs div 86400 * 86400 + (sod div 3600 * 3600 + sod div 60 mod 60 * 60 + sod mod 60)"
    using clock_split [of sod] by (simp add: sod_def)
  have "parseZ (formatZ ns) =
      Some ((secs div 86400 * 86400 + (sod div 3600 * 3600 + sod div 60 mod 60 * 60 + sod mod 60)) * second)"
    using v y sod
    by (simp add: parseZ_def formatZ_def Let_def secs_def [symmetric] civ sod_def [symmetric]
        getyear_padded getnum_padded add.assoc)
  then show ?thesis using eq by (simp add: secs_def)
qed

end
