(* ===== verification/Contracts.thy ===== *)
theory Contracts
  imports StrictJson Regex Url Sha256 GoTime
begin

text \<open>
  \<open>internal/distribution/contracts.go\<close>: the documents that cross a trust boundary (queue message,
  published manifest, recipient row), their patterns and validity predicates, and the parsers.
  A parser accepts a document only in its canonical form, so that a parsed value determines the
  bytes it came from; the locale \<open>wire_codec\<close> states that contract and is interpreted for each
  document.
\<close>

section \<open>Limits and patterns\<close>

definition maxMessageBytes :: int where [go_defs]: "maxMessageBytes = 64 * 1024"
definition maxManifestBytes :: int where [go_defs]: "maxManifestBytes = 64 * 1024"
definition maxArtifactBytes :: int where [go_defs]: "maxArtifactBytes = 1024 * 1024 * 1024"

abbreviation cls :: "string \<Rightarrow> char \<Rightarrow> bool" where
  "cls s c \<equiv> c \<in> set s"

definition digestPattern :: rexp where
  "digestPattern = rexact 64 (RCls is_lower_hex)"

definition commitPattern :: rexp where
  "commitPattern = rexact 40 (RCls is_lower_hex)"

abbreviation lowerDigit :: "char \<Rightarrow> bool" where
  "lowerDigit c \<equiv> is_lower c \<or> is_digit c"

definition releasePattern :: rexp where
  "releasePattern =
     RSeq (RCls lowerDigit)
       (ropt (RSeq (rupto 62 (RCls (\<lambda>c. lowerDigit c \<or> c = CHR ''_'' \<or> c = CHR ''-''))) (RCls lowerDigit)))"

definition numericPart :: rexp where
  "numericPart = RAlt (rlit ''0'') (RSeq (RCls (\<lambda>c. is_digit c \<and> c \<noteq> CHR ''0'')) (RStar (RCls is_digit)))"

definition releaseVersionPattern :: rexp where
  "releaseVersionPattern =
     RAlt
       (rseqs [numericPart, rlit ''.'', numericPart, rlit ''.'', numericPart,
               ropt (RSeq (rlit ''-'') (rplus (RCls (\<lambda>c. is_alnum c \<or> c = CHR ''.'' \<or> c = CHR ''-''))))])
       (rseqs [rlit ''v'', numericPart, rlit ''.'', numericPart, rlit ''.'', numericPart, rlit ''.'',
               rexact 2 (RCls is_digit)])"

abbreviation repositoryChar :: "char \<Rightarrow> bool" where
  "repositoryChar c \<equiv> is_alnum c \<or> c = CHR ''_'' \<or> c = CHR ''.'' \<or> c = CHR ''-''"

definition repositoryPattern :: rexp where
  "repositoryPattern = rseqs [rplus (RCls repositoryChar), rlit ''/'', rplus (RCls repositoryChar)]"

definition containerPattern :: rexp where
  "containerPattern =
     RSeq (RCls lowerDigit)
       (ropt (RSeq (rbetween 1 61 (RCls (\<lambda>c. lowerDigit c \<or> c = CHR ''-''))) (RCls lowerDigit)))"

definition downloadNamePattern :: rexp where
  "downloadNamePattern =
     rseqs [RCls is_alnum, rupto 122 (RCls repositoryChar), rlit ''.'', RAlt (rlit ''dar'') (rlit ''zip'')]"

definition namePattern :: rexp where
  "namePattern = RSeq (RCls is_alpha) (rupto 63 (RCls (\<lambda>c. is_alpha c \<or> cls '' .'' c \<or> c = CHR 0x27 \<or> c = CHR ''-'')))"

definition emailLocalChar :: "char \<Rightarrow> bool" where
  "emailLocalChar c \<longleftrightarrow> lowerDigit c \<or> cls ''.!#$%&*+/=?^_{|}~-'' c \<or> c = CHR 0x27 \<or> c = CHR 0x60"

definition dnsLabel :: rexp where
  "dnsLabel = RSeq (RCls lowerDigit) (ropt (RSeq (rupto 61 (RCls (\<lambda>c. lowerDigit c \<or> c = CHR ''-''))) (RCls lowerDigit)))"

definition emailPattern :: rexp where
  "emailPattern =
     rseqs [rplus (RCls emailLocalChar), rlit ''@'', dnsLabel, rplus (RSeq (rlit ''.'') dnsLabel)]"

section \<open>Documents\<close>

record BlobReference =
  br_Container :: string
  br_Name :: string
  br_SHA256 :: string
  br_Size :: int
  br_VersionID :: string

record BatchReference =
  bt_BatchCount :: int
  bt_BatchIndex :: int
  bt_Container :: string
  bt_Name :: string
  bt_RecipientCount :: int
  bt_SHA256 :: string
  bt_Size :: int
  bt_VersionID :: string

definition Reference :: "BatchReference \<Rightarrow> BlobReference" where
  "Reference r =
     \<lparr>br_Container = bt_Container r, br_Name = bt_Name r, br_SHA256 = bt_SHA256 r,
      br_Size = bt_Size r, br_VersionID = bt_VersionID r\<rparr>"

record QueueMessage =
  qm_ApplicationURL :: string
  qm_CreatedAt :: string
  qm_Manifest :: BlobReference
  qm_MessageID :: string
  qm_OperationID :: string
  qm_RecipientBatch :: BatchReference
  qm_ReleaseID :: string
  qm_ReleaseVersion :: string
  qm_SchemaVersion :: string
  qm_SourceCommitSHA :: string

record PublishedManifest =
  pm_DAR :: BlobReference
  pm_DownloadName :: string
  pm_OperationID :: string
  pm_PublishedAt :: string
  pm_ReleaseID :: string
  pm_ReleaseVersion :: string
  pm_Repository :: string
  pm_SchemaVersion :: string
  pm_SourceCommitSHA :: string

record Recipient =
  rc_Email :: string
  rc_FirstName :: string
  rc_LastName :: string

text \<open>The zero values that \<open>var x T\<close> gives the decoder.\<close>

definition zeroBlobReference :: BlobReference where
  "zeroBlobReference = \<lparr>br_Container = [], br_Name = [], br_SHA256 = [], br_Size = 0, br_VersionID = []\<rparr>"

definition zeroBatchReference :: BatchReference where
  "zeroBatchReference = \<lparr>bt_BatchCount = 0, bt_BatchIndex = 0, bt_Container = [], bt_Name = [],
     bt_RecipientCount = 0, bt_SHA256 = [], bt_Size = 0, bt_VersionID = []\<rparr>"

definition zeroQueueMessage :: QueueMessage where
  "zeroQueueMessage = \<lparr>qm_ApplicationURL = [], qm_CreatedAt = [], qm_Manifest = zeroBlobReference,
     qm_MessageID = [], qm_OperationID = [], qm_RecipientBatch = zeroBatchReference, qm_ReleaseID = [],
     qm_ReleaseVersion = [], qm_SchemaVersion = [], qm_SourceCommitSHA = []\<rparr>"

definition zeroManifest :: PublishedManifest where
  "zeroManifest = \<lparr>pm_DAR = zeroBlobReference, pm_DownloadName = [], pm_OperationID = [],
     pm_PublishedAt = [], pm_ReleaseID = [], pm_ReleaseVersion = [], pm_Repository = [],
     pm_SchemaVersion = [], pm_SourceCommitSHA = []\<rparr>"

definition zeroRecipient :: Recipient where
  "zeroRecipient = \<lparr>rc_Email = [], rc_FirstName = [], rc_LastName = []\<rparr>"

text \<open>\<open>json.Marshal\<close>: members in the order of the struct fields.\<close>

definition blobJson :: "BlobReference \<Rightarrow> json" where
  "blobJson r = JObj
     [(''container'', JStr (br_Container r)), (''name'', JStr (br_Name r)), (''sha256'', JStr (br_SHA256 r)),
      (''size'', jint (br_Size r)), (''version_id'', JStr (br_VersionID r))]"

definition batchJson :: "BatchReference \<Rightarrow> json" where
  "batchJson r = JObj
     [(''batch_count'', jint (bt_BatchCount r)), (''batch_index'', jint (bt_BatchIndex r)),
      (''container'', JStr (bt_Container r)), (''name'', JStr (bt_Name r)),
      (''recipient_count'', jint (bt_RecipientCount r)), (''sha256'', JStr (bt_SHA256 r)),
      (''size'', jint (bt_Size r)), (''version_id'', JStr (bt_VersionID r))]"

definition messageJson :: "QueueMessage \<Rightarrow> json" where
  "messageJson m = JObj
     [(''application_url'', JStr (qm_ApplicationURL m)), (''created_at'', JStr (qm_CreatedAt m)),
      (''manifest'', blobJson (qm_Manifest m)), (''message_id'', JStr (qm_MessageID m)),
      (''operation_id'', JStr (qm_OperationID m)), (''recipient_batch'', batchJson (qm_RecipientBatch m)),
      (''release_id'', JStr (qm_ReleaseID m)), (''release_version'', JStr (qm_ReleaseVersion m)),
      (''schema_version'', JStr (qm_SchemaVersion m)), (''source_commit_sha'', JStr (qm_SourceCommitSHA m))]"

definition manifestJson :: "PublishedManifest \<Rightarrow> json" where
  "manifestJson m = JObj
     [(''dar'', blobJson (pm_DAR m)), (''download_name'', JStr (pm_DownloadName m)),
      (''operation_id'', JStr (pm_OperationID m)), (''published_at'', JStr (pm_PublishedAt m)),
      (''release_id'', JStr (pm_ReleaseID m)), (''release_version'', JStr (pm_ReleaseVersion m)),
      (''repository'', JStr (pm_Repository m)), (''schema_version'', JStr (pm_SchemaVersion m)),
      (''source_commit_sha'', JStr (pm_SourceCommitSHA m))]"

definition recipientJson :: "Recipient \<Rightarrow> json" where
  "recipientJson r = JObj
     [(''email'', JStr (rc_Email r)), (''first_name'', JStr (rc_FirstName r)), (''last_name'', JStr (rc_LastName r))]"

text \<open>The decoder's view of the same structs: a setter per field.\<close>

definition blobFields :: "(string \<times> BlobReference setter) list" where
  "blobFields =
     [(''container'', setString (\<lambda>v r. r\<lparr>br_Container := v\<rparr>)), (''name'', setString (\<lambda>v r. r\<lparr>br_Name := v\<rparr>)),
      (''sha256'', setString (\<lambda>v r. r\<lparr>br_SHA256 := v\<rparr>)), (''size'', setInt (\<lambda>v r. r\<lparr>br_Size := v\<rparr>)),
      (''version_id'', setString (\<lambda>v r. r\<lparr>br_VersionID := v\<rparr>))]"

definition batchFields :: "(string \<times> BatchReference setter) list" where
  "batchFields =
     [(''batch_count'', setInt (\<lambda>v r. r\<lparr>bt_BatchCount := v\<rparr>)), (''batch_index'', setInt (\<lambda>v r. r\<lparr>bt_BatchIndex := v\<rparr>)),
      (''container'', setString (\<lambda>v r. r\<lparr>bt_Container := v\<rparr>)), (''name'', setString (\<lambda>v r. r\<lparr>bt_Name := v\<rparr>)),
      (''recipient_count'', setInt (\<lambda>v r. r\<lparr>bt_RecipientCount := v\<rparr>)),
      (''sha256'', setString (\<lambda>v r. r\<lparr>bt_SHA256 := v\<rparr>)), (''size'', setInt (\<lambda>v r. r\<lparr>bt_Size := v\<rparr>)),
      (''version_id'', setString (\<lambda>v r. r\<lparr>bt_VersionID := v\<rparr>))]"

definition messageFields :: "(string \<times> QueueMessage setter) list" where
  "messageFields =
     [(''application_url'', setString (\<lambda>v r. r\<lparr>qm_ApplicationURL := v\<rparr>)),
      (''created_at'', setString (\<lambda>v r. r\<lparr>qm_CreatedAt := v\<rparr>)),
      (''manifest'', setStruct blobFields qm_Manifest (\<lambda>v r. r\<lparr>qm_Manifest := v\<rparr>)),
      (''message_id'', setString (\<lambda>v r. r\<lparr>qm_MessageID := v\<rparr>)),
      (''operation_id'', setString (\<lambda>v r. r\<lparr>qm_OperationID := v\<rparr>)),
      (''recipient_batch'', setStruct batchFields qm_RecipientBatch (\<lambda>v r. r\<lparr>qm_RecipientBatch := v\<rparr>)),
      (''release_id'', setString (\<lambda>v r. r\<lparr>qm_ReleaseID := v\<rparr>)),
      (''release_version'', setString (\<lambda>v r. r\<lparr>qm_ReleaseVersion := v\<rparr>)),
      (''schema_version'', setString (\<lambda>v r. r\<lparr>qm_SchemaVersion := v\<rparr>)),
      (''source_commit_sha'', setString (\<lambda>v r. r\<lparr>qm_SourceCommitSHA := v\<rparr>))]"

definition manifestFields :: "(string \<times> PublishedManifest setter) list" where
  "manifestFields =
     [(''dar'', setStruct blobFields pm_DAR (\<lambda>v r. r\<lparr>pm_DAR := v\<rparr>)),
      (''download_name'', setString (\<lambda>v r. r\<lparr>pm_DownloadName := v\<rparr>)),
      (''operation_id'', setString (\<lambda>v r. r\<lparr>pm_OperationID := v\<rparr>)),
      (''published_at'', setString (\<lambda>v r. r\<lparr>pm_PublishedAt := v\<rparr>)),
      (''release_id'', setString (\<lambda>v r. r\<lparr>pm_ReleaseID := v\<rparr>)),
      (''release_version'', setString (\<lambda>v r. r\<lparr>pm_ReleaseVersion := v\<rparr>)),
      (''repository'', setString (\<lambda>v r. r\<lparr>pm_Repository := v\<rparr>)),
      (''schema_version'', setString (\<lambda>v r. r\<lparr>pm_SchemaVersion := v\<rparr>)),
      (''source_commit_sha'', setString (\<lambda>v r. r\<lparr>pm_SourceCommitSHA := v\<rparr>))]"

definition recipientFields :: "(string \<times> Recipient setter) list" where
  "recipientFields =
     [(''email'', setString (\<lambda>v r. r\<lparr>rc_Email := v\<rparr>)), (''first_name'', setString (\<lambda>v r. r\<lparr>rc_FirstName := v\<rparr>)),
      (''last_name'', setString (\<lambda>v r. r\<lparr>rc_LastName := v\<rparr>))]"

section \<open>Validity\<close>

definition controlFree :: "string \<Rightarrow> bool" where
  "controlFree value \<longleftrightarrow> list_all (\<lambda>character. \<not> (character < 0x20 \<or> character = 0x7f)) (runes value)"

definition validBlobName :: "string \<Rightarrow> bool" where
  "validBlobName value =
     (if value = [] \<or> length value > 1024 \<or> hasPrefix value ''/'' \<or> hasSuffix value ''/'' \<or>
         containsAny value (backslash # ''?#'') \<or> \<not> controlFree value then False
      else list_all (\<lambda>segment. \<not> (segment = [] \<or> segment = ''.'' \<or> segment = ''..'')) (split CHR ''/'' value))"

definition validTimestamp :: "string \<Rightarrow> bool" where
  "validTimestamp value \<longleftrightarrow> hasSuffix value ''Z'' \<and> parseZ value \<noteq> None"

definition validApplicationURL :: "string \<Rightarrow> string \<Rightarrow> bool" where
  "validApplicationURL value releaseVersion =
     (case urlParse value of
        None \<Rightarrow> False
      | Some parsed \<Rightarrow>
          (let pathParts = split CHR ''/'' (u_path parsed);
               approvedPath =
                 (length pathParts = 6 \<and> pathParts ! 0 = [] \<and> pathParts ! 1 = ''v1'' \<and>
                  pathParts ! 2 = ''releases'' \<and> pathParts ! 3 = releaseVersion \<and>
                  pathParts ! 4 = ''download'' \<and> rmatch downloadNamePattern (pathParts ! 5))
           in if u_scheme parsed \<noteq> ''https'' \<or> u_user parsed \<noteq> None \<or> u_rawQuery parsed \<noteq> [] \<or>
                 u_fragment parsed \<noteq> [] \<or> \<not> approvedPath then False
              else let host = toLower (hostname parsed)
                   in (hasSuffix host ''.azurecontainerapps.io'' \<or> hasSuffix host ''.example.internal'') \<and>
                      (urlPort parsed = [] \<or> urlPort parsed = ''443'')))"

definition validBlob :: "BlobReference \<Rightarrow> bool" where
  "validBlob r \<longleftrightarrow>
     rmatch containerPattern (br_Container r) \<and> validBlobName (br_Name r) \<and>
     length (br_VersionID r) \<ge> 1 \<and> length (br_VersionID r) \<le> 128 \<and>
     controlFree (br_VersionID r) \<and> rmatch digestPattern (br_SHA256 r) \<and>
     br_Size r \<ge> 1 \<and> br_Size r \<le> maxArtifactBytes"

definition validBatchReference :: "BatchReference \<Rightarrow> bool" where
  "validBatchReference r \<longleftrightarrow>
     validBlob (Reference r) \<and> bt_BatchIndex r \<ge> 0 \<and> bt_BatchIndex r \<le> 9999 \<and>
     bt_BatchCount r \<ge> 1 \<and> bt_BatchCount r \<le> 10000 \<and>
     bt_BatchIndex r < bt_BatchCount r \<and>
     bt_RecipientCount r \<ge> 1 \<and> bt_RecipientCount r \<le> 500"

definition Matches :: "BlobReference \<Rightarrow> string \<Rightarrow> bool" where
  "Matches r content \<longleftrightarrow> int (length content) = br_Size r \<and> hexEncode (sha256 content) = br_SHA256 r"

definition canonical :: "string \<Rightarrow> json \<Rightarrow> bool" where
  "canonical raw value \<longleftrightarrow> raw = jprint value"

text \<open>
  \<open>readBounded\<close>: the reader yields its bytes and then end of file or an error. At most one byte
  more than the limit is read, so an error behind the limit is not seen.
\<close>

type_synonym reader = "string \<times> go_error option"

definition readBounded :: "reader option \<Rightarrow> int \<Rightarrow> string result" where
  "readBounded reader maximum =
     (case reader of
        None \<Rightarrow> Inl ErrContract
      | Some (content, err) \<Rightarrow>
          if maximum < 1 then Inl ErrContract
          else if int (length content) > maximum then Inl ErrContract
          else (case err of Some e \<Rightarrow> Inl e | None \<Rightarrow> Inr content))"

section \<open>Parsers\<close>

definition validMessage :: "QueueMessage \<Rightarrow> string \<Rightarrow> bool" where
  "validMessage message brokerMessageID \<longleftrightarrow>
     qm_SchemaVersion message = ''1.0'' \<and>
     qm_MessageID message = brokerMessageID \<and>
     qm_MessageID message = qm_OperationID message @ '':'' @ itoa (bt_BatchIndex (qm_RecipientBatch message)) \<and>
     rmatch digestPattern (qm_OperationID message) \<and>
     rmatch releasePattern (qm_ReleaseID message) \<and>
     rmatch releaseVersionPattern (qm_ReleaseVersion message) \<and>
     rmatch commitPattern (qm_SourceCommitSHA message) \<and>
     validTimestamp (qm_CreatedAt message) \<and>
     validApplicationURL (qm_ApplicationURL message) (qm_ReleaseVersion message) \<and>
     validBlob (qm_Manifest message) \<and> validBatchReference (qm_RecipientBatch message)"

definition ParseQueueMessage :: "string \<Rightarrow> string \<Rightarrow> QueueMessage result" where
  "ParseQueueMessage raw brokerMessageID =
     (case Decode raw maxMessageBytes (decodeStruct messageFields) zeroQueueMessage of
        Inl _ \<Rightarrow> Inl ErrContract
      | Inr message \<Rightarrow>
          if \<not> canonical raw (messageJson message) \<or> \<not> validMessage message brokerMessageID
          then Inl ErrContract
          else Inr message)"

definition validManifest :: "PublishedManifest \<Rightarrow> bool" where
  "validManifest manifest \<longleftrightarrow>
     pm_SchemaVersion manifest = ''1.0'' \<and>
     rmatch digestPattern (pm_OperationID manifest) \<and>
     rmatch repositoryPattern (pm_Repository manifest) \<and>
     rmatch commitPattern (pm_SourceCommitSHA manifest) \<and>
     rmatch releasePattern (pm_ReleaseID manifest) \<and>
     rmatch releaseVersionPattern (pm_ReleaseVersion manifest) \<and>
     rmatch downloadNamePattern (pm_DownloadName manifest) \<and>
     validTimestamp (pm_PublishedAt manifest) \<and> validBlob (pm_DAR manifest)"

definition ParsePublishedManifest :: "string \<Rightarrow> PublishedManifest result" where
  "ParsePublishedManifest raw =
     (case Decode raw maxManifestBytes (decodeStruct manifestFields) zeroManifest of
        Inl _ \<Rightarrow> Inl ErrContract
      | Inr manifest \<Rightarrow>
          if \<not> canonical raw (manifestJson manifest) \<or> \<not> validManifest manifest
          then Inl ErrContract
          else Inr manifest)"

definition validRecipient :: "Recipient \<Rightarrow> bool" where
  "validRecipient recipient \<longleftrightarrow>
     rmatch namePattern (rc_FirstName recipient) \<and> rmatch namePattern (rc_LastName recipient) \<and>
     length (rc_Email recipient) \<le> 254 \<and>
     rc_Email recipient = toLower (trimSpace (rc_Email recipient)) \<and>
     rmatch emailPattern (rc_Email recipient)"

definition ParseRecipient :: "string \<Rightarrow> Recipient result" where
  "ParseRecipient raw =
     (case Decode raw 1024 (decodeStruct recipientFields) zeroRecipient of
        Inl _ \<Rightarrow> Inl ErrContract
      | Inr recipient \<Rightarrow>
          if \<not> canonical raw (recipientJson recipient) \<or> \<not> validRecipient recipient
          then Inl ErrContract
          else Inr recipient)"

section \<open>What the patterns say\<close>

lemma digest_iff: "rmatch digestPattern s \<longleftrightarrow> length s = 64 \<and> list_all is_lower_hex s"
  by (simp add: digestPattern_def rmatch_rexact_cls)

lemma commit_iff: "rmatch commitPattern s \<longleftrightarrow> length s = 40 \<and> list_all is_lower_hex s"
  by (simp add: commitPattern_def rmatch_rexact_cls)

lemma digest_sha256 [simp]: "rmatch digestPattern (hexEncode (sha256 s))"
  by (simp add: digest_iff hexEncode_lower_hex)

lemma digest_hmac [simp]: "rmatch digestPattern (hexEncode (hmacSha256 k s))"
  by (simp add: digest_iff hexEncode_lower_hex)

lemma controlFree_bytes: "controlFree s \<longleftrightarrow> list_all (\<lambda>c. \<not> (byte c < 0x20 \<or> byte c = 0x7f)) s"
  using no_ascii_control_bytes [of s] by (simp add: controlFree_def no_ascii_control_def)

lemma ascii_list_all: "list_all P s \<Longrightarrow> (\<And>c. P c \<Longrightarrow> byte c < 0x80) \<Longrightarrow> ascii s"
  by (auto simp: ascii_def list_all_iff)

lemma ascii_lower_hex: "list_all is_lower_hex s \<Longrightarrow> ascii s"
  by (erule ascii_list_all) (auto simp: char_class_defs)

section \<open>Well-formed wire values\<close>

text \<open>
  What every decoded struct satisfies and printing needs: strings are valid UTF-8, integers fit
  the Go types.
\<close>

definition wfBlob :: "BlobReference \<Rightarrow> bool" where
  "wfBlob r \<longleftrightarrow> utf8_valid (br_Container r) \<and> utf8_valid (br_Name r) \<and> utf8_valid (br_SHA256 r) \<and>
     int64_ok (br_Size r) \<and> utf8_valid (br_VersionID r)"

definition wfBatch :: "BatchReference \<Rightarrow> bool" where
  "wfBatch r \<longleftrightarrow> int64_ok (bt_BatchCount r) \<and> int64_ok (bt_BatchIndex r) \<and> int64_ok (bt_RecipientCount r) \<and>
     wfBlob (Reference r)"

definition wfMessage :: "QueueMessage \<Rightarrow> bool" where
  "wfMessage m \<longleftrightarrow> utf8_valid (qm_ApplicationURL m) \<and> utf8_valid (qm_CreatedAt m) \<and> wfBlob (qm_Manifest m) \<and>
     utf8_valid (qm_MessageID m) \<and> utf8_valid (qm_OperationID m) \<and> wfBatch (qm_RecipientBatch m) \<and>
     utf8_valid (qm_ReleaseID m) \<and> utf8_valid (qm_ReleaseVersion m) \<and> utf8_valid (qm_SchemaVersion m) \<and>
     utf8_valid (qm_SourceCommitSHA m)"

definition wfManifest :: "PublishedManifest \<Rightarrow> bool" where
  "wfManifest m \<longleftrightarrow> wfBlob (pm_DAR m) \<and> utf8_valid (pm_DownloadName m) \<and> utf8_valid (pm_OperationID m) \<and>
     utf8_valid (pm_PublishedAt m) \<and> utf8_valid (pm_ReleaseID m) \<and> utf8_valid (pm_ReleaseVersion m) \<and>
     utf8_valid (pm_Repository m) \<and> utf8_valid (pm_SchemaVersion m) \<and> utf8_valid (pm_SourceCommitSHA m)"

definition wfRecipient :: "Recipient \<Rightarrow> bool" where
  "wfRecipient r \<longleftrightarrow> utf8_valid (rc_Email r) \<and> utf8_valid (rc_FirstName r) \<and> utf8_valid (rc_LastName r)"

lemmas wf_defs = wfBlob_def wfBatch_def wfMessage_def wfManifest_def wfRecipient_def Reference_def
lemmas json_defs = blobJson_def batchJson_def messageJson_def manifestJson_def recipientJson_def
lemmas fields_defs = blobFields_def batchFields_def messageFields_def manifestFields_def recipientFields_def
lemmas zero_defs = zeroBlobReference_def zeroBatchReference_def zeroQueueMessage_def zeroManifest_def zeroRecipient_def
lemmas decode_defs = decodeStruct_def findField_def setString_def setInt_def setStruct_def jint_def

lemma parseInt_int64: "parseInt s = Some i \<Longrightarrow> int64_ok i"
  by (auto simp: parseInt_def Let_def split: if_splits)

lemma int64_ok_0 [simp]: "int64_ok 0"
  by (simp add: int64_ok_def)

lemma ascii_ok: "ascii ''1.0''"
  by simp

lemma decode_blob:
  "int64_ok (br_Size x) \<Longrightarrow> decodeStruct blobFields (blobJson x) z = Some x"
  by (cases x; cases z) (simp add: blobFields_def blobJson_def decode_defs parseInt_itoa)

lemma decode_batch:
  "int64_ok (bt_BatchCount x) \<Longrightarrow> int64_ok (bt_BatchIndex x) \<Longrightarrow> int64_ok (bt_RecipientCount x) \<Longrightarrow>
   int64_ok (bt_Size x) \<Longrightarrow> decodeStruct batchFields (batchJson x) z = Some x"
  by (cases x; cases z) (simp add: batchFields_def batchJson_def decode_defs parseInt_itoa)

lemma setString_wf:
  "setString upd j x = Some y \<Longrightarrow> jstrings j \<Longrightarrow> P x \<Longrightarrow> (\<And>s. utf8_valid s \<Longrightarrow> P (upd s x)) \<Longrightarrow> P y"
  by (auto simp: setString_def split: json.splits)

lemma setInt_wf:
  "setInt upd j x = Some y \<Longrightarrow> P x \<Longrightarrow> (\<And>i. int64_ok i \<Longrightarrow> P (upd i x)) \<Longrightarrow> P y"
  by (auto simp: setInt_def parseInt_int64 split: json.splits option.splits)

lemma setStruct_wf:
  assumes "setStruct flds get upd j x = Some y" "jstrings j" "Q (get x)" "\<And>v. Q v \<Longrightarrow> P (upd v x)"
    and "\<And>k f j x y. (k, f) \<in> set flds \<Longrightarrow> jstrings j \<Longrightarrow> Q x \<Longrightarrow> f j x = Some y \<Longrightarrow> Q y"
  shows "P y"
proof -
  obtain v where v: "decodeStruct flds j (get x) = Some v" "y = upd v x"
    using assms(1) by (auto simp: setStruct_def split: option.splits)
  have "Q v" by (rule decodeStruct_inv [where P = Q, OF v(1) assms(2,3,5)]) assumption+
  then show ?thesis using assms(4) v(2) by simp
qed

lemma blob_set_wf:
  "(k, f) \<in> set blobFields \<Longrightarrow> jstrings j \<Longrightarrow> wfBlob x \<Longrightarrow> f j x = Some y \<Longrightarrow> wfBlob y"
  unfolding blobFields_def
  by (auto elim!: setString_wf setInt_wf simp: wfBlob_def)

lemma batch_set_wf:
  "(k, f) \<in> set batchFields \<Longrightarrow> jstrings j \<Longrightarrow> wfBatch x \<Longrightarrow> f j x = Some y \<Longrightarrow> wfBatch y"
  unfolding batchFields_def
  by (auto elim!: setString_wf setInt_wf simp: wf_defs)

lemma message_set_wf:
  assumes "(k, f) \<in> set messageFields" "jstrings j" "wfMessage x" "f j x = Some y"
  shows "wfMessage y"
proof -
  have m: "setStruct blobFields qm_Manifest (\<lambda>v r. r\<lparr>qm_Manifest := v\<rparr>) j x = Some y \<Longrightarrow> wfMessage y"
    using assms(2,3) by (elim setStruct_wf [where Q = wfBlob]) (auto simp: wfMessage_def intro: blob_set_wf)
  have b: "setStruct batchFields qm_RecipientBatch (\<lambda>v r. r\<lparr>qm_RecipientBatch := v\<rparr>) j x = Some y \<Longrightarrow> wfMessage y"
    using assms(2,3) by (elim setStruct_wf [where Q = wfBatch]) (auto simp: wfMessage_def intro: batch_set_wf)
  show ?thesis
    using assms m b unfolding messageFields_def
    by (auto elim!: setString_wf simp: wfMessage_def)
qed

lemma manifest_set_wf:
  assumes "(k, f) \<in> set manifestFields" "jstrings j" "wfManifest x" "f j x = Some y"
  shows "wfManifest y"
proof -
  have m: "setStruct blobFields pm_DAR (\<lambda>v r. r\<lparr>pm_DAR := v\<rparr>) j x = Some y \<Longrightarrow> wfManifest y"
    using assms(2,3) by (elim setStruct_wf [where Q = wfBlob]) (auto simp: wfManifest_def intro: blob_set_wf)
  show ?thesis
    using assms m unfolding manifestFields_def
    by (auto elim!: setString_wf simp: wfManifest_def)
qed

lemma recipient_set_wf:
  "(k, f) \<in> set recipientFields \<Longrightarrow> jstrings j \<Longrightarrow> wfRecipient x \<Longrightarrow> f j x = Some y \<Longrightarrow> wfRecipient y"
  unfolding recipientFields_def by (auto elim!: setString_wf simp: wfRecipient_def)

lemma utf8_key: "ascii k \<Longrightarrow> utf8_valid k"
  by (rule utf8_valid_ascii)

lemma blob_json: "wfBlob r \<Longrightarrow> jwf (blobJson r)" "distinctKeys (blobJson r)"
  by (simp_all add: blobJson_def wf_defs jint_def utf8_key, blast)

lemma batch_json: "wfBatch r \<Longrightarrow> jwf (batchJson r)" "distinctKeys (batchJson r)"
  by (simp_all add: batchJson_def wf_defs jint_def utf8_key, blast)

lemma message_json: "wfMessage m \<Longrightarrow> jwf (messageJson m)" "distinctKeys (messageJson m)"
  by (simp_all add: messageJson_def wfMessage_def utf8_key blob_json batch_json)

lemma manifest_json: "wfManifest m \<Longrightarrow> jwf (manifestJson m)" "distinctKeys (manifestJson m)"
  by (simp_all add: manifestJson_def wfManifest_def utf8_key blob_json)

lemma recipient_json: "wfRecipient m \<Longrightarrow> jwf (recipientJson m)" "distinctKeys (recipientJson m)"
  by (simp_all add: recipientJson_def wfRecipient_def utf8_key)

lemma wf_zero: "wfMessage zeroQueueMessage" "wfManifest zeroManifest" "wfRecipient zeroRecipient"
  by (simp_all add: wf_defs zero_defs)

lemma decode_message: "wfMessage m \<Longrightarrow> decodeStruct messageFields (messageJson m) z = Some m"
  by (cases m; cases z)
    (simp add: decodeStruct_JObj findField_def setString_def setStruct_def messageFields_def messageJson_def
      decode_blob decode_batch wf_defs)

lemma decode_manifest: "wfManifest m \<Longrightarrow> decodeStruct manifestFields (manifestJson m) z = Some m"
  by (cases m; cases z)
    (simp add: decodeStruct_JObj findField_def setString_def setStruct_def manifestFields_def manifestJson_def
      decode_blob wf_defs)

lemma decode_recipient: "decodeStruct recipientFields (recipientJson m) z = Some m"
  by (cases m; cases z)
    (simp add: decodeStruct_def findField_def setString_def recipientFields_def recipientJson_def)

section \<open>Each document is determined by its bytes\<close>

interpretation recipient_doc:
  document recipientJson recipientFields zeroRecipient wfRecipient validRecipient 1024 ParseRecipient
proof
  show "ParseRecipient raw = Inr x \<longleftrightarrow>
      Decode raw 1024 (decodeStruct recipientFields) zeroRecipient = Inr x \<and> raw = jprint (recipientJson x) \<and> validRecipient x"
    for raw x by (auto simp: ParseRecipient_def canonical_def split: sum.splits if_splits)
qed (auto simp: recipient_json decode_recipient wf_zero intro: recipient_set_wf)

interpretation message_doc:
  document messageJson messageFields zeroQueueMessage wfMessage "\<lambda>m. validMessage m brokerMessageID" maxMessageBytes
    "\<lambda>raw. ParseQueueMessage raw brokerMessageID"
  for brokerMessageID
proof
  show "ParseQueueMessage raw brokerMessageID = Inr x \<longleftrightarrow>
      Decode raw maxMessageBytes (decodeStruct messageFields) zeroQueueMessage = Inr x \<and>
      raw = jprint (messageJson x) \<and> validMessage x brokerMessageID"
    for raw x by (auto simp: ParseQueueMessage_def canonical_def split: sum.splits if_splits)
qed (auto simp: message_json decode_message wf_zero intro: message_set_wf)

interpretation manifest_doc:
  document manifestJson manifestFields zeroManifest wfManifest validManifest maxManifestBytes ParsePublishedManifest
proof
  show "ParsePublishedManifest raw = Inr x \<longleftrightarrow>
      Decode raw maxManifestBytes (decodeStruct manifestFields) zeroManifest = Inr x \<and>
      raw = jprint (manifestJson x) \<and> validManifest x"
    for raw x by (auto simp: ParsePublishedManifest_def canonical_def split: sum.splits if_splits)
qed (auto simp: manifest_json decode_manifest wf_zero intro: manifest_set_wf)

section \<open>Consequences\<close>

lemmas rbytes_unfold = rplus_def ropt_def rbetween_def rbytes_rlit
lemmas rbytes_dest = rbytes_rexact rbytes_rupto

lemma name_ascii: "rmatch namePattern s \<Longrightarrow> ascii s"
proof -
  have "rbytes namePattern c \<Longrightarrow> byte c < 0x80" for c
    by (auto simp: namePattern_def rbytes_unfold char_class_defs dest!: rbytes_dest)
  then show "rmatch namePattern s \<Longrightarrow> ascii s"
    using rmatch_bytes by (auto simp: ascii_def list_all_iff)
qed

lemma email_bytes:
  assumes "rmatch emailPattern s"
  shows "ascii s" "list_all (\<lambda>c. \<not> is_upper c) s" "s \<noteq> []" "controlFree s"
proof -
  have b: "byte c < 0x80 \<and> \<not> is_upper c \<and> 0x20 < byte c \<and> byte c \<noteq> 0x7f" if "rbytes emailPattern c" for c
    using that by (auto simp: emailPattern_def dnsLabel_def emailLocalChar_def rbytes_unfold char_class_defs dest!: rbytes_dest)
  then show "ascii s" "list_all (\<lambda>c. \<not> is_upper c) s" "controlFree s"
    using rmatch_bytes [OF assms] by (fastforce simp: ascii_def list_all_iff controlFree_bytes)+
  show "s \<noteq> []" using assms by (auto simp: emailPattern_def rmatch_RSeq rmatch_rplus_cls)
qed


lemma valid_recipient_wf: "validRecipient r \<Longrightarrow> wfRecipient r"
  by (simp add: validRecipient_def wfRecipient_def utf8_valid_ascii name_ascii email_bytes(1))

text \<open>
  The parser of recipient rows accepts exactly the canonical JSON of a valid recipient of at most
  1024 bytes, and returns that recipient: no other bytes are accepted, and each recipient has one
  accepted spelling.
\<close>

lemma ParseRecipient_exact:
  "ParseRecipient raw = Inr r \<longleftrightarrow> raw = jprint (recipientJson r) \<and> validRecipient r \<and> length raw \<le> 1024"
  using valid_recipient_wf by (auto simp: recipient_doc.parse_iff recipient_doc.accepted_def)

text \<open>
  C35. The parser of queue messages accepts exactly the canonical JSON of a valid message for the
  broker's message id, within 64 KiB and with every string in valid UTF-8 and every integer within
  64 bits, and returns that message. So a message body and the parsed message determine each other.
\<close>

theorem ParseQueueMessage_exact:
  "ParseQueueMessage raw brokerMessageID = Inr m \<longleftrightarrow>
     raw = jprint (messageJson m) \<and> wfMessage m \<and> validMessage m brokerMessageID \<and> length raw \<le> 65536"
  unfolding message_doc.parse_iff message_doc.accepted_def by (auto simp: maxMessageBytes_def)

text \<open>
  The parser of published manifests accepts exactly the canonical JSON of a valid manifest,
  within 64 KiB, and returns that manifest.
\<close>

lemma ParsePublishedManifest_exact:
  "ParsePublishedManifest raw = Inr m \<longleftrightarrow>
     raw = jprint (manifestJson m) \<and> wfManifest m \<and> validManifest m \<and> length raw \<le> 65536"
  unfolding manifest_doc.parse_iff manifest_doc.accepted_def by (auto simp: maxManifestBytes_def)

lemma itoa_nat_length_bound: "n < 10000 \<Longrightarrow> length (itoa_nat n) \<le> 4"
  using itoa_nat_length [of n 4] by simp

lemma message_id_ok:
  assumes "validMessage m brokerMessageID"
  shows "qm_MessageID m \<noteq> []" "length (qm_MessageID m) \<le> 128" "controlFree (qm_MessageID m)"
proof -
  define i where "i = nat (bt_BatchIndex (qm_RecipientBatch m))"
  have i: "i < 10000" "itoa (bt_BatchIndex (qm_RecipientBatch m)) = itoa_nat i"
    using assms by (auto simp: validMessage_def validBatchReference_def i_def itoa_def)
  have id: "qm_MessageID m = qm_OperationID m @ '':'' @ itoa_nat i" "rmatch digestPattern (qm_OperationID m)"
    using assms i(2) unfolding validMessage_def by auto
  show "qm_MessageID m \<noteq> []" "length (qm_MessageID m) \<le> 128"
    using id itoa_nat_length_bound [OF i(1)] by (auto simp: digest_iff)
  have "list_all (\<lambda>c. \<not> (byte c < 0x20 \<or> byte c = 0x7f)) (itoa_nat i)"
    using itoa_nat_digits [of i] by (auto simp: list_all_iff char_class_defs)
  moreover have "list_all (\<lambda>c. \<not> (byte c < 0x20 \<or> byte c = 0x7f)) (qm_OperationID m)"
    using id(2) by (auto simp: list_all_iff char_class_defs digest_iff)
  ultimately show "controlFree (qm_MessageID m)" using id(1) by (simp add: controlFree_bytes)
qed

lemma dar_name:
  assumes "is_alnum c" "list_all repositoryChar s" "length s \<le> 122"
  shows "rmatch downloadNamePattern (c # s @ ''.dar'')"
proof -
  have "rmatch (RSeq (RCls is_alnum) (RSeq (rupto 122 (RCls repositoryChar))
      (RSeq (rlit ''.'') (RAlt (rlit ''dar'') (rlit ''zip''))))) ([c] @ s @ ''.'' @ ''dar'')"
    using assms by (intro rmatch_RSeqI) (simp_all add: rmatch_RCls rmatch_rupto_cls rmatch_rlit del: rlit.simps rmatch.simps)
  then show ?thesis by (simp add: downloadNamePattern_def del: rlit.simps rmatch.simps)
qed

section \<open>Application locations\<close>

definition segmentChar :: "char \<Rightarrow> bool" where
  "segmentChar c \<longleftrightarrow> pathChar c \<and> c \<noteq> CHR ''/''"

lemma segmentChar_alnum: "is_alnum c \<Longrightarrow> segmentChar c" "is_digit c \<Longrightarrow> segmentChar c"
  by (auto simp: segmentChar_def pathChar_def is_alnum_def char_class_defs)

lemma segmentChar_punct [simp]: "segmentChar CHR ''.''" "segmentChar CHR ''-''" "segmentChar CHR ''_''"
  by (simp_all add: segmentChar_def pathChar_def)

lemma segmentChar_letters:
  "segmentChar CHR ''v''" "segmentChar CHR ''d''" "segmentChar CHR ''a''" "segmentChar CHR ''r''"
  "segmentChar CHR ''z''" "segmentChar CHR ''i''" "segmentChar CHR ''p''" "segmentChar CHR ''0''"
  by (simp_all add: segmentChar_def pathChar_def char_class_defs)

lemma version_path: "rmatch releaseVersionPattern v \<Longrightarrow> list_all segmentChar v"
proof -
  have "rbytes releaseVersionPattern c \<Longrightarrow> segmentChar c" for c
    by (auto simp: releaseVersionPattern_def numericPart_def rbytes_unfold segmentChar_letters
        dest!: rbytes_dest intro: segmentChar_alnum)
  then show "rmatch releaseVersionPattern v \<Longrightarrow> list_all segmentChar v"
    using rmatch_bytes by (auto simp: list_all_iff)
qed

lemma download_path: "rmatch downloadNamePattern n \<Longrightarrow> list_all segmentChar n"
proof -
  have "rbytes downloadNamePattern c \<Longrightarrow> segmentChar c" for c
    by (auto simp: downloadNamePattern_def rbytes_unfold segmentChar_letters
        dest!: rbytes_dest intro: segmentChar_alnum)
  then show "rmatch downloadNamePattern n \<Longrightarrow> list_all segmentChar n"
    using rmatch_bytes by (auto simp: list_all_iff)
qed

lemma pathLetters: "list_all pathChar ''/v1/releases/''" "list_all pathChar ''/download/''"
  by (simp_all add: pathChar_def char_class_defs)

definition downloadPath :: "string \<Rightarrow> string \<Rightarrow> string" where
  "downloadPath v n = ''/v1/releases/'' @ v @ ''/download/'' @ n"

lemma downloadPath_parts:
  assumes "CHR ''/'' \<notin> set v" "CHR ''/'' \<notin> set n"
  shows "split CHR ''/'' (downloadPath v n) = [[], ''v1'', ''releases'', v, ''download'', n]"
proof -
  have "split CHR ''/'' (''/v1/releases/'' @ s) = [] # ''v1'' # ''releases'' # split CHR ''/'' s" for s by simp
  moreover have "split CHR ''/'' (''/download/'' @ n) = [[], ''download'', n]"
    using assms(2) by (simp add: split_no_sep)
  moreover have "split CHR ''/'' (v @ ''/download/'' @ n) = v # split CHR ''/'' (''download/'' @ n)"
    using split_append_sep [OF assms(1), of "''download/'' @ n"] by simp
  moreover have "split CHR ''/'' (''download/'' @ n) = [''download'', n]"
    using assms(2) by (simp add: split_no_sep)
  ultimately show ?thesis by (simp only: downloadPath_def)
qed

lemma application_url_ok:
  assumes "list_all dnsChar h" "hasSuffix h ''.azurecontainerapps.io'' \<or> hasSuffix h ''.example.internal''"
    and "rmatch releaseVersionPattern v" "rmatch downloadNamePattern n"
  shows "validApplicationURL (''https://'' @ h @ ''/v1/releases/'' @ v @ ''/download/'' @ n) v"
proof -
  have ni: "CHR ''/'' \<notin> set v" "CHR ''/'' \<notin> set n"
    using version_path [OF assms(3)] download_path [OF assms(4)] by (auto simp: list_all_iff segmentChar_def)
  have "list_all pathChar (downloadPath v n)"
    using version_path [OF assms(3)] download_path [OF assms(4)]
    pathLetters by (auto simp: downloadPath_def list_all_append segmentChar_def list_all_iff)
  then have u: "urlParse (''https://'' @ h @ downloadPath v n) =
      Some (emptyUrl\<lparr>u_scheme := ''https'', u_host := h, u_path := downloadPath v n\<rparr>)"
    by (rule urlParse_https [OF assms(1)]) (simp add: downloadPath_def)
  have "toLower h = h"
    using assms(1) dnsChar_facts by (intro toLower_id) (auto simp: ascii_def list_all_iff)
  moreover have "hostname (emptyUrl\<lparr>u_scheme := ''https'', u_host := h, u_path := p\<rparr>) = h"
    "urlPort (emptyUrl\<lparr>u_scheme := ''https'', u_host := h, u_path := p\<rparr>) = []" for p
    using hostname_dns [of "emptyUrl\<lparr>u_scheme := ''https'', u_host := h, u_path := p\<rparr>"] assms(1) by simp_all
  ultimately have "validApplicationURL (''https://'' @ h @ downloadPath v n) v"
    using u downloadPath_parts [OF ni] assms(2,4) by (simp add: validApplicationURL_def emptyUrl_def)
  then show ?thesis by (simp add: downloadPath_def)
qed

lemma example_url:
  "validApplicationURL ''https://app.example.internal/v1/releases/1.2.3/download/a.dar'' ''1.2.3''"
  "rmatch releaseVersionPattern ''1.2.3''" "rmatch downloadNamePattern ''a.dar''"
  "list_all dnsChar ''app.example.internal''" "hasSuffix ''app.example.internal'' ''.example.internal''"
proof -
  show h: "list_all dnsChar ''app.example.internal''" "hasSuffix ''app.example.internal'' ''.example.internal''"
    by (simp_all add: dnsChar_def char_class_defs hasSuffix_def)
  show v: "rmatch releaseVersionPattern ''1.2.3''"
    by (simp add: releaseVersionPattern_def numericPart_def ropt_def rplus_def char_class_defs)
  show n: "rmatch downloadNamePattern ''a.dar''"
    using dar_name [of "CHR ''a''" "[]"] by (simp add: char_class_defs)
  show "validApplicationURL ''https://app.example.internal/v1/releases/1.2.3/download/a.dar'' ''1.2.3''"
    using application_url_ok [OF h(1) _ v n] h(2) by simp
qed

text \<open>
  Every https location on a lower-case host below one of the two approved domains, with the
  download path of a well-formed release version and file name, is an approved application URL for
  that version.
\<close>

lemma validApplicationURL_accepts:
  assumes "list_all dnsChar h" "hasSuffix h ''.azurecontainerapps.io'' \<or> hasSuffix h ''.example.internal''"
    and "rmatch releaseVersionPattern v" "rmatch downloadNamePattern n"
  shows "validApplicationURL (''https://'' @ h @ ''/v1/releases/'' @ v @ ''/download/'' @ n) v"
  by (rule application_url_ok [OF assms])

end
