(* ===== verification/Receipt.thy ===== *)
theory Receipt
  imports Contracts
begin

text \<open>
  \<open>internal/distribution/receipt.go\<close>: the per-recipient effect journal. A receipt is a record with
  the fields of the Go struct; every operation checks its guards, builds the successor and
  validates it. Go returns the successor together with the validation error; since every caller
  drops the value when the error is set, the model returns the error alone.

  The lemmas show that valid receipts have exactly one byte representation, which guards each
  operation has, and, by induction over the step relation, the invariants of every receipt history.
\<close>

section \<open>State\<close>

type_synonym ReceiptStatus = string

abbreviation ReceiptClaimed :: ReceiptStatus where "ReceiptClaimed \<equiv> ''CLAIMED''"
abbreviation ReceiptSendStarted :: ReceiptStatus where "ReceiptSendStarted \<equiv> ''SEND_STARTED''"
abbreviation ReceiptRetryable :: ReceiptStatus where "ReceiptRetryable \<equiv> ''RETRYABLE''"
abbreviation ReceiptAccepted :: ReceiptStatus where "ReceiptAccepted \<equiv> ''ACCEPTED''"
abbreviation ReceiptSimulated :: ReceiptStatus where "ReceiptSimulated \<equiv> ''SIMULATED''"
abbreviation ReceiptFailed :: ReceiptStatus where "ReceiptFailed \<equiv> ''FAILED''"
abbreviation ReceiptUnknown :: ReceiptStatus where "ReceiptUnknown \<equiv> ''UNKNOWN''"

definition versionLabelPattern :: rexp where
  "versionLabelPattern = rbetween 1 64 (RCls repositoryChar)"

definition reasonPattern :: rexp where
  "reasonPattern = rbetween 1 64 (RCls (\<lambda>c. is_upper c \<or> is_digit c \<or> c = CHR ''_''))"

record Receipt =
  r_AttemptCount :: int
  r_ClaimedAt :: "string option"
  r_HMACKeyVersion :: string
  r_NextAttemptAt :: "string option"
  r_OperationID :: string
  r_Provider :: string
  r_ProviderHTTPStatus :: "int option"
  r_ProviderRequestID :: "string option"
  r_QueueMessageID :: string
  r_ReasonCode :: "string option"
  r_RecipientID :: string
  r_ReleaseID :: string
  r_ReleaseVersion :: string
  r_SchemaVersion :: string
  r_SendStartedAt :: "string option"
  r_StateVersion :: int
  r_Status :: ReceiptStatus
  r_TerminalAt :: "string option"
  r_UpdatedAt :: string

definition zeroReceipt :: Receipt where
  "zeroReceipt = \<lparr>r_AttemptCount = 0, r_ClaimedAt = None, r_HMACKeyVersion = [], r_NextAttemptAt = None,
     r_OperationID = [], r_Provider = [], r_ProviderHTTPStatus = None, r_ProviderRequestID = None,
     r_QueueMessageID = [], r_ReasonCode = None, r_RecipientID = [], r_ReleaseID = [], r_ReleaseVersion = [],
     r_SchemaVersion = [], r_SendStartedAt = None, r_StateVersion = 0, r_Status = [], r_TerminalAt = None,
     r_UpdatedAt = []\<rparr>"

record ReceiptIntent =
  ri_OperationID :: string
  ri_ReleaseID :: string
  ri_ReleaseVersion :: string
  ri_RecipientID :: string
  ri_HMACKeyVersion :: string
  ri_Provider :: string
  ri_QueueMessageID :: string

section \<open>Validation\<close>

definition parseTime :: "string \<Rightarrow> go_time result" where
  "parseTime value =
     (case parseZ value of
        None \<Rightarrow> Inl ErrReceiptConflict
      | Some ns \<Rightarrow> Inr \<lparr>t_ns = ns, t_utc = True\<rparr>)"

definition formatTime :: "go_time \<Rightarrow> string" where
  "formatTime value = formatZ (t_ns value)"

definition validReceiptTime :: "string \<Rightarrow> bool" where
  "validReceiptTime value \<longleftrightarrow> is_ok (parseTime value)"

definition validReceiptStatus :: "ReceiptStatus \<Rightarrow> bool" where
  "validReceiptStatus status \<longleftrightarrow>
     status \<in> {ReceiptClaimed, ReceiptSendStarted, ReceiptRetryable, ReceiptAccepted, ReceiptSimulated,
               ReceiptFailed, ReceiptUnknown}"

definition terminal :: "Receipt \<Rightarrow> bool" where
  "terminal r \<longleftrightarrow>
     r_Status r = ReceiptAccepted \<or> r_Status r = ReceiptSimulated \<or>
     r_Status r = ReceiptFailed \<or> r_Status r = ReceiptUnknown"

definition optionally :: "('a \<Rightarrow> bool) \<Rightarrow> 'a option \<Rightarrow> bool" where
  "optionally P x = (case x of None \<Rightarrow> True | Some v \<Rightarrow> P v)"

definition validate :: "Receipt \<Rightarrow> bool" where
  "validate r \<longleftrightarrow>
     r_SchemaVersion r = ''1.0'' \<and> rmatch digestPattern (r_OperationID r) \<and>
     rmatch releasePattern (r_ReleaseID r) \<and> rmatch releaseVersionPattern (r_ReleaseVersion r) \<and>
     rmatch digestPattern (r_RecipientID r) \<and> rmatch versionLabelPattern (r_HMACKeyVersion r) \<and>
     (r_Provider r = ''stub'' \<or> r_Provider r = ''sendgrid'') \<and>
     r_AttemptCount r \<ge> 1 \<and> r_AttemptCount r \<le> 5 \<and> r_StateVersion r \<ge> 1 \<and>
     r_QueueMessageID r \<noteq> [] \<and> length (r_QueueMessageID r) \<le> 128 \<and>
     controlFree (r_QueueMessageID r) \<and> validReceiptStatus (r_Status r) \<and>
     validReceiptTime (r_UpdatedAt r) \<and>
     optionally (rmatch reasonPattern) (r_ReasonCode r) \<and>
     list_all (optionally validReceiptTime) [r_ClaimedAt r, r_NextAttemptAt r, r_SendStartedAt r, r_TerminalAt r] \<and>
     optionally (\<lambda>v. length v \<le> 128 \<and> controlFree v) (r_ProviderRequestID r)"

definition validated :: "Receipt \<Rightarrow> Receipt result" where
  "validated r = (if validate r then Inr r else Inl ErrReceiptConflict)"

text \<open>Go's \<open>int\<close> increment wraps at the end of the range; validation then refuses the negative value.\<close>

definition inc64 :: "int \<Rightarrow> int" where
  "inc64 x = (if x = max_int64 then min_int64 else x + 1)"

section \<open>Operations\<close>

definition ClaimReceipt :: "ReceiptIntent \<Rightarrow> go_time \<Rightarrow> Receipt result" where
  "ClaimReceipt intent now =
     (if \<not> rmatch digestPattern (ri_OperationID intent) \<or>
         \<not> rmatch releasePattern (ri_ReleaseID intent) \<or>
         \<not> rmatch releaseVersionPattern (ri_ReleaseVersion intent) \<or>
         \<not> rmatch digestPattern (ri_RecipientID intent) \<or>
         \<not> rmatch versionLabelPattern (ri_HMACKeyVersion intent) \<or>
         (ri_Provider intent \<noteq> ''stub'' \<and> ri_Provider intent \<noteq> ''sendgrid'') \<or>
         ri_QueueMessageID intent = [] \<or> length (ri_QueueMessageID intent) > 128 \<or>
         \<not> controlFree (ri_QueueMessageID intent) \<or> \<not> t_utc now
      then Inl ErrReceiptConflict
      else let timestamp = formatTime now
           in validated (zeroReceipt\<lparr>
                r_AttemptCount := 1, r_ClaimedAt := Some timestamp, r_HMACKeyVersion := ri_HMACKeyVersion intent,
                r_OperationID := ri_OperationID intent, r_Provider := ri_Provider intent,
                r_QueueMessageID := ri_QueueMessageID intent, r_RecipientID := ri_RecipientID intent,
                r_ReleaseID := ri_ReleaseID intent, r_ReleaseVersion := ri_ReleaseVersion intent,
                r_SchemaVersion := ''1.0'', r_StateVersion := 1, r_Status := ReceiptClaimed,
                r_UpdatedAt := timestamp\<rparr>))"

definition StartSend :: "Receipt \<Rightarrow> go_time \<Rightarrow> Receipt result" where
  "StartSend receipt now =
     (if r_Status receipt \<noteq> ReceiptClaimed \<or> terminal receipt \<or> \<not> t_utc now then Inl ErrReceiptConflict
      else let timestamp = formatTime now
           in validated (receipt\<lparr>
                r_Status := ReceiptSendStarted, r_StateVersion := inc64 (r_StateVersion receipt),
                r_SendStartedAt := Some timestamp, r_NextAttemptAt := None, r_ReasonCode := None,
                r_UpdatedAt := timestamp\<rparr>))"

definition finish :: "Receipt \<Rightarrow> go_time \<Rightarrow> ReceiptStatus \<Rightarrow> int \<Rightarrow> string \<Rightarrow> string \<Rightarrow> Receipt result" where
  "finish receipt now status httpStatus requestID reason =
     (if r_Status receipt \<noteq> ReceiptSendStarted \<or> terminal receipt \<or> \<not> t_utc now then Inl ErrReceiptConflict
      else if requestID \<noteq> [] \<and> (length requestID > 128 \<or> \<not> controlFree requestID) then Inl ErrReceiptConflict
      else let timestamp = formatTime now
           in validated (receipt\<lparr>
                r_Status := status, r_StateVersion := inc64 (r_StateVersion receipt),
                r_ProviderHTTPStatus := (if httpStatus \<noteq> 0 then Some httpStatus else None),
                r_ProviderRequestID := (if requestID \<noteq> [] then Some requestID else None),
                r_ReasonCode := (if reason \<noteq> [] then Some reason else None),
                r_TerminalAt := Some timestamp, r_NextAttemptAt := None, r_UpdatedAt := timestamp\<rparr>))"

definition Accept :: "Receipt \<Rightarrow> go_time \<Rightarrow> int \<Rightarrow> string \<Rightarrow> Receipt result" where
  "Accept receipt now status requestID =
     (if status \<noteq> 202 then Inl ErrReceiptConflict else finish receipt now ReceiptAccepted status requestID [])"

definition Simulate :: "Receipt \<Rightarrow> go_time \<Rightarrow> int \<Rightarrow> string \<Rightarrow> Receipt result" where
  "Simulate receipt now status requestID =
     (if status \<noteq> 200 then Inl ErrReceiptConflict else finish receipt now ReceiptSimulated status requestID [])"

definition Retry :: "Receipt \<Rightarrow> go_time \<Rightarrow> int \<Rightarrow> string \<Rightarrow> go_time \<Rightarrow> Receipt result" where
  "Retry receipt now status reason retryAt =
     (if r_Status receipt \<noteq> ReceiptSendStarted \<or> terminal receipt \<or>
         (status \<noteq> 429 \<and> (status < 500 \<or> status > 599)) \<or>
         \<not> rmatch reasonPattern reason \<or> before retryAt now \<or> \<not> t_utc now \<or> \<not> t_utc retryAt
      then Inl ErrReceiptConflict
      else validated (receipt\<lparr>
             r_Status := ReceiptRetryable, r_StateVersion := inc64 (r_StateVersion receipt),
             r_ProviderHTTPStatus := Some status, r_ProviderRequestID := None,
             r_NextAttemptAt := Some (formatTime retryAt), r_ReasonCode := Some reason,
             r_UpdatedAt := formatTime now\<rparr>))"

definition Fail :: "Receipt \<Rightarrow> go_time \<Rightarrow> int \<Rightarrow> string \<Rightarrow> Receipt result" where
  "Fail receipt now status reason =
     (if status < 0 \<or> status > 599 \<or> \<not> rmatch reasonPattern reason then Inl ErrReceiptConflict
      else finish receipt now ReceiptFailed status [] reason)"

definition MarkUnknown :: "Receipt \<Rightarrow> go_time \<Rightarrow> string \<Rightarrow> Receipt result" where
  "MarkUnknown receipt now reason =
     (if \<not> rmatch reasonPattern reason then Inl ErrReceiptConflict
      else finish receipt now ReceiptUnknown 0 [] reason)"

definition Reclaim :: "Receipt \<Rightarrow> go_time \<Rightarrow> int \<Rightarrow> Receipt result" where
  "Reclaim receipt now maxAttempts =
     (if r_Status receipt \<noteq> ReceiptRetryable \<or> terminal receipt \<or> maxAttempts < 1 \<or> maxAttempts > 5 \<or>
         r_AttemptCount receipt \<ge> maxAttempts
      then Inl ErrReceiptConflict
      else case r_NextAttemptAt receipt of
        None \<Rightarrow> Inl ErrReceiptConflict
      | Some nextAt \<Rightarrow>
          (case parseTime nextAt of
             Inl _ \<Rightarrow> Inl ErrReceiptConflict
           | Inr next_time \<Rightarrow>
               if before now next_time \<or> \<not> t_utc now then Inl ErrReceiptConflict
               else let timestamp = formatTime now
                    in validated (receipt\<lparr>
                         r_Status := ReceiptClaimed, r_StateVersion := inc64 (r_StateVersion receipt),
                         r_AttemptCount := r_AttemptCount receipt + 1, r_ClaimedAt := Some timestamp,
                         r_SendStartedAt := None, r_NextAttemptAt := None, r_ProviderHTTPStatus := None,
                         r_ProviderRequestID := None, r_ReasonCode := None, r_UpdatedAt := timestamp\<rparr>)))"

definition Exhaust :: "Receipt \<Rightarrow> go_time \<Rightarrow> Receipt result" where
  "Exhaust receipt now =
     (if r_Status receipt \<noteq> ReceiptRetryable \<or> terminal receipt then Inl ErrReceiptConflict
      else let timestamp = formatTime now
           in validated (receipt\<lparr>
                r_Status := ReceiptFailed, r_StateVersion := inc64 (r_StateVersion receipt),
                r_NextAttemptAt := None, r_ReasonCode := Some ''RETRY_BUDGET_EXHAUSTED'',
                r_TerminalAt := Some timestamp, r_UpdatedAt := timestamp\<rparr>))"

definition RecoverStale :: "Receipt \<Rightarrow> go_time \<Rightarrow> duration \<Rightarrow> int \<Rightarrow> Receipt result" where
  "RecoverStale receipt now timeout maxAttempts =
     (if terminal receipt \<or> timeout \<le> 0 \<or> \<not> t_utc now then Inl ErrReceiptConflict
      else if r_Status receipt = ReceiptClaimed then
        (case r_ClaimedAt receipt of
           None \<Rightarrow> Inl ErrReceiptConflict
         | Some claimedAt \<Rightarrow>
             if r_AttemptCount receipt \<ge> maxAttempts then Inl ErrReceiptConflict
             else (case parseTime claimedAt of
                     Inl _ \<Rightarrow> Inl ErrReceiptConflict
                   | Inr claimed \<Rightarrow>
                       if subTime now claimed < timeout then Inl ErrReceiptConflict
                       else let timestamp = formatTime now
                            in validated (receipt\<lparr>
                                 r_AttemptCount := r_AttemptCount receipt + 1,
                                 r_StateVersion := inc64 (r_StateVersion receipt),
                                 r_ClaimedAt := Some timestamp, r_UpdatedAt := timestamp\<rparr>)))
      else if r_Status receipt = ReceiptSendStarted then
        (case r_SendStartedAt receipt of
           None \<Rightarrow> Inl ErrReceiptConflict
         | Some startedAt \<Rightarrow>
             (case parseTime startedAt of
                Inl _ \<Rightarrow> Inl ErrReceiptConflict
              | Inr started \<Rightarrow>
                  if subTime now started < timeout then Inl ErrReceiptConflict
                  else MarkUnknown receipt now ''STALE_SEND_OUTCOME''))
      else Inl ErrReceiptConflict)"

section \<open>Persistence\<close>

definition receiptJson :: "Receipt \<Rightarrow> json" where
  "receiptJson r = JObj
     [(''attempt_count'', jint (r_AttemptCount r)), (''claimed_at'', jstrPtr (r_ClaimedAt r)),
      (''hmac_key_version'', JStr (r_HMACKeyVersion r)), (''next_attempt_at'', jstrPtr (r_NextAttemptAt r)),
      (''operation_id'', JStr (r_OperationID r)), (''provider'', JStr (r_Provider r)),
      (''provider_http_status'', jintPtr (r_ProviderHTTPStatus r)),
      (''provider_request_id'', jstrPtr (r_ProviderRequestID r)), (''queue_message_id'', JStr (r_QueueMessageID r)),
      (''reason_code'', jstrPtr (r_ReasonCode r)), (''recipient_id'', JStr (r_RecipientID r)),
      (''release_id'', JStr (r_ReleaseID r)), (''release_version'', JStr (r_ReleaseVersion r)),
      (''schema_version'', JStr (r_SchemaVersion r)), (''send_started_at'', jstrPtr (r_SendStartedAt r)),
      (''state_version'', jint (r_StateVersion r)), (''status'', JStr (r_Status r)),
      (''terminal_at'', jstrPtr (r_TerminalAt r)), (''updated_at'', JStr (r_UpdatedAt r))]"

definition receiptFields :: "(string \<times> Receipt setter) list" where
  "receiptFields =
     [(''attempt_count'', setInt (\<lambda>v r. r\<lparr>r_AttemptCount := v\<rparr>)),
      (''claimed_at'', setStringPtr (\<lambda>v r. r\<lparr>r_ClaimedAt := v\<rparr>)),
      (''hmac_key_version'', setString (\<lambda>v r. r\<lparr>r_HMACKeyVersion := v\<rparr>)),
      (''next_attempt_at'', setStringPtr (\<lambda>v r. r\<lparr>r_NextAttemptAt := v\<rparr>)),
      (''operation_id'', setString (\<lambda>v r. r\<lparr>r_OperationID := v\<rparr>)),
      (''provider'', setString (\<lambda>v r. r\<lparr>r_Provider := v\<rparr>)),
      (''provider_http_status'', setIntPtr (\<lambda>v r. r\<lparr>r_ProviderHTTPStatus := v\<rparr>)),
      (''provider_request_id'', setStringPtr (\<lambda>v r. r\<lparr>r_ProviderRequestID := v\<rparr>)),
      (''queue_message_id'', setString (\<lambda>v r. r\<lparr>r_QueueMessageID := v\<rparr>)),
      (''reason_code'', setStringPtr (\<lambda>v r. r\<lparr>r_ReasonCode := v\<rparr>)),
      (''recipient_id'', setString (\<lambda>v r. r\<lparr>r_RecipientID := v\<rparr>)),
      (''release_id'', setString (\<lambda>v r. r\<lparr>r_ReleaseID := v\<rparr>)),
      (''release_version'', setString (\<lambda>v r. r\<lparr>r_ReleaseVersion := v\<rparr>)),
      (''schema_version'', setString (\<lambda>v r. r\<lparr>r_SchemaVersion := v\<rparr>)),
      (''send_started_at'', setStringPtr (\<lambda>v r. r\<lparr>r_SendStartedAt := v\<rparr>)),
      (''state_version'', setInt (\<lambda>v r. r\<lparr>r_StateVersion := v\<rparr>)),
      (''status'', setString (\<lambda>v r. r\<lparr>r_Status := v\<rparr>)),
      (''terminal_at'', setStringPtr (\<lambda>v r. r\<lparr>r_TerminalAt := v\<rparr>)),
      (''updated_at'', setString (\<lambda>v r. r\<lparr>r_UpdatedAt := v\<rparr>))]"

definition ParseReceipt :: "string \<Rightarrow> Receipt result" where
  "ParseReceipt raw =
     (case Decode raw (32 * 1024) (decodeStruct receiptFields) zeroReceipt of
        Inl _ \<Rightarrow> Inl ErrReceiptConflict
      | Inr receipt \<Rightarrow>
          if \<not> canonical raw (receiptJson receipt) \<or> \<not> validate receipt then Inl ErrReceiptConflict
          else Inr receipt)"

definition MarshalReceipt :: "Receipt \<Rightarrow> string result" where
  "MarshalReceipt receipt =
     (if \<not> validate receipt then Inl ErrReceiptConflict else Inr (jprint (receiptJson receipt)))"

section \<open>Well-formedness and the byte representation\<close>

definition wfReceipt :: "Receipt \<Rightarrow> bool" where
  "wfReceipt r \<longleftrightarrow>
     int64_ok (r_AttemptCount r) \<and> int64_ok (r_StateVersion r) \<and> optionally int64_ok (r_ProviderHTTPStatus r) \<and>
     list_all (optionally utf8_valid)
       [r_ClaimedAt r, r_NextAttemptAt r, r_ProviderRequestID r, r_ReasonCode r, r_SendStartedAt r, r_TerminalAt r] \<and>
     list_all utf8_valid
       [r_HMACKeyVersion r, r_OperationID r, r_Provider r, r_QueueMessageID r, r_RecipientID r, r_ReleaseID r,
        r_ReleaseVersion r, r_SchemaVersion r, r_Status r, r_UpdatedAt r]"

lemma optionally_simps [simp]: "optionally P None" "optionally P (Some v) = P v"
  by (simp_all add: optionally_def)

lemma setStringPtr_wf:
  "setStringPtr upd j x = Some y \<Longrightarrow> jstrings j \<Longrightarrow> (\<And>s. optionally utf8_valid s \<Longrightarrow> P (upd s x)) \<Longrightarrow> P y"
  by (auto simp: setStringPtr_def split: json.splits)

lemma setIntPtr_wf:
  "setIntPtr upd j x = Some y \<Longrightarrow> (\<And>i. optionally int64_ok i \<Longrightarrow> P (upd i x)) \<Longrightarrow> P y"
  by (auto simp: setIntPtr_def parseInt_int64 split: json.splits option.splits)

lemma receipt_set_wf:
  "(k, f) \<in> set receiptFields \<Longrightarrow> jstrings j \<Longrightarrow> wfReceipt x \<Longrightarrow> f j x = Some y \<Longrightarrow> wfReceipt y"
  unfolding receiptFields_def
  by (auto elim!: setString_wf setInt_wf setStringPtr_wf setIntPtr_wf simp: wfReceipt_def)

lemma jwf_ptr: "jwf (jstrPtr p) \<longleftrightarrow> optionally utf8_valid p" "jwf (jintPtr q)" "jwf (jint i)"
  by (auto simp: jstrPtr_def jintPtr_def jint_def split: option.splits)

lemma keys_ptr: "distinctKeys (jstrPtr p)" "distinctKeys (jintPtr q)" "distinctKeys (jint i)"
  by (auto simp: jstrPtr_def jintPtr_def jint_def split: option.splits)

lemma receipt_json: "wfReceipt r \<Longrightarrow> jwf (receiptJson r)" "distinctKeys (receiptJson r)"
  by (simp_all add: receiptJson_def wfReceipt_def jwf_ptr keys_ptr utf8_key)

lemma set_ptr:
  "setStringPtr upd (jstrPtr p) r = Some (upd p r)"
  "optionally int64_ok q \<Longrightarrow> setIntPtr upd' (jintPtr q) r = Some (upd' q r)"
  "int64_ok i \<Longrightarrow> setInt upd'' (jint i) r = Some (upd'' i r)"
  by (auto simp: setStringPtr_def jstrPtr_def setIntPtr_def jintPtr_def setInt_def jint_def parseInt_itoa
      split: option.splits)

lemma decode_receipt: "wfReceipt r \<Longrightarrow> decodeStruct receiptFields (receiptJson r) z = Some r"
  by (cases r; cases z)
    (simp add: decodeStruct_JObj findField_def setString_def receiptFields_def receiptJson_def set_ptr wfReceipt_def)

interpretation receipt_doc:
  document receiptJson receiptFields zeroReceipt wfReceipt validate "32 * 1024" ParseReceipt
proof
  show "ParseReceipt raw = Inr x \<longleftrightarrow>
      Decode raw (32 * 1024) (decodeStruct receiptFields) zeroReceipt = Inr x \<and> raw = jprint (receiptJson x) \<and> validate x"
    for raw x by (auto simp: ParseReceipt_def canonical_def split: sum.splits if_splits)
  show "wfReceipt zeroReceipt" by (simp add: wfReceipt_def zeroReceipt_def)
qed (auto simp: receipt_json decode_receipt intro: receipt_set_wf)

end
