(* ===== verification/Effects.thy ===== *)
theory Effects
  imports Receipt
begin

text \<open>
  The worker as a program with effects. A value of type \<open>'a eff\<close> is the tree of what the code does:
  each node is one call that leaves the process (clock, Azure Blob request, mail provider, audit
  log) with a continuation for every reply. \<open>Storage\<close> and \<open>Worker\<close> build such trees from the Go
  code; \<open>Fleet\<close> runs many of them interleaved against one blob service.

  \<open>wp\<close> is the weakest precondition of a tree over a ghost state: which blob contents the thread has
  seen and which send it has earned. It says which requests a well-behaved thread may make.
\<close>

section \<open>Messages to and from the outside\<close>

datatype az_error = AzCanceled | AzDeadline | AzStatus int

type_synonym metadata = "(string \<times> string option) list"

record az_response =
  ar_Body :: "reader option"
  ar_ContentLength :: "int option"
  ar_VersionID :: "string option"
  ar_ETag :: "string option"
  ar_Metadata :: metadata

datatype dl_reply = VersionRejected | DlFailed az_error | DlOk az_response

text \<open>Write preconditions: the blob is absent (\<open>If-None-Match: *\<close>) or has this ETag (\<open>If-Match\<close>).\<close>

datatype condition = IfAbsent | IfMatch string

record MailResult =
  mr_Outcome :: string
  mr_HTTPStatus :: int
  mr_RequestID :: string
  mr_ReasonCode :: string
  mr_RetryAfter :: duration

abbreviation MailAccepted :: string where "MailAccepted \<equiv> ''ACCEPTED''"
abbreviation MailSimulated :: string where "MailSimulated \<equiv> ''SIMULATED''"
abbreviation MailRetryable :: string where "MailRetryable \<equiv> ''RETRYABLE''"
abbreviation MailPermanent :: string where "MailPermanent \<equiv> ''PERMANENT_FAILURE''"
abbreviation MailUnknown :: string where "MailUnknown \<equiv> ''UNKNOWN''"

record Notification =
  n_OperationID :: string
  n_ReleaseID :: string
  n_ReleaseVersion :: string
  n_RecipientID :: string
  n_FirstName :: string
  n_LastName :: string
  n_Email :: string
  n_ApplicationURL :: string

record AuditEvent =
  ae_EventName :: string
  ae_OccurredAt :: string
  ae_OperationID :: string
  ae_ReleaseID :: string
  ae_ReleaseVersion :: string
  ae_RecipientID :: string
  ae_HMACKeyVersion :: string
  ae_QueueMessageID :: string
  ae_Provider :: string
  ae_ReceiptStatus :: ReceiptStatus
  ae_ReceiptStateVersion :: int
  ae_AttemptCount :: int
  ae_ProviderHTTPStatus :: int
  ae_ReasonCode :: string

section \<open>Effect trees\<close>

datatype 'a eff =
    Ret 'a
  | Now "go_time \<Rightarrow> 'a eff"
  | DlVersion string string string "dl_reply \<Rightarrow> 'a eff"
  | DlBlob string "dl_reply \<Rightarrow> 'a eff"
  | UpBlob string string metadata condition "az_error option \<Rightarrow> 'a eff"
  | SendMail Notification "MailResult \<Rightarrow> 'a eff"
  | Emit AuditEvent "'a eff"

primrec bindE :: "'a eff \<Rightarrow> ('a \<Rightarrow> 'b eff) \<Rightarrow> 'b eff" where
  "bindE (Ret x) f = f x"
| "bindE (Now k) f = Now (\<lambda>t. bindE (k t) f)"
| "bindE (DlVersion c n v k) f = DlVersion c n v (\<lambda>r. bindE (k r) f)"
| "bindE (DlBlob p k) f = DlBlob p (\<lambda>r. bindE (k r) f)"
| "bindE (UpBlob p b m c k) f = UpBlob p b m c (\<lambda>r. bindE (k r) f)"
| "bindE (SendMail n k) f = SendMail n (\<lambda>r. bindE (k r) f)"
| "bindE (Emit e t) f = Emit e (bindE t f)"

definition perform_Now :: "go_time eff" where "perform_Now = Now Ret"
definition perform_DlVersion :: "string \<Rightarrow> string \<Rightarrow> string \<Rightarrow> dl_reply eff" where
  "perform_DlVersion c n v = DlVersion c n v Ret"
definition perform_DlBlob :: "string \<Rightarrow> dl_reply eff" where "perform_DlBlob p = DlBlob p Ret"
definition perform_UpBlob :: "string \<Rightarrow> string \<Rightarrow> metadata \<Rightarrow> condition \<Rightarrow> az_error option eff" where
  "perform_UpBlob p b m c = UpBlob p b m c Ret"
definition perform_SendMail :: "Notification \<Rightarrow> MailResult eff" where "perform_SendMail n = SendMail n Ret"
definition perform_Emit :: "AuditEvent \<Rightarrow> unit eff" where "perform_Emit e = Emit e (Ret ())"

lemmas perform_defs = perform_Now_def perform_DlVersion_def perform_DlBlob_def perform_UpBlob_def
  perform_SendMail_def perform_Emit_def

lemma bindE_Ret_right [simp]: "bindE t Ret = t"
  by (induction t) auto

lemma bindE_assoc: "bindE (bindE t f) g = bindE t (\<lambda>x. bindE (f x) g)"
  by (induction t) auto

section \<open>Weakest preconditions\<close>

text \<open>
  The ghost state of a thread: the blob contents it has read (path, ETag, body) and the path for
  which its last successful write started a send that it has not made yet.
\<close>

record ghost =
  g_known :: "(string \<times> string \<times> string) set"
  g_token :: "string option"

text \<open>What a read reveals: the whole body, as far as the reply carries it without an error.\<close>

definition revealed :: "dl_reply \<Rightarrow> (string \<times> string) option" where
  "revealed reply =
     (case reply of
        DlOk a \<Rightarrow>
          (case (ar_Body a, ar_ETag a) of
             (Some (content, None), Some e) \<Rightarrow> Some (e, content)
           | _ \<Rightarrow> None)
      | _ \<Rightarrow> None)"

definition learn :: "string \<Rightarrow> dl_reply \<Rightarrow> ghost \<Rightarrow> ghost" where
  "learn p reply g =
     (case revealed reply of
        None \<Rightarrow> g
      | Some (e, content) \<Rightarrow> g\<lparr>g_known := insert (p, e, content) (g_known g)\<rparr>)"

text \<open>The contract of a receipt write: a first claim, or one step of the state machine.\<close>

definition firstClaim :: "Receipt \<Rightarrow> bool" where
  "firstClaim r \<longleftrightarrow> r_Status r = ReceiptClaimed \<and> r_AttemptCount r = 1 \<and> r_StateVersion r = 1"

text \<open>
  \<open>advances m r r'\<close>: from \<open>r\<close> a worker with attempt budget \<open>m\<close> may go to \<open>r'\<close>; attempts grow only
  below the budget and never at the start of a send.
\<close>

definition advances :: "int \<Rightarrow> Receipt \<Rightarrow> Receipt \<Rightarrow> bool" where
  "advances m r r' \<longleftrightarrow>
     r_StateVersion r' = r_StateVersion r + 1 \<and>
     ((r_Status r = ReceiptClaimed \<and> r_Status r' = ReceiptSendStarted \<and> r_AttemptCount r' = r_AttemptCount r) \<or>
      (r_Status r = ReceiptClaimed \<and> r_Status r' = ReceiptClaimed \<and> r_AttemptCount r' = r_AttemptCount r + 1 \<and>
         r_AttemptCount r < m) \<or>
      (r_Status r = ReceiptSendStarted \<and> r_AttemptCount r' = r_AttemptCount r \<and>
         (terminal r' \<or> r_Status r' = ReceiptRetryable)) \<or>
      (r_Status r = ReceiptRetryable \<and> r_Status r' = ReceiptClaimed \<and> r_AttemptCount r' = r_AttemptCount r + 1 \<and>
         r_AttemptCount r < m) \<or>
      (r_Status r = ReceiptRetryable \<and> r_Status r' = ReceiptFailed \<and> r_AttemptCount r' = r_AttemptCount r))"

definition writeAllowed :: "int \<Rightarrow> ghost \<Rightarrow> string \<Rightarrow> string \<Rightarrow> condition \<Rightarrow> bool" where
  "writeAllowed m g p body cond \<longleftrightarrow>
     (\<exists>r'. body = jprint (receiptJson r') \<and> validate r' \<and>
        (case cond of
           IfAbsent \<Rightarrow> firstClaim r'
         | IfMatch e \<Rightarrow> (\<exists>old r. (p, e, old) \<in> g_known g \<and> ParseReceipt old = Inr r \<and> advances m r r')))"

definition startsSend :: "string \<Rightarrow> bool" where
  "startsSend body \<longleftrightarrow> (\<exists>r. body = jprint (receiptJson r) \<and> r_Status r = ReceiptSendStarted)"

definition earn :: "string \<Rightarrow> string \<Rightarrow> az_error option \<Rightarrow> ghost \<Rightarrow> ghost" where
  "earn p body reply g = (if reply = None \<and> startsSend body then g\<lparr>g_token := Some p\<rparr> else g)"

text \<open>The receipt path of a notification under one key version.\<close>

definition receiptPath :: "string \<Rightarrow> string \<Rightarrow> string \<Rightarrow> string \<Rightarrow> string" where
  "receiptPath releaseID operationID keyVersion recipientID =
     releaseID @ ''/'' @ operationID @ ''/'' @ keyVersion @ ''/'' @ recipientID @ ''.json''"

definition notificationPath :: "string \<Rightarrow> Notification \<Rightarrow> string" where
  "notificationPath kv n = receiptPath (n_ReleaseID n) (n_OperationID n) kv (n_RecipientID n)"

primrec wp :: "int \<Rightarrow> string \<Rightarrow> 'a eff \<Rightarrow> (ghost \<Rightarrow> 'a \<Rightarrow> bool) \<Rightarrow> ghost \<Rightarrow> bool" where
  "wp m kv (Ret x) Q g = Q g x"
| "wp m kv (Now k) Q g = (\<forall>t. wp m kv (k t) Q g)"
| "wp m kv (DlVersion c n v k) Q g = (\<forall>r. wp m kv (k r) Q g)"
| "wp m kv (DlBlob p k) Q g = (\<forall>r. wp m kv (k r) Q (learn p r g))"
| "wp m kv (UpBlob p b md c k) Q g = (writeAllowed m g p b c \<and> (\<forall>r. wp m kv (k r) Q (earn p b r g)))"
| "wp m kv (SendMail n k) Q g =
     (g_token g = Some (notificationPath kv n) \<and> (\<forall>r. wp m kv (k r) Q (g\<lparr>g_token := None\<rparr>)))"
| "wp m kv (Emit e t) Q g = wp m kv t Q g"

lemma wp_bindE: "wp m kv (bindE t f) Q g = wp m kv t (\<lambda>g' x. wp m kv (f x) Q g') g"
  by (induction t arbitrary: g) simp_all

lemma wp_mono: "wp m kv t Q g \<Longrightarrow> (\<And>g x. Q g x \<Longrightarrow> Q' g x) \<Longrightarrow> wp m kv t Q' g"
  by (induction t arbitrary: g) auto

end
