(* ===== verification/PubTree.thy ===== *)
theory PubTree
  imports Effects
begin

text \<open>
  The release publisher as a program with effects. A value of type \<open>'a pub\<close> is the tree of what the publisher does:
  each node is one call that leaves the process (file system, Azure Blob request, Service Bus send), with a
  continuation for every reply. \<open>execP\<close> says which event sequences a tree allows under any behaviour of the
  environment; \<open>runP\<close> runs it against a file system and a versioned blob service that answer every request.
\<close>

section \<open>Replies\<close>

record fileInfo =
  fi_Size :: int
  fi_IsDir :: bool
  fi_IsRegular :: bool
  fi_IsSymlink :: bool

record dirEntry =
  de_Name :: string
  de_IsDir :: bool
  de_IsRegular :: bool
  de_IsSymlink :: bool

text \<open>
  A member of a ZIP archive as \<open>archive/zip\<close> presents it: the fields of its header, and what opening it yields (the
  stream, and whether closing it reports an error).
\<close>

record zipMember =
  zm_Name :: string
  zm_Flags :: "16 word"
  zm_Method :: "16 word"
  zm_CreatorVersion :: "16 word"
  zm_ExternalAttrs :: "32 word"
  zm_UncompressedSize :: "32 word"
  zm_UncompressedSize64 :: "64 word"
  zm_Open :: "(reader \<times> bool) option"

record blobProperties =
  gp_ETag :: "string option"
  gp_VersionID :: "string option"
  gp_ContentLength :: "int option"
  gp_Metadata :: metadata

record uploadRequest =
  up_Container :: string
  up_Name :: string
  up_Body :: reader
  up_ContentType :: string
  up_Metadata :: metadata
  up_Condition :: condition

record uploadResponse =
  ur_ETag :: "string option"
  ur_VersionID :: "string option"

record busMessage =
  bm_Body :: string
  bm_ContentType :: string
  bm_MessageID :: string
  bm_Subject :: string

section \<open>Trees\<close>

text \<open>
  \<open>ReadFile\<close> opens a file and reads it to its end; \<open>DownloadBlob\<close> is answered by the body of the response;
  \<open>Enqueue\<close> by whether the send failed.
\<close>

datatype 'a pub =
    Finish 'a
  | Getwd "string option \<Rightarrow> 'a pub"
  | EvalSymlinks string "string option \<Rightarrow> 'a pub"
  | StatFile string "fileInfo option \<Rightarrow> 'a pub"
  | LstatFile string "fileInfo option \<Rightarrow> 'a pub"
  | ReadDir string "dirEntry list option \<Rightarrow> 'a pub"
  | OpenZip string "zipMember list option \<Rightarrow> 'a pub"
  | ReadFile string "reader option \<Rightarrow> 'a pub"
  | GetProperties string string "az_error + blobProperties \<Rightarrow> 'a pub"
  | DownloadBlob string string "az_error + reader option \<Rightarrow> 'a pub"
  | Upload uploadRequest "az_error + uploadResponse \<Rightarrow> 'a pub"
  | Enqueue busMessage "bool \<Rightarrow> 'a pub"

primrec bindP :: "'a pub \<Rightarrow> ('a \<Rightarrow> 'b pub) \<Rightarrow> 'b pub" where
  "bindP (Finish x) f = f x"
| "bindP (Getwd k) f = Getwd (\<lambda>r. bindP (k r) f)"
| "bindP (EvalSymlinks n k) f = EvalSymlinks n (\<lambda>r. bindP (k r) f)"
| "bindP (StatFile n k) f = StatFile n (\<lambda>r. bindP (k r) f)"
| "bindP (LstatFile n k) f = LstatFile n (\<lambda>r. bindP (k r) f)"
| "bindP (ReadDir n k) f = ReadDir n (\<lambda>r. bindP (k r) f)"
| "bindP (OpenZip n k) f = OpenZip n (\<lambda>r. bindP (k r) f)"
| "bindP (ReadFile n k) f = ReadFile n (\<lambda>r. bindP (k r) f)"
| "bindP (GetProperties c n k) f = GetProperties c n (\<lambda>r. bindP (k r) f)"
| "bindP (DownloadBlob c n k) f = DownloadBlob c n (\<lambda>r. bindP (k r) f)"
| "bindP (Upload u k) f = Upload u (\<lambda>r. bindP (k r) f)"
| "bindP (Enqueue m k) f = Enqueue m (\<lambda>r. bindP (k r) f)"

text \<open>The early return on an error: \<open>if err != nil { return ..., err }\<close>.\<close>

definition tryP :: "'a result pub \<Rightarrow> ('a \<Rightarrow> 'b result pub) \<Rightarrow> 'b result pub" where
  "tryP t f = bindP t (\<lambda>r. case r of Inl err \<Rightarrow> Finish (Inl err) | Inr x \<Rightarrow> f x)"

lemma bindP_assoc: "bindP (bindP t f) g = bindP t (\<lambda>x. bindP (f x) g)"
  by (induction t) simp_all

section \<open>Executions\<close>

datatype pubEvent =
    EGetwd "string option"
  | EEvalSymlinks string "string option"
  | EStat string "fileInfo option"
  | ELstat string "fileInfo option"
  | EReadDir string "dirEntry list option"
  | EOpenZip string "zipMember list option"
  | EReadFile string "reader option"
  | EGetProperties string string "az_error + blobProperties"
  | EDownloadBlob string string "az_error + reader option"
  | EUpload uploadRequest "az_error + uploadResponse"
  | EEnqueue busMessage bool

primrec execP :: "'a pub \<Rightarrow> pubEvent list \<Rightarrow> 'a \<Rightarrow> bool" where
  "execP (Finish x) es y = (es = [] \<and> y = x)"
| "execP (Getwd k) es y = (\<exists>r es'. es = EGetwd r # es' \<and> execP (k r) es' y)"
| "execP (EvalSymlinks n k) es y = (\<exists>r es'. es = EEvalSymlinks n r # es' \<and> execP (k r) es' y)"
| "execP (StatFile n k) es y = (\<exists>r es'. es = EStat n r # es' \<and> execP (k r) es' y)"
| "execP (LstatFile n k) es y = (\<exists>r es'. es = ELstat n r # es' \<and> execP (k r) es' y)"
| "execP (ReadDir n k) es y = (\<exists>r es'. es = EReadDir n r # es' \<and> execP (k r) es' y)"
| "execP (OpenZip n k) es y = (\<exists>r es'. es = EOpenZip n r # es' \<and> execP (k r) es' y)"
| "execP (ReadFile n k) es y = (\<exists>r es'. es = EReadFile n r # es' \<and> execP (k r) es' y)"
| "execP (GetProperties c n k) es y = (\<exists>r es'. es = EGetProperties c n r # es' \<and> execP (k r) es' y)"
| "execP (DownloadBlob c n k) es y = (\<exists>r es'. es = EDownloadBlob c n r # es' \<and> execP (k r) es' y)"
| "execP (Upload u k) es y = (\<exists>r es'. es = EUpload u r # es' \<and> execP (k r) es' y)"
| "execP (Enqueue m k) es y = (\<exists>r es'. es = EEnqueue m r # es' \<and> execP (k r) es' y)"

lemma execP_bindP: "execP (bindP t f) es y \<longleftrightarrow> (\<exists>es1 x es2. es = es1 @ es2 \<and> execP t es1 x \<and> execP (f x) es2 y)"
proof (induction t arbitrary: es)
  case (Finish x)
  then show ?case by simp
qed (simp_all, (metis append_Cons)+)

lemma execP_tryP:
  "execP (tryP t f) es y \<longleftrightarrow>
     (\<exists>err. execP t es (Inl err) \<and> y = Inl err) \<or>
     (\<exists>es1 x es2. es = es1 @ es2 \<and> execP t es1 (Inr x) \<and> execP (f x) es2 y)"
  unfolding tryP_def execP_bindP by (auto split: sum.split_asm) (metis sum.exhaust sum.case append_Nil2 execP.simps(1))+

section \<open>A file system and a blob service that answer\<close>

record filesystem =
  fs_Getwd :: "string option"
  fs_EvalSymlinks :: "string \<Rightarrow> string option"
  fs_Stat :: "string \<Rightarrow> fileInfo option"
  fs_Lstat :: "string \<Rightarrow> fileInfo option"
  fs_ReadDir :: "string \<Rightarrow> dirEntry list option"
  fs_OpenZip :: "string \<Rightarrow> zipMember list option"
  fs_ReadFile :: "string \<Rightarrow> reader option"

record blobVersion =
  bv_Content :: string
  bv_ETag :: string
  bv_VersionID :: string
  bv_Metadata :: metadata

text \<open>The versions of each blob, newest first, and the messages sent, newest first.\<close>

record pubWorld =
  pw_blobs :: "string \<times> string \<Rightarrow> blobVersion list"
  pw_queue :: "busMessage list"

definition emptyPubWorld :: pubWorld where
  "emptyPubWorld = \<lparr>pw_blobs = (\<lambda>_. []), pw_queue = []\<rparr>"

fun meets :: "blobVersion list \<Rightarrow> condition \<Rightarrow> bool" where
  "meets vs IfAbsent = (vs = [])"
| "meets vs (IfMatch e) = (\<exists>v vs'. vs = v # vs' \<and> bv_ETag v = e)"

definition propertiesOf :: "blobVersion list \<Rightarrow> az_error + blobProperties" where
  "propertiesOf vs =
     (case vs of
        [] \<Rightarrow> Inl (AzStatus 404)
      | v # _ \<Rightarrow> Inr \<lparr>gp_ETag = Some (bv_ETag v), gp_VersionID = Some (bv_VersionID v),
                      gp_ContentLength = Some (int (length (bv_Content v))), gp_Metadata = bv_Metadata v\<rparr>)"

definition contentOf :: "blobVersion list \<Rightarrow> az_error + reader option" where
  "contentOf vs = (case vs of [] \<Rightarrow> Inl (AzStatus 404) | v # _ \<Rightarrow> Inr (Some (bv_Content v, None)))"

definition addVersion :: "uploadRequest \<Rightarrow> string \<Rightarrow> string \<Rightarrow> pubWorld \<Rightarrow> pubWorld" where
  "addVersion u etag versionID w =
     w\<lparr>pw_blobs := (pw_blobs w)((up_Container u, up_Name u) :=
         \<lparr>bv_Content = fst (up_Body u), bv_ETag = etag, bv_VersionID = versionID, bv_Metadata = up_Metadata u\<rparr> #
         pw_blobs w (up_Container u, up_Name u))\<rparr>"

text \<open>A fresh identifier for the next version of a blob.\<close>

definition tagOf :: "blobVersion list \<Rightarrow> string" where
  "tagOf vs = CHR ''v'' # itoa_nat (length vs)"

primrec runP :: "filesystem \<Rightarrow> 'a pub \<Rightarrow> pubWorld \<Rightarrow> 'a \<times> pubWorld \<times> pubEvent list" where
  "runP fs (Finish x) w = (x, w, [])"
| "runP fs (Getwd k) w = (let (x, w', es) = runP fs (k (fs_Getwd fs)) w in (x, w', EGetwd (fs_Getwd fs) # es))"
| "runP fs (EvalSymlinks n k) w =
     (let (x, w', es) = runP fs (k (fs_EvalSymlinks fs n)) w in (x, w', EEvalSymlinks n (fs_EvalSymlinks fs n) # es))"
| "runP fs (StatFile n k) w = (let (x, w', es) = runP fs (k (fs_Stat fs n)) w in (x, w', EStat n (fs_Stat fs n) # es))"
| "runP fs (LstatFile n k) w = (let (x, w', es) = runP fs (k (fs_Lstat fs n)) w in (x, w', ELstat n (fs_Lstat fs n) # es))"
| "runP fs (ReadDir n k) w =
     (let (x, w', es) = runP fs (k (fs_ReadDir fs n)) w in (x, w', EReadDir n (fs_ReadDir fs n) # es))"
| "runP fs (OpenZip n k) w =
     (let (x, w', es) = runP fs (k (fs_OpenZip fs n)) w in (x, w', EOpenZip n (fs_OpenZip fs n) # es))"
| "runP fs (ReadFile n k) w =
     (let (x, w', es) = runP fs (k (fs_ReadFile fs n)) w in (x, w', EReadFile n (fs_ReadFile fs n) # es))"
| "runP fs (GetProperties c n k) w =
     (let r = propertiesOf (pw_blobs w (c, n)); (x, w', es) = runP fs (k r) w in (x, w', EGetProperties c n r # es))"
| "runP fs (DownloadBlob c n k) w =
     (let r = contentOf (pw_blobs w (c, n)); (x, w', es) = runP fs (k r) w in (x, w', EDownloadBlob c n r # es))"
| "runP fs (Upload u k) w =
     (let vs = pw_blobs w (up_Container u, up_Name u); t = tagOf vs
      in if snd (up_Body u) \<noteq> None
         then let (x, w', es) = runP fs (k (Inl (AzStatus 0))) w in (x, w', EUpload u (Inl (AzStatus 0)) # es)
         else if \<not> meets vs (up_Condition u)
         then let (x, w', es) = runP fs (k (Inl (AzStatus 412))) w in (x, w', EUpload u (Inl (AzStatus 412)) # es)
         else let r = Inr \<lparr>ur_ETag = Some t, ur_VersionID = Some t\<rparr>; (x, w', es) = runP fs (k r) (addVersion u t t w)
              in (x, w', EUpload u r # es))"
| "runP fs (Enqueue m k) w =
     (let (x, w', es) = runP fs (k False) (w\<lparr>pw_queue := m # pw_queue w\<rparr>) in (x, w', EEnqueue m False # es))"

lemma runP_bindP:
  "runP fs (bindP t f) w =
     (let (x, w1, e1) = runP fs t w; (y, w2, e2) = runP fs (f x) w1 in (y, w2, e1 @ e2))"
  by (induction t arbitrary: w) (simp_all add: Let_def split: prod.splits)

lemma runP_execP: "runP fs t w = (x, w', es) \<Longrightarrow> execP t es x"
proof (induction t arbitrary: w es)
  case (Enqueue m k)
  then show ?case by (fastforce split: prod.split_asm)
qed (auto simp: Let_def split: prod.splits if_splits)

lemma runP_tryP:
  "runP fs t w = (Inr x, w1, e1) \<Longrightarrow> runP fs (f x) w1 = (y, w2, e2) \<Longrightarrow> runP fs (tryP t f) w = (y, w2, e1 @ e2)"
  by (simp add: tryP_def runP_bindP)

end
