(* ===== verification/GoPath.thy ===== *)
theory GoPath
  imports Url
begin

text \<open>
  Slash-separated paths as packages \<open>path\<close> and \<open>path/filepath\<close> (on Unix) treat them: \<open>Clean\<close>, \<open>Join\<close>, \<open>Ext\<close> and
  \<open>Rel\<close>, and when cleaning leaves a path as it is.
\<close>

section \<open>Operations\<close>

abbreviation slash :: char where "slash \<equiv> CHR ''/''"

text \<open>
  \<open>path.Clean\<close> element by element: empty elements and \<open>.\<close> vanish, \<open>..\<close> removes the element before it, stays at the
  front of a relative path and is dropped at the root.
\<close>

definition cleanStep :: "bool \<Rightarrow> string list \<Rightarrow> string \<Rightarrow> string list" where
  "cleanStep rooted out element =
     (if element = [] \<or> element = ''.'' then out
      else if element = ''..'' then
        (if out \<noteq> [] \<and> last out \<noteq> ''..'' then butlast out else if rooted then out else out @ [''..''])
      else out @ [element])"

definition cleanPath :: "string \<Rightarrow> string" where
  "cleanPath name =
     (if name = [] then ''.''
      else let rooted = hasPrefix name ''/'';
               body = join slash (foldl (cleanStep rooted) [] (split slash name))
           in if rooted then slash # body else if body = [] then ''.'' else body)"

definition joinPath :: "string list \<Rightarrow> string" where
  "joinPath elements =
     (case dropWhile (\<lambda>e. e = []) elements of [] \<Rightarrow> [] | e # es \<Rightarrow> cleanPath (join slash (e # es)))"

definition pathExt :: "string \<Rightarrow> string" where
  "pathExt name =
     (case lastCut CHR ''.'' (last (split slash name)) of None \<Rightarrow> [] | Some (_, extension) \<Rightarrow> CHR ''.'' # extension)"

text \<open>\<open>filepath.Rel\<close>: the elements that the two cleaned paths do not share.\<close>

fun dropCommon :: "string list \<Rightarrow> string list \<Rightarrow> string list \<times> string list" where
  "dropCommon (b # bs) (t # ts) = (if b = t then dropCommon bs ts else (b # bs, t # ts))"
| "dropCommon bs ts = (bs, ts)"

definition pathElements :: "string \<Rightarrow> string list" where
  "pathElements p = (if p = ''/'' then [[]] else split slash p)"

definition relPath :: "string \<Rightarrow> string \<Rightarrow> string option" where
  "relPath basepath targpath =
     (let base0 = cleanPath basepath; targ = cleanPath targpath
      in if targ = base0 then Some ''.''
         else let base = (if base0 = ''.'' then [] else base0)
              in if hasPrefix base ''/'' \<noteq> hasPrefix targ ''/'' then None
                 else let (bs, ts) = dropCommon (if base = [] then [] else pathElements base) (pathElements targ)
                      in if bs \<noteq> [] \<and> ts \<noteq> [] \<and> hd bs = ''..'' then None
                         else Some (join slash (map (\<lambda>_. ''..'') bs @ ts)))"

section \<open>Clean paths\<close>

definition goodElement :: "string \<Rightarrow> bool" where
  "goodElement e \<longleftrightarrow> e \<noteq> [] \<and> e \<noteq> ''.'' \<and> e \<noteq> ''..''"

lemma cleanStep_good: "goodElement e \<Longrightarrow> cleanStep rooted out e = out @ [e]"
  by (simp add: cleanStep_def goodElement_def)

lemma foldl_good: "list_all goodElement es \<Longrightarrow> foldl (cleanStep rooted) out es = out @ es"
  by (induction es arbitrary: out) (simp_all add: cleanStep_good)

lemma join_Nil_iff: "join d ps = [] \<longleftrightarrow> ps = [] \<or> ps = [[]]"
  by (induction d ps rule: join.induct) auto

lemma join_append: "ps \<noteq> [] \<Longrightarrow> qs \<noteq> [] \<Longrightarrow> join d (ps @ qs) = join d ps @ d # join d qs"
  by (induction d ps rule: join.induct) (simp_all add: join_Cons)

lemma split_two: "split d (p @ d # q) = split d p @ split d q"
proof (induction p)
  case (Cons c p)
  then show ?case using split_Cons_ex [of d p] by auto
qed simp

lemma cleanPath_relative:
  assumes "\<not> hasPrefix name ''/''" "name \<noteq> []" "list_all goodElement (split slash name)"
  shows "cleanPath name = name"
  using assms by (simp add: cleanPath_def foldl_good join_split)

text \<open>An absolute, clean path other than the root.\<close>

definition absClean :: "string \<Rightarrow> bool" where
  "absClean p \<longleftrightarrow> (\<exists>es. es \<noteq> [] \<and> list_all (\<lambda>e. goodElement e \<and> slash \<notin> set e) es \<and> p = slash # join slash es)"

lemma absClean_split:
  "es \<noteq> [] \<Longrightarrow> list_all (\<lambda>e. goodElement e \<and> slash \<notin> set e) es \<Longrightarrow> split slash (slash # join slash es) = [] # es"
  using split_join [of es slash] by (simp add: list_all_iff)

lemma cleanPath_absolute:
  assumes "list_all (\<lambda>e. goodElement e \<and> slash \<notin> set e) es" "es \<noteq> []"
  shows "cleanPath (slash # join slash es) = slash # join slash es"
proof -
  have g: "list_all goodElement es" using assms(1) by (simp add: list_all_iff)
  then show ?thesis
    unfolding cleanPath_def absClean_split [OF assms(2,1)] by (simp add: hasPrefix_def cleanStep_def foldl_good)
qed

lemma absClean_clean: "absClean p \<Longrightarrow> cleanPath p = p"
  by (auto simp: absClean_def cleanPath_absolute)

lemma joinPath_below:
  assumes "absClean root" "es \<noteq> []" "list_all (\<lambda>e. goodElement e \<and> slash \<notin> set e) es"
  shows "joinPath [root, join slash es] = root @ slash # join slash es" "absClean (root @ slash # join slash es)"
proof -
  obtain rs where r: "rs \<noteq> []" "list_all (\<lambda>e. goodElement e \<and> slash \<notin> set e) rs" "root = slash # join slash rs"
    using assms(1) by (auto simp: absClean_def)
  have j: "root @ slash # join slash es = slash # join slash (rs @ es)" using r(1,3) assms(2) by (simp add: join_append)
  show a: "absClean (root @ slash # join slash es)"
    unfolding absClean_def j using r assms(2,3) by (intro exI [of _ "rs @ es"]) simp
  show "joinPath [root, join slash es] = root @ slash # join slash es"
    using absClean_clean [OF a] r(3) by (simp add: joinPath_def)
qed

lemma dropCommon_prefix: "dropCommon bs (bs @ ts) = ([], ts)"
  by (induction bs) simp_all

lemma relPath_below:
  assumes "absClean root" "es \<noteq> []" "list_all (\<lambda>e. goodElement e \<and> slash \<notin> set e) es"
  shows "relPath root (root @ slash # join slash es) = Some (join slash es)"
proof -
  obtain rs where r: "rs \<noteq> []" "list_all (\<lambda>e. goodElement e \<and> slash \<notin> set e) rs" "root = slash # join slash rs"
    using assms(1) by (auto simp: absClean_def)
  let ?t = "root @ slash # join slash es"
  have j: "?t = slash # join slash (rs @ es)" using r(1,3) assms(2) by (simp add: join_append)
  have c: "cleanPath root = root" "cleanPath ?t = ?t"
    using absClean_clean assms(1) joinPath_below(2) [OF assms] by auto
  have s: "split slash root = [] # rs" using absClean_split [OF r(1,2)] r(3) by simp
  have t: "split slash ?t = [] # rs @ es"
    unfolding j by (rule absClean_split) (use r assms in auto)
  have n: "root \<noteq> ''/''" "?t \<noteq> ''/''" "root \<noteq> []" "root \<noteq> ''.''" using r by (auto simp: join_Nil_iff goodElement_def)
  have e: "dropCommon (pathElements root) (pathElements ?t) = ([], es)"
    using dropCommon_prefix [of rs es] n by (simp add: pathElements_def s t)
  have h: "hasPrefix root ''/''" "hasPrefix ?t ''/''" using r(3) by (simp_all add: hasPrefix_def)
  have d: "?t \<noteq> root" by simp
  show ?thesis unfolding relPath_def c Let_def using n d e h by simp
qed

end
