(* ===== verification/Csv.thy ===== *)
theory Csv
  imports GoStrings
begin

text \<open>
  \<open>encoding/csv\<close> as the publisher configures it: comma, no comments, strict quotes, no trimming, any number of
  fields per record, and input without carriage returns. A reading error of any kind is \<open>None\<close>.
\<close>

section \<open>The reader\<close>

abbreviation comma :: char where "comma \<equiv> CHR '',''"

text \<open>
  The rest of a quoted field, after its opening quote: a doubled quote stands for one quote; the closing quote must be
  followed by a comma or the end of the line; line ends inside the quotes belong to the field.
\<close>

fun quotedField :: "string \<Rightarrow> (string \<times> string) option" where
  "quotedField [] = None"
| "quotedField (c # s) =
     (if c \<noteq> quote_char then map_option (apfst ((#) c)) (quotedField s)
      else case s of
             [] \<Rightarrow> Some ([], [])
           | d # s' \<Rightarrow>
               if d = quote_char then map_option (apfst ((#) quote_char)) (quotedField s')
               else if d = comma \<or> d = newline then Some ([], s)
               else None)"

definition fieldChar :: "char \<Rightarrow> bool" where
  "fieldChar c \<longleftrightarrow> c \<noteq> comma \<and> c \<noteq> newline"

definition nextField :: "string \<Rightarrow> (string \<times> string) option" where
  "nextField s =
     (if s \<noteq> [] \<and> hd s = quote_char then quotedField (tl s)
      else if quote_char \<in> set (takeWhile fieldChar s) then None
      else Some (takeWhile fieldChar s, dropWhile fieldChar s))"

lemma quotedField_length: "quotedField s = Some (field, rest) \<Longrightarrow> length rest \<le> length s"
proof (induction s arbitrary: field rest rule: quotedField.induct)
  case (2 c s)
  then show ?case by (force split: if_splits list.splits)
qed simp

lemma nextField_length: "nextField s = Some (field, rest) \<Longrightarrow> length rest \<le> length s"
  using quotedField_length [of "tl s"] length_dropWhile_le [of fieldChar s]
  by (fastforce simp: nextField_def split: if_splits)

text \<open>One record, up to the end of its line.\<close>

function readRecord :: "string \<Rightarrow> (string list \<times> string) option" where
  "readRecord s =
     (case nextField s of
        None \<Rightarrow> None
      | Some (field, rest) \<Rightarrow>
          (case rest of
             [] \<Rightarrow> Some ([field], [])
           | c # rest' \<Rightarrow>
               if c = comma then map_option (apfst ((#) field)) (readRecord rest')
               else Some ([field], rest')))"
  by pat_completeness auto
termination
  by (relation "measure length") (auto dest!: nextField_length)

declare readRecord.simps [simp del]

lemma readRecord_length: "readRecord s = Some (fields, rest) \<Longrightarrow> length rest \<le> length s"
proof (induction s arbitrary: fields rest rule: readRecord.induct)
  case (1 s)
  obtain field more where n: "nextField s = Some (field, more)"
    using "1.prems" by (auto simp: readRecord.simps [of s] split: option.splits)
  show ?case
    using "1.IH" [OF n refl] "1.prems" nextField_length [OF n]
    by (auto simp: readRecord.simps [of s] n split: list.splits if_splits) fastforce
qed

lemma readRecord_shorter: "readRecord s = Some (fields, rest) \<Longrightarrow> s \<noteq> [] \<Longrightarrow> length rest < length s"
proof -
  assume r: "readRecord s = Some (fields, rest)" and s: "s \<noteq> []"
  obtain field more where n: "nextField s = Some (field, more)"
    using r by (auto simp: readRecord.simps [of s] split: option.splits)
  show "length rest < length s"
  proof (cases more)
    case Nil
    then show ?thesis using r s by (auto simp: readRecord.simps [of s] n)
  next
    case (Cons c rest')
    then show ?thesis
      using r nextField_length [OF n] readRecord_length [of rest'] 
      by (fastforce simp: readRecord.simps [of s] n split: if_splits)
  qed
qed

text \<open>All records; empty lines between records are skipped.\<close>

function readAll :: "string \<Rightarrow> string list list option" where
  "readAll s =
     (case s of
        [] \<Rightarrow> Some []
      | c # s' \<Rightarrow>
          if c = newline then readAll s'
          else (case readRecord s of
                  None \<Rightarrow> None
                | Some (fields, rest) \<Rightarrow> map_option ((#) fields) (readAll rest)))"
  by pat_completeness auto
termination
  by (relation "measure length") (auto dest!: readRecord_shorter)

declare readAll.simps [simp del]

section \<open>Plain text\<close>

text \<open>Fields that need no quotes are read back as they are written.\<close>

definition plainField :: "string \<Rightarrow> bool" where
  "plainField field \<longleftrightarrow> list_all (\<lambda>c. fieldChar c \<and> c \<noteq> quote_char) field"

definition csvLine :: "string list \<Rightarrow> string" where
  "csvLine fields = join comma fields @ [newline]"

lemma plain_fieldChar: "plainField field \<Longrightarrow> list_all fieldChar field"
  by (simp add: plainField_def list_all_iff)

lemma nextField_plain:
  assumes "plainField field" "rest = [] \<or> \<not> fieldChar (hd rest)" "rest \<noteq> []"
  shows "nextField (field @ rest) = Some (field, rest)"
proof -
  have t: "takeWhile fieldChar (field @ rest) = field" "dropWhile fieldChar (field @ rest) = rest"
    using plain_fieldChar [OF assms(1)] assms(2,3)
    by (cases rest; auto simp: list_all_iff takeWhile_append dropWhile_append)+
  have "quote_char \<notin> set field" using assms(1) by (auto simp: plainField_def list_all_iff)
  moreover have "hd (field @ rest) \<noteq> quote_char"
    using assms by (cases field; cases rest) (auto simp: plainField_def fieldChar_def quote_char_def newline_def)
  ultimately show ?thesis unfolding nextField_def t by simp
qed

lemma readRecord_plain:
  assumes "list_all plainField fields" "fields \<noteq> []"
  shows "readRecord (csvLine fields @ rest) = Some (fields, rest)"
  using assms
proof (induction fields rule: induct_list012)
  case (2 field)
  have "nextField (field @ newline # rest) = Some (field, newline # rest)"
    using "2.prems" by (intro nextField_plain) (simp_all add: fieldChar_def)
  moreover have "newline \<noteq> comma" by (simp add: newline_def)
  ultimately show ?case by (simp add: csvLine_def readRecord.simps [of "field @ newline # rest"])
next
  case (3 field next_field fields)
  let ?r = "csvLine (next_field # fields) @ rest"
  have "nextField (field @ comma # ?r) = Some (field, comma # ?r)"
    using "3.prems" by (intro nextField_plain) (simp_all add: fieldChar_def)
  moreover have "csvLine (field # next_field # fields) @ rest = field @ comma # ?r" by (simp add: csvLine_def)
  ultimately show ?case
    using "3.IH"(2) "3.prems" by (simp add: readRecord.simps [of "field @ comma # ?r"])
qed simp

definition plainRecord :: "string list \<Rightarrow> bool" where
  "plainRecord fields \<longleftrightarrow> list_all plainField fields \<and> fields \<noteq> [] \<and> fields \<noteq> [[]]"

lemma csvLine_head: "plainRecord fields \<Longrightarrow> \<exists>c s. csvLine fields = c # s \<and> c \<noteq> newline"
proof -
  assume p: "plainRecord fields"
  then obtain f fs where f: "fields = f # fs" by (cases fields) (auto simp: plainRecord_def)
  show "\<exists>c s. csvLine fields = c # s \<and> c \<noteq> newline"
  proof (cases f)
    case Nil
    then have "fs \<noteq> []" using p f by (auto simp: plainRecord_def)
    then show ?thesis using f Nil by (simp add: csvLine_def join_Cons newline_def)
  next
    case (Cons c t)
    then show ?thesis using p f by (simp add: csvLine_def join_cons_head plainRecord_def plainField_def fieldChar_def)
  qed
qed

lemma readAll_plain: "list_all plainRecord records \<Longrightarrow> readAll (concat (map csvLine records)) = Some records"
proof (induction records)
  case (Cons fields records)
  obtain c s where h: "csvLine fields = c # s" "c \<noteq> newline" using csvLine_head [of fields] Cons.prems by auto
  have r: "readRecord (csvLine fields @ concat (map csvLine records)) = Some (fields, concat (map csvLine records))"
    using Cons.prems by (intro readRecord_plain) (simp_all add: plainRecord_def)
  show ?case
    using Cons r h by (simp add: readAll.simps [of "c # s @ concat (map csvLine records)"])
qed (simp add: readAll.simps)

end
