(* ===== verification/AppConfig.thy ===== *)
theory AppConfig
  imports Json Regex Url Prelude
begin

text \<open>
  Package \<open>internal/config\<close> (\<open>config.go\<close>): the startup policy of the download application. An environment
  is a map from variable names to values; \<open>ParseEnvironment\<close> yields a complete policy or \<open>ErrInvalid\<close>.
\<close>

section \<open>Names and limits\<close>

definition TrustedIdentityModeEnv :: string where "TrustedIdentityModeEnv = ''DAR_DOWNLOAD_TRUSTED_IDENTITY_MODE''"
definition OIDCIssuerEnv :: string where "OIDCIssuerEnv = ''DAR_DOWNLOAD_OIDC_ISSUER''"
definition OIDCProviderNameEnv :: string where "OIDCProviderNameEnv = ''DAR_DOWNLOAD_OIDC_PROVIDER_NAME''"
definition AzureContainerAppsTenantIDEnv :: string where
  "AzureContainerAppsTenantIDEnv = ''DAR_DOWNLOAD_AZURE_CONTAINER_APPS_TENANT_ID''"
definition StorageAccountNameEnv :: string where "StorageAccountNameEnv = ''DAR_DOWNLOAD_STORAGE_ACCOUNT_NAME''"
definition StorageContainerEnv :: string where "StorageContainerEnv = ''DAR_DOWNLOAD_STORAGE_CONTAINER''"
definition ManagedIdentityClientIDEnv :: string where
  "ManagedIdentityClientIDEnv = ''DAR_DOWNLOAD_MANAGED_IDENTITY_CLIENT_ID''"
definition PortEnv :: string where "PortEnv = ''DAR_DOWNLOAD_PORT''"
definition obsoleteReleasesJSONEnv :: string where "obsoleteReleasesJSONEnv = ''DAR_DOWNLOAD_RELEASES_JSON''"

lemmas env_names = TrustedIdentityModeEnv_def OIDCIssuerEnv_def OIDCProviderNameEnv_def AzureContainerAppsTenantIDEnv_def
  StorageAccountNameEnv_def StorageContainerEnv_def ManagedIdentityClientIDEnv_def PortEnv_def obsoleteReleasesJSONEnv_def

definition MaxOIDCIssuerBytes :: nat where "MaxOIDCIssuerBytes = 2048"
definition MaxOIDCProviderNameBytes :: nat where "MaxOIDCProviderNameBytes = 32"
definition MaxOIDCSubjectBytes :: nat where "MaxOIDCSubjectBytes = 255"
definition MaxObjectSize :: int where "MaxObjectSize = 256 * 1024 * 1024"
definition MaxStorageSegment :: int where "MaxStorageSegment = 4 * 1024 * 1024"
definition DefaultPort :: int where "DefaultPort = 8000"

definition uuidPattern :: rexp where
  "uuidPattern =
     rseqs [rexact 8 (RCls is_lower_hex), rlit ''-'', rexact 4 (RCls is_lower_hex), rlit ''-'',
            rexact 4 (RCls is_lower_hex), rlit ''-'', rexact 4 (RCls is_lower_hex), rlit ''-'',
            rexact 12 (RCls is_lower_hex)]"

definition oidcProviderNamePattern :: rexp where
  "oidcProviderNamePattern = rplus (RCls is_alnum)"

definition storageAccountPattern :: rexp where
  "storageAccountPattern = rbetween 3 24 (RCls (\<lambda>c. is_lower c \<or> is_digit c))"

definition storageContainerPattern :: rexp where
  "storageContainerPattern =
     rseqs [RCls (\<lambda>c. is_lower c \<or> is_digit c), rbetween 1 61 (RCls (\<lambda>c. is_lower c \<or> is_digit c \<or> c = CHR ''-'')),
            RCls (\<lambda>c. is_lower c \<or> is_digit c)]"

section \<open>The policy\<close>

type_synonym TrustedIdentityMode = string

abbreviation ModeOIDCHeaders :: TrustedIdentityMode where "ModeOIDCHeaders \<equiv> ''oidc_headers''"
abbreviation ModeAzureContainerApps :: TrustedIdentityMode where "ModeAzureContainerApps \<equiv> ''azure_container_apps''"
abbreviation ModeAzureContainerAppsOIDC :: TrustedIdentityMode where
  "ModeAzureContainerAppsOIDC \<equiv> ''azure_container_apps_oidc''"

record Config =
  cf_TrustedIdentityMode :: TrustedIdentityMode
  cf_OIDCIssuer :: string
  cf_OIDCProviderName :: string
  cf_AzureContainerAppsTenantID :: string
  cf_StorageAccountName :: string
  cf_StorageContainer :: string
  cf_ManagedIdentityClientID :: string
  cf_Port :: int

definition validControlFree :: "string \<Rightarrow> bool" where
  "validControlFree value \<longleftrightarrow> list_all (\<lambda>character. \<not> isControl character) (runes value)"

definition validBoundedText :: "string \<Rightarrow> nat \<Rightarrow> bool" where
  "validBoundedText value maximumBytes \<longleftrightarrow>
     value \<noteq> [] \<and> length value \<le> maximumBytes \<and> utf8_valid value \<and> validControlFree value"

definition IsCanonicalUUID :: "string \<Rightarrow> bool" where
  "IsCanonicalUUID value \<longleftrightarrow> rmatch uuidPattern value"

definition IsAzureContainerAppsIssuer :: "string \<Rightarrow> string \<Rightarrow> bool" where
  "IsAzureContainerAppsIssuer value tenantID \<longleftrightarrow>
     IsCanonicalUUID tenantID \<and> value = ''https://login.microsoftonline.com/'' @ tenantID @ ''/v2.0''"

text \<open>The raw fragment is empty whenever the fragment is, so the test of it adds nothing.\<close>

definition IsValidOIDCIssuer :: "string \<Rightarrow> bool" where
  "IsValidOIDCIssuer value =
     (if \<not> validBoundedText value MaxOIDCIssuerBytes then False
      else case urlParse value of
        None \<Rightarrow> False
      | Some parsed \<Rightarrow>
          if u_scheme parsed \<noteq> ''https'' \<or> u_host parsed = [] \<or> hostname parsed = [] \<or> u_user parsed \<noteq> None \<or>
             u_opaque parsed \<noteq> [] \<or> u_rawQuery parsed \<noteq> [] \<or> u_forceQuery parsed \<or> u_fragment parsed \<noteq> [] \<or>
             hostedString parsed \<noteq> value
          then False else validControlFree (u_path parsed))"

definition IsValidOIDCSubject :: "string \<Rightarrow> bool" where
  "IsValidOIDCSubject value \<longleftrightarrow> validBoundedText value MaxOIDCSubjectBytes"

definition IsValidOIDCProviderName :: "string \<Rightarrow> bool" where
  "IsValidOIDCProviderName value \<longleftrightarrow>
     1 \<le> length value \<and> length value \<le> MaxOIDCProviderNameBytes \<and> rmatch oidcProviderNamePattern value \<and>
     foldName value \<noteq> foldName ''aad''"

definition validContainerName :: "string \<Rightarrow> bool" where
  "validContainerName value \<longleftrightarrow> rmatch storageContainerPattern value \<and> \<not> contains value ''--''"

section \<open>Reading the environment\<close>

type_synonym environment = "string \<Rightarrow> string option"

definition valueOf :: "environment \<Rightarrow> string \<Rightarrow> string" where
  "valueOf env name = (case env name of Some v \<Rightarrow> v | None \<Rightarrow> [])"

definition modeAccepted :: "TrustedIdentityMode \<Rightarrow> environment \<Rightarrow> bool" where
  "modeAccepted mode env =
     (let tenantID = valueOf env AzureContainerAppsTenantIDEnv;
          tenantPresent = (env AzureContainerAppsTenantIDEnv \<noteq> None);
          providerName = valueOf env OIDCProviderNameEnv;
          providerPresent = (env OIDCProviderNameEnv \<noteq> None)
      in if mode = ModeOIDCHeaders then \<not> (tenantID \<noteq> [] \<or> providerPresent)
         else if mode = ModeAzureContainerApps then
           \<not> (providerPresent \<or> \<not> IsAzureContainerAppsIssuer (valueOf env OIDCIssuerEnv) tenantID)
         else if mode = ModeAzureContainerAppsOIDC then
           \<not> (tenantPresent \<or> \<not> providerPresent \<or> \<not> IsValidOIDCProviderName providerName)
         else False)"

definition portOf :: "environment \<Rightarrow> int option" where
  "portOf env =
     (case env PortEnv of
        None \<Rightarrow> Some DefaultPort
      | Some rawPort \<Rightarrow>
          (case parseInt rawPort of
             None \<Rightarrow> None
           | Some parsed \<Rightarrow> if parsed < 1 \<or> parsed > 65535 then None else Some parsed))"

definition ParseEnvironment :: "environment \<Rightarrow> Config result" where
  "ParseEnvironment env =
     (if env obsoleteReleasesJSONEnv \<noteq> None then Inl ErrInvalid
      else if list_ex (\<lambda>name. trimSpace (valueOf env name) = [])
                [OIDCIssuerEnv, StorageAccountNameEnv, StorageContainerEnv, ManagedIdentityClientIDEnv]
      then Inl ErrInvalid
      else if \<not> IsValidOIDCIssuer (valueOf env OIDCIssuerEnv) \<or>
              \<not> IsCanonicalUUID (valueOf env ManagedIdentityClientIDEnv) \<or>
              \<not> rmatch storageAccountPattern (valueOf env StorageAccountNameEnv) \<or>
              \<not> validContainerName (valueOf env StorageContainerEnv)
      then Inl ErrInvalid
      else let mode = (if valueOf env TrustedIdentityModeEnv = [] then ModeOIDCHeaders
                       else valueOf env TrustedIdentityModeEnv)
           in if \<not> modeAccepted mode env then Inl ErrInvalid
              else case portOf env of
                None \<Rightarrow> Inl ErrInvalid
              | Some port \<Rightarrow>
                  Inr \<lparr>cf_TrustedIdentityMode = mode, cf_OIDCIssuer = valueOf env OIDCIssuerEnv,
                       cf_OIDCProviderName = valueOf env OIDCProviderNameEnv,
                       cf_AzureContainerAppsTenantID = valueOf env AzureContainerAppsTenantIDEnv,
                       cf_StorageAccountName = valueOf env StorageAccountNameEnv,
                       cf_StorageContainer = valueOf env StorageContainerEnv,
                       cf_ManagedIdentityClientID = valueOf env ManagedIdentityClientIDEnv, cf_Port = port\<rparr>)"

text \<open>\<open>LoadEnvironment\<close> looks up the documented names in the environment of the process.\<close>

definition LoadEnvironment :: "environment \<Rightarrow> Config result" where
  "LoadEnvironment osEnv =
     ParseEnvironment (\<lambda>name.
       if name \<in> set [TrustedIdentityModeEnv, OIDCIssuerEnv, OIDCProviderNameEnv, AzureContainerAppsTenantIDEnv,
                      StorageAccountNameEnv, StorageContainerEnv, ManagedIdentityClientIDEnv, obsoleteReleasesJSONEnv, PortEnv]
       then osEnv name else None)"

section \<open>Required values are never blank\<close>

lemma validControlFree_ascii:
  "ascii s \<Longrightarrow> list_all (\<lambda>c. \<not> (byte c < 0x20 \<or> byte c = 0x7f)) s \<Longrightarrow> validControlFree s"
  by (fastforce simp: validControlFree_def runes_def chunks_ascii isControl_def ascii_def list_all_iff)

lemma trimSpace_nonempty:
  assumes "byte c < 0x80" "\<not> isSpace (byte c)"
  shows "trimSpace (c # t) \<noteq> []"
proof -
  have "dropWhile (\<lambda>ch. isSpace (fst ch)) (rev (chunks t) @ [(byte c, [c])]) =
      dropWhile (\<lambda>ch. isSpace (fst ch)) (rev (chunks t)) @ [(byte c, [c])]"
    using assms(2) by (induction "rev (chunks t)" arbitrary: t) (simp_all add: dropWhile_append3 dropWhile_append1)
  then show ?thesis using assms by (simp add: trimSpace_def chunks_ascii_Cons)
qed

lemma class_not_blank: "is_alnum c \<Longrightarrow> trimSpace (c # t) \<noteq> []"
  by (intro trimSpace_nonempty) (auto simp: char_class_defs isSpace_def)

lemma issuer_not_blank: "IsValidOIDCIssuer s \<Longrightarrow> trimSpace s \<noteq> []"
  using class_not_blank [of "CHR ''h''"]
  by (auto simp: IsValidOIDCIssuer_def hostedString_def Let_def char_class_defs split: if_splits option.splits)

lemma head_not_blank: "u \<noteq> [] \<Longrightarrow> list_all is_alnum u \<Longrightarrow> trimSpace (u @ v) \<noteq> []"
  by (cases u) (simp_all add: class_not_blank)

lemma lower_hex_alnum: "list_all is_lower_hex u \<Longrightarrow> list_all is_alnum u"
  by (auto simp: list_all_iff char_class_defs)

lemma lower_digit_alnum: "list_all (\<lambda>c. is_lower c \<or> is_digit c) u \<Longrightarrow> list_all is_alnum u"
  by (auto simp: list_all_iff is_alnum_def is_alpha_def)

lemma uuid_not_blank:
  assumes "IsCanonicalUUID s"
  shows "trimSpace s \<noteq> []"
proof -
  obtain u v where "s = u @ v" "length u = 8" "list_all is_lower_hex u"
    using assms unfolding IsCanonicalUUID_def uuidPattern_def rseqs.simps rmatch_RSeq [of "rexact 8 (RCls is_lower_hex)"]
      rmatch_rexact_cls by (elim exE conjE)
  then show ?thesis using head_not_blank [of u v] lower_hex_alnum [of u] by (cases "u = []") simp_all
qed

lemma account_not_blank: "rmatch storageAccountPattern s \<Longrightarrow> trimSpace s \<noteq> []"
  using head_not_blank [of s "[]"] lower_digit_alnum [of s]
  unfolding storageAccountPattern_def rmatch_rbetween_cls [of 3 24, simplified] by (cases "s = []") simp_all

lemma container_not_blank:
  assumes "rmatch storageContainerPattern s"
  shows "trimSpace s \<noteq> []"
proof -
  obtain c t where "s = c # t" "is_alnum c"
    using assms unfolding storageContainerPattern_def rseqs.simps rmatch_cls_seq
    by (auto simp: is_alnum_def is_alpha_def split: list.splits)
  then show ?thesis using class_not_blank by simp
qed

section \<open>Plain issuers\<close>

lemma https_issuer:
  assumes "list_all dnsChar h" "h \<noteq> []" "list_all pathChar p" "p = CHR ''/'' # p'" "length h + length p \<le> 2000"
  shows "IsValidOIDCIssuer (''https://'' @ h @ p)"
proof -
  let ?s = "''https://'' @ h @ p" and ?u = "emptyUrl\<lparr>u_scheme := ''https'', u_host := h, u_path := p\<rparr>"
  have ctl: "list_all (\<lambda>c. \<not> (byte c < 0x20 \<or> byte c = 0x7f)) ?s" "list_all (\<lambda>c. \<not> (byte c < 0x20 \<or> byte c = 0x7f)) p"
    using assms(1,3) dnsChar_facts(2) pathChar_facts by (auto simp: list_all_iff)
  have "pathChar c \<Longrightarrow> byte c < 0x80" for c by (auto simp: pathChar_def char_class_defs)
  then have as: "ascii ?s" "ascii p" using assms(1,3) dnsChar_facts(3) by (auto simp: ascii_def list_all_iff)
  have "validBoundedText ?s MaxOIDCIssuerBytes"
    using as ctl assms(5) validControlFree_ascii [of ?s] utf8_valid_ascii [of ?s]
    by (simp add: validBoundedText_def MaxOIDCIssuerBytes_def)
  moreover have "urlParse ?s = Some ?u" by (rule urlParse_https [OF assms(1,3,4)])
  moreover have "hostname ?u = h" using hostname_dns [of ?u] assms(1) by simp
  moreover have "hostedString ?u = ?s"
    using assms(4) percent_dns [OF assms(1)] percent_path [OF assms(3)]
    by (auto simp: hostedString_def escapedPath_def emptyUrl_def)
  ultimately show ?thesis using assms(2) validControlFree_ascii [OF as(2) ctl(2)]
    by (simp add: IsValidOIDCIssuer_def emptyUrl_def)
qed

section \<open>Exact policies\<close>

text \<open>A policy that fits its identity mode, and the environment that spells it out.\<close>

definition validPolicy :: "Config \<Rightarrow> bool" where
  "validPolicy cfg \<longleftrightarrow>
     IsValidOIDCIssuer (cf_OIDCIssuer cfg) \<and> IsCanonicalUUID (cf_ManagedIdentityClientID cfg) \<and>
     rmatch storageAccountPattern (cf_StorageAccountName cfg) \<and> validContainerName (cf_StorageContainer cfg) \<and>
     1 \<le> cf_Port cfg \<and> cf_Port cfg \<le> 65535 \<and>
     (cf_TrustedIdentityMode cfg = ModeOIDCHeaders \<and> cf_AzureContainerAppsTenantID cfg = [] \<and> cf_OIDCProviderName cfg = [] \<or>
      cf_TrustedIdentityMode cfg = ModeAzureContainerApps \<and> cf_OIDCProviderName cfg = [] \<and>
        IsAzureContainerAppsIssuer (cf_OIDCIssuer cfg) (cf_AzureContainerAppsTenantID cfg) \<or>
      cf_TrustedIdentityMode cfg = ModeAzureContainerAppsOIDC \<and> cf_AzureContainerAppsTenantID cfg = [] \<and>
        IsValidOIDCProviderName (cf_OIDCProviderName cfg))"

definition environmentOf :: "Config \<Rightarrow> environment" where
  "environmentOf cfg = map_of (
     [(TrustedIdentityModeEnv, cf_TrustedIdentityMode cfg), (OIDCIssuerEnv, cf_OIDCIssuer cfg),
      (StorageAccountNameEnv, cf_StorageAccountName cfg), (StorageContainerEnv, cf_StorageContainer cfg),
      (ManagedIdentityClientIDEnv, cf_ManagedIdentityClientID cfg), (PortEnv, itoa (cf_Port cfg))] @
     (if cf_TrustedIdentityMode cfg = ModeAzureContainerApps
      then [(AzureContainerAppsTenantIDEnv, cf_AzureContainerAppsTenantID cfg)] else []) @
     (if cf_TrustedIdentityMode cfg = ModeAzureContainerAppsOIDC
      then [(OIDCProviderNameEnv, cf_OIDCProviderName cfg)] else []))"

lemma environmentOf_lookup:
  "valueOf (environmentOf cfg) OIDCIssuerEnv = cf_OIDCIssuer cfg"
  "valueOf (environmentOf cfg) TrustedIdentityModeEnv = cf_TrustedIdentityMode cfg"
  "valueOf (environmentOf cfg) StorageAccountNameEnv = cf_StorageAccountName cfg"
  "valueOf (environmentOf cfg) StorageContainerEnv = cf_StorageContainer cfg"
  "valueOf (environmentOf cfg) ManagedIdentityClientIDEnv = cf_ManagedIdentityClientID cfg"
  "environmentOf cfg PortEnv = Some (itoa (cf_Port cfg))"
  "environmentOf cfg obsoleteReleasesJSONEnv = None"
  "environmentOf cfg AzureContainerAppsTenantIDEnv =
     (if cf_TrustedIdentityMode cfg = ModeAzureContainerApps then Some (cf_AzureContainerAppsTenantID cfg) else None)"
  "environmentOf cfg OIDCProviderNameEnv =
     (if cf_TrustedIdentityMode cfg = ModeAzureContainerAppsOIDC then Some (cf_OIDCProviderName cfg) else None)"
  by (simp_all add: valueOf_def environmentOf_def env_names)

lemma portOf_range: "portOf env = Some port \<Longrightarrow> 1 \<le> port \<and> port \<le> 65535"
  by (auto simp: portOf_def DefaultPort_def split: if_splits option.splits)

lemma modeAccepted_valid:
  "modeAccepted mode env \<Longrightarrow>
     mode = ModeOIDCHeaders \<and> valueOf env AzureContainerAppsTenantIDEnv = [] \<and> valueOf env OIDCProviderNameEnv = [] \<or>
     mode = ModeAzureContainerApps \<and> valueOf env OIDCProviderNameEnv = [] \<and>
       IsAzureContainerAppsIssuer (valueOf env OIDCIssuerEnv) (valueOf env AzureContainerAppsTenantIDEnv) \<or>
     mode = ModeAzureContainerAppsOIDC \<and> valueOf env AzureContainerAppsTenantIDEnv = [] \<and>
       IsValidOIDCProviderName (valueOf env OIDCProviderNameEnv)"
  by (auto simp: modeAccepted_def Let_def valueOf_def [of env OIDCProviderNameEnv]
      valueOf_def [of env AzureContainerAppsTenantIDEnv] split: if_splits)

lemma ParseEnvironment_cases:
  assumes "ParseEnvironment env = Inr cfg"
  obtains mode port where "modeAccepted mode env" "portOf env = Some port"
    "IsValidOIDCIssuer (valueOf env OIDCIssuerEnv)" "IsCanonicalUUID (valueOf env ManagedIdentityClientIDEnv)"
    "rmatch storageAccountPattern (valueOf env StorageAccountNameEnv)" "validContainerName (valueOf env StorageContainerEnv)"
    "cfg = \<lparr>cf_TrustedIdentityMode = mode, cf_OIDCIssuer = valueOf env OIDCIssuerEnv,
       cf_OIDCProviderName = valueOf env OIDCProviderNameEnv,
       cf_AzureContainerAppsTenantID = valueOf env AzureContainerAppsTenantIDEnv,
       cf_StorageAccountName = valueOf env StorageAccountNameEnv,
       cf_StorageContainer = valueOf env StorageContainerEnv,
       cf_ManagedIdentityClientID = valueOf env ManagedIdentityClientIDEnv, cf_Port = port\<rparr>"
proof -
  let ?mode = "if valueOf env TrustedIdentityModeEnv = [] then ModeOIDCHeaders else valueOf env TrustedIdentityModeEnv"
  obtain port where p: "portOf env = Some port" and m: "modeAccepted ?mode env"
    using assms by (simp only: ParseEnvironment_def Let_def) (simp split: if_split_asm option.split_asm)
  show ?thesis
    using assms m p by (intro that [of ?mode port]) (simp_all only: ParseEnvironment_def Let_def option.case, simp_all split: if_split_asm)
qed

lemma ParseEnvironment_valid: "ParseEnvironment env = Inr cfg \<Longrightarrow> validPolicy cfg"
  by (erule ParseEnvironment_cases) (use portOf_range modeAccepted_valid in \<open>simp add: validPolicy_def\<close>)

lemma ParseEnvironment_environmentOf:
  assumes "validPolicy cfg"
  shows "ParseEnvironment (environmentOf cfg) = Inr cfg"
proof -
  note v = assms [unfolded validPolicy_def]
  have "portOf (environmentOf cfg) = Some (cf_Port cfg)"
    using v parseInt_itoa [of "cf_Port cfg"] by (simp add: portOf_def environmentOf_lookup int64_ok_def)
  moreover have "cf_TrustedIdentityMode cfg \<noteq> []" using v by auto
  moreover have "modeAccepted (cf_TrustedIdentityMode cfg) (environmentOf cfg)"
    "valueOf (environmentOf cfg) AzureContainerAppsTenantIDEnv = cf_AzureContainerAppsTenantID cfg"
    "valueOf (environmentOf cfg) OIDCProviderNameEnv = cf_OIDCProviderName cfg"
    using v by (auto simp: modeAccepted_def environmentOf_lookup valueOf_def [of _ AzureContainerAppsTenantIDEnv]
        valueOf_def [of _ OIDCProviderNameEnv])
  moreover have "trimSpace (cf_OIDCIssuer cfg) \<noteq> []" "trimSpace (cf_StorageAccountName cfg) \<noteq> []"
    "trimSpace (cf_StorageContainer cfg) \<noteq> []" "trimSpace (cf_ManagedIdentityClientID cfg) \<noteq> []"
    using v issuer_not_blank account_not_blank container_not_blank uuid_not_blank by (auto simp: validContainerName_def)
  ultimately show ?thesis using v by (simp add: ParseEnvironment_def environmentOf_lookup)
qed

text \<open>
  C33. The policies that some environment yields are exactly the valid ones, and each of them is yielded by the
  environment that spells it out: the parser neither lets an inconsistent policy through nor refuses a
  consistent one.
\<close>

theorem policies_exact:
  "{cfg. \<exists>env. ParseEnvironment env = Inr cfg} = {cfg. validPolicy cfg} \<and>
   {cfg. ParseEnvironment (environmentOf cfg) = Inr cfg} = {cfg. validPolicy cfg}"
  using ParseEnvironment_valid ParseEnvironment_environmentOf by blast

text \<open>The process environment matters only through the documented names.\<close>

definition documented :: "string list" where
  "documented = [TrustedIdentityModeEnv, OIDCIssuerEnv, OIDCProviderNameEnv, AzureContainerAppsTenantIDEnv,
     StorageAccountNameEnv, StorageContainerEnv, ManagedIdentityClientIDEnv, obsoleteReleasesJSONEnv, PortEnv]"

lemma ParseEnvironment_documented:
  assumes "\<forall>name \<in> set documented. env name = env' name"
  shows "ParseEnvironment env = ParseEnvironment env'"
proof -
  have v: "\<forall>name \<in> set documented. valueOf env name = valueOf env' name" using assms by (simp add: valueOf_def)
  have "portOf env = portOf env'" "modeAccepted m env = modeAccepted m env'" for m
    using assms v by (simp_all only: documented_def list.set portOf_def modeAccepted_def) auto
  then show ?thesis using assms v by (simp add: documented_def ParseEnvironment_def Let_def cong: option.case_cong)
qed

lemma LoadEnvironment_eq: "LoadEnvironment osEnv = ParseEnvironment osEnv"
  unfolding LoadEnvironment_def by (rule ParseEnvironment_documented) (simp add: documented_def)

end
