(* ===== verification/Source.thy ===== *)
theory Source
  imports PubTree GoPath Csv AppConfig "HOL-Library.Char_ord" "HOL-Library.List_Lexorder"
begin

text \<open>
  \<open>internal/publication/source.go\<close>: release versions, archive members, the recipients file, and the discovery and
  verification of the release artifact in the repository checkout. The patterns for names and addresses and for
  release ids are those of \<open>contracts.go\<close>, which the package repeats.
\<close>

unbundle bit_operations_syntax

section \<open>Limits and patterns\<close>

definition maxArchiveBytes :: int where "maxArchiveBytes = MaxObjectSize"
definition maxArchiveEntries :: nat where "maxArchiveEntries = 32"
definition maxUncompressedBytes :: "64 word" where "maxUncompressedBytes = 1024 * 1024 * 1024"
definition maxRecipientsBytes :: int where "maxRecipientsBytes = 1024 * 1024"

definition productVersionPattern :: rexp where
  "productVersionPattern =
     rseqs [rlit ''v'', numericPart, rlit ''.'', numericPart, rlit ''.'', numericPart, rlit ''.'', rexact 2 (RCls is_digit)]"

definition releaseIDPattern :: rexp where
  "releaseIDPattern =
     RSeq (RCls lowerDigit)
       (ropt (RSeq (rupto 62 (RCls (\<lambda>c. lowerDigit c \<or> c = CHR ''_'' \<or> c = CHR ''-''))) (RCls lowerDigit)))"

text \<open>The pattern is not anchored at the end, so anything may follow.\<close>

definition windowsDrivePattern :: rexp where
  "windowsDrivePattern = RSeq (RCls is_alpha) (RSeq (rlit '':'') (RStar (RCls (\<lambda>_. True))))"

definition allowedGuideExtensions :: "string list" where
  "allowedGuideExtensions = [''.docx'', ''.md'', ''.pdf'', ''.txt'']"

record SourceRelease =
  sr_DARPath :: string
  sr_DARSHA256 :: string
  sr_DARSize :: int
  sr_DownloadName :: string
  sr_ReleaseID :: string
  sr_SchemaVersion :: string
  sr_Version :: string

section \<open>Versions\<close>

text \<open>
  The groups of the pattern hold digits only, so the submatches are the parts between the dots. Each is parsed as an
  unsigned number of at most 32 bits.
\<close>

definition productVersionKey :: "string \<Rightarrow> nat list option" where
  "productVersionKey version =
     (if \<not> rmatch productVersionPattern version then None
      else those (map (\<lambda>match. parseUint match 32) (split CHR ''.'' (trimPrefix version ''v''))))"

fun versionKeyLess :: "nat list \<Rightarrow> nat list \<Rightarrow> bool" where
  "versionKeyLess (l # left) (r # right) = (if l \<noteq> r then l < r else versionKeyLess left right)"
| "versionKeyLess _ _ = False"

section \<open>Archive members\<close>

text \<open>On Unix \<open>filepath.VolumeName\<close> is always empty.\<close>

definition validateMemberName :: "string \<Rightarrow> unit result" where
  "validateMemberName name =
     (if name = [] \<or> length name > 512 \<or> hasPrefix name ''/'' \<or> contains name [backslash] \<or>
         rmatch windowsDrivePattern name then Inl ErrSource
      else if \<not> list_all (\<lambda>character. \<not> (character < 0x20 \<or> character = 0x7f)) (runes name) then Inl ErrSource
      else let cleaned = cleanPath name
           in if cleaned = ''.'' \<or> cleaned \<noteq> trimSuffix name ''/'' then Inl ErrSource
              else if \<not> list_all (\<lambda>segment. \<not> (segment = [] \<or> segment = ''.'' \<or> segment = ''..'')) (split slash cleaned)
              then Inl ErrSource
              else Inr ())"

text \<open>The two bits of \<open>FileHeader.Mode\<close> that the code asks for.\<close>

definition unixCreator :: "zipMember \<Rightarrow> bool" where
  "unixCreator member \<longleftrightarrow> drop_bit 8 (zm_CreatorVersion member) = 3 \<or> drop_bit 8 (zm_CreatorVersion member) = 19"

definition dosCreator :: "zipMember \<Rightarrow> bool" where
  "dosCreator member \<longleftrightarrow>
     drop_bit 8 (zm_CreatorVersion member) = 11 \<or> drop_bit 8 (zm_CreatorVersion member) = 14 \<or>
     drop_bit 8 (zm_CreatorVersion member) = 0"

definition memberSymlink :: "zipMember \<Rightarrow> bool" where
  "memberSymlink member \<longleftrightarrow>
     unixCreator member \<and> drop_bit 16 (zm_ExternalAttrs member) AND 0xf000 = 0xa000"

definition memberIsDir :: "zipMember \<Rightarrow> bool" where
  "memberIsDir member \<longleftrightarrow>
     hasSuffix (zm_Name member) ''/'' \<or>
     (unixCreator member \<and> drop_bit 16 (zm_ExternalAttrs member) AND 0xf000 = 0x4000) \<or>
     (dosCreator member \<and> zm_ExternalAttrs member AND 0x10 \<noteq> 0)"

text \<open>Opening the member, copying at most one byte more than its size, closing it.\<close>

definition memberReadable :: "zipMember \<Rightarrow> bool" where
  "memberReadable member =
     (case zm_Open member of
        None \<Rightarrow> False
      | Some ((content, err), closeErr) \<Rightarrow>
          if ucast (zm_UncompressedSize member) \<noteq> zm_UncompressedSize64 member then False
          else let memberSize = unat (zm_UncompressedSize member);
                   written = min (length content) (memberSize + 1);
                   copyErr = (length content < memberSize + 1 \<and> err \<noteq> None)
               in \<not> (copyErr \<or> closeErr \<or> written \<noteq> memberSize))"

text \<open>The loop over the members; \<open>lower\<close> is \<open>strings.ToLower\<close> with the Unicode case table.\<close>

fun validateMembers ::
  "(string \<Rightarrow> string) \<Rightarrow> zipMember list \<Rightarrow> string list \<Rightarrow> 64 word \<Rightarrow> nat \<Rightarrow> nat result" where
  "validateMembers lower [] seen totalBytes darCount = Inr darCount"
| "validateMembers lower (member # rest) seen totalBytes darCount =
     (if \<not> is_ok (validateMemberName (zm_Name member)) \<or> zm_Flags member AND 1 \<noteq> 0 \<or>
         zm_Method member \<noteq> 0 \<and> zm_Method member \<noteq> 8 \<or> memberSymlink member then Inl ErrSource
      else let canonicalName = lower (zm_Name member)
      in if canonicalName \<in> set seen then Inl ErrSource
      else if memberIsDir member then validateMembers lower rest (canonicalName # seen) totalBytes darCount
      else if zm_UncompressedSize64 member > maxUncompressedBytes - totalBytes then Inl ErrSource
      else let extension = toLower (pathExt (zm_Name member))
      in if extension = ''.dar'' \<and> zm_UncompressedSize64 member < 1 then Inl ErrSource
      else if extension \<noteq> ''.dar'' \<and> extension \<notin> set allowedGuideExtensions then Inl ErrSource
      else if \<not> memberReadable member then Inl ErrSource
      else validateMembers lower rest (canonicalName # seen) (totalBytes + zm_UncompressedSize64 member)
             (if extension = ''.dar'' then darCount + 1 else darCount))"

definition validateArchive :: "(string \<Rightarrow> string) \<Rightarrow> zipMember list \<Rightarrow> unit result" where
  "validateArchive lower members =
     (if length members < 1 \<or> length members > maxArchiveEntries then Inl ErrSource
      else case validateMembers lower members [] 0 0 of
             Inl err \<Rightarrow> Inl err
           | Inr darCount \<Rightarrow> if darCount \<noteq> 1 then Inl ErrSource else Inr ())"

definition validateReleaseZIP :: "(string \<Rightarrow> string) \<Rightarrow> string \<Rightarrow> unit result pub" where
  "validateReleaseZIP lower archivePath =
     OpenZip archivePath (\<lambda>archive.
       Finish (case archive of None \<Rightarrow> Inl ErrSource | Some members \<Rightarrow> validateArchive lower members))"

section \<open>The recipients file\<close>

definition pubReadBounded :: "reader option \<Rightarrow> int \<Rightarrow> string result" where
  "pubReadBounded reader maximum =
     (case reader of
        None \<Rightarrow> Inl ErrSource
      | Some (content, err) \<Rightarrow>
          if maximum < 1 \<or> int (length content) > maximum \<or> err \<noteq> None then Inl ErrSource else Inr content)"

text \<open>The loop over the rows behind the header.\<close>

fun recipientRows :: "string list list \<Rightarrow> string list \<Rightarrow> Recipient list result" where
  "recipientRows [] seen = Inr []"
| "recipientRows (row # rows) seen =
     (if length row \<noteq> 3 then Inl ErrSource
      else let firstName = trimSpace (row ! 0);
               lastName = trimSpace (row ! 1);
               email = toLower (trimSpace (row ! 2))
      in if \<not> rmatch namePattern firstName \<or> \<not> rmatch namePattern lastName \<or>
            length email > 254 \<or> \<not> rmatch emailPattern email then Inl ErrSource
      else if email \<in> set seen then Inl ErrSource
      else case recipientRows rows (email # seen) of
             Inl err \<Rightarrow> Inl err
           | Inr recipients \<Rightarrow>
               Inr (\<lparr>rc_Email = email, rc_FirstName = firstName, rc_LastName = lastName\<rparr> # recipients))"

text \<open>
  \<open>sort.Slice\<close> with a comparison. The order it leaves between elements that the comparison does not separate is not
  specified; below, the comparison separates any two elements.
\<close>

fun insertBy :: "('a \<Rightarrow> 'a \<Rightarrow> bool) \<Rightarrow> 'a \<Rightarrow> 'a list \<Rightarrow> 'a list" where
  "insertBy lt x [] = [x]"
| "insertBy lt x (y # ys) = (if lt y x then y # insertBy lt x ys else x # y # ys)"

definition sortBy :: "('a \<Rightarrow> 'a \<Rightarrow> bool) \<Rightarrow> 'a list \<Rightarrow> 'a list" where
  "sortBy lt xs = foldr (insertBy lt) xs []"

text \<open>Go compares strings byte by byte, as the order of \<open>List_Lexorder\<close> on characters does.\<close>

definition recipientLess :: "Recipient \<Rightarrow> Recipient \<Rightarrow> bool" where
  "recipientLess left right =
     (if rc_Email left \<noteq> rc_Email right then rc_Email left < rc_Email right
      else if rc_FirstName left \<noteq> rc_FirstName right then rc_FirstName left < rc_FirstName right
      else rc_LastName left < rc_LastName right)"

definition ParseRecipients :: "reader option \<Rightarrow> Recipient list result" where
  "ParseRecipients reader =
     (case pubReadBounded reader maxRecipientsBytes of
        Inl _ \<Rightarrow> Inl ErrSource
      | Inr raw \<Rightarrow>
          if length raw < 1 \<or> int (length raw) > maxRecipientsBytes \<or> last raw \<noteq> newline \<or> char_of (13::nat) \<in> set raw
          then Inl ErrSource
          else if \<not> list_all (\<lambda>character. \<not> byte character > 0x7f) raw then Inl ErrSource
          else case readAll raw of
                 None \<Rightarrow> Inl ErrSource
               | Some rows \<Rightarrow>
                   if length rows < 2 \<or> rows ! 0 \<noteq> [''first_name'', ''last_name'', ''email''] then Inl ErrSource
                   else case recipientRows (tl rows) [] of
                          Inl err \<Rightarrow> Inl err
                        | Inr recipients \<Rightarrow> Inr (sortBy recipientLess recipients))"

section \<open>The checkout\<close>

definition absPath :: "string \<Rightarrow> string result pub" where
  "absPath raw =
     (if hasPrefix raw ''/'' then Finish (Inr (cleanPath raw))
      else Getwd (\<lambda>wd. Finish (case wd of None \<Rightarrow> Inl ErrSource | Some d \<Rightarrow> Inr (joinPath [d, raw]))))"

definition cleanDirectory :: "string \<Rightarrow> string result pub" where
  "cleanDirectory raw =
     (if trimSpace raw = [] then Finish (Inl ErrSource)
      else tryP (absPath raw) (\<lambda>root.
           EvalSymlinks root (\<lambda>resolved. case resolved of
             None \<Rightarrow> Finish (Inl ErrSource)
           | Some target \<Rightarrow>
               StatFile target (\<lambda>info. case info of
                 None \<Rightarrow> Finish (Inl ErrSource)
               | Some directoryInfo \<Rightarrow>
                   if \<not> fi_IsDir directoryInfo then Finish (Inl ErrSource) else Finish (Inr (cleanPath target))))))"

definition rejectSymlink :: "string \<Rightarrow> unit result pub" where
  "rejectSymlink name =
     LstatFile name (\<lambda>info. Finish (case info of
       None \<Rightarrow> Inl ErrSource
     | Some directoryInfo \<Rightarrow>
         if \<not> fi_IsDir directoryInfo \<or> fi_IsSymlink directoryInfo then Inl ErrSource else Inr ()))"

definition fileDigest :: "string \<Rightarrow> string result pub" where
  "fileDigest name =
     ReadFile (cleanPath name) (\<lambda>file. Finish (case file of
       Some (content, None) \<Rightarrow> Inr (hexEncode (sha256 content))
     | _ \<Rightarrow> Inl ErrSource))"

fun releaseCandidates :: "dirEntry list \<Rightarrow> (string \<times> nat list) list result" where
  "releaseCandidates [] = Inr []"
| "releaseCandidates (entry # entries) =
     (if de_Name entry = ''README.md'' \<and> de_IsRegular entry then releaseCandidates entries
      else if \<not> de_IsDir entry \<or> de_IsSymlink entry then Inl ErrSource
      else case productVersionKey (de_Name entry) of
             None \<Rightarrow> Inl ErrSource
           | Some key \<Rightarrow>
               (case releaseCandidates entries of
                  Inl err \<Rightarrow> Inl err
                | Inr candidates \<Rightarrow> Inr ((de_Name entry, key) # candidates)))"

definition downloadNameOf :: "string \<Rightarrow> string" where
  "downloadNameOf version = ''dar-'' @ trimPrefix version ''v'' @ ''.zip''"

text \<open>The archive of the chosen version: one regular file of that name in the directory, with a valid content.\<close>

definition inspectRelease ::
  "(string \<Rightarrow> string) \<Rightarrow> string \<Rightarrow> string \<Rightarrow> string \<Rightarrow> SourceRelease result pub" where
  "inspectRelease lower releases version releaseID =
     (let downloadName = downloadNameOf version;
          releaseDirectory = joinPath [releases, version];
          archivePath = joinPath [releaseDirectory, downloadName]
      in ReadDir releaseDirectory (\<lambda>listing. case listing of
           Some [entry] \<Rightarrow>
             if de_Name entry \<noteq> downloadName \<or> de_IsDir entry \<or> de_IsSymlink entry then Finish (Inl ErrSource)
             else StatFile archivePath (\<lambda>info. case info of
               None \<Rightarrow> Finish (Inl ErrSource)
             | Some archiveInfo \<Rightarrow>
                 if fi_Size archiveInfo < 1 \<or> fi_Size archiveInfo > maxArchiveBytes then Finish (Inl ErrSource)
                 else tryP (validateReleaseZIP lower archivePath) (\<lambda>_.
                      tryP (fileDigest archivePath) (\<lambda>digest.
                      Finish (Inr
                        \<lparr>sr_DARPath = joinPath [''releases'', version, downloadName], sr_DARSHA256 = digest,
                         sr_DARSize = fi_Size archiveInfo, sr_DownloadName = downloadName, sr_ReleaseID = releaseID,
                         sr_SchemaVersion = ''1.0'', sr_Version = version\<rparr>))))
         | _ \<Rightarrow> Finish (Inl ErrSource)))"

definition candidateLess :: "string \<times> nat list \<Rightarrow> string \<times> nat list \<Rightarrow> bool" where
  "candidateLess left right \<longleftrightarrow> versionKeyLess (snd left) (snd right)"

definition DiscoverSource :: "(string \<Rightarrow> string) \<Rightarrow> string \<Rightarrow> string \<Rightarrow> SourceRelease result pub" where
  "DiscoverSource lower repositoryRoot releaseID =
     (if \<not> rmatch releaseIDPattern releaseID then Finish (Inl ErrSource)
      else tryP (cleanDirectory repositoryRoot) (\<lambda>root.
           let releases = joinPath [root, ''releases'']
           in tryP (rejectSymlink releases) (\<lambda>_.
              ReadDir releases (\<lambda>listing. case listing of
                None \<Rightarrow> Finish (Inl ErrSource)
              | Some entries \<Rightarrow>
                  if length entries = 0 then Finish (Inl ErrSource)
                  else (case releaseCandidates entries of
                          Inl err \<Rightarrow> Finish (Inl err)
                        | Inr candidates \<Rightarrow>
                            if length candidates = 0 then Finish (Inl ErrSource)
                            else inspectRelease lower releases (fst (last (sortBy candidateLess candidates))) releaseID)))))"

text \<open>The part of \<open>verifySourceArtifact\<close> behind the checks of the record itself.\<close>

definition verifyArtifactAt :: "string \<Rightarrow> SourceRelease \<Rightarrow> string result pub" where
  "verifyArtifactAt root release =
     (let name = joinPath [root, sr_DARPath release]
      in EvalSymlinks name (\<lambda>link. case link of
           None \<Rightarrow> Finish (Inl ErrSource)
         | Some resolved \<Rightarrow>
             if cleanPath resolved \<noteq> cleanPath name then Finish (Inl ErrSource)
             else case relPath root resolved of
                    None \<Rightarrow> Finish (Inl ErrSource)
                  | Some relative \<Rightarrow>
                      if relative = ''..'' \<or> hasPrefix relative ''../'' then Finish (Inl ErrSource)
                      else StatFile resolved (\<lambda>info. case info of
                        None \<Rightarrow> Finish (Inl ErrSource)
                      | Some artifactInfo \<Rightarrow>
                          if \<not> fi_IsRegular artifactInfo \<or> fi_Size artifactInfo \<noteq> sr_DARSize release
                          then Finish (Inl ErrSource)
                          else bindP (fileDigest resolved) (\<lambda>digest.
                               Finish (if digest \<noteq> Inr (sr_DARSHA256 release) then Inl ErrSource else Inr resolved)))))"

definition validSourceRecord :: "SourceRelease \<Rightarrow> bool" where
  "validSourceRecord release \<longleftrightarrow>
     \<not> (sr_SchemaVersion release \<noteq> ''1.0'' \<or> \<not> rmatch releaseIDPattern (sr_ReleaseID release) \<or>
        \<not> rmatch productVersionPattern (sr_Version release) \<or>
        sr_DownloadName release \<noteq> downloadNameOf (sr_Version release) \<or>
        sr_DARPath release \<noteq> ''releases/'' @ sr_Version release @ ''/'' @ sr_DownloadName release \<or>
        length (sr_DARSHA256 release) \<noteq> 64 \<or> sr_DARSize release < 1 \<or> sr_DARSize release > maxArchiveBytes)"

definition verifySourceArtifact :: "string \<Rightarrow> SourceRelease \<Rightarrow> string result pub" where
  "verifySourceArtifact repositoryRoot release =
     (if \<not> validSourceRecord release then Finish (Inl ErrSource)
      else tryP (cleanDirectory repositoryRoot) (\<lambda>root. verifyArtifactAt root release))"

end
