(* ===== verification/PubConfig.thy ===== *)
theory PubConfig
  imports Source
begin

text \<open>
  \<open>internal/publication/config.go\<close> and the configuration part of \<open>publisher.go\<close>: the publication policy and its
  validation, and the environment of the publisher process.
\<close>

section \<open>The publication policy\<close>

definition maxPublicationBatchSize :: int where "maxPublicationBatchSize = 10"

definition pubRepositoryPattern :: rexp where
  "pubRepositoryPattern = rseqs [rplus (RCls repositoryChar), rlit ''/'', rplus (RCls repositoryChar)]"

definition pubContainerPattern :: rexp where
  "pubContainerPattern =
     RSeq (RCls lowerDigit)
       (ropt (RSeq (rbetween 1 61 (RCls (\<lambda>c. lowerDigit c \<or> c = CHR ''-''))) (RCls lowerDigit)))"

definition pubCommitPattern :: rexp where
  "pubCommitPattern = rexact 40 (RCls is_lower_hex)"

record PublicationConfig =
  pc_Repository :: string
  pc_ReleasesContainer :: string
  pc_ManifestsContainer :: string
  pc_BatchesContainer :: string
  pc_ApplicationOrigin :: string
  pc_BatchSize :: int

definition validApplicationOrigin :: "string \<Rightarrow> bool" where
  "validApplicationOrigin raw =
     (case urlParse raw of
        None \<Rightarrow> False
      | Some parsed \<Rightarrow>
          if u_scheme parsed \<noteq> ''https'' \<or> u_user parsed \<noteq> None \<or> hostname parsed = [] \<or>
             u_rawQuery parsed \<noteq> [] \<or> u_fragment parsed \<noteq> [] \<or> u_path parsed \<noteq> [] \<and> u_path parsed \<noteq> ''/'' \<or>
             urlPort parsed \<noteq> [] \<and> urlPort parsed \<noteq> ''443''
          then False
          else let host = toLower (hostname parsed)
               in hasSuffix host ''.azurecontainerapps.io'' \<or> hasSuffix host ''.example.internal'')"

text \<open>The loop over the containers: each has the form of a container name, and none occurs twice.\<close>

fun containersOk :: "string list \<Rightarrow> string list \<Rightarrow> bool" where
  "containersOk [] seen = True"
| "containersOk (container # rest) seen =
     (if \<not> rmatch pubContainerPattern container \<or> contains container ''--'' then False
      else if container \<in> set seen then False
      else containersOk rest (container # seen))"

definition validPublisherConfig :: "PublicationConfig \<Rightarrow> bool" where
  "validPublisherConfig config =
     (if \<not> rmatch pubRepositoryPattern (pc_Repository config) \<or> pc_BatchSize config < 1 \<or>
         pc_BatchSize config > maxPublicationBatchSize \<or> \<not> validApplicationOrigin (pc_ApplicationOrigin config)
      then False
      else containersOk [pc_ReleasesContainer config, pc_ManifestsContainer config, pc_BatchesContainer config] [])"

definition validCreatedAt :: "string \<Rightarrow> bool" where
  "validCreatedAt raw \<longleftrightarrow> hasSuffix raw ''Z'' \<and> parseZ raw \<noteq> None"

section \<open>The environment\<close>

definition EnvRepository :: string where "EnvRepository = ''DAR_PUBLISHER_REPOSITORY''"
definition EnvCommitSHA :: string where "EnvCommitSHA = ''DAR_PUBLISHER_SOURCE_COMMIT_SHA''"
definition EnvCommitEpoch :: string where "EnvCommitEpoch = ''DAR_PUBLISHER_SOURCE_COMMIT_EPOCH''"
definition EnvRepositoryRoot :: string where "EnvRepositoryRoot = ''DAR_PUBLISHER_REPOSITORY_ROOT''"
definition EnvReleaseID :: string where "EnvReleaseID = ''DAR_PUBLISHER_RELEASE_ID''"
definition EnvRecipientsFile :: string where "EnvRecipientsFile = ''DAR_PUBLISHER_RECIPIENTS_FILE''"
definition EnvStorageAccount :: string where "EnvStorageAccount = ''DAR_PUBLISHER_STORAGE_ACCOUNT_NAME''"
definition EnvReleasesContainer :: string where "EnvReleasesContainer = ''DAR_PUBLISHER_RELEASES_CONTAINER''"
definition EnvManifestsContainer :: string where "EnvManifestsContainer = ''DAR_PUBLISHER_MANIFESTS_CONTAINER''"
definition EnvBatchesContainer :: string where "EnvBatchesContainer = ''DAR_PUBLISHER_BATCHES_CONTAINER''"
definition EnvServiceBusNamespace :: string where "EnvServiceBusNamespace = ''DAR_PUBLISHER_SERVICEBUS_NAMESPACE''"
definition EnvServiceBusQueue :: string where "EnvServiceBusQueue = ''DAR_PUBLISHER_SERVICEBUS_QUEUE''"
definition EnvApplicationOrigin :: string where "EnvApplicationOrigin = ''DAR_PUBLISHER_APPLICATION_ORIGIN''"

definition pubStorageAccountPattern :: rexp where
  "pubStorageAccountPattern = rbetween 3 24 (RCls lowerDigit)"

definition serviceBusNamespacePattern :: rexp where
  "serviceBusNamespacePattern =
     rseqs [RCls lowerDigit, rbetween 4 48 (RCls (\<lambda>c. lowerDigit c \<or> c = CHR ''-'')), RCls lowerDigit,
            rlit ''.servicebus.windows.net'']"

definition queueNamePattern :: rexp where
  "queueNamePattern =
     rseqs [RCls is_alnum,
            rupto 258 (RCls (\<lambda>c. is_alnum c \<or> c = CHR ''.'' \<or> c = CHR ''_'' \<or> c = CHR ''/'' \<or> c = CHR ''-'')),
            RCls is_alnum]"

record PubEnvironment =
  pe_ApplicationOrigin :: string
  pe_BatchesContainer :: string
  pe_CommitSHA :: string
  pe_CreatedAt :: string
  pe_ManifestsContainer :: string
  pe_RecipientsFile :: string
  pe_ReleaseID :: string
  pe_ReleasesContainer :: string
  pe_Repository :: string
  pe_RepositoryRoot :: string
  pe_ServiceBusNamespace :: string
  pe_ServiceBusQueue :: string
  pe_StorageAccount :: string

definition PublisherConfig :: "PubEnvironment \<Rightarrow> PublicationConfig" where
  "PublisherConfig environment =
     \<lparr>pc_Repository = pe_Repository environment, pc_ReleasesContainer = pe_ReleasesContainer environment,
      pc_ManifestsContainer = pe_ManifestsContainer environment, pc_BatchesContainer = pe_BatchesContainer environment,
      pc_ApplicationOrigin = pe_ApplicationOrigin environment, pc_BatchSize = maxPublicationBatchSize\<rparr>"

definition containsControl :: "string \<Rightarrow> bool" where
  "containsControl value \<longleftrightarrow> list_ex (\<lambda>character. character < 0x20 \<or> character = 0x7f) (runes value)"

definition forbiddenNames :: "string list" where
  "forbiddenNames =
     [''DAR_PUBLISHER_STORAGE_KEY'', ''DAR_PUBLISHER_STORAGE_CONNECTION_STRING'',
      ''DAR_PUBLISHER_SERVICEBUS_CONNECTION_STRING'', ''DAR_PUBLISHER_SENDGRID_API_KEY'']"

definition requiredNames :: "string list" where
  "requiredNames =
     [EnvRepository, EnvCommitSHA, EnvCommitEpoch, EnvRepositoryRoot, EnvReleaseID, EnvRecipientsFile, EnvStorageAccount,
      EnvReleasesContainer, EnvManifestsContainer, EnvBatchesContainer, EnvServiceBusNamespace, EnvServiceBusQueue,
      EnvApplicationOrigin]"

text \<open>A nil map has no values: it is refused like an empty one.\<close>

definition ParsePubEnvironment :: "environment \<Rightarrow> PubEnvironment result" where
  "ParsePubEnvironment values =
     (if list_ex (\<lambda>forbidden. trimSpace (valueOf values forbidden) \<noteq> []) forbiddenNames then Inl ErrEnvironment
      else if list_ex (\<lambda>name. trimSpace (valueOf values name) = [] \<or> containsControl (valueOf values name)) requiredNames
      then Inl ErrEnvironment
      else case parseInt (valueOf values EnvCommitEpoch) of
        None \<Rightarrow> Inl ErrEnvironment
      | Some epoch \<Rightarrow>
          if epoch < 946684800 \<or> epoch > 4102444799 then Inl ErrEnvironment
          else let namespace = toLower (valueOf values EnvServiceBusNamespace)
          in if \<not> containersOk [valueOf values EnvReleasesContainer, valueOf values EnvManifestsContainer,
                               valueOf values EnvBatchesContainer] [] then Inl ErrEnvironment
          else if \<not> rmatch pubRepositoryPattern (valueOf values EnvRepository) \<or>
                  \<not> rmatch pubCommitPattern (valueOf values EnvCommitSHA) \<or>
                  \<not> rmatch releaseIDPattern (valueOf values EnvReleaseID) \<or>
                  \<not> rmatch pubStorageAccountPattern (valueOf values EnvStorageAccount) \<or>
                  \<not> rmatch serviceBusNamespacePattern namespace \<or>
                  \<not> rmatch queueNamePattern (valueOf values EnvServiceBusQueue) \<or>
                  contains (valueOf values EnvServiceBusQueue) ''//'' \<or>
                  contains (valueOf values EnvServiceBusQueue) ''..'' \<or>
                  \<not> validApplicationOrigin (valueOf values EnvApplicationOrigin) then Inl ErrEnvironment
          else Inr
            \<lparr>pe_ApplicationOrigin = trimSuffix (valueOf values EnvApplicationOrigin) ''/'',
             pe_BatchesContainer = valueOf values EnvBatchesContainer, pe_CommitSHA = valueOf values EnvCommitSHA,
             pe_CreatedAt = formatZ (epoch * second),
             pe_ManifestsContainer = valueOf values EnvManifestsContainer,
             pe_RecipientsFile = valueOf values EnvRecipientsFile, pe_ReleaseID = valueOf values EnvReleaseID,
             pe_ReleasesContainer = valueOf values EnvReleasesContainer, pe_Repository = valueOf values EnvRepository,
             pe_RepositoryRoot = valueOf values EnvRepositoryRoot, pe_ServiceBusNamespace = namespace,
             pe_ServiceBusQueue = valueOf values EnvServiceBusQueue,
             pe_StorageAccount = valueOf values EnvStorageAccount\<rparr>)"

end
