(* ===== verification/PubAzure.thy ===== *)
theory PubAzure
  imports PubConfig
begin

text \<open>
  \<open>internal/publication/azure.go\<close>: the blob writer on a versioned storage account and the queue writer. The Azure SDK is
  the environment: its calls are nodes of the tree. \<open>BlobWriter\<close> and \<open>QueueWriter\<close> are the interfaces that the
  publisher sees (\<open>publisher.go\<close>).
\<close>

section \<open>Requests and interfaces\<close>

record ImmutableBytesRequest =
  ib_Container :: string
  ib_Name :: string
  ib_Body :: string
  ib_ContentType :: string

record ImmutableFileRequest =
  if_Container :: string
  if_Name :: string
  if_FileName :: string
  if_ExpectedDigest :: string
  if_ExpectedSize :: int
  if_ContentType :: string

record CurrentManifestRequest =
  cm_Container :: string
  cm_Name :: string
  cm_Body :: string
  cm_ReleaseVersion :: string

record QueueRequest =
  qr_MessageID :: string
  qr_Body :: string

record PublishedBlob =
  pb_Reference :: BlobReference
  pb_ETag :: string

record BlobWriter =
  bw_PutImmutableBytes :: "ImmutableBytesRequest \<Rightarrow> PublishedBlob result pub"
  bw_PutImmutableFile :: "ImmutableFileRequest \<Rightarrow> PublishedBlob result pub"
  bw_PutCurrentManifest :: "CurrentManifestRequest \<Rightarrow> PublishedBlob result pub"

record QueueWriter =
  qw_Send :: "QueueRequest \<Rightarrow> unit result pub"

section \<open>Blob identities\<close>

abbreviation errPublication :: go_error where "errPublication \<equiv> ErrPublication []"

definition maxCurrentBytes :: int where "maxCurrentBytes = 64 * 1024"

record blobIdentity =
  bi_container :: string
  bi_name :: string
  bi_digest :: string
  bi_size :: int
  bi_contentType :: string

record blobUpload =
  bu_identity :: blobIdentity
  bu_body :: reader
  bu_conditions :: condition

definition pubAzureStatus :: "az_error \<Rightarrow> int" where
  "pubAzureStatus err = (case err of AzStatus statusCode \<Rightarrow> statusCode | _ \<Rightarrow> 0)"

text \<open>\<open>strings.EqualFold\<close> against the ASCII name; entries with a nil value are passed over.\<close>

fun metadataValue :: "metadata \<Rightarrow> string \<Rightarrow> string" where
  "metadataValue [] expected = []"
| "metadataValue ((name, value) # metadata) expected =
     (if foldName name = foldName expected \<and> value \<noteq> None then the value else metadataValue metadata expected)"

definition metadataMatches :: "metadata \<Rightarrow> string \<Rightarrow> bool" where
  "metadataMatches metadata body \<longleftrightarrow> metadataValue metadata ''sha256'' = hexEncode (sha256 body)"

definition publishedFromUpload :: "blobIdentity \<Rightarrow> uploadResponse \<Rightarrow> PublishedBlob result" where
  "publishedFromUpload identity response =
     (case (ur_ETag response, ur_VersionID response) of
        (Some etag, Some versionID) \<Rightarrow>
          if versionID = [] then Inl errPublication
          else Inr \<lparr>pb_Reference = \<lparr>br_Container = bi_container identity, br_Name = bi_name identity,
                      br_SHA256 = bi_digest identity, br_Size = bi_size identity, br_VersionID = versionID\<rparr>,
                    pb_ETag = etag\<rparr>
      | _ \<Rightarrow> Inl errPublication)"

definition publishedFromProperties :: "blobIdentity \<Rightarrow> blobProperties \<Rightarrow> PublishedBlob result" where
  "publishedFromProperties identity properties =
     (case (gp_ETag properties, gp_VersionID properties, gp_ContentLength properties) of
        (Some etag, Some versionID, Some contentLength) \<Rightarrow>
          if versionID = [] \<or> contentLength < 1 then Inl errPublication
          else let digest = metadataValue (gp_Metadata properties) ''sha256''
               in if length digest \<noteq> 64 then Inl errPublication
                  else Inr \<lparr>pb_Reference = \<lparr>br_Container = bi_container identity, br_Name = bi_name identity,
                              br_SHA256 = digest, br_Size = contentLength, br_VersionID = versionID\<rparr>,
                            pb_ETag = etag\<rparr>
      | _ \<Rightarrow> Inl errPublication)"

section \<open>Writing blobs\<close>

definition upload :: "blobUpload \<Rightarrow> (az_error + uploadResponse) pub" where
  "upload u =
     Upload \<lparr>up_Container = bi_container (bu_identity u), up_Name = bi_name (bu_identity u), up_Body = bu_body u,
             up_ContentType = bi_contentType (bu_identity u), up_Metadata = [(''sha256'', Some (bi_digest (bu_identity u)))],
             up_Condition = bu_conditions u\<rparr> Finish"

text \<open>When the blob exists already, its recorded digest and size must be those of the new content.\<close>

definition existingBlob :: "blobIdentity \<Rightarrow> PublishedBlob result pub" where
  "existingBlob identity =
     GetProperties (bi_container identity) (bi_name identity) (\<lambda>reply. Finish (case reply of
       Inl _ \<Rightarrow> Inl errPublication
     | Inr properties \<Rightarrow>
         (case publishedFromProperties identity properties of
            Inl _ \<Rightarrow> Inl errPublication
          | Inr published \<Rightarrow>
              if br_SHA256 (pb_Reference published) \<noteq> bi_digest identity \<or> br_Size (pb_Reference published) \<noteq> bi_size identity
              then Inl errPublication else Inr published)))"

definition putImmutable :: "blobIdentity \<Rightarrow> reader \<Rightarrow> PublishedBlob result pub" where
  "putImmutable identity body =
     (if \<not> rmatch pubContainerPattern (bi_container identity) \<or> bi_name identity = [] \<or> bi_size identity < 1 \<or>
         length (bi_digest identity) \<noteq> 64 \<or> bi_contentType identity = [] then Finish (Inl errPublication)
      else bindP (upload \<lparr>bu_identity = identity, bu_body = body, bu_conditions = IfAbsent\<rparr>) (\<lambda>reply. case reply of
             Inr response \<Rightarrow> Finish (publishedFromUpload identity response)
           | Inl err \<Rightarrow>
               if pubAzureStatus err \<noteq> 409 \<and> pubAzureStatus err \<noteq> 412 then Finish (Inl errPublication)
               else existingBlob identity))"

definition bytesIdentity :: "string \<Rightarrow> string \<Rightarrow> string \<Rightarrow> string \<Rightarrow> blobIdentity" where
  "bytesIdentity container name body contentType =
     \<lparr>bi_container = container, bi_name = name, bi_digest = hexEncode (sha256 body), bi_size = int (length body),
      bi_contentType = contentType\<rparr>"

definition PutImmutableBytes :: "ImmutableBytesRequest \<Rightarrow> PublishedBlob result pub" where
  "PutImmutableBytes request =
     (if length (ib_Body request) < 1 then Finish (Inl errPublication)
      else putImmutable (bytesIdentity (ib_Container request) (ib_Name request) (ib_Body request) (ib_ContentType request))
             (ib_Body request, None))"

text \<open>The file that is uploaded: of the expected size and digest, and opened again after the digest was taken.\<close>

definition checkedFile :: "ImmutableFileRequest \<Rightarrow> reader result pub" where
  "checkedFile request =
     StatFile (if_FileName request) (\<lambda>info. case info of
       None \<Rightarrow> Finish (Inl errPublication)
     | Some fileInfo \<Rightarrow>
         if \<not> fi_IsRegular fileInfo \<or> fi_Size fileInfo \<noteq> if_ExpectedSize request then Finish (Inl errPublication)
         else bindP (fileDigest (if_FileName request)) (\<lambda>actualDigest.
           if actualDigest \<noteq> Inr (if_ExpectedDigest request) then Finish (Inl errPublication)
           else ReadFile (if_FileName request) (\<lambda>file. Finish (case file of
             None \<Rightarrow> Inl errPublication
           | Some body \<Rightarrow> Inr body))))"

definition PutImmutableFile :: "ImmutableFileRequest \<Rightarrow> PublishedBlob result pub" where
  "PutImmutableFile request =
     tryP (checkedFile request) (\<lambda>body.
       putImmutable \<lparr>bi_container = if_Container request, bi_name = if_Name request,
           bi_digest = if_ExpectedDigest request, bi_size = if_ExpectedSize request,
           bi_contentType = if_ContentType request\<rparr> body)"

definition currentBody :: "blobProperties \<Rightarrow> int \<Rightarrow> az_error + reader option \<Rightarrow> string result" where
  "currentBody properties contentLength reply =
     (case reply of
        Inr (Some stream) \<Rightarrow>
          (case pubReadBounded (Some stream) maxCurrentBytes of
             Inl _ \<Rightarrow> Inl errPublication
           | Inr body \<Rightarrow>
               if int (length body) \<noteq> contentLength \<or> \<not> metadataMatches (gp_Metadata properties) body
               then Inl errPublication else Inr body)
      | _ \<Rightarrow> Inl errPublication)"

definition downloadCurrent :: "string \<Rightarrow> string \<Rightarrow> blobProperties \<Rightarrow> string result pub" where
  "downloadCurrent container name properties =
     (case gp_ContentLength properties of
        None \<Rightarrow> Finish (Inl errPublication)
      | Some contentLength \<Rightarrow>
          if contentLength < 1 \<or> contentLength > maxCurrentBytes then Finish (Inl errPublication)
          else DownloadBlob container name (\<lambda>reply. Finish (currentBody properties contentLength reply)))"

text \<open>Replacing an older manifest, under the ETag of the one that was read.\<close>

definition replaceCurrent :: "CurrentManifestRequest \<Rightarrow> blobProperties \<Rightarrow> string \<Rightarrow> PublishedBlob result pub" where
  "replaceCurrent request properties existing =
     (case ParsePublishedManifest existing of
        Inl _ \<Rightarrow> Finish (Inl errPublication)
      | Inr manifest \<Rightarrow>
          (case (productVersionKey (pm_ReleaseVersion manifest), productVersionKey (cm_ReleaseVersion request), gp_ETag properties) of
             (Some existingKey, Some incomingKey, Some etag) \<Rightarrow>
               if \<not> versionKeyLess existingKey incomingKey then Finish (Inl errPublication)
               else let identity = bytesIdentity (cm_Container request) (cm_Name request) (cm_Body request) ''application/json''
                    in bindP (upload \<lparr>bu_identity = identity, bu_body = (cm_Body request, None), bu_conditions = IfMatch etag\<rparr>)
                         (\<lambda>reply. Finish (case reply of
                            Inl _ \<Rightarrow> Inl errPublication
                          | Inr response \<Rightarrow> publishedFromUpload identity response))
           | _ \<Rightarrow> Finish (Inl errPublication)))"

definition PutCurrentManifest :: "CurrentManifestRequest \<Rightarrow> PublishedBlob result pub" where
  "PutCurrentManifest request =
     (if length (cm_Body request) < 1 \<or> int (length (cm_Body request)) > maxCurrentBytes then Finish (Inl errPublication)
      else GetProperties (cm_Container request) (cm_Name request) (\<lambda>reply. case reply of
        Inl err \<Rightarrow>
          if pubAzureStatus err \<noteq> 404 then Finish (Inl errPublication)
          else PutImmutableBytes \<lparr>ib_Container = cm_Container request, ib_Name = cm_Name request,
                 ib_Body = cm_Body request, ib_ContentType = ''application/json''\<rparr>
      | Inr properties \<Rightarrow>
          tryP (downloadCurrent (cm_Container request) (cm_Name request) properties) (\<lambda>existing.
            if existing = cm_Body request
            then Finish (publishedFromProperties
                   \<lparr>bi_container = cm_Container request, bi_name = cm_Name request, bi_digest = [], bi_size = 0, bi_contentType = []\<rparr>
                   properties)
            else replaceCurrent request properties existing)))"

definition azureBlobWriter :: BlobWriter where
  "azureBlobWriter =
     \<lparr>bw_PutImmutableBytes = PutImmutableBytes, bw_PutImmutableFile = PutImmutableFile,
      bw_PutCurrentManifest = PutCurrentManifest\<rparr>"

definition NewAzureBlobWriter :: "bool \<Rightarrow> BlobWriter result" where
  "NewAzureBlobWriter serviceClientNil = (if serviceClientNil then Inl errPublication else Inr azureBlobWriter)"

section \<open>The queue\<close>

text \<open>The message that a queue request becomes.\<close>

definition busMessageOf :: "QueueRequest \<Rightarrow> busMessage" where
  "busMessageOf request =
     \<lparr>bm_Body = qr_Body request, bm_ContentType = ''application/json'', bm_MessageID = qr_MessageID request,
      bm_Subject = ''dar.release.batch.v1''\<rparr>"

definition queueSend :: "QueueRequest \<Rightarrow> unit result pub" where
  "queueSend request =
     (if qr_MessageID request = [] \<or> length (qr_MessageID request) > 128 \<or> length (qr_Body request) < 1 \<or>
         length (qr_Body request) > 64 * 1024 then Finish (Inl errPublication)
      else Enqueue (busMessageOf request) (\<lambda>failed. Finish (if failed then Inl errPublication else Inr ())))"

definition azureQueueWriter :: QueueWriter where
  "azureQueueWriter = \<lparr>qw_Send = queueSend\<rparr>"

definition NewAzureQueueWriter :: "bool \<Rightarrow> QueueWriter result" where
  "NewAzureQueueWriter senderNil = (if senderNil then Inl errPublication else Inr azureQueueWriter)"

end
