(* ===== verification/Publisher.thy ===== *)
theory Publisher
  imports PubAzure
begin

text \<open>
  \<open>internal/publication/publisher.go\<close>: planning a publication and carrying it out: identity, artifact, manifest and
  recipient batches as immutable blobs, one queue message per batch, and the current manifest of the release last.
  \<open>json.Marshal\<close> cannot fail on these structs, which hold strings and integers only.
\<close>

section \<open>Requests and plans\<close>

record PublishRequest =
  pq_RepositoryRoot :: string
  pq_Source :: SourceRelease
  pq_Recipients :: "Recipient list"
  pq_CommitSHA :: string
  pq_CreatedAt :: string

record PublicationResult =
  rs_BatchCount :: int
  rs_OperationID :: string
  rs_ReleaseID :: string
  rs_ReleaseVersion :: string

record Publisher =
  pu_config :: PublicationConfig
  pu_blobs :: BlobWriter
  pu_queue :: QueueWriter

record publicationPlan =
  pl_request :: PublishRequest
  pl_artifactPath :: string
  pl_operationID :: string
  pl_batches :: "string list"

abbreviation publicationError :: "string \<Rightarrow> go_error" where
  "publicationError reason \<equiv> ErrPublication reason"

definition NewPublisher :: "PublicationConfig \<Rightarrow> BlobWriter option \<Rightarrow> QueueWriter option \<Rightarrow> Publisher result" where
  "NewPublisher config0 blobs queue =
     (let config = (if pc_BatchSize config0 = 0 then config0\<lparr>pc_BatchSize := maxPublicationBatchSize\<rparr> else config0)
      in if \<not> validPublisherConfig config then Inl errPublication
         else case (blobs, queue) of
           (Some b, Some q) \<Rightarrow>
             Inr \<lparr>pu_config = config\<lparr>pc_ApplicationOrigin := trimSuffix (pc_ApplicationOrigin config) ''/''\<rparr>,
                  pu_blobs = b, pu_queue = q\<rparr>
         | _ \<Rightarrow> Inl errPublication)"

section \<open>Documents\<close>

definition sourceJson :: "SourceRelease \<Rightarrow> json" where
  "sourceJson s = JObj
     [(''dar_path'', JStr (sr_DARPath s)), (''dar_sha256'', JStr (sr_DARSHA256 s)), (''dar_size'', jint (sr_DARSize s)),
      (''download_name'', JStr (sr_DownloadName s)), (''release_id'', JStr (sr_ReleaseID s)),
      (''schema_version'', JStr (sr_SchemaVersion s)), (''version'', JStr (sr_Version s))]"

definition identityJson :: "string \<Rightarrow> string \<Rightarrow> string \<Rightarrow> SourceRelease \<Rightarrow> json" where
  "identityJson commitSHA operationID repository source = JObj
     [(''commit_sha'', JStr commitSHA), (''operation_id'', JStr operationID), (''repository'', JStr repository),
      (''schema_version'', JStr ''1.0''), (''source_manifest'', sourceJson source)]"

definition intentJson :: "string \<Rightarrow> SourceRelease \<Rightarrow> string \<Rightarrow> json" where
  "intentJson commitSHA source repository = JObj
     [(''commit_sha'', JStr commitSHA), (''manifest'', sourceJson source), (''repository'', JStr repository)]"

definition deriveOperationID :: "string \<Rightarrow> string \<Rightarrow> SourceRelease \<Rightarrow> string" where
  "deriveOperationID repository commitSHA source =
     hexEncode (sha256 (jprint (intentJson commitSHA source (toLower repository))))"

section \<open>Planning\<close>

fun validRecipientsFrom :: "string option \<Rightarrow> Recipient list \<Rightarrow> bool" where
  "validRecipientsFrom previous [] = True"
| "validRecipientsFrom previous (recipient # rest) =
     (if \<not> is_ok (ParseRecipient (jprint (recipientJson recipient))) \<or>
         (case previous of None \<Rightarrow> False | Some email \<Rightarrow> email \<ge> rc_Email recipient)
      then False else validRecipientsFrom (Some (rc_Email recipient)) rest)"

definition validRecipients :: "Recipient list \<Rightarrow> bool" where
  "validRecipients recipients = validRecipientsFrom None recipients"

definition batchBytes :: "Recipient list \<Rightarrow> string" where
  "batchBytes recipients = concat (map (\<lambda>recipient. jprint (recipientJson recipient) @ [newline]) recipients)"

text \<open>The loop \<open>for start := 0; start < len(recipients); start += batchSize\<close>; the batch size is positive.\<close>

function batchesFrom :: "Recipient list \<Rightarrow> nat \<Rightarrow> nat \<Rightarrow> string list" where
  "batchesFrom recipients batchSize start =
     (if \<not> start < length recipients \<or> batchSize = 0 then []
      else let finish = min (start + batchSize) (length recipients)
           in batchBytes (take (finish - start) (drop start recipients)) #
              batchesFrom recipients batchSize (start + batchSize))"
  by pat_completeness auto
termination
  by (relation "measure (\<lambda>(recipients, batchSize, start). length recipients - start)") auto

declare batchesFrom.simps [simp del]

definition buildBatches :: "Recipient list \<Rightarrow> int \<Rightarrow> string list result" where
  "buildBatches recipients batchSize =
     (let batchCount = (int (length recipients) + batchSize - 1) div batchSize
      in if batchCount < 1 \<or> batchCount > 10000 then Inl errPublication
         else Inr (batchesFrom recipients (nat batchSize) 0))"

definition batchRecipientCount :: "int \<Rightarrow> int \<Rightarrow> int \<Rightarrow> int" where
  "batchRecipientCount index total_count size_limit = min size_limit (total_count - index * size_limit)"

definition plan :: "Publisher \<Rightarrow> PublishRequest \<Rightarrow> publicationPlan result pub" where
  "plan publisher request =
     (if \<not> rmatch pubCommitPattern (pq_CommitSHA request) \<or> \<not> validCreatedAt (pq_CreatedAt request) \<or>
         length (pq_Recipients request) = 0 \<or> \<not> validRecipients (pq_Recipients request)
      then Finish (Inl errPublication)
      else bindP (verifySourceArtifact (pq_RepositoryRoot request) (pq_Source request)) (\<lambda>verified. Finish (case verified of
        Inl _ \<Rightarrow> Inl (publicationError ''SOURCE_ARTIFACT'')
      | Inr artifactPath \<Rightarrow>
          (case buildBatches (pq_Recipients request) (pc_BatchSize (pu_config publisher)) of
             Inl err \<Rightarrow> Inl err
           | Inr batches \<Rightarrow>
               Inr \<lparr>pl_request = request, pl_artifactPath = artifactPath,
                    pl_operationID = deriveOperationID (pc_Repository (pu_config publisher)) (pq_CommitSHA request) (pq_Source request),
                    pl_batches = batches\<rparr>))))"

section \<open>Publishing\<close>

definition leftPad :: "nat \<Rightarrow> nat \<Rightarrow> string" where
  "leftPad value width = replicate (width - length (itoa_nat value)) CHR ''0'' @ itoa_nat value"

definition identityBody :: "Publisher \<Rightarrow> publicationPlan \<Rightarrow> string" where
  "identityBody publisher p =
     jprint (identityJson (pq_CommitSHA (pl_request p)) (pl_operationID p) (toLower (pc_Repository (pu_config publisher)))
       (pq_Source (pl_request p)))"

definition identityRequest :: "Publisher \<Rightarrow> publicationPlan \<Rightarrow> ImmutableBytesRequest" where
  "identityRequest publisher p =
     \<lparr>ib_Container = pc_ManifestsContainer (pu_config publisher),
      ib_Name = ''release-identities/'' @ sr_ReleaseID (pq_Source (pl_request p)) @ ''/'' @ sr_Version (pq_Source (pl_request p)) @ ''.json'',
      ib_Body = identityBody publisher p, ib_ContentType = ''application/json''\<rparr>"

definition publishIdentity :: "Publisher \<Rightarrow> publicationPlan \<Rightarrow> unit result pub" where
  "publishIdentity publisher p =
     bindP (bw_PutImmutableBytes (pu_blobs publisher) (identityRequest publisher p)) (\<lambda>put.
     Finish (if is_ok put then Inr () else Inl (publicationError ''IDENTITY_BLOB'')))"

definition darRequest :: "Publisher \<Rightarrow> publicationPlan \<Rightarrow> ImmutableFileRequest" where
  "darRequest publisher p =
     (let source = pq_Source (pl_request p)
      in \<lparr>if_Container = pc_ReleasesContainer (pu_config publisher), if_Name = sr_Version source @ ''/'' @ sr_DownloadName source,
          if_FileName = pl_artifactPath p, if_ExpectedDigest = sr_DARSHA256 source,
          if_ExpectedSize = sr_DARSize source, if_ContentType = ''application/octet-stream''\<rparr>)"

definition publishDAR :: "Publisher \<Rightarrow> publicationPlan \<Rightarrow> PublishedBlob result pub" where
  "publishDAR publisher p =
     (let source = pq_Source (pl_request p)
      in bindP (bw_PutImmutableFile (pu_blobs publisher) (darRequest publisher p)) (\<lambda>put.
         Finish (case put of
           Inl _ \<Rightarrow> Inl (publicationError ''DAR_BLOB'')
         | Inr published \<Rightarrow>
             if br_SHA256 (pb_Reference published) \<noteq> sr_DARSHA256 source \<or>
                br_Size (pb_Reference published) \<noteq> sr_DARSize source \<or>
                br_Container (pb_Reference published) \<noteq> pc_ReleasesContainer (pu_config publisher)
             then Inl (publicationError ''DAR_BLOB'') else Inr published)))"

definition manifestOf :: "Publisher \<Rightarrow> publicationPlan \<Rightarrow> BlobReference \<Rightarrow> PublishedManifest" where
  "manifestOf publisher p dar =
     (let source = pq_Source (pl_request p)
      in \<lparr>pm_DAR = dar, pm_DownloadName = sr_DownloadName source, pm_OperationID = pl_operationID p,
          pm_PublishedAt = pq_CreatedAt (pl_request p), pm_ReleaseID = sr_ReleaseID source, pm_ReleaseVersion = sr_Version source,
          pm_Repository = toLower (pc_Repository (pu_config publisher)), pm_SchemaVersion = ''1.0'',
          pm_SourceCommitSHA = pq_CommitSHA (pl_request p)\<rparr>)"

definition manifestRequest :: "Publisher \<Rightarrow> publicationPlan \<Rightarrow> string \<Rightarrow> ImmutableBytesRequest" where
  "manifestRequest publisher p body =
     \<lparr>ib_Container = pc_ManifestsContainer (pu_config publisher),
      ib_Name = ''published/'' @ sr_ReleaseID (pq_Source (pl_request p)) @ ''/'' @ pl_operationID p @ ''.json'',
      ib_Body = body, ib_ContentType = ''application/json''\<rparr>"

definition publishManifest :: "Publisher \<Rightarrow> publicationPlan \<Rightarrow> BlobReference \<Rightarrow> (PublishedBlob \<times> string) result pub" where
  "publishManifest publisher p dar =
     (let body = jprint (manifestJson (manifestOf publisher p dar))
      in if \<not> is_ok (ParsePublishedManifest body) then Finish (Inl (publicationError ''MANIFEST_CONTRACT''))
         else bindP (bw_PutImmutableBytes (pu_blobs publisher) (manifestRequest publisher p body)) (\<lambda>put.
              Finish (case put of
                Inl _ \<Rightarrow> Inl (publicationError ''MANIFEST_BLOB'')
              | Inr published \<Rightarrow> Inr (published, body))))"

definition batchRequest :: "Publisher \<Rightarrow> publicationPlan \<Rightarrow> nat \<Rightarrow> string \<Rightarrow> ImmutableBytesRequest" where
  "batchRequest publisher p index body =
     \<lparr>ib_Container = pc_BatchesContainer (pu_config publisher),
      ib_Name = pl_operationID p @ ''/batch-'' @ leftPad index 4 @ ''.jsonl'',
      ib_Body = body, ib_ContentType = ''application/x-ndjson''\<rparr>"

fun publishBatchList :: "Publisher \<Rightarrow> publicationPlan \<Rightarrow> nat \<Rightarrow> string list \<Rightarrow> PublishedBlob list result pub" where
  "publishBatchList publisher p index [] = Finish (Inr [])"
| "publishBatchList publisher p index (body # bodies) =
     bindP (bw_PutImmutableBytes (pu_blobs publisher) (batchRequest publisher p index body)) (\<lambda>put. case put of
       Inl _ \<Rightarrow> Finish (Inl (publicationError ''BATCH_BLOB''))
     | Inr batch \<Rightarrow>
         tryP (publishBatchList publisher p (Suc index) bodies) (\<lambda>published. Finish (Inr (batch # published))))"

definition publishBatches :: "Publisher \<Rightarrow> publicationPlan \<Rightarrow> PublishedBlob list result pub" where
  "publishBatches publisher p = publishBatchList publisher p 0 (pl_batches p)"

definition currentRequest :: "Publisher \<Rightarrow> publicationPlan \<Rightarrow> string \<Rightarrow> CurrentManifestRequest" where
  "currentRequest publisher p body =
     \<lparr>cm_Container = pc_ManifestsContainer (pu_config publisher),
      cm_Name = ''current/'' @ sr_ReleaseID (pq_Source (pl_request p)) @ ''.json'',
      cm_Body = body, cm_ReleaseVersion = sr_Version (pq_Source (pl_request p))\<rparr>"

definition advanceCurrentManifest :: "Publisher \<Rightarrow> publicationPlan \<Rightarrow> string \<Rightarrow> unit result pub" where
  "advanceCurrentManifest publisher p body =
     bindP (bw_PutCurrentManifest (pu_blobs publisher) (currentRequest publisher p body)) (\<lambda>put.
     Finish (if is_ok put then Inr () else Inl (publicationError ''CURRENT_MANIFEST'')))"

definition messageOf :: "Publisher \<Rightarrow> publicationPlan \<Rightarrow> BlobReference \<Rightarrow> BlobReference \<Rightarrow> nat \<Rightarrow> QueueMessage" where
  "messageOf publisher p manifest batch index =
     (let source = pq_Source (pl_request p)
      in \<lparr>qm_ApplicationURL = pc_ApplicationOrigin (pu_config publisher) @ ''/v1/releases/'' @ sr_Version source @ ''/download/'' @
            sr_DownloadName source,
          qm_CreatedAt = pq_CreatedAt (pl_request p), qm_Manifest = manifest,
          qm_MessageID = pl_operationID p @ '':'' @ itoa (int index), qm_OperationID = pl_operationID p,
          qm_RecipientBatch = \<lparr>bt_BatchCount = int (length (pl_batches p)), bt_BatchIndex = int index,
            bt_Container = br_Container batch, bt_Name = br_Name batch,
            bt_RecipientCount = batchRecipientCount (int index) (int (length (pq_Recipients (pl_request p))))
              (pc_BatchSize (pu_config publisher)),
            bt_SHA256 = br_SHA256 batch, bt_Size = br_Size batch, bt_VersionID = br_VersionID batch\<rparr>,
          qm_ReleaseID = sr_ReleaseID source, qm_ReleaseVersion = sr_Version source, qm_SchemaVersion = ''1.0'',
          qm_SourceCommitSHA = pq_CommitSHA (pl_request p)\<rparr>)"

definition queueRequest :: "Publisher \<Rightarrow> publicationPlan \<Rightarrow> BlobReference \<Rightarrow> BlobReference \<Rightarrow> nat \<Rightarrow> QueueRequest result" where
  "queueRequest publisher p manifest batch index =
     (let message = messageOf publisher p manifest batch index; body = jprint (messageJson message)
      in if \<not> is_ok (ParseQueueMessage body (qm_MessageID message)) then Inl (publicationError ''MESSAGE_CONTRACT'')
         else Inr \<lparr>qr_MessageID = qm_MessageID message, qr_Body = body\<rparr>)"

fun enqueueFrom :: "Publisher \<Rightarrow> publicationPlan \<Rightarrow> BlobReference \<Rightarrow> nat \<Rightarrow> PublishedBlob list \<Rightarrow> unit result pub" where
  "enqueueFrom publisher p manifest index [] = Finish (Inr ())"
| "enqueueFrom publisher p manifest index (batch # batches) =
     (case queueRequest publisher p manifest (pb_Reference batch) index of
        Inl err \<Rightarrow> Finish (Inl err)
      | Inr request \<Rightarrow>
          bindP (qw_Send (pu_queue publisher) request) (\<lambda>sent_result.
            if \<not> is_ok sent_result then Finish (Inl (publicationError ''MESSAGE_SEND''))
            else enqueueFrom publisher p manifest (Suc index) batches))"

definition enqueueBatches :: "Publisher \<Rightarrow> publicationPlan \<Rightarrow> BlobReference \<Rightarrow> PublishedBlob list \<Rightarrow> unit result pub" where
  "enqueueBatches publisher p manifest batches = enqueueFrom publisher p manifest 0 batches"

definition planResult :: "publicationPlan \<Rightarrow> PublicationResult" where
  "planResult p =
     \<lparr>rs_BatchCount = int (length (pl_batches p)), rs_OperationID = pl_operationID p,
      rs_ReleaseID = sr_ReleaseID (pq_Source (pl_request p)), rs_ReleaseVersion = sr_Version (pq_Source (pl_request p))\<rparr>"

text \<open>Everything behind the plan.\<close>

definition publishPlan :: "Publisher \<Rightarrow> publicationPlan \<Rightarrow> PublicationResult result pub" where
  "publishPlan publisher p =
     tryP (publishIdentity publisher p) (\<lambda>_.
     tryP (publishDAR publisher p) (\<lambda>dar.
     tryP (publishManifest publisher p (pb_Reference dar)) (\<lambda>(manifest, manifestBody).
     tryP (publishBatches publisher p) (\<lambda>batches.
     tryP (enqueueBatches publisher p (pb_Reference manifest) batches) (\<lambda>_.
     tryP (advanceCurrentManifest publisher p manifestBody) (\<lambda>_.
     Finish (Inr (planResult p))))))))"

definition Publish :: "bool \<Rightarrow> Publisher \<Rightarrow> PublishRequest \<Rightarrow> PublicationResult result pub" where
  "Publish ctxNil publisher request =
     bindP (plan publisher request) (\<lambda>planned. case planned of
       Inl _ \<Rightarrow> Finish (Inl errPublication)
     | Inr p \<Rightarrow> if ctxNil then Finish (Inl errPublication) else publishPlan publisher p)"

end
