(* ===== verification/Releases.thy ===== *)
theory Releases
  imports Publisher
begin

text \<open>
  Facts about the release source: product versions are totally ordered by their keys and determined by them; accepted
  archive members stay below the directory they are extracted to; an accepted archive is bounded.
\<close>

section \<open>Versions\<close>

lemma versionKeyLess_lex: "length left = length right \<Longrightarrow> versionKeyLess left right \<longleftrightarrow> left < right"
  by (induction left right rule: list_induct2) auto

lemma versionKeyLess_irrefl: "\<not> versionKeyLess k k"
  by (induction k) auto

lemma versionKeyLess_trans: "versionKeyLess a b \<Longrightarrow> versionKeyLess b c \<Longrightarrow> versionKeyLess a c"
proof (induction a b arbitrary: c rule: versionKeyLess.induct)
  case (1 l left r right)
  then show ?case by (cases c) (auto split: if_splits)
qed simp_all

lemma those_length: "those xs = Some ys \<Longrightarrow> length ys = length xs"
  by (induction xs arbitrary: ys) (auto split: option.splits)

lemma numericPart_iff:
  "rmatch numericPart u \<longleftrightarrow> u = ''0'' \<or> (u \<noteq> [] \<and> list_all is_digit u \<and> hd u \<noteq> CHR ''0'')"
proof -
  have "rmatch (RSeq (RCls (\<lambda>c. is_digit c \<and> c \<noteq> CHR ''0'')) (RStar (RCls is_digit))) u \<longleftrightarrow>
      u \<noteq> [] \<and> list_all is_digit u \<and> hd u \<noteq> CHR ''0''"
    by (cases u) (auto simp: rmatch_RSeq rmatch_RCls rmatch_star_cls)
  then show ?thesis unfolding numericPart_def rmatch_RAlt rmatch_rlit by simp
qed

lemma productVersion_iff:
  "rmatch productVersionPattern v \<longleftrightarrow>
     (\<exists>a b c d. v = CHR ''v'' # a @ CHR ''.'' # b @ CHR ''.'' # c @ CHR ''.'' # d \<and>
        rmatch numericPart a \<and> rmatch numericPart b \<and> rmatch numericPart c \<and> length d = 2 \<and> list_all is_digit d)"
  unfolding productVersionPattern_def
  by (simp add: rmatch_rlit_seq rmatch_RSeq rmatch_rlit rmatch_rexact_cls del: rlit.simps rmatch.simps)
    (intro iffI; elim exE conjE; hypsubst; intro exI conjI; (rule refl | assumption))

lemma numericPart_digits: "rmatch numericPart u \<Longrightarrow> u \<noteq> [] \<and> list_all is_digit u"
  unfolding numericPart_iff by (auto simp: is_digit_def between_def)

lemma digits_no_dot: "list_all is_digit u \<Longrightarrow> CHR ''.'' \<notin> set u"
  by (auto simp: list_all_iff is_digit_def between_def)

lemma version_parts:
  assumes "list_all is_digit a" "list_all is_digit b" "list_all is_digit c" "list_all is_digit d"
  shows "split CHR ''.'' (a @ CHR ''.'' # b @ CHR ''.'' # c @ CHR ''.'' # d) = [a, b, c, d]"
  using assms[THEN digits_no_dot] by (simp add: split_append_sep split_no_sep)

lemma digit_value_less: "is_digit c \<Longrightarrow> digit_value c < 10 \<and> digit_char (digit_value c) = c"
  by (auto simp: digit_value_def digit_char_def char_class_defs)

lemma decimal_snoc: "decimal (s @ [c]) = 10 * decimal s + digit_value c"
  by (simp add: decimal_def decimal_acc_append)

lemma decimal_pos: "list_all is_digit s \<Longrightarrow> s \<noteq> [] \<Longrightarrow> hd s \<noteq> CHR ''0'' \<Longrightarrow> 0 < decimal s"
proof (induction s rule: rev_induct)
  case (snoc c s)
  show ?case
  proof (cases "s = []")
    case True
    have "is_digit c" "c \<noteq> CHR ''0''" using snoc.prems True by simp_all
    then have "digit_value c \<noteq> 0" using digit_value_less [of c] digit_char_0 by metis
    then show ?thesis using True by (simp add: decimal_def)
  next
    case False
    then show ?thesis using snoc by (simp add: decimal_snoc)
  qed
qed simp

lemma itoa_decimal: "rmatch numericPart u \<Longrightarrow> itoa_nat (decimal u) = u"
proof -
  have "list_all is_digit s \<Longrightarrow> s \<noteq> [] \<Longrightarrow> hd s \<noteq> CHR ''0'' \<Longrightarrow> itoa_nat (decimal s) = s" for s
  proof (induction s rule: rev_induct)
    case (snoc c s)
    note d = digit_value_less [of c]
    show ?case
    proof (cases "s = []")
      case True
      then show ?thesis using snoc.prems d by (simp add: decimal_def itoa_nat.simps)
    next
      case False
      then have "0 < decimal s" "itoa_nat (decimal s) = s" using snoc decimal_pos by simp_all
      then show ?thesis using snoc.prems d by (simp add: decimal_snoc itoa_nat.simps [of "10 * decimal s + digit_value c"])
    qed
  qed simp
  moreover have "itoa_nat (decimal ''0'') = ''0''" by (simp add: decimal_def digit_value_def itoa_nat.simps digit_char_0)
  ultimately show "rmatch numericPart u \<Longrightarrow> itoa_nat (decimal u) = u" unfolding numericPart_iff by metis
qed

lemma two_digits:
  assumes "length d = 2" "length e = 2" "list_all is_digit d" "list_all is_digit e" "decimal d = decimal e"
  shows "d = e"
proof -
  obtain a b where d: "d = [a, b]" using assms(1) by (auto simp: numeral_2_eq_2 length_Suc_conv)
  obtain x y where e: "e = [x, y]" using assms(2) by (auto simp: numeral_2_eq_2 length_Suc_conv)
  have v: "digit_value a < 10" "digit_value b < 10" "digit_value x < 10" "digit_value y < 10"
      "10 * digit_value a + digit_value b = 10 * digit_value x + digit_value y"
    using assms d e digit_value_less by (simp_all add: decimal_def)
  have "(10 * p + q) div 10 = p" if "q < 10" for p q :: nat using that by simp
  then have "digit_value a = digit_value x" using v by metis
  then have "digit_value a = digit_value x \<and> digit_value b = digit_value y" using v(5) by simp
  moreover have "is_digit a" "is_digit b" "is_digit x" "is_digit y" using assms(3,4) d e by simp_all
  ultimately have "a = x" "b = y" using digit_value_less by metis+
  then show ?thesis using d e by simp
qed

lemma productVersionKey_parts:
  assumes "productVersionKey v = Some k"
  obtains a b c d where "v = CHR ''v'' # a @ CHR ''.'' # b @ CHR ''.'' # c @ CHR ''.'' # d"
    "rmatch numericPart a" "rmatch numericPart b" "rmatch numericPart c" "length d = 2" "list_all is_digit d"
    "k = [decimal a, decimal b, decimal c, decimal d]"
proof -
  have "rmatch productVersionPattern v" using assms by (simp add: productVersionKey_def split: if_splits)
  then obtain a b c d where p: "v = CHR ''v'' # a @ CHR ''.'' # b @ CHR ''.'' # c @ CHR ''.'' # d"
    "rmatch numericPart a" "rmatch numericPart b" "rmatch numericPart c" "length d = 2" "list_all is_digit d"
    unfolding productVersion_iff by blast
  have "split CHR ''.'' (trimPrefix v ''v'') = [a, b, c, d]"
    using version_parts [of a b c d] p numericPart_digits by (simp add: trimPrefix_def hasPrefix_def)
  then have "k = [decimal a, decimal b, decimal c, decimal d]"
    using assms by (auto simp: productVersionKey_def parseUint_def split: if_splits)
  with p show ?thesis by (rule that)
qed

text \<open>Two versions with the same key are the same version.\<close>

lemma productVersionKey_inj:
  assumes "productVersionKey v = Some k" "productVersionKey w = Some k"
  shows "v = w"
  using assms by (elim productVersionKey_parts) (metis itoa_decimal two_digits list.inject)

lemma productVersionKey_length: "productVersionKey v = Some k \<Longrightarrow> length k = 4"
  by (elim productVersionKey_parts) simp

text \<open>Distinct versions are separated by the comparison, one way or the other and not both.\<close>

lemma versions_ordered:
  assumes "productVersionKey v = Some k" "productVersionKey w = Some l" "v \<noteq> w"
  shows "versionKeyLess k l \<longleftrightarrow> \<not> versionKeyLess l k"
proof -
  have "k \<noteq> l" using assms productVersionKey_inj by blast
  then show ?thesis
    using versionKeyLess_lex [of k l] versionKeyLess_lex [of l k] assms(1,2)[THEN productVersionKey_length] by auto
qed

section \<open>Archive members\<close>

lemma contains_byte: "contains s [c] \<longleftrightarrow> c \<in> set s"
  by (induction s) (auto simp: hasPrefix_def)

lemma cleanPath_trailing: "p \<noteq> [] \<Longrightarrow> cleanPath (p @ ''/'') = cleanPath p"
proof -
  assume p: "p \<noteq> []"
  have "split slash (p @ ''/'') = split slash p @ [[]]" using split_two [of slash p "[]"] by simp
  moreover have "hasPrefix (p @ ''/'') ''/'' = hasPrefix p ''/''" using p by (cases p) (simp_all add: hasPrefix_def)
  ultimately show ?thesis using p by (simp add: cleanPath_def cleanStep_def [of _ _ "[]"])
qed

lemma trimSuffix_slash: "name = trimSuffix name ''/'' \<or> name = trimSuffix name ''/'' @ ''/''"
  by (cases "hasSuffix name ''/''") (auto simp: trimSuffix_def hasSuffix_iff)

lemma good_split_head: "list_all goodElement (split slash t) \<Longrightarrow> t \<noteq> [] \<and> \<not> hasPrefix t ''/''"
  by (cases t) (auto simp: goodElement_def hasPrefix_def)

lemma clean_member:
  assumes "list_all goodElement (split slash (trimSuffix name ''/''))"
  shows "cleanPath name = trimSuffix name ''/''" "\<not> hasPrefix name ''/''" "name \<noteq> []"
proof -
  let ?t = "trimSuffix name ''/''"
  note h = good_split_head [OF assms]
  have "cleanPath ?t = ?t" using h assms by (intro cleanPath_relative) auto
  then show "cleanPath name = ?t" using trimSuffix_slash [of name] cleanPath_trailing [of ?t] h by metis
  show "\<not> hasPrefix name ''/''" "name \<noteq> []"
    using h trimSuffix_slash [of name] by (cases ?t; auto simp: hasPrefix_def)+
qed

lemma validateMemberName_iff:
  "validateMemberName name = Inr () \<longleftrightarrow>
     length name \<le> 512 \<and> controlFree name \<and> backslash \<notin> set name \<and> \<not> rmatch windowsDrivePattern name \<and>
     list_all goodElement (split slash (trimSuffix name ''/''))"
proof -
  let ?g = "list_all goodElement (split slash (trimSuffix name ''/''))"
  have e: "list_all (\<lambda>segment. \<not> (segment = [] \<or> segment = ''.'' \<or> segment = ''..'')) xs = list_all goodElement xs" for xs
    by (simp add: goodElement_def list_all_iff)
  have d: "cleanPath name = trimSuffix name ''/'' \<and> cleanPath name \<noteq> ''.''" if ?g
    using clean_member(1) [OF that] that by (auto simp: goodElement_def)
  show ?thesis
    unfolding validateMemberName_def contains_byte e Let_def controlFree_def
    using d clean_member(2,3) by (auto split: if_splits)
qed

lemma member_below:
  assumes "absClean directory" "validateMemberName name = Inr ()"
  shows "joinPath [directory, name] = directory @ slash # trimSuffix name ''/''"
proof -
  let ?t = "trimSuffix name ''/''"
  have g: "list_all goodElement (split slash ?t)" using assms(2) by (simp add: validateMemberName_iff)
  then have es: "list_all (\<lambda>e. goodElement e \<and> slash \<notin> set e) (split slash ?t)"
    using split_parts_no_sep by (fastforce simp: list_all_iff)
  have j: "joinPath [directory, ?t] = directory @ slash # ?t"
    using joinPath_below(1) [OF assms(1) _ es] by (simp add: join_split)
  have ne: "directory \<noteq> []" using assms(1) by (auto simp: absClean_def)
  have "joinPath [directory, x] = cleanPath (directory @ slash # x)" for x using ne by (simp add: joinPath_def)
  then show ?thesis
    using j trimSuffix_slash [of name] cleanPath_trailing [of "directory @ slash # ?t"] by auto
qed

section \<open>Archives\<close>

definition isDar :: "zipMember \<Rightarrow> bool" where
  "isDar member \<longleftrightarrow> toLower (pathExt (zm_Name member)) = ''.dar''"

text \<open>What the header of every member must satisfy, and what every file must satisfy besides.\<close>

definition memberAllowed :: "zipMember \<Rightarrow> bool" where
  "memberAllowed member \<longleftrightarrow>
     validateMemberName (zm_Name member) = Inr () \<and> zm_Flags member AND 1 = 0 \<and>
     (zm_Method member = 0 \<or> zm_Method member = 8) \<and> \<not> memberSymlink member"

definition fileAllowed :: "zipMember \<Rightarrow> bool" where
  "fileAllowed member \<longleftrightarrow>
     (if isDar member then 1 \<le> zm_UncompressedSize64 member
      else toLower (pathExt (zm_Name member)) \<in> set allowedGuideExtensions) \<and> memberReadable member"

definition filesOf :: "zipMember list \<Rightarrow> zipMember list" where
  "filesOf members = filter (\<lambda>m. \<not> memberIsDir m) members"

definition expandedSize :: "zipMember list \<Rightarrow> nat" where
  "expandedSize members = sum_list (map (\<lambda>m. unat (zm_UncompressedSize64 m)) (filesOf members))"

lemma unit_result: "is_ok r \<longleftrightarrow> r = Inr ()" for r :: "unit result"
  by (cases r) simp_all

lemma room_left:
  assumes "unat t \<le> 2 ^ 30"
  shows "s > maxUncompressedBytes - t \<longleftrightarrow> unat t + unat s > 2 ^ 30"
    and "unat t + unat s \<le> 2 ^ 30 \<Longrightarrow> unat (t + s) = unat t + unat s"
proof -
  have m: "unat maxUncompressedBytes = 2 ^ 30" by (simp add: maxUncompressedBytes_def)
  then have "t \<le> maxUncompressedBytes" using assms by (simp add: word_le_nat_alt)
  then have "unat (maxUncompressedBytes - t) = 2 ^ 30 - unat t" using m by (simp add: unat_sub)
  then show "s > maxUncompressedBytes - t \<longleftrightarrow> unat t + unat s > 2 ^ 30" using assms by (simp add: word_less_nat_alt) linarith
  assume "unat t + unat s \<le> 2 ^ 30"
  then show "unat (t + s) = unat t + unat s" by (subst unat_add_lem [THEN iffD1]) simp_all
qed

lemma validateMembers_iff:
  "unat t \<le> 2 ^ 30 \<Longrightarrow>
   validateMembers lower members seen t darCount = Inr n \<longleftrightarrow>
     list_all memberAllowed members \<and> list_all fileAllowed (filesOf members) \<and>
     distinct (map (\<lambda>m. lower (zm_Name m)) members) \<and> set (map (\<lambda>m. lower (zm_Name m)) members) \<inter> set seen = {} \<and>
     unat t + expandedSize members \<le> 2 ^ 30 \<and> n = darCount + length (filter isDar (filesOf members))"
proof (induction members arbitrary: seen t darCount)
  case (Cons m members)
  let ?s = "zm_UncompressedSize64 m"
  let ?c = "if isDar m then darCount + 1 else darCount"
  have ok: "\<not> (\<not> is_ok (validateMemberName (zm_Name m)) \<or> zm_Flags m AND 1 \<noteq> 0 \<or>
      zm_Method m \<noteq> 0 \<and> zm_Method m \<noteq> 8 \<or> memberSymlink m) \<longleftrightarrow> memberAllowed m"
    by (auto simp: memberAllowed_def unit_result)
  have step: "validateMembers lower (m # members) seen t darCount = Inr n \<longleftrightarrow>
      fileAllowed m \<and> unat t + unat ?s \<le> 2 ^ 30 \<and>
      validateMembers lower members (lower (zm_Name m) # seen) (t + ?s) ?c = Inr n"
    if "memberAllowed m" "lower (zm_Name m) \<notin> set seen" "\<not> memberIsDir m"
    using that ok room_left(1) [OF Cons.prems, of ?s]
    by (simp add: Let_def fileAllowed_def isDar_def not_less word_le_nat_alt word_less_nat_alt) linarith
  show ?case
  proof (cases "memberAllowed m \<and> lower (zm_Name m) \<notin> set seen")
    case False
    then show ?thesis using ok by (auto simp: Let_def)
  next
    case True
    show ?thesis
    proof (cases "memberIsDir m")
      case True
      then show ?thesis
        using \<open>memberAllowed m \<and> _\<close> ok Cons.IH [OF Cons.prems, of "lower (zm_Name m) # seen" darCount]
        by (auto simp: Let_def filesOf_def expandedSize_def)
    next
      case False
      note h = step [OF conjunct1 [OF \<open>memberAllowed m \<and> _\<close>] conjunct2 [OF \<open>memberAllowed m \<and> _\<close>] False]
      have ih: "validateMembers lower members (lower (zm_Name m) # seen) (t + ?s) ?c = Inr n \<longleftrightarrow>
          list_all memberAllowed members \<and> list_all fileAllowed (filesOf members) \<and>
          distinct (map (\<lambda>m. lower (zm_Name m)) members) \<and>
          set (map (\<lambda>m. lower (zm_Name m)) members) \<inter> set (lower (zm_Name m) # seen) = {} \<and>
          unat t + unat ?s + expandedSize members \<le> 2 ^ 30 \<and> n = ?c + length (filter isDar (filesOf members))"
        if "unat t + unat ?s \<le> 2 ^ 30"
        using Cons.IH [where t = "t + ?s" and seen = "lower (zm_Name m) # seen" and darCount = ?c,
            unfolded room_left(2) [OF Cons.prems that], OF that] .
      have f: "filesOf (m # members) = m # filesOf members" "expandedSize (m # members) = unat ?s + expandedSize members"
        using False by (simp_all add: filesOf_def expandedSize_def)
      show ?thesis
      proof (cases "unat t + unat ?s \<le> 2 ^ 30")
        case True
        show ?thesis unfolding h ih [OF True] f using True \<open>memberAllowed m \<and> _\<close> by auto
      next
        case False
        then show ?thesis unfolding h f by auto
      qed
    qed
  qed
qed (auto simp: filesOf_def expandedSize_def)

end
