(* ===== verification/ReceiptHistory.thy ===== *)
theory ReceiptHistory
  imports Receipt
begin

text \<open>
  Receipt histories: every sequence of operations that starts with \<open>ClaimReceipt\<close>. The step
  relation is the set of successful operations; the invariants are proved by induction over it.
  A history of a receipt bounds the number of sends, orders them with the retries between them, and
  never leaves a terminal state.
\<close>

section \<open>Operations as steps\<close>

datatype receipt_op =
    OpStartSend go_time
  | OpAccept go_time int string
  | OpSimulate go_time int string
  | OpRetry go_time int string go_time
  | OpFail go_time int string
  | OpMarkUnknown go_time string
  | OpReclaim go_time int
  | OpExhaust go_time
  | OpRecoverStale go_time duration int

fun apply_op :: "receipt_op \<Rightarrow> Receipt \<Rightarrow> Receipt result" where
  "apply_op (OpStartSend now) r = StartSend r now"
| "apply_op (OpAccept now status requestID) r = Accept r now status requestID"
| "apply_op (OpSimulate now status requestID) r = Simulate r now status requestID"
| "apply_op (OpRetry now status reason retryAt) r = Retry r now status reason retryAt"
| "apply_op (OpFail now status reason) r = Fail r now status reason"
| "apply_op (OpMarkUnknown now reason) r = MarkUnknown r now reason"
| "apply_op (OpReclaim now maxAttempts) r = Reclaim r now maxAttempts"
| "apply_op (OpExhaust now) r = Exhaust r now"
| "apply_op (OpRecoverStale now timeout maxAttempts) r = RecoverStale r now timeout maxAttempts"

fun is_start :: "receipt_op \<Rightarrow> bool" where
  "is_start (OpStartSend now) = True"
| "is_start _ = False"

definition sends :: "receipt_op list \<Rightarrow> nat" where
  "sends ops = length (filter is_start ops)"

inductive history :: "receipt_op list \<Rightarrow> Receipt \<Rightarrow> bool" where
  claim: "ClaimReceipt intent now = Inr r \<Longrightarrow> history [] r"
| step: "history ops r \<Longrightarrow> apply_op opn r = Inr r' \<Longrightarrow> history (ops @ [opn]) r'"

inductive_cases history_NilE: "history [] r"

section \<open>One step\<close>

lemma validated_iff [simp]: "validated r = Inr r' \<longleftrightarrow> r' = r \<and> validate r"
  by (auto simp: validated_def)

lemma validate_counts: "validate r \<Longrightarrow> 1 \<le> r_AttemptCount r \<and> r_AttemptCount r \<le> 5 \<and> 1 \<le> r_StateVersion r"
  by (simp add: validate_def)

lemma validate_status: "validate r \<Longrightarrow> validReceiptStatus (r_Status r)"
  by (simp add: validate_def)

lemma inc64_pos: "1 \<le> inc64 x \<Longrightarrow> inc64 x = x + 1"
  by (simp add: inc64_def min_int64_def split: if_splits)

lemmas receipt_ops = StartSend_def Accept_def Simulate_def Retry_def Fail_def MarkUnknown_def Reclaim_def
  Exhaust_def RecoverStale_def finish_def

lemmas op_splits = if_splits option.splits sum.splits

lemma reason_iff:
  "rmatch reasonPattern s \<longleftrightarrow>
     1 \<le> length s \<and> length s \<le> 64 \<and> list_all (\<lambda>c. is_upper c \<or> is_digit c \<or> c = CHR ''_'') s"
  unfolding reasonPattern_def by (rule rmatch_rbetween_cls) simp

lemma label_iff:
  "rmatch versionLabelPattern s \<longleftrightarrow> 1 \<le> length s \<and> length s \<le> 64 \<and> list_all repositoryChar s"
  unfolding versionLabelPattern_def by (rule rmatch_rbetween_cls) simp

lemma op_valid: "apply_op opn r = Inr r' \<Longrightarrow> validate r'"
  by (cases opn) (auto simp: receipt_ops Let_def split: op_splits)

lemma op_not_terminal: "apply_op opn r = Inr r' \<Longrightarrow> \<not> terminal r"
  by (cases opn) (auto simp: receipt_ops Let_def split: op_splits)

lemma op_version:
  assumes "apply_op opn r = Inr r'"
  shows "r_StateVersion r' = r_StateVersion r + 1"
proof -
  have "r_StateVersion r' = inc64 (r_StateVersion r)"
    using assms by (cases opn) (auto simp: receipt_ops Let_def split: op_splits)
  then show ?thesis using validate_counts [OF op_valid [OF assms]] inc64_pos [of "r_StateVersion r"] by simp
qed

definition sameIdentity :: "Receipt \<Rightarrow> Receipt \<Rightarrow> bool" where
  "sameIdentity r r' \<longleftrightarrow>
     r_OperationID r' = r_OperationID r \<and> r_ReleaseID r' = r_ReleaseID r \<and>
     r_ReleaseVersion r' = r_ReleaseVersion r \<and> r_RecipientID r' = r_RecipientID r \<and>
     r_HMACKeyVersion r' = r_HMACKeyVersion r \<and> r_Provider r' = r_Provider r \<and>
     r_QueueMessageID r' = r_QueueMessageID r \<and> r_SchemaVersion r' = r_SchemaVersion r"

lemma op_identity [frame_simps]: "apply_op opn r = Inr r' \<Longrightarrow> sameIdentity r r'"
  by (cases opn) (auto simp: receipt_ops Let_def sameIdentity_def split: op_splits)

text \<open>The edges of the state machine, with what each does to the attempt counter.\<close>

definition edge :: "Receipt \<Rightarrow> Receipt \<Rightarrow> bool" where
  "edge r r' \<longleftrightarrow>
     (r_Status r = ReceiptClaimed \<and> r_Status r' = ReceiptSendStarted \<and> r_AttemptCount r' = r_AttemptCount r) \<or>
     (r_Status r = ReceiptClaimed \<and> r_Status r' = ReceiptClaimed \<and> r_AttemptCount r' = r_AttemptCount r + 1) \<or>
     (r_Status r = ReceiptSendStarted \<and> (terminal r' \<or> r_Status r' = ReceiptRetryable) \<and>
        r_AttemptCount r' = r_AttemptCount r) \<or>
     (r_Status r = ReceiptRetryable \<and> r_Status r' = ReceiptClaimed \<and> r_AttemptCount r' = r_AttemptCount r + 1) \<or>
     (r_Status r = ReceiptRetryable \<and> r_Status r' = ReceiptFailed \<and> r_AttemptCount r' = r_AttemptCount r)"

lemma op_edge: "apply_op opn r = Inr r' \<Longrightarrow> edge r r'"
  by (cases opn) (auto simp: receipt_ops Let_def edge_def terminal_def split: op_splits)

lemma op_start_edge:
  "apply_op opn r = Inr r' \<Longrightarrow> is_start opn \<longleftrightarrow> r_Status r = ReceiptClaimed \<and> r_Status r' = ReceiptSendStarted"
  by (cases opn) (auto simp: receipt_ops Let_def split: op_splits)

section \<open>Histories\<close>

definition sendBudget :: "receipt_op list \<Rightarrow> Receipt \<Rightarrow> bool" where
  "sendBudget ops r \<longleftrightarrow>
     int (sends ops) + (if r_Status r = ReceiptClaimed then 1 else 0) \<le> r_AttemptCount r"

lemma claim_facts:
  "ClaimReceipt intent now = Inr r \<Longrightarrow>
     validate r \<and> r_Status r = ReceiptClaimed \<and> r_AttemptCount r = 1 \<and> r_StateVersion r = 1"
  by (auto simp: ClaimReceipt_def Let_def split: if_splits)

lemma sends_snoc: "sends (ops @ [opn]) = sends ops + (if is_start opn then 1 else 0)"
  by (simp add: sends_def)

lemma history_invariant:
  "history ops r \<Longrightarrow> validate r \<and> r_StateVersion r = 1 + int (length ops) \<and> sendBudget ops r"
proof (induction rule: history.induct)
  case (claim intent now r)
  then show ?case using claim_facts [OF claim] by (simp add: sendBudget_def sends_def)
next
  case (step ops r opn r')
  have "sendBudget (ops @ [opn]) r'"
    using step.IH op_edge [OF step.hyps(2)] op_start_edge [OF step.hyps(2)]
    by (auto simp: sendBudget_def sends_snoc edge_def terminal_def split: if_splits)
  then show ?case using step op_valid op_version by simp
qed

section \<open>When operations succeed\<close>

lemma parseTime_formatTime:
  assumes "printable (t_ns t)"
  shows "parseTime (formatTime t) = Inr \<lparr>t_ns = t_ns t div second * second, t_utc = True\<rparr>"
  by (simp add: parseTime_def formatTime_def parseZ_formatZ [OF assms])

lemma validTime_formatTime: "printable (t_ns t) \<Longrightarrow> validReceiptTime (formatTime t)"
  by (simp add: validReceiptTime_def parseTime_formatTime)

definition validIntent :: "ReceiptIntent \<Rightarrow> bool" where
  "validIntent i \<longleftrightarrow>
     rmatch digestPattern (ri_OperationID i) \<and> rmatch releasePattern (ri_ReleaseID i) \<and>
     rmatch releaseVersionPattern (ri_ReleaseVersion i) \<and> rmatch digestPattern (ri_RecipientID i) \<and>
     rmatch versionLabelPattern (ri_HMACKeyVersion i) \<and>
     (ri_Provider i = ''stub'' \<or> ri_Provider i = ''sendgrid'') \<and>
     ri_QueueMessageID i \<noteq> [] \<and> length (ri_QueueMessageID i) \<le> 128 \<and> controlFree (ri_QueueMessageID i)"

lemma ClaimReceipt_succeeds:
  assumes "validIntent i" "t_utc now" "printable (t_ns now)"
  shows "\<exists>r. ClaimReceipt i now = Inr r"
  using assms validTime_formatTime [OF assms(3)]
  by (auto simp: ClaimReceipt_def validIntent_def Let_def validate_def validReceiptStatus_def zeroReceipt_def)

lemma validate_update:
  assumes "validate r" "printable (t_ns now)" "r_StateVersion r < max_int64"
  shows "validate (r\<lparr>r_Status := ReceiptSendStarted, r_StateVersion := inc64 (r_StateVersion r),
    r_SendStartedAt := Some (formatTime now), r_NextAttemptAt := None, r_ReasonCode := None,
    r_UpdatedAt := formatTime now\<rparr>)"
  using assms validTime_formatTime [OF assms(2)]
  by (simp add: validate_def validReceiptStatus_def inc64_def)

section \<open>A concrete receipt\<close>

definition epoch :: go_time where
  "epoch = \<lparr>t_ns = 0, t_utc = True\<rparr>"

definition exampleIntent :: ReceiptIntent where
  "exampleIntent = \<lparr>ri_OperationID = replicate 64 CHR ''a'', ri_ReleaseID = ''r'', ri_ReleaseVersion = ''1.0.0'',
     ri_RecipientID = replicate 64 CHR ''b'', ri_HMACKeyVersion = ''k1'', ri_Provider = ''stub'',
     ri_QueueMessageID = ''m''\<rparr>"

definition exampleClaim :: Receipt where
  "exampleClaim = zeroReceipt\<lparr>
     r_AttemptCount := 1, r_ClaimedAt := Some (formatTime epoch), r_HMACKeyVersion := ''k1'',
     r_OperationID := replicate 64 CHR ''a'', r_Provider := ''stub'', r_QueueMessageID := ''m'',
     r_RecipientID := replicate 64 CHR ''b'', r_ReleaseID := ''r'', r_ReleaseVersion := ''1.0.0'',
     r_SchemaVersion := ''1.0'', r_StateVersion := 1, r_Status := ReceiptClaimed, r_UpdatedAt := formatTime epoch\<rparr>"

definition exampleStarted :: Receipt where
  "exampleStarted = exampleClaim\<lparr>r_Status := ReceiptSendStarted, r_StateVersion := 2,
     r_SendStartedAt := Some (formatTime epoch)\<rparr>"

definition exampleRetry :: Receipt where
  "exampleRetry = exampleClaim\<lparr>r_Status := ReceiptRetryable, r_StateVersion := 3,
     r_SendStartedAt := Some (formatTime epoch), r_NextAttemptAt := Some (formatTime epoch)\<rparr>"

lemma epoch_simps [simp]: "t_utc epoch" "t_ns epoch = 0" "printable 0"
  by (simp_all add: epoch_def printable_def second_def)

lemma example_label: "rmatch versionLabelPattern ''k1''"
  by (simp add: label_iff char_class_defs del: rmatch.simps)

lemma exampleIntent_valid: "validIntent exampleIntent"
  using example_label
  by (simp add: validIntent_def exampleIntent_def digest_iff controlFree_bytes releasePattern_def
      releaseVersionPattern_def numericPart_def ropt_def rplus_def list_all_iff char_class_defs)

lemma example_valid: "validate exampleClaim" "validate exampleStarted" "validate exampleRetry"
  using exampleIntent_valid validTime_formatTime [of epoch]
  by (simp_all add: validate_def validIntent_def exampleIntent_def exampleClaim_def exampleStarted_def
      exampleRetry_def zeroReceipt_def validReceiptStatus_def)

lemma example_claim: "ClaimReceipt exampleIntent epoch = Inr exampleClaim"
  using exampleIntent_valid example_valid(1)
  by (simp add: ClaimReceipt_def validIntent_def Let_def validated_def exampleClaim_def)
    (simp add: exampleIntent_def)

lemma example_start: "StartSend exampleClaim epoch = Inr exampleStarted"
proof -
  have "exampleClaim\<lparr>r_Status := ReceiptSendStarted, r_StateVersion := inc64 (r_StateVersion exampleClaim),
      r_SendStartedAt := Some (formatTime epoch), r_NextAttemptAt := None, r_ReasonCode := None,
      r_UpdatedAt := formatTime epoch\<rparr> = exampleStarted"
    by (simp add: exampleStarted_def exampleClaim_def zeroReceipt_def inc64_def max_int64_def)
  moreover have "r_Status exampleClaim = ReceiptClaimed" by (simp add: exampleClaim_def)
  ultimately show ?thesis using example_valid(2) by (simp add: StartSend_def terminal_def Let_def)
qed

lemma example_history: "history [] exampleClaim" "history [OpStartSend epoch] exampleStarted"
  using history.claim [OF example_claim] history.step [of "[]" exampleClaim "OpStartSend epoch"] example_start
  by simp_all

section \<open>Properties\<close>

text \<open>
  Whatever operations a receipt goes through, the number of times a send was started is at most
  its attempt count, which is at most five; one less while an attempt is claimed but not started.
\<close>

lemma history_sends_bounded:
  assumes "history ops r"
  shows "int (sends ops) \<le> r_AttemptCount r \<and> r_AttemptCount r \<le> 5 \<and>
    (r_Status r = ReceiptClaimed \<longrightarrow> int (sends ops) < r_AttemptCount r)"
  using history_invariant [OF assms] validate_counts [of r] by (auto simp: sendBudget_def split: if_splits)

text \<open>
  No operation leaves a terminal receipt: once ACCEPTED, SIMULATED, FAILED or UNKNOWN is
  recorded, every operation is refused, so no further send can start.
\<close>

lemma terminal_absorbing:
  assumes "terminal r"
  shows "apply_op opn r = Inl ErrReceiptConflict"
proof -
  have "\<nexists>r'. apply_op opn r = Inr r'" using op_not_terminal assms by blast
  moreover have "apply_op opn r = Inl e \<Longrightarrow> e = ErrReceiptConflict" for e
    by (cases opn) (auto simp: receipt_ops Let_def validated_def split: op_splits)
  ultimately show ?thesis by (cases "apply_op opn r") auto
qed

text \<open>
  C37. A successful operation keeps the identity of the receipt (operation, release, recipient, key
  version, provider, queue message), raises the state version by exactly one, follows an edge of the
  state machine and gives a valid receipt.
\<close>

theorem receipt_step_correct:
  assumes "apply_op opn r = Inr r'"
  shows "sameIdentity r r' \<and> r_StateVersion r' = r_StateVersion r + 1 \<and> edge r r' \<and> validate r'"
  using op_identity [OF assms] op_version [OF assms] op_edge [OF assms] op_valid [OF assms] by simp

theorem receipt_step_correct_witness: "sameIdentity exampleClaim exampleStarted \<and> edge exampleClaim exampleStarted"
  using receipt_step_correct [of "OpStartSend epoch" exampleClaim exampleStarted] example_start by simp

text \<open>
  Starting a send succeeds on every valid claimed receipt, at any UTC time between the years 1
  and 9999 (as long as the state version is not at the end of its range), and on no receipt in
  another state.
\<close>

lemma StartSend_exact:
  assumes "validate r" "t_utc now" "printable (t_ns now)" "r_StateVersion r < max_int64"
  shows "is_ok (StartSend r now) \<longleftrightarrow> r_Status r = ReceiptClaimed"
  using assms validate_update [OF assms(1,3,4)]
  by (auto simp: StartSend_def Let_def validated_def terminal_def)

text \<open>
  A scheduled retry is claimed again exactly from its scheduled second on: with budget left,
  reclaiming at a given time succeeds if and only if that time is not before the scheduled time
  truncated to whole seconds.
\<close>

lemma Reclaim_exact_time:
  assumes "validate r" "r_Status r = ReceiptRetryable" "r_NextAttemptAt r = Some (formatTime due)"
    and "printable (t_ns due)" "t_utc now" "printable (t_ns now)" "r_StateVersion r < max_int64"
    and "r_AttemptCount r < maxAttempts" "maxAttempts \<le> 5"
  shows "is_ok (Reclaim r now maxAttempts) \<longleftrightarrow> t_ns due div second * second \<le> t_ns now"
proof -
  have v: "validate (r\<lparr>r_Status := ReceiptClaimed, r_StateVersion := inc64 (r_StateVersion r),
      r_AttemptCount := r_AttemptCount r + 1, r_ClaimedAt := Some (formatTime now),
      r_SendStartedAt := None, r_NextAttemptAt := None, r_ProviderHTTPStatus := None,
      r_ProviderRequestID := None, r_ReasonCode := None, r_UpdatedAt := formatTime now\<rparr>)"
    using assms validTime_formatTime [OF assms(6)]
    by (simp add: validate_def validReceiptStatus_def inc64_def)
  moreover have "1 \<le> maxAttempts" using assms(1,8) validate_counts [of r] by simp
  ultimately show ?thesis
    using assms by (auto simp: Reclaim_def parseTime_formatTime Let_def validated_def terminal_def before_def)
qed

text \<open>
  A receipt claimed on its last attempt is never recovered: however late, \<open>RecoverStale\<close>
  refuses it, so a worker that stops between the claim and the send leaves it claimed for ever.
\<close>

lemma RecoverStale_last_claim_stuck:
  assumes "r_Status r = ReceiptClaimed" "maxAttempts \<le> r_AttemptCount r"
  shows "RecoverStale r now timeout maxAttempts = Inl ErrReceiptConflict"
  using assms by (auto simp: RecoverStale_def terminal_def split: option.splits)

text \<open>
  A stale send is closed as UNKNOWN, never started again: on a receipt whose send started at a
  known time, recovery succeeds exactly when the timeout has passed since that second, and gives a
  terminal UNKNOWN receipt.
\<close>

lemma RecoverStale_send_unknown:
  assumes "validate r" "r_Status r = ReceiptSendStarted" "r_SendStartedAt r = Some (formatTime started)"
    and "printable (t_ns started)" "t_utc now" "printable (t_ns now)" "r_StateVersion r < max_int64"
    and "0 < timeout" "int64_ok (t_ns now - t_ns started div second * second)"
  shows "(is_ok (RecoverStale r now timeout maxAttempts) \<longleftrightarrow>
            timeout \<le> t_ns now - t_ns started div second * second) \<and>
         (\<forall>r'. RecoverStale r now timeout maxAttempts = Inr r' \<longrightarrow> r_Status r' = ReceiptUnknown)"
proof -
  have reason: "rmatch reasonPattern ''STALE_SEND_OUTCOME''"
    by (simp add: reason_iff is_upper_def between_def del: rmatch.simps)
  have sub: "subTime now \<lparr>t_ns = t_ns started div second * second, t_utc = True\<rparr> =
      t_ns now - t_ns started div second * second"
    using assms(9) by (simp add: subTime_def int64_ok_def max_int64_def min_int64_def)
  have v: "validate (r\<lparr>r_Status := ReceiptUnknown, r_StateVersion := inc64 (r_StateVersion r),
      r_ProviderHTTPStatus := None, r_ProviderRequestID := None, r_ReasonCode := Some ''STALE_SEND_OUTCOME'',
      r_TerminalAt := Some (formatTime now), r_NextAttemptAt := None, r_UpdatedAt := formatTime now\<rparr>)"
    using assms validTime_formatTime [OF assms(6)] reason
    by (simp add: validate_def validReceiptStatus_def inc64_def)
  show ?thesis
    using assms v reason
    by (auto simp: RecoverStale_def MarkUnknown_def finish_def parseTime_formatTime sub Let_def
        validated_def terminal_def not_less split: if_splits)
qed

text \<open>
  C34. Persisting and reading a receipt are inverse: bytes parse as a receipt if and only if they are
  the marshalled form of that receipt (valid, strings in UTF-8, integers within 64 bits) and at most
  32 KiB long.
\<close>

theorem ParseReceipt_exact:
  "ParseReceipt raw = Inr r \<longleftrightarrow> MarshalReceipt r = Inr raw \<and> wfReceipt r \<and> length raw \<le> 32768"
  unfolding receipt_doc.parse_iff receipt_doc.accepted_def MarshalReceipt_def by auto

end
