(* ===== verification/Storage.thy ===== *)
theory Storage
  imports Effects ReceiptHistory
begin

text \<open>
  \<open>internal/distribution/azure_storage.go\<close>: reads of exact blob versions with length and digest
  checks, and the receipt store built on conditional blob writes. The Azure service itself is
  outside the repository: its replies are the inputs of the continuations, and what the program
  relies on (conditional writes, fresh ETags) is the step relation of theory \<open>Fleet\<close>.
  \<open>put\<close> uploads and then reads back, as two separate requests.
\<close>

section \<open>Errors\<close>

definition azureStatus :: "az_error \<Rightarrow> int" where
  "azureStatus err = (case err of AzStatus s \<Rightarrow> s | _ \<Rightarrow> 0)"

definition sanitizeAzureError :: "az_error \<Rightarrow> go_error" where
  "sanitizeAzureError err =
     (case err of
        AzCanceled \<Rightarrow> ErrCanceled
      | AzDeadline \<Rightarrow> ErrDeadlineExceeded
      | AzStatus status \<Rightarrow>
          if status = 400 \<or> status = 404 \<or> status = 409 \<or> status = 412 then ErrContract else ErrDependency)"

section \<open>Verified blob reads\<close>

record AzureBlobStore =
  bs_allowed :: "string list"

definition validContainer :: "string \<Rightarrow> bool" where
  "validContainer value \<longleftrightarrow> rmatch containerPattern value \<and> \<not> contains value ''--''"

definition NewAzureBlobStore :: "bool \<Rightarrow> string list \<Rightarrow> AzureBlobStore result" where
  "NewAzureBlobStore serviceClientNil allowedContainers =
     (if serviceClientNil \<or> allowedContainers = [] \<or> \<not> list_all validContainer allowedContainers
      then Inl ErrContract
      else Inr \<lparr>bs_allowed = allowedContainers\<rparr>)"

definition download :: "AzureBlobStore \<Rightarrow> BlobReference \<Rightarrow> az_response result eff" where
  "download store reference =
     (if \<not> validBlob reference then Ret (Inl ErrContract)
      else if br_Container reference \<notin> set (bs_allowed store) then Ret (Inl ErrContract)
      else bindE (perform_DlVersion (br_Container reference) (br_Name reference) (br_VersionID reference))
        (\<lambda>reply. Ret (case reply of
             VersionRejected \<Rightarrow> Inl ErrContract
           | DlFailed err \<Rightarrow> Inl (sanitizeAzureError err)
           | DlOk response \<Rightarrow>
               if ar_Body response = None \<or> ar_ContentLength response \<noteq> Some (br_Size reference) \<or>
                  ar_VersionID response \<noteq> Some (br_VersionID reference)
               then Inl ErrContract
               else Inr response)))"

definition ReadSmall :: "AzureBlobStore \<Rightarrow> BlobReference \<Rightarrow> int \<Rightarrow> string result eff" where
  "ReadSmall store reference maximum =
     (if \<not> validBlob reference \<or> br_Size reference > maximum \<or> maximum < 1 then Ret (Inl ErrContract)
      else bindE (download store reference)
        (\<lambda>response. Ret (case response of
             Inl err \<Rightarrow> Inl err
           | Inr a \<Rightarrow>
               (case readBounded (ar_Body a) maximum of
                  Inl _ \<Rightarrow> Inl ErrContract
                | Inr body \<Rightarrow> if Matches reference body then Inr body else Inl ErrContract))))"

text \<open>The copy of at most \<open>Size + 1\<close> bytes into the hash.\<close>

definition verifyStream :: "BlobReference \<Rightarrow> reader \<Rightarrow> unit result" where
  "verifyStream reference stream =
     (let (content, err) = stream;
          copied = take (nat (br_Size reference + 1)) content;
          failed = (int (length content) \<le> br_Size reference \<and> err \<noteq> None)
      in if failed \<or> int (length copied) \<noteq> br_Size reference \<or>
            hexEncode (sha256 copied) \<noteq> br_SHA256 reference
         then Inl ErrContract else Inr ())"

definition Verify :: "AzureBlobStore \<Rightarrow> BlobReference \<Rightarrow> unit result eff" where
  "Verify store reference =
     bindE (download store reference)
       (\<lambda>response. Ret (case response of
            Inl err \<Rightarrow> Inl err
          | Inr a \<Rightarrow> (case ar_Body a of None \<Rightarrow> Inl ErrContract | Some stream \<Rightarrow> verifyStream reference stream)))"

definition Open :: "AzureBlobStore \<Rightarrow> BlobReference \<Rightarrow> reader result eff" where
  "Open store reference =
     bindE (download store reference)
       (\<lambda>response. Ret (case response of
            Inl err \<Rightarrow> Inl err
          | Inr a \<Rightarrow> (case ar_Body a of None \<Rightarrow> Inl ErrContract | Some stream \<Rightarrow> Inr stream)))"

section \<open>The receipt store\<close>

record StoredReceipt =
  st_Receipt :: Receipt
  st_ETag :: string

text \<open>\<open>strings.EqualFold(name, "sha256")\<close>.\<close>

definition equalFoldSha256 :: "string \<Rightarrow> bool" where
  "equalFoldSha256 name \<longleftrightarrow> foldName name = foldName ''sha256''"

definition metadataDigestMatches :: "metadata \<Rightarrow> string \<Rightarrow> bool" where
  "metadataDigestMatches metadata body =
     (case find (\<lambda>nv. equalFoldSha256 (fst nv)) metadata of
        Some (_, Some value) \<Rightarrow> value = hexEncode (sha256 body)
      | _ \<Rightarrow> False)"

text \<open>
  \<open>Get\<close> returns the stored receipt, or \<open>None\<close> when the blob does not exist. The request names no
  version, so \<open>VersionRejected\<close> is not one of its replies; any error would do there.
\<close>

definition getReply :: "dl_reply \<Rightarrow> StoredReceipt option result" where
  "getReply reply =
     (case reply of
        VersionRejected \<Rightarrow> Inl ErrDependency
      | DlFailed err \<Rightarrow> if azureStatus err = 404 then Inr None else Inl (sanitizeAzureError err)
      | DlOk response \<Rightarrow>
          (case readBounded (ar_Body response) (32 * 1024) of
             Inl _ \<Rightarrow> Inl ErrReceiptConflict
           | Inr body \<Rightarrow>
               (case ar_ETag response of
                  None \<Rightarrow> Inl ErrReceiptConflict
                | Some etag \<Rightarrow>
                    if ar_ContentLength response \<noteq> Some (int (length body)) \<or>
                       \<not> metadataDigestMatches (ar_Metadata response) body
                    then Inl ErrReceiptConflict
                    else (case ParseReceipt body of
                            Inl err \<Rightarrow> Inl err
                          | Inr receipt \<Rightarrow> Inr (Some \<lparr>st_Receipt = receipt, st_ETag = etag\<rparr>)))))"

definition Get :: "string \<Rightarrow> StoredReceipt option result eff" where
  "Get path =
     (if \<not> validBlobName path then Ret (Inl ErrReceiptConflict)
      else bindE (perform_DlBlob path) (\<lambda>reply. Ret (getReply reply)))"

definition put :: "string \<Rightarrow> Receipt \<Rightarrow> condition \<Rightarrow> StoredReceipt result eff" where
  "put path receipt conditions =
     (if \<not> validBlobName path then Ret (Inl ErrReceiptConflict)
      else case MarshalReceipt receipt of
        Inl err \<Rightarrow> Ret (Inl err)
      | Inr body \<Rightarrow>
          bindE (perform_UpBlob path body [(''sha256'', Some (hexEncode (sha256 body)))] conditions)
            (\<lambda>err. case err of
               Some e \<Rightarrow>
                 Ret (Inl (if azureStatus e = 409 \<or> azureStatus e = 412 then ErrReceiptConflict
                           else sanitizeAzureError e))
             | None \<Rightarrow>
                 bindE (Get path)
                   (\<lambda>got. Ret (case got of
                        Inr (Some stored) \<Rightarrow>
                          if r_StateVersion (st_Receipt stored) \<noteq> r_StateVersion receipt
                          then Inl ErrReceiptConflict else Inr stored
                      | _ \<Rightarrow> Inl ErrReceiptConflict))))"

definition Create :: "string \<Rightarrow> Receipt \<Rightarrow> StoredReceipt result eff" where
  "Create path receipt = put path receipt IfAbsent"

definition Replace :: "string \<Rightarrow> string \<Rightarrow> Receipt \<Rightarrow> StoredReceipt result eff" where
  "Replace path etag receipt =
     (if etag = [] then Ret (Inl ErrReceiptConflict) else put path receipt (IfMatch etag))"

section \<open>Verified content\<close>

text \<open>Whatever the service replies, a successful small read returns content that matches the reference.\<close>

lemma ReadSmall_sound:
  "wp m kv (ReadSmall store reference maximum)
    (\<lambda>g' r. \<forall>body. r = Inr body \<longrightarrow> Matches reference body \<and> int (length body) \<le> maximum) g"
  by (auto simp: ReadSmall_def download_def perform_defs wp_bindE readBounded_def
      split: sum.splits dl_reply.splits option.splits if_splits)

text \<open>
  A stream passes the digest check exactly when it delivers, without an error, content of the
  referenced length whose SHA-256 is the referenced digest: longer, shorter, failing or different
  streams are all refused.
\<close>

lemma verifyStream_exact:
  assumes "0 \<le> br_Size reference"
  shows "verifyStream reference (content, err) = Inr () \<longleftrightarrow> err = None \<and> Matches reference content"
proof -
  have "length (take (nat (br_Size reference + 1)) content) = nat (br_Size reference) \<longleftrightarrow>
      int (length content) = br_Size reference" using assms by auto
  moreover have "int (length content) = br_Size reference \<Longrightarrow> take (nat (br_Size reference + 1)) content = content"
    by auto
  ultimately show ?thesis
    using assms by (auto simp: verifyStream_def Matches_def Let_def)
qed

end
