(* ===== verification/Worker.thy ===== *)
theory Worker
  imports Storage
begin

text \<open>
  \<open>internal/distribution/worker.go\<close>: the notification worker. \<open>Process\<close> handles one queue delivery:
  it validates the message, the manifest and every recipient row, and then takes each recipient
  through the receipt state machine around one mail request. Loops over rows are recursion over
  the scanner's tokens; variables captured by the row callback are passed as state.
\<close>

section \<open>Results and options\<close>

datatype Disposition = Complete | Abandon | DeadLetter

record ProcessResult =
  pr_Disposition :: Disposition
  pr_ReasonCode :: string
  pr_ProcessedCount :: int
  pr_SkippedCount :: int
  pr_RetryAfter :: duration

definition settle :: "Disposition \<Rightarrow> string \<Rightarrow> duration \<Rightarrow> ProcessResult" where
  "settle d reason retry =
     \<lparr>pr_Disposition = d, pr_ReasonCode = reason, pr_ProcessedCount = 0, pr_SkippedCount = 0, pr_RetryAfter = retry\<rparr>"

record WorkerOptions =
  wo_Blobs :: AzureBlobStore
  wo_HMACKey :: string
  wo_HMACKeyVersion :: string
  wo_Provider :: string
  wo_MaxAttempts :: int
  wo_ClaimTimeout :: duration

text \<open>
  \<open>NewWorker\<close> panics on an unsafe policy. The flag says that one of the injected interfaces
  (blobs, receipts, mailer, clock) is nil.
\<close>

definition NewWorker :: "bool \<Rightarrow> WorkerOptions \<Rightarrow> WorkerOptions option" where
  "NewWorker dependencyNil options =
     (if dependencyNil \<or> length (wo_HMACKey options) < 32 \<or> length (wo_HMACKey options) > 64 \<or>
         \<not> rmatch versionLabelPattern (wo_HMACKeyVersion options) \<or>
         (wo_Provider options \<noteq> ''stub'' \<and> wo_Provider options \<noteq> ''sendgrid'') \<or>
         wo_MaxAttempts options < 1 \<or> wo_MaxAttempts options > 5 \<or> wo_ClaimTimeout options \<le> 0
      then None else Some options)"

section \<open>Delays\<close>

definition boundedDelay :: "duration \<Rightarrow> duration" where
  "boundedDelay value =
     (if value < second then second else if value > 300 * second then 300 * second else value)"

text \<open>
  \<open>retryDelay\<close> is called on stored receipts only, which are valid: the attempt count is between 1 and 5
  and the recipient id has 64 digits, so neither the shift nor the slice leaves its range.
  The jitter seed: a 33-fold hash of the first eight bytes, kept to 31 bits.
\<close>

definition jitterSeed :: "string \<Rightarrow> int" where
  "jitterSeed recipientID = foldl (\<lambda>seed c. (seed * 33 + int (byte c)) mod 2147483648) 0 (take 8 recipientID)"

definition retryDelay :: "Receipt \<Rightarrow> MailResult \<Rightarrow> duration" where
  "retryDelay receipt result =
     (let exponential = second * 2 ^ nat (max (r_AttemptCount receipt - 1) 0);
          base0 = max (mr_RetryAfter result) exponential;
          base1 = (if base0 < second then second else base0);
          base = (if base1 > 300 * second then 300 * second else base1);
          jitterRange = min (max (base div 4) second) (10 * second);
          jitterSlots = jitterRange div second + 1
      in boundedDelay (base + jitterSeed (r_RecipientID receipt) mod jitterSlots * second))"

definition activeDelay :: "WorkerOptions \<Rightarrow> Receipt \<Rightarrow> go_time \<Rightarrow> duration" where
  "activeDelay options receipt now =
     (let anchor = (if r_Status receipt = ReceiptSendStarted then r_SendStartedAt receipt else r_ClaimedAt receipt)
      in case anchor of
           None \<Rightarrow> second
         | Some a \<Rightarrow>
             (case parseTime a of
                Inl _ \<Rightarrow> second
              | Inr started \<Rightarrow> boundedDelay (wrap64 (wo_ClaimTimeout options - subTime now started))))"

section \<open>Applying a provider result\<close>

definition updatedOrZero :: "Receipt result \<Rightarrow> Receipt" where
  "updatedOrZero r = (case r of Inl _ \<Rightarrow> zeroReceipt | Inr receipt \<Rightarrow> receipt)"

definition orDefault :: "string \<Rightarrow> string \<Rightarrow> string" where
  "orDefault reason fallback = (if reason = [] then fallback else reason)"

definition applyMailResult ::
  "Receipt \<Rightarrow> MailResult \<Rightarrow> go_time \<Rightarrow> Receipt \<times> Disposition \<times> string \<times> duration" where
  "applyMailResult receipt result now =
     (if mr_Outcome result = MailAccepted then
        (updatedOrZero (Accept receipt now (mr_HTTPStatus result) (mr_RequestID result)), Complete, [], 0)
      else if mr_Outcome result = MailSimulated then
        (updatedOrZero (Simulate receipt now (mr_HTTPStatus result) (mr_RequestID result)), Complete, [], 0)
      else if mr_Outcome result = MailRetryable then
        (let delay = retryDelay receipt result;
             reason = orDefault (mr_ReasonCode result) ''PROVIDER_RETRYABLE''
         in (updatedOrZero (Retry receipt now (mr_HTTPStatus result) reason (addTime now delay)),
             Abandon, reason, delay))
      else if mr_Outcome result = MailPermanent then
        (let reason = orDefault (mr_ReasonCode result) ''PROVIDER_REJECTED''
         in (updatedOrZero (Fail receipt now (mr_HTTPStatus result) reason), DeadLetter, reason, 0))
      else
        (let reason = orDefault (mr_ReasonCode result) ''PROVIDER_OUTCOME_UNKNOWN''
         in (updatedOrZero (MarkUnknown receipt now reason), DeadLetter, reason, 0)))"

section \<open>Matching and audit\<close>

definition manifestMatchesMessage :: "PublishedManifest \<Rightarrow> QueueMessage \<Rightarrow> bool" where
  "manifestMatchesMessage manifest message \<longleftrightarrow>
     pm_OperationID manifest = qm_OperationID message \<and> pm_ReleaseID manifest = qm_ReleaseID message \<and>
     pm_ReleaseVersion manifest = qm_ReleaseVersion message \<and>
     pm_SourceCommitSHA manifest = qm_SourceCommitSHA message"

definition receiptMatches :: "Receipt \<Rightarrow> QueueMessage \<Rightarrow> string \<Rightarrow> bool" where
  "receiptMatches receipt message recipientID \<longleftrightarrow>
     r_OperationID receipt = qm_OperationID message \<and> r_ReleaseID receipt = qm_ReleaseID message \<and>
     r_ReleaseVersion receipt = qm_ReleaseVersion message \<and> r_RecipientID receipt = recipientID \<and>
     r_QueueMessageID receipt = qm_MessageID message \<and> r_HMACKeyVersion receipt \<noteq> []"

definition receiptReason :: "Receipt \<Rightarrow> string \<Rightarrow> string" where
  "receiptReason receipt fallback = (case r_ReasonCode receipt of Some reason \<Rightarrow> reason | None \<Rightarrow> fallback)"

definition audit :: "string \<Rightarrow> Receipt \<Rightarrow> unit eff" where
  "audit eventName receipt = perform_Emit
     \<lparr>ae_EventName = eventName, ae_OccurredAt = r_UpdatedAt receipt, ae_OperationID = r_OperationID receipt,
      ae_ReleaseID = r_ReleaseID receipt, ae_ReleaseVersion = r_ReleaseVersion receipt,
      ae_RecipientID = r_RecipientID receipt, ae_HMACKeyVersion = r_HMACKeyVersion receipt,
      ae_QueueMessageID = r_QueueMessageID receipt, ae_Provider = r_Provider receipt,
      ae_ReceiptStatus = r_Status receipt, ae_ReceiptStateVersion = r_StateVersion receipt,
      ae_AttemptCount = r_AttemptCount receipt,
      ae_ProviderHTTPStatus = (case r_ProviderHTTPStatus receipt of Some s \<Rightarrow> s | None \<Rightarrow> 0),
      ae_ReasonCode = (case r_ReasonCode receipt of Some s \<Rightarrow> s | None \<Rightarrow> [])\<rparr>"

section \<open>One recipient\<close>

text \<open>After the provider's answer: commit its outcome and settle.\<close>

definition commitMailResult :: "string \<Rightarrow> go_time \<Rightarrow> StoredReceipt \<Rightarrow> MailResult \<Rightarrow> ProcessResult option eff" where
  "commitMailResult path now stored mailResult =
     (let (updated, disposition, reason, retryAfter) = applyMailResult (st_Receipt stored) mailResult now
      in if r_Status updated = [] then Ret (Some (settle DeadLetter ''PROVIDER_PROTOCOL_UNKNOWN'' 0))
         else bindE (Replace path (st_ETag stored) updated) (\<lambda>committed. case committed of
           Inl _ \<Rightarrow> Ret (Some (settle DeadLetter ''RECEIPT_COMMIT_UNKNOWN'' 0))
         | Inr stored' \<Rightarrow>
             bindE (audit (if r_Status (st_Receipt stored') = ReceiptRetryable
                           then ''dar.notification.retry_scheduled'' else ''dar.notification.terminal'')
                     (st_Receipt stored')) (\<lambda>_.
             Ret (Some (settle disposition reason retryAfter)))))"

definition notificationOf :: "QueueMessage \<Rightarrow> Recipient \<Rightarrow> string \<Rightarrow> Notification" where
  "notificationOf message recipient recipientID =
     \<lparr>n_OperationID = qm_OperationID message, n_ReleaseID = qm_ReleaseID message,
      n_ReleaseVersion = qm_ReleaseVersion message, n_RecipientID = recipientID,
      n_FirstName = rc_FirstName recipient, n_LastName = rc_LastName recipient,
      n_Email = rc_Email recipient, n_ApplicationURL = qm_ApplicationURL message\<rparr>"

text \<open>The send: commit SEND_STARTED, and only then call the provider.\<close>

definition sendRecipient ::
  "QueueMessage \<Rightarrow> Recipient \<Rightarrow> string \<Rightarrow> string \<Rightarrow> go_time \<Rightarrow> StoredReceipt \<Rightarrow> ProcessResult option eff" where
  "sendRecipient message recipient recipientID path now stored =
     (case StartSend (st_Receipt stored) now of
        Inl _ \<Rightarrow> Ret (Some (settle Abandon ''RECEIPT_CONFLICT'' second))
      | Inr started \<Rightarrow>
          bindE (Replace path (st_ETag stored) started) (\<lambda>replaced. case replaced of
            Inl _ \<Rightarrow> Ret (Some (settle Abandon ''RECEIPT_CONFLICT'' second))
          | Inr stored' \<Rightarrow>
              bindE (audit ''dar.notification.send_started'' (st_Receipt stored')) (\<lambda>_.
              bindE (perform_SendMail (notificationOf message recipient recipientID)) (\<lambda>mailResult.
              commitMailResult path now stored' mailResult))))"

text \<open>The switch over the stored status; \<open>owned\<close> says that this call created the claim.\<close>

definition resumeRecipient ::
  "WorkerOptions \<Rightarrow> QueueMessage \<Rightarrow> Recipient \<Rightarrow> string \<Rightarrow> string \<Rightarrow> go_time \<Rightarrow> bool \<Rightarrow> StoredReceipt \<Rightarrow>
   ProcessResult option eff" where
  "resumeRecipient options message recipient recipientID path now owned stored =
     (let receipt = st_Receipt stored; status = r_Status receipt
      in if \<not> receiptMatches receipt message recipientID then Ret (Some (settle DeadLetter ''RECEIPT_CONFLICT'' 0))
      else if status = ReceiptAccepted \<or> status = ReceiptSimulated then Ret None
      else if status = ReceiptFailed \<or> status = ReceiptUnknown then
        Ret (Some (settle DeadLetter (receiptReason receipt ''TERMINAL_NOTIFICATION_FAILURE'') 0))
      else if status = ReceiptRetryable then
        (if r_AttemptCount receipt \<ge> wo_MaxAttempts options then
           (case Exhaust receipt now of
              Inl _ \<Rightarrow> Ret (Some (settle DeadLetter ''RECEIPT_CONFLICT'' 0))
            | Inr exhausted \<Rightarrow>
                bindE (Replace path (st_ETag stored) exhausted) (\<lambda>replaced. case replaced of
                  Inl _ \<Rightarrow> Ret (Some (settle Abandon ''RECEIPT_CONFLICT'' second))
                | Inr stored1 \<Rightarrow>
                    bindE (audit ''dar.notification.terminal'' (st_Receipt stored1)) (\<lambda>_.
                    Ret (Some (settle DeadLetter ''RETRY_BUDGET_EXHAUSTED'' 0)))))
         else
           (case (case r_NextAttemptAt receipt of
                    None \<Rightarrow> Inr None
                  | Some nextAt \<Rightarrow>
                      (case parseTime nextAt of
                         Inl _ \<Rightarrow> Inl (settle DeadLetter ''RECEIPT_CONFLICT'' 0)
                       | Inr nt \<Rightarrow>
                           if before now nt then Inr (Some (boundedDelay (subTime nt now))) else Inr None)) of
              Inl stop \<Rightarrow> Ret (Some stop)
            | Inr (Some wait) \<Rightarrow> Ret (Some (settle Abandon ''RETRY_NOT_DUE'' wait))
            | Inr None \<Rightarrow>
                (case Reclaim receipt now (wo_MaxAttempts options) of
                   Inl _ \<Rightarrow> Ret (Some (settle Abandon ''RECEIPT_CONFLICT'' second))
                 | Inr reclaimed \<Rightarrow>
                     bindE (Replace path (st_ETag stored) reclaimed) (\<lambda>replaced. case replaced of
                       Inl _ \<Rightarrow> Ret (Some (settle Abandon ''RECEIPT_CONFLICT'' second))
                     | Inr stored1 \<Rightarrow> sendRecipient message recipient recipientID path now stored1))))
      else if status = ReceiptClaimed \<or> status = ReceiptSendStarted then
        (if owned then sendRecipient message recipient recipientID path now stored
         else (case RecoverStale receipt now (wo_ClaimTimeout options) (wo_MaxAttempts options) of
                 Inl _ \<Rightarrow> Ret (Some (settle Abandon ''ACTIVE_RECEIPT'' (activeDelay options receipt now)))
               | Inr recovered \<Rightarrow>
                   bindE (Replace path (st_ETag stored) recovered) (\<lambda>replaced. case replaced of
                     Inl _ \<Rightarrow> Ret (Some (settle Abandon ''RECEIPT_CONFLICT'' second))
                   | Inr stored1 \<Rightarrow>
                       if r_Status (st_Receipt stored1) = ReceiptUnknown then
                         bindE (audit ''dar.notification.terminal'' (st_Receipt stored1)) (\<lambda>_.
                         Ret (Some (settle DeadLetter (receiptReason (st_Receipt stored1) ''STALE_SEND_OUTCOME'') 0)))
                       else sendRecipient message recipient recipientID path now stored1)))
      else Ret (Some (settle DeadLetter ''RECEIPT_CONFLICT'' 0)))"

definition recipientIDOf :: "WorkerOptions \<Rightarrow> Recipient \<Rightarrow> string" where
  "recipientIDOf options recipient = hexEncode (hmacSha256 (wo_HMACKey options) (rc_Email recipient))"

definition intentOf :: "WorkerOptions \<Rightarrow> QueueMessage \<Rightarrow> string \<Rightarrow> ReceiptIntent" where
  "intentOf options message recipientID =
     \<lparr>ri_OperationID = qm_OperationID message, ri_ReleaseID = qm_ReleaseID message,
      ri_ReleaseVersion = qm_ReleaseVersion message, ri_RecipientID = recipientID,
      ri_HMACKeyVersion = wo_HMACKeyVersion options, ri_Provider = wo_Provider options,
      ri_QueueMessageID = qm_MessageID message\<rparr>"

definition processRecipient :: "WorkerOptions \<Rightarrow> QueueMessage \<Rightarrow> Recipient \<Rightarrow> ProcessResult option eff" where
  "processRecipient options message recipient =
     bindE perform_Now (\<lambda>clock.
     (let now = asUTC clock;
          recipientID = recipientIDOf options recipient;
          path = receiptPath (qm_ReleaseID message) (qm_OperationID message) (wo_HMACKeyVersion options) recipientID
      in bindE (Get path) (\<lambda>got. case got of
           Inl _ \<Rightarrow> Ret (Some (settle Abandon ''RECEIPT_UNAVAILABLE'' second))
         | Inr (Some stored) \<Rightarrow> resumeRecipient options message recipient recipientID path now False stored
         | Inr None \<Rightarrow>
             (case ClaimReceipt (intentOf options message recipientID) now of
                Inl _ \<Rightarrow> Ret (Some (settle DeadLetter ''RECEIPT_CONFLICT'' 0))
              | Inr claimed \<Rightarrow>
                  bindE (Create path claimed) (\<lambda>created. case created of
                    Inr stored \<Rightarrow> resumeRecipient options message recipient recipientID path now True stored
                  | Inl err \<Rightarrow>
                      if err = ErrReceiptConflict then
                        bindE (Get path) (\<lambda>again. case again of
                          Inr (Some stored) \<Rightarrow> resumeRecipient options message recipient recipientID path now False stored
                        | _ \<Rightarrow> Ret (Some (settle Abandon ''RECEIPT_CONFLICT'' second)))
                      else Ret (Some (settle Abandon ''RECEIPT_UNAVAILABLE'' second)))))))"

section \<open>Rows\<close>

text \<open>
  \<open>bufio.Scanner\<close> with a fixed buffer of 1024 bytes and \<open>ScanLines\<close>: a line must fit the buffer
  together with its newline, a carriage return before the newline is dropped, and the bytes after
  the last newline form a last token. The flag reports a line that does not fit.
\<close>

definition dropCR :: "string \<Rightarrow> string" where
  "dropCR s = (if s \<noteq> [] \<and> last s = char_of (13::nat) then butlast s else s)"

function rowTokens :: "string \<Rightarrow> string list \<times> bool" where
  "rowTokens s =
     (let line = takeWhile (\<lambda>c. c \<noteq> newline) s; rest = drop (length line) s
      in if length line \<ge> 1024 then ([], True)
         else if rest = [] then (if line = [] then ([], False) else ([dropCR line], False))
         else let (rows, tooLong) = rowTokens (tl rest) in (dropCR line # rows, tooLong))"
  by pat_completeness auto
termination
proof (relation "measure length", goal_cases)
  case (2 s line rest)
  then have "0 < length rest" "length rest \<le> length s" by simp_all
  then have "length rest - 1 < length s" by linarith
  then show ?case by simp
qed simp

declare rowTokens.simps [simp del]

fun scanRows ::
  "string list \<Rightarrow> nat \<Rightarrow> (Recipient \<Rightarrow> 's \<Rightarrow> (go_error option \<times> 's) eff) \<Rightarrow> 's \<Rightarrow> ((nat result) \<times> 's) eff" where
  "scanRows [] count process st = Ret (Inr count, st)"
| "scanRows (raw # rows) count process st =
     (if raw = [] then Ret (Inl ErrContract, st)
      else case ParseRecipient raw of
        Inl err \<Rightarrow> Ret (Inl err, st)
      | Inr recipient \<Rightarrow>
          bindE (process recipient st) (\<lambda>(err, st').
            case err of
              Some e \<Rightarrow> Ret (Inl e, st')
            | None \<Rightarrow> scanRows rows (Suc count) process st'))"

definition scanRecipientRows ::
  "reader \<Rightarrow> (Recipient \<Rightarrow> 's \<Rightarrow> (go_error option \<times> 's) eff) \<Rightarrow> 's \<Rightarrow> (unit result \<times> 's) eff" where
  "scanRecipientRows reader process st =
     (let (content, readErr) = reader; (rows, tooLong) = rowTokens content
      in bindE (scanRows rows 0 process st) (\<lambda>(result, st').
           Ret (case result of
                  Inl err \<Rightarrow> Inl err
                | Inr count \<Rightarrow>
                    if tooLong \<or> readErr \<noteq> None \<or> count = 0 \<or> last content \<noteq> newline
                    then Inl ErrContract else Inr (), st')))"

definition validateBatch :: "WorkerOptions \<Rightarrow> BlobReference \<Rightarrow> int \<Rightarrow> unit result eff" where
  "validateBatch options reference expectedCount =
     bindE (Open (wo_Blobs options) reference) (\<lambda>opened. case opened of
       Inl err \<Rightarrow> Ret (Inl err)
     | Inr reader \<Rightarrow>
         bindE (scanRecipientRows reader (\<lambda>_ count. Ret (None, count + 1)) (0::int)) (\<lambda>(result, count).
           Ret (if \<not> is_ok result \<or> count \<noteq> expectedCount then Inl ErrContract else Inr ())))"

section \<open>One delivery\<close>

definition transient :: "go_error \<Rightarrow> bool" where
  "transient err \<longleftrightarrow> err = ErrDependency \<or> err = ErrCanceled \<or> err = ErrDeadlineExceeded"

definition blobFailure :: "go_error \<Rightarrow> ProcessResult" where
  "blobFailure err =
     (if transient err then settle Abandon ''BLOB_UNAVAILABLE'' second
      else settle DeadLetter ''REFERENCED_BLOB_INVALID'' 0)"

text \<open>The callback of the row loop: it counts, and stops the batch at the first unfinished recipient.\<close>

definition batchRow ::
  "WorkerOptions \<Rightarrow> QueueMessage \<Rightarrow> Recipient \<Rightarrow> ProcessResult \<Rightarrow> (go_error option \<times> ProcessResult) eff" where
  "batchRow options message recipient result =
     bindE (processRecipient options message recipient) (\<lambda>outcome.
       Ret (case outcome of
              None \<Rightarrow> (None, result\<lparr>pr_SkippedCount := pr_SkippedCount result + 1\<rparr>)
            | Some r \<Rightarrow>
                (let result' = result\<lparr>pr_ProcessedCount := pr_ProcessedCount result + 1\<rparr>
                 in if pr_Disposition r \<noteq> Complete
                    then (Some ErrStopBatch,
                          result'\<lparr>pr_Disposition := pr_Disposition r, pr_ReasonCode := pr_ReasonCode r,
                                  pr_RetryAfter := pr_RetryAfter r\<rparr>)
                    else (None, result'))))"

definition processBatch :: "WorkerOptions \<Rightarrow> QueueMessage \<Rightarrow> ProcessResult eff" where
  "processBatch options message =
     bindE (Open (wo_Blobs options) (Reference (qm_RecipientBatch message))) (\<lambda>opened. case opened of
       Inl _ \<Rightarrow> Ret (settle Abandon ''BLOB_UNAVAILABLE'' second)
     | Inr reader \<Rightarrow>
         bindE (scanRecipientRows reader (batchRow options message) (settle Complete [] 0)) (\<lambda>(outcome, result).
           Ret (case outcome of
                  Inr _ \<Rightarrow> result
                | Inl err \<Rightarrow> if err = ErrStopBatch then result
                             else settle DeadLetter ''REFERENCED_BLOB_INVALID'' 0)))"

text \<open>The stages of \<open>Process\<close>: check every row, before that the digest of the batch, before that the manifest.\<close>

definition processVerified :: "WorkerOptions \<Rightarrow> QueueMessage \<Rightarrow> ProcessResult eff" where
  "processVerified options message =
     bindE (validateBatch options (Reference (qm_RecipientBatch message))
              (bt_RecipientCount (qm_RecipientBatch message))) (\<lambda>valid. case valid of
       Inl _ \<Rightarrow> Ret (settle DeadLetter ''REFERENCED_BLOB_INVALID'' 0)
     | Inr _ \<Rightarrow> processBatch options message)"

definition processManifest :: "WorkerOptions \<Rightarrow> QueueMessage \<Rightarrow> string \<Rightarrow> ProcessResult eff" where
  "processManifest options message manifestBody =
     (case ParsePublishedManifest manifestBody of
        Inl _ \<Rightarrow> Ret (settle DeadLetter ''REFERENCED_BLOB_INVALID'' 0)
      | Inr manifest \<Rightarrow>
          if \<not> manifestMatchesMessage manifest message
          then Ret (settle DeadLetter ''REFERENCED_BLOB_INVALID'' 0)
          else bindE (Verify (wo_Blobs options) (Reference (qm_RecipientBatch message))) (\<lambda>verified. case verified of
            Inl err \<Rightarrow> Ret (blobFailure err)
          | Inr _ \<Rightarrow> processVerified options message))"

definition Process :: "WorkerOptions \<Rightarrow> string \<Rightarrow> string \<Rightarrow> ProcessResult eff" where
  "Process options brokerMessageID body =
     (case ParseQueueMessage body brokerMessageID of
        Inl _ \<Rightarrow> Ret (settle DeadLetter ''MESSAGE_INVALID'' 0)
      | Inr message \<Rightarrow>
          bindE (ReadSmall (wo_Blobs options) (qm_Manifest message) maxManifestBytes) (\<lambda>manifestBody. case manifestBody of
            Inl err \<Rightarrow> Ret (blobFailure err)
          | Inr raw \<Rightarrow> processManifest options message raw))"

end
