(* ===== verification/GoHttp.thy ===== *)
theory GoHttp
  imports Utf8
begin

text \<open>
  The parts of \<open>net/http\<close> and \<open>net/textproto\<close> that the program uses: header maps with canonical names,
  and upper-casing of names. A header map is a list of names with their values; the names are distinct.
\<close>

type_synonym headers = "(string \<times> string list) list"

section \<open>Canonical names\<close>

definition upper_char :: "char \<Rightarrow> char" where
  "upper_char c = (if is_lower c then char_of (byte c - 32) else c)"

text \<open>\<open>textproto.CanonicalMIMEHeaderKey\<close>: names that are not tokens stay as they are.\<close>

definition tokenChar :: "char \<Rightarrow> bool" where
  "tokenChar c \<longleftrightarrow> is_alnum c \<or> c \<in> set ''!#$%&'*+-.^_`|~''"

fun canonLetters :: "bool \<Rightarrow> string \<Rightarrow> string" where
  "canonLetters up [] = []"
| "canonLetters up (c # s) = (if up then upper_char c else lower_char c) # canonLetters (c = CHR ''-'') s"

definition canonicalKey :: "string \<Rightarrow> string" where
  "canonicalKey name = (if name \<noteq> [] \<and> list_all tokenChar name then canonLetters True name else name)"

definition headerValues :: "headers \<Rightarrow> string \<Rightarrow> string list" where
  "headerValues hs name = (case map_of hs (canonicalKey name) of Some vs \<Rightarrow> vs | None \<Rightarrow> [])"

definition headerGet :: "headers \<Rightarrow> string \<Rightarrow> string" where
  "headerGet hs name = (case headerValues hs name of v # _ \<Rightarrow> v | [] \<Rightarrow> [])"

definition headerSet :: "string \<Rightarrow> string \<Rightarrow> headers \<Rightarrow> headers" where
  "headerSet name value hs = (canonicalKey name, [value]) # filter (\<lambda>nv. fst nv \<noteq> canonicalKey name) hs"

section \<open>Upper case\<close>

text \<open>
  \<open>strings.ToUpper\<close>. The two non-ASCII code points whose upper case is ASCII (U+0131 and U+017F) are
  mapped as Go maps them; every other non-ASCII code point stays non-ASCII and is kept, which a test
  against an ASCII prefix cannot tell apart.
\<close>

definition upper_chunk :: "chunk \<Rightarrow> string" where
  "upper_chunk ch =
     (if fst ch < 0x80 then map upper_char (snd ch)
      else if bad_chunk ch then encodeRune runeError
      else if fst ch = 0x131 then ''I''
      else if fst ch = 0x17F then ''S''
      else snd ch)"

definition toUpper :: "string \<Rightarrow> string" where
  "toUpper s = concat (map upper_chunk (chunks s))"

lemma headerValues_Cons:
  "headerValues ((k, vs) # hs) name = (if k = canonicalKey name then vs else headerValues hs name)"
  by (simp add: headerValues_def)

lemma headerValues_Nil [simp]: "headerValues [] name = []"
  by (simp add: headerValues_def)

lemma headerValues_set:
  "headerValues (headerSet name value hs) name' =
     (if canonicalKey name' = canonicalKey name then [value] else headerValues hs name')"
proof -
  have "map_of (filter (\<lambda>nv. fst nv \<noteq> k) hs) k' = (if k' = k then None else map_of hs k')" for k k'
    by (induction hs) auto
  then show ?thesis by (auto simp: headerSet_def headerValues_def)
qed

lemma headerSet_names:
  "list_ex (\<lambda>nv. P (fst nv)) (headerSet name value hs) \<Longrightarrow> P (canonicalKey name) \<or> list_ex (\<lambda>nv. P (fst nv)) hs"
  by (fastforce simp: headerSet_def list_ex_iff)

text \<open>A present name with the prefix is found whatever its case.\<close>

lemma toUpper_ascii: "ascii s \<Longrightarrow> toUpper s = map upper_char s"
proof (induction s)
  case (Cons c s)
  then show ?case by (simp add: toUpper_def chunks_ascii_Cons upper_chunk_def)
qed (simp add: toUpper_def)

end
