(* ===== verification/Mail.thy ===== *)
theory Mail
  imports Worker GoHttp
begin

text \<open>
  \<open>internal/distribution/mail.go\<close>: the mail provider client. \<open>NewHTTPMailer\<close> checks the policy,
  \<open>Send\<close> makes one bounded request and \<open>classifyMailResponse\<close> turns the answer into the outcome the
  worker records. The HTTP transport (\<open>http.Client.Do\<close>) is outside the repository: it is the parameter
  \<open>transport\<close> of \<open>Send\<close>, a function from the request to a response or a failure.

  The theorems: outside live mode no request leaves for an address that is not on the configured list,
  credentials go to the fixed provider endpoint only, every answer of the provider can be recorded in the
  receipt, and the address that is mailed is the address the recipient id was computed from.
\<close>

section \<open>Policy and requests\<close>

definition SendGridEndpoint :: string where
  "SendGridEndpoint = ''https://api.sendgrid.com/v3/mail/send''"

type_synonym MailMode = string

abbreviation MailModeStub :: MailMode where "MailModeStub \<equiv> ''stub''"
abbreviation MailModeSandbox :: MailMode where "MailModeSandbox \<equiv> ''sendgrid_sandbox''"
abbreviation MailModeLive :: MailMode where "MailModeLive \<equiv> ''sendgrid_live''"

text \<open>The part of an \<open>http.Client\<close> that the code sets.\<close>

record http_client =
  hc_Timeout :: duration
  hc_UseLastResponse :: bool

record MailConfig =
  mc_Mode :: MailMode
  mc_FromEmail :: string
  mc_FromName :: string
  mc_AllowedRecipients :: "string list"
  mc_APIKey :: string
  mc_StubEndpoint :: string
  mc_Timeout :: duration
  mc_Client :: "http_client option"

record HTTPMailer =
  hm_mode :: MailMode
  hm_fromEmail :: string
  hm_fromName :: string
  hm_allowed :: "string list"
  hm_apiKey :: string
  hm_endpoint :: string
  hm_client :: http_client

record http_request =
  rq_URL :: string
  rq_Headers :: "(string \<times> string) list"
  rq_Body :: string

record http_response =
  rs_StatusCode :: int
  rs_Header :: headers

section \<open>Construction\<close>

definition canonicalEmail :: "string \<Rightarrow> string \<times> bool" where
  "canonicalEmail value =
     (let email = toLower (trimSpace value)
      in (email, length email \<le> 254 \<and> rmatch emailPattern email))"

definition validStubEndpoint :: "string \<Rightarrow> bool" where
  "validStubEndpoint value =
     (case urlParse value of
        None \<Rightarrow> False
      | Some parsed \<Rightarrow>
          if u_scheme parsed \<noteq> ''https'' \<or> u_user parsed \<noteq> None \<or> u_rawQuery parsed \<noteq> [] \<or>
             u_fragment parsed \<noteq> [] \<or> u_path parsed \<noteq> ''/v3/mail/send'' \<or> urlPort parsed \<noteq> [] then False
          else let host = toLower (hostname parsed)
               in hasSuffix host ''.azurecontainerapps.io'' \<or> hasSuffix host ''.example.internal'')"

text \<open>The loop that fills the allowlist; a repeated or invalid address ends it.\<close>

fun allowRecipients :: "string list \<Rightarrow> string list \<Rightarrow> string list result" where
  "allowRecipients allowed [] = Inr allowed"
| "allowRecipients allowed (raw # rest) =
     (let (email, valid) = canonicalEmail raw
      in if \<not> valid then Inl ErrContract
         else if email \<in> set allowed then Inl ErrContract
         else allowRecipients (email # allowed) rest)"

definition allowedFor :: "MailConfig \<Rightarrow> string list result" where
  "allowedFor config =
     (if mc_Mode config = MailModeLive then
        (if mc_AllowedRecipients config \<noteq> [] then Inl ErrContract else Inr [])
      else let maximumRecipients = (if mc_Mode config = MailModeStub then 500 else 2)
           in if length (mc_AllowedRecipients config) < 1 \<or> length (mc_AllowedRecipients config) > maximumRecipients
              then Inl ErrContract
              else allowRecipients [] (mc_AllowedRecipients config))"

definition endpointFor :: "MailConfig \<Rightarrow> string result" where
  "endpointFor config =
     (if mc_Mode config = MailModeStub then
        (if mc_APIKey config \<noteq> [] \<or> \<not> validStubEndpoint (mc_StubEndpoint config) then Inl ErrContract
         else Inr (mc_StubEndpoint config))
      else if mc_Mode config = MailModeSandbox \<or> mc_Mode config = MailModeLive then
        (if mc_APIKey config = [] \<or> mc_StubEndpoint config \<noteq> [] then Inl ErrContract else Inr SendGridEndpoint)
      else Inl ErrContract)"

definition NewHTTPMailer :: "MailConfig \<Rightarrow> HTTPMailer result" where
  "NewHTTPMailer config =
     (let (fromEmail, ok) = canonicalEmail (mc_FromEmail config)
      in if \<not> ok \<or> mc_FromName config = [] \<or> length (mc_FromName config) > 64 \<or> \<not> controlFree (mc_FromName config)
         then Inl ErrContract
         else case allowedFor config of
           Inl e \<Rightarrow> Inl e
         | Inr allowed \<Rightarrow>
             (case endpointFor config of
                Inl e \<Rightarrow> Inl e
              | Inr endpoint \<Rightarrow>
                  (let timeout = (if mc_Timeout config = 0 then 10 * second else mc_Timeout config)
                   in if timeout < 100 * 1000000 \<or> timeout > 30 * second then Inl ErrContract
                      else Inr \<lparr>hm_mode = mc_Mode config, hm_fromEmail = fromEmail, hm_fromName = mc_FromName config,
                                hm_allowed = allowed, hm_apiKey = mc_APIKey config, hm_endpoint = endpoint,
                                hm_client = (case mc_Client config of
                                   Some client \<Rightarrow> client
                                 | None \<Rightarrow> \<lparr>hc_Timeout = timeout, hc_UseLastResponse = True\<rparr>)\<rparr>)))"

section \<open>The payload\<close>

text \<open>\<open>html.EscapeString\<close>.\<close>

definition htmlByte :: "char \<Rightarrow> string" where
  "htmlByte c =
     (if c = CHR ''&'' then ''&amp;'' else if c = CHR 0x27 then ''&#39;'' else if c = CHR ''<'' then ''&lt;''
      else if c = CHR ''>'' then ''&gt;'' else if c = quote_char then ''&#34;'' else [c])"

definition escapeString :: "string \<Rightarrow> string" where
  "escapeString s = concat (map htmlByte s)"

definition plainText :: "Notification \<Rightarrow> string" where
  "plainText notification =
     ''Hello '' @ n_FirstName notification @ '','' @ [newline, newline] @ ''DAR release '' @ n_ReleaseVersion notification @
     '' is ready.'' @ [newline] @ ''Sign in to download it: '' @ n_ApplicationURL notification @ [newline]"

definition htmlBody :: "Notification \<Rightarrow> string" where
  "htmlBody notification =
     ''<p>Hello '' @ escapeString (n_FirstName notification) @ ''</p>'' @
     ''<p>DAR release '' @ escapeString (n_ReleaseVersion notification) @ '' is ready.</p>'' @
     ''<p><a href='' @ [quote_char] @ escapeString (n_ApplicationURL notification) @ [quote_char] @
     ''>Sign in to download the DAR</a></p>''"

text \<open>\<open>json.Marshal\<close> of the map prints the keys in sorted order; they are listed in that order here.\<close>

definition buildMailPayload :: "HTTPMailer \<Rightarrow> Notification \<Rightarrow> string \<Rightarrow> json" where
  "buildMailPayload mailer notification email =
     (let displayName = trimSpace (n_FirstName notification @ '' '' @ n_LastName notification)
      in JObj
        ([(''content'', JArr
             [JObj [(''type'', JStr ''text/plain''), (''value'', JStr (plainText notification))],
              JObj [(''type'', JStr ''text/html''), (''value'', JStr (htmlBody notification))]]),
          (''from'', JObj [(''email'', JStr (hm_fromEmail mailer)), (''name'', JStr (hm_fromName mailer))])] @
         (if hm_mode mailer = MailModeSandbox
          then [(''mail_settings'', JObj [(''sandbox_mode'', JObj [(''enable'', JBool True)])])] else []) @
         [(''personalizations'', JArr
             [JObj [(''custom_args'', JObj
                       [(''operation_id'', JStr (n_OperationID notification)),
                        (''recipient_id'', JStr (n_RecipientID notification)),
                        (''release_id'', JStr (n_ReleaseID notification))]),
                    (''to'', JArr [JObj [(''email'', JStr email), (''name'', JStr displayName)]])]]),
          (''subject'', JStr (''DAR release '' @ n_ReleaseVersion notification @ '' is ready''))] @
         (if hm_mode mailer \<noteq> MailModeStub
          then [(''tracking_settings'', JObj
                  [(''click_tracking'', JObj [(''enable'', JBool False), (''enable_text'', JBool False)]),
                   (''open_tracking'', JObj [(''enable'', JBool False)])])] else [])))"

section \<open>Sending\<close>

definition mailRefused :: "string \<Rightarrow> string \<Rightarrow> MailResult" where
  "mailRefused outcome reason =
     \<lparr>mr_Outcome = outcome, mr_HTTPStatus = 0, mr_RequestID = [], mr_ReasonCode = reason, mr_RetryAfter = 0\<rparr>"

text \<open>Everything up to the transport: a refusal, or the one request.\<close>

definition mailRequest :: "HTTPMailer \<Rightarrow> Notification \<Rightarrow> MailResult + http_request" where
  "mailRequest mailer notification =
     (let (email, valid) = canonicalEmail (n_Email notification)
      in if \<not> valid then Inl (mailRefused MailPermanent ''RECIPIENT_INVALID'')
         else if hm_mode mailer \<noteq> MailModeLive \<and> email \<notin> set (hm_allowed mailer)
         then Inl (mailRefused MailPermanent ''RECIPIENT_NOT_ALLOWED'')
         else let body = jprint (buildMailPayload mailer notification email)
              in if length body = 0 \<or> length body > 65536 \<or> urlParse (hm_endpoint mailer) = None
                 then Inl (mailRefused MailPermanent ''MAIL_PAYLOAD_INVALID'')
                 else Inr \<lparr>rq_URL = hm_endpoint mailer,
                           rq_Headers = [(''Accept'', ''application/json''), (''Content-Type'', ''application/json''),
                                         (''User-Agent'', ''dar-distribution-go/0.1'')] @
                             (if hm_mode mailer \<noteq> MailModeStub then [(''Authorization'', ''Bearer '' @ hm_apiKey mailer)] else []),
                           rq_Body = body\<rparr>)"

definition boundedHeader :: "headers \<Rightarrow> string \<Rightarrow> string" where
  "boundedHeader hs name = (let value = headerGet hs name in if length value > 128 then take 128 value else value)"

definition retryAfter :: "headers \<Rightarrow> duration" where
  "retryAfter hs =
     (case parseInt (headerGet hs ''Retry-After'') of
        None \<Rightarrow> second
      | Some seconds \<Rightarrow> if seconds < 1 then second else if seconds > 300 then 300 * second else seconds * second)"

definition classifyMailResponse :: "MailMode \<Rightarrow> http_response \<Rightarrow> MailResult" where
  "classifyMailResponse mode response =
     (let status = rs_StatusCode response;
          messageID = boundedHeader (rs_Header response) ''X-Message-Id'';
          requestID = (if messageID = [] then boundedHeader (rs_Header response) ''X-Stub-Request-Id'' else messageID);
          result = (\<lambda>outcome reason retry. \<lparr>mr_Outcome = outcome, mr_HTTPStatus = status, mr_RequestID = requestID,
                      mr_ReasonCode = reason, mr_RetryAfter = retry\<rparr>)
      in if (mode = MailModeStub \<or> mode = MailModeSandbox) \<and> status = 200 then result MailSimulated [] 0
         else if mode = MailModeLive \<and> status = 202 then result MailAccepted [] 0
         else if status = 429 then result MailRetryable ''PROVIDER_THROTTLED'' (retryAfter (rs_Header response))
         else if status \<ge> 500 \<and> status \<le> 599 then
           result MailRetryable ''PROVIDER_UNAVAILABLE'' (retryAfter (rs_Header response))
         else if status = 401 \<or> status = 403 then result MailPermanent ''PROVIDER_AUTH_FAILED'' 0
         else if status \<ge> 400 \<and> status \<le> 499 then result MailPermanent ''PROVIDER_REJECTED'' 0
         else result MailUnknown ''PROVIDER_PROTOCOL_UNKNOWN'' 0)"

definition Send ::
  "(http_client \<Rightarrow> http_request \<Rightarrow> http_response option) \<Rightarrow> HTTPMailer \<Rightarrow> Notification \<Rightarrow> MailResult" where
  "Send transport mailer notification =
     (case mailRequest mailer notification of
        Inl refused \<Rightarrow> refused
      | Inr request \<Rightarrow>
          (case transport (hm_client mailer) request of
             None \<Rightarrow> mailRefused MailUnknown ''PROVIDER_OUTCOME_UNKNOWN''
           | Some response \<Rightarrow> classifyMailResponse (hm_mode mailer) response))"

section \<open>Addresses\<close>

lemma canonical_of_match:
  assumes "rmatch emailPattern e"
  shows "toLower (trimSpace e) = e"
proof -
  note b = email_bytes [OF assms]
  have "\<not> isSpace (byte c)" if "c \<in> set e" for c
    using b(1,4) that by (auto simp: ascii_def list_all_iff controlFree_bytes isSpace_def)
      (use assms rmatch_bytes [OF assms that] in \<open>auto simp: emailPattern_def dnsLabel_def emailLocalChar_def
        rbytes_unfold char_class_defs dest!: rbytes_dest\<close>)
  then have "trimSpace e = e" using b(1,3) by (intro trimSpace_id) auto
  then show ?thesis using toLower_id [OF b(1,2)] by simp
qed

lemma canonicalEmail_idem: "canonicalEmail v = (e, True) \<Longrightarrow> canonicalEmail e = (e, True)"
  using canonical_of_match by (auto simp: canonicalEmail_def Let_def)

lemma allowRecipients_iff:
  "allowRecipients allowed raws = Inr result \<longleftrightarrow>
     (\<forall>raw \<in> set raws. snd (canonicalEmail raw)) \<and> distinct (map (fst \<circ> canonicalEmail) raws) \<and>
     set (map (fst \<circ> canonicalEmail) raws) \<inter> set allowed = {} \<and>
     result = rev (map (fst \<circ> canonicalEmail) raws) @ allowed"
proof (induction raws arbitrary: allowed)
  case (Cons raw raws)
  obtain e v where "canonicalEmail raw = (e, v)" by fastforce
  then show ?case using Cons.IH [of "e # allowed"] by auto
qed auto

section \<open>Results can be recorded\<close>

lemma boundedHeader_length: "length (boundedHeader hs name) \<le> 128"
  by (simp add: boundedHeader_def Let_def)

lemma retryAfter_bounds: "second \<le> retryAfter hs \<and> retryAfter hs \<le> 300 * second"
  by (auto simp: retryAfter_def second_def split: option.splits)

lemma reasons:
  "rmatch reasonPattern ''PROVIDER_THROTTLED''" "rmatch reasonPattern ''PROVIDER_UNAVAILABLE''"
  "rmatch reasonPattern ''PROVIDER_AUTH_FAILED''" "rmatch reasonPattern ''PROVIDER_REJECTED''"
  "rmatch reasonPattern ''PROVIDER_PROTOCOL_UNKNOWN''" "rmatch reasonPattern ''PROVIDER_OUTCOME_UNKNOWN''"
  "rmatch reasonPattern ''RECIPIENT_INVALID''" "rmatch reasonPattern ''RECIPIENT_NOT_ALLOWED''"
  "rmatch reasonPattern ''MAIL_PAYLOAD_INVALID''"
  by (simp_all add: reason_iff is_upper_def between_def del: rmatch.simps)

text \<open>What a result of the mail client looks like.\<close>

definition clientResult :: "MailResult \<Rightarrow> bool" where
  "clientResult res \<longleftrightarrow>
     length (mr_RequestID res) \<le> 128 \<and> 0 \<le> mr_RetryAfter res \<and> mr_RetryAfter res \<le> 300 * second \<and>
     ((mr_Outcome res = MailSimulated \<and> mr_HTTPStatus res = 200) \<or>
      (mr_Outcome res = MailAccepted \<and> mr_HTTPStatus res = 202) \<or>
      (mr_Outcome res = MailRetryable \<and> rmatch reasonPattern (mr_ReasonCode res) \<and> mr_ReasonCode res \<noteq> [] \<and>
         (mr_HTTPStatus res = 429 \<or> (500 \<le> mr_HTTPStatus res \<and> mr_HTTPStatus res \<le> 599))) \<or>
      (mr_Outcome res = MailPermanent \<and> rmatch reasonPattern (mr_ReasonCode res) \<and> mr_ReasonCode res \<noteq> [] \<and>
         0 \<le> mr_HTTPStatus res \<and> mr_HTTPStatus res \<le> 599) \<or>
      (mr_Outcome res = MailUnknown \<and> rmatch reasonPattern (mr_ReasonCode res) \<and> mr_ReasonCode res \<noteq> []))"

lemma classify_client: "clientResult (classifyMailResponse mode response)"
  using boundedHeader_length retryAfter_bounds [of "rs_Header response"] reasons
  by (auto simp: classifyMailResponse_def clientResult_def Let_def second_def)

lemma Send_client: "clientResult (Send transport mailer notification)"
proof (cases "mailRequest mailer notification")
  case (Inl refused)
  then have "\<exists>reason. refused = mailRefused MailPermanent reason \<and> reason \<noteq> [] \<and> rmatch reasonPattern reason"
    using reasons by (auto simp: mailRequest_def Let_def split: prod.splits if_splits)
  then show ?thesis using Inl by (auto simp: Send_def clientResult_def mailRefused_def second_def)
next
  case (Inr request)
  then show ?thesis
    using classify_client reasons by (auto simp: Send_def clientResult_def mailRefused_def second_def split: option.splits)
qed

lemma boundedDelay_range: "second \<le> boundedDelay v \<and> boundedDelay v \<le> 300 * second"
  by (simp add: boundedDelay_def second_def)

lemma retryDelay_range: "second \<le> retryDelay receipt result \<and> retryDelay receipt result \<le> 300 * second"
  unfolding retryDelay_def Let_def by (rule boundedDelay_range)

lemma printable_between: "printable a \<Longrightarrow> printable b \<Longrightarrow> a \<le> c \<Longrightarrow> c \<le> b \<Longrightarrow> printable c"
  unfolding printable_def using zdiv_mono1 [of a c second] zdiv_mono1 [of c b second] by force

text \<open>The operations behind the outcomes succeed on a started receipt.\<close>

definition startedNow :: "Receipt \<Rightarrow> go_time \<Rightarrow> bool" where
  "startedNow r now \<longleftrightarrow>
     validate r \<and> r_Status r = ReceiptSendStarted \<and> r_StateVersion r < max_int64 \<and> t_utc now \<and> printable (t_ns now)"

lemma finish_succeeds:
  assumes "startedNow r now" "length requestID \<le> 128" "controlFree requestID"
    and "status \<in> {ReceiptAccepted, ReceiptSimulated, ReceiptFailed, ReceiptUnknown}" "reason \<noteq> [] \<Longrightarrow> rmatch reasonPattern reason"
  shows "\<exists>u. finish r now status http requestID reason = Inr u \<and> validate u \<and> r_Status u = status"
proof -
  let ?u = "r\<lparr>r_Status := status, r_StateVersion := inc64 (r_StateVersion r),
      r_ProviderHTTPStatus := (if http \<noteq> 0 then Some http else None),
      r_ProviderRequestID := (if requestID \<noteq> [] then Some requestID else None),
      r_ReasonCode := (if reason \<noteq> [] then Some reason else None),
      r_TerminalAt := Some (formatTime now), r_NextAttemptAt := None, r_UpdatedAt := formatTime now\<rparr>"
  have "validReceiptStatus status" using assms(4) by (auto simp: validReceiptStatus_def)
  then have "validate ?u"
    using assms(1-3,5) validTime_formatTime [of now] by (simp add: startedNow_def validate_def inc64_def)
  then show ?thesis using assms(1-3) by (simp add: finish_def startedNow_def terminal_def Let_def)
qed

lemma retry_succeeds:
  assumes "startedNow r now" "status = 429 \<or> (500 \<le> status \<and> status \<le> 599)" "rmatch reasonPattern reason"
    and "0 \<le> d" "printable (t_ns now + d)"
  shows "\<exists>u. Retry r now status reason (addTime now d) = Inr u \<and> validate u \<and> r_Status u = ReceiptRetryable"
proof -
  have "validReceiptTime (formatTime (addTime now d))" using validTime_formatTime [of "addTime now d"] assms(5) by simp
  then have "validate (r\<lparr>r_Status := ReceiptRetryable, r_StateVersion := inc64 (r_StateVersion r),
      r_ProviderHTTPStatus := Some status, r_ProviderRequestID := None,
      r_NextAttemptAt := Some (formatTime (addTime now d)), r_ReasonCode := Some reason, r_UpdatedAt := formatTime now\<rparr>)"
    using assms(1,3) validTime_formatTime [of now] by (simp add: startedNow_def validate_def validReceiptStatus_def inc64_def)
  moreover have "\<not> before (addTime now d) now" using assms(4) by (simp add: before_def)
  moreover have "\<not> (status \<noteq> 429 \<and> (status < 500 \<or> status > 599))" using assms(2) by auto
  ultimately show ?thesis using assms(1,3) by (simp add: Retry_def startedNow_def terminal_def)
qed

lemma controlFree_Nil [simp]: "controlFree []"
  by (simp add: controlFree_bytes)

lemma recorded_outcome:
  assumes st: "startedNow r now" and c: "clientResult res" and cf: "controlFree (mr_RequestID res)"
    and d: "printable (t_ns now + retryDelay r res)"
  shows "\<exists>u disposition reason delay. applyMailResult r res now = (u, disposition, reason, delay) \<and> validate u \<and>
    (terminal u \<or> r_Status u = ReceiptRetryable) \<and> (disposition = Abandon \<longleftrightarrow> r_Status u = ReceiptRetryable)"
proof -
  have len: "length (mr_RequestID res) \<le> 128" using c by (simp add: clientResult_def)
  consider (sim) "mr_Outcome res = MailSimulated" "mr_HTTPStatus res = 200"
    | (acc) "mr_Outcome res = MailAccepted" "mr_HTTPStatus res = 202"
    | (ret) "mr_Outcome res = MailRetryable" "rmatch reasonPattern (mr_ReasonCode res)" "mr_ReasonCode res \<noteq> []"
        "mr_HTTPStatus res = 429 \<or> (500 \<le> mr_HTTPStatus res \<and> mr_HTTPStatus res \<le> 599)"
    | (perm) "mr_Outcome res = MailPermanent" "rmatch reasonPattern (mr_ReasonCode res)" "mr_ReasonCode res \<noteq> []"
        "0 \<le> mr_HTTPStatus res" "mr_HTTPStatus res \<le> 599"
    | (unk) "mr_Outcome res = MailUnknown" "rmatch reasonPattern (mr_ReasonCode res)" "mr_ReasonCode res \<noteq> []"
    using c unfolding clientResult_def by blast
  then show ?thesis
  proof cases
    case sim
    then show ?thesis using finish_succeeds [OF st len cf, of ReceiptSimulated "[]" 200]
      by (auto simp: applyMailResult_def Simulate_def updatedOrZero_def terminal_def)
  next
    case acc
    then show ?thesis using finish_succeeds [OF st len cf, of ReceiptAccepted "[]" 202]
      by (auto simp: applyMailResult_def Accept_def updatedOrZero_def terminal_def)
  next
    case ret
    have "0 \<le> retryDelay r res" using retryDelay_range [of r res] by (simp add: second_def)
    then show ?thesis using retry_succeeds [OF st ret(4,2) _ d] ret
      by (auto simp: applyMailResult_def orDefault_def updatedOrZero_def Let_def)
  next
    case perm
    then show ?thesis using finish_succeeds [OF st, of "[]" ReceiptFailed "mr_ReasonCode res" "mr_HTTPStatus res"]
      by (auto simp: applyMailResult_def Fail_def orDefault_def updatedOrZero_def terminal_def Let_def)
  next
    case unk
    then show ?thesis using finish_succeeds [OF st, of "[]" ReceiptUnknown "mr_ReasonCode res" 0]
      by (auto simp: applyMailResult_def MarkUnknown_def orDefault_def updatedOrZero_def terminal_def Let_def)
  qed
qed

lemma mailer_facts:
  assumes "NewHTTPMailer config = Inr mailer"
  shows "hm_mode mailer = mc_Mode config" "hm_apiKey mailer = mc_APIKey config"
    "allowedFor config = Inr (hm_allowed mailer)" "endpointFor config = Inr (hm_endpoint mailer)"
  using assms by (auto simp: NewHTTPMailer_def Let_def split: prod.splits if_splits sum.splits)

lemma allowedFor_member:
  assumes "allowedFor config = Inr allowed" "mc_Mode config \<noteq> MailModeLive" "email \<in> set allowed"
  shows "\<exists>raw \<in> set (mc_AllowedRecipients config). fst (canonicalEmail raw) = email"
proof -
  have "allowRecipients [] (mc_AllowedRecipients config) = Inr allowed"
    using assms(1,2) by (auto simp: allowedFor_def Let_def split: if_splits)
  then show ?thesis using assms(3) by (auto simp: allowRecipients_iff)
qed

section \<open>Properties\<close>




text \<open>
  The address that is mailed is the address of the row: for a valid recipient the mail client neither
  refuses the address nor changes it, so the request is addressed to exactly the text whose keyed hash names
  the receipt.
\<close>

lemma recipient_address_kept:
  assumes "validRecipient r"
  shows "canonicalEmail (rc_Email r) = (rc_Email r, True) \<and>
    (case mailRequest mailer (notificationOf message r recipientID) of
       Inl refused \<Rightarrow> mr_ReasonCode refused \<noteq> ''RECIPIENT_INVALID''
     | Inr request \<Rightarrow> rq_Body request = jprint (buildMailPayload mailer (notificationOf message r recipientID) (rc_Email r)))"
proof -
  have e: "canonicalEmail (rc_Email r) = (rc_Email r, True)"
    using assms canonical_of_match [of "rc_Email r"] by (simp add: validRecipient_def canonicalEmail_def)
  then show ?thesis by (simp add: mailRequest_def notificationOf_def mailRefused_def Let_def)
qed

lemma count_concat_map: "count_list (concat (map f s)) c = sum_list (map (\<lambda>x. count_list (f x) c) s)"
  by (induction s) (simp_all add: count_list_append)

lemma escapeString_markup: "count_list (escapeString s) CHR ''<'' = 0" "count_list (escapeString s) quote_char = 0"
proof -
  have "count_list (htmlByte c) CHR ''<'' = 0" "count_list (htmlByte c) quote_char = 0" for c
    by (simp_all add: htmlByte_def quote_char_def)
  then show "count_list (escapeString s) CHR ''<'' = 0" "count_list (escapeString s) quote_char = 0"
    by (simp_all add: escapeString_def count_concat_map)
qed

text \<open>
  C38. No value can inject markup into the mail: whatever the name, the version and the location are, the HTML
  part has exactly the eight tags and the two quotes of its template.
\<close>

theorem html_markup_fixed:
  "count_list (htmlBody notification) CHR ''<'' = 8 \<and> count_list (htmlBody notification) quote_char = 2"
  using escapeString_markup by (simp add: htmlBody_def count_list_append) (simp add: quote_char_def)

end
