(* ===== verification/Protocol.thy ===== *)
theory Protocol
  imports Worker
begin

text \<open>
  The worker keeps the write contract: on every path through \<open>Process\<close>, whatever the services
  reply, each receipt write is a first claim or one step of the state machine from a receipt that
  was read under the ETag it is conditioned on, and each mail request directly uses up a
  SEND_STARTED receipt that this thread has just committed for that very recipient. The rules below
  give the weakest precondition of each storage call; the worker's functions are then symbolic
  execution over these rules.
\<close>

section \<open>Storage calls\<close>

definition seen :: "ghost \<Rightarrow> string \<Rightarrow> StoredReceipt \<Rightarrow> bool" where
  "seen g p s \<longleftrightarrow> (\<exists>body. (p, st_ETag s, body) \<in> g_known g \<and> ParseReceipt body = Inr (st_Receipt s))"

lemma learn_token [simp]: "g_token (learn p reply g) = g_token g"
  by (simp add: learn_def split: option.splits)

lemma learn_known: "g_known g \<subseteq> g_known (learn p reply g)"
  by (auto simp: learn_def split: option.splits)

lemma earn_known [simp]: "g_known (earn p body reply g) = g_known g"
  by (simp add: earn_def)

lemma getReply_seen: "getReply reply = Inr (Some s) \<Longrightarrow> seen (learn p reply g) p s"
  by (auto simp: getReply_def seen_def learn_def revealed_def readBounded_def
      split: dl_reply.splits sum.splits option.splits if_splits)

lemma wp_Get:
  assumes "\<And>g' res. g_token g' = g_token g \<Longrightarrow> g_known g \<subseteq> g_known g' \<Longrightarrow>
    (\<And>s. res = Inr (Some s) \<Longrightarrow> seen g' p s) \<Longrightarrow> Q g' res"
  shows "wp m kv (Get p) Q g"
  using assms getReply_seen learn_known by (auto simp: Get_def perform_defs)

text \<open>
  After a successful conditional write the thread knows the stored receipt under its new ETag, with
  the state version it wrote; if the write started a send, the thread has earned that send.
\<close>

definition stored_as :: "ghost \<Rightarrow> string \<Rightarrow> Receipt \<Rightarrow> StoredReceipt \<Rightarrow> bool" where
  "stored_as g p r s \<longleftrightarrow> seen g p s \<and> r_StateVersion (st_Receipt s) = r_StateVersion r \<and>
     (r_Status r = ReceiptSendStarted \<longrightarrow> g_token g = Some p)"

lemma wp_put:
  assumes "validate r \<Longrightarrow> writeAllowed m g p (jprint (receiptJson r)) c"
    and "\<And>g' e. Q g' (Inl e)" and "\<And>g' s. stored_as g' p r s \<Longrightarrow> Q g' (Inr s)"
  shows "wp m kv (put p r c) Q g"
proof (cases "validBlobName p \<and> validate r")
  case True
  let ?b = "jprint (receiptJson r)"
  have "wp m kv (Get p) (\<lambda>g'' got. Q g'' (case got of
          Inr (Some stored) \<Rightarrow>
            if r_StateVersion (st_Receipt stored) \<noteq> r_StateVersion r then Inl ErrReceiptConflict else Inr stored
        | _ \<Rightarrow> Inl ErrReceiptConflict)) (earn p ?b None g)"
    using assms(2,3)
    by (intro wp_Get)
      (auto simp: stored_as_def earn_def startsSend_def split: sum.splits option.splits if_splits)
  then show ?thesis
    using True assms(1,2)
    by (auto simp: put_def MarshalReceipt_def perform_defs wp_bindE split: option.splits)
qed (use assms(2) in \<open>auto simp: put_def MarshalReceipt_def\<close>)

lemma seen_writeAllowed:
  "seen g p s \<Longrightarrow> advances m (st_Receipt s) r \<Longrightarrow> validate r \<Longrightarrow>
   writeAllowed m g p (jprint (receiptJson r)) (IfMatch (st_ETag s))"
  unfolding seen_def writeAllowed_def condition.case by blast

lemma wp_Replace:
  assumes "seen g p s" "advances m (st_Receipt s) r"
    and "\<And>g' e. Q g' (Inl e)" and "\<And>g' s'. stored_as g' p r s' \<Longrightarrow> Q g' (Inr s')"
  shows "wp m kv (Replace p (st_ETag s) r) Q g"
  using assms seen_writeAllowed [OF assms(1,2)] unfolding Replace_def by (auto intro!: wp_put)

lemma wp_Create:
  assumes "firstClaim r" "\<And>g' e. Q g' (Inl e)" and "\<And>g' s'. stored_as g' p r s' \<Longrightarrow> Q g' (Inr s')"
  shows "wp m kv (Create p r) Q g"
  using assms unfolding Create_def by (auto simp: writeAllowed_def intro!: wp_put)

lemma wp_audit [simp]: "wp m kv (audit name r) Q g = Q g ()"
  by (simp add: audit_def perform_defs)

text \<open>Reads of exact versions touch no receipt and earn nothing.\<close>

lemma wp_download: "(\<And>r. Q g r) \<Longrightarrow> wp m kv (download store reference) Q g"
  by (auto simp: download_def perform_defs)

lemma wp_ReadSmall: "(\<And>r. Q g r) \<Longrightarrow> wp m kv (ReadSmall store reference maximum) Q g"
  by (auto simp: ReadSmall_def wp_bindE intro: wp_download)

lemma wp_Verify: "(\<And>r. Q g r) \<Longrightarrow> wp m kv (Verify store reference) Q g"
  by (auto simp: Verify_def wp_bindE intro: wp_download)

lemma wp_Open: "(\<And>r. Q g r) \<Longrightarrow> wp m kv (Open store reference) Q g"
  by (auto simp: Open_def wp_bindE intro: wp_download)

section \<open>Receipt operations advance the journal\<close>

lemma StartSend_advances:
  "StartSend r now = Inr r' \<Longrightarrow> advances m r r' \<and> r_Status r' = ReceiptSendStarted"
  using op_version [of "OpStartSend now" r r'] op_edge [of "OpStartSend now" r r']
  by (auto simp: advances_def StartSend_def Let_def split: if_splits)

lemma Exhaust_advances: "Exhaust r now = Inr r' \<Longrightarrow> advances m r r'"
  using op_version [of "OpExhaust now" r r'] by (auto simp: advances_def Exhaust_def Let_def split: if_splits)

lemma Reclaim_advances: "Reclaim r now m = Inr r' \<Longrightarrow> advances m r r'"
  using op_version [of "OpReclaim now m" r r']
  by (auto simp: advances_def Reclaim_def Let_def split: if_splits option.splits sum.splits)

lemma RecoverStale_advances: "RecoverStale r now timeout m = Inr r' \<Longrightarrow> advances m r r'"
  using op_version [of "OpRecoverStale now timeout m" r r']
  by (auto simp: advances_def RecoverStale_def MarkUnknown_def finish_def terminal_def Let_def
      split: if_splits option.splits sum.splits)

lemma updatedOrZero_status: "r_Status (updatedOrZero x) \<noteq> [] \<Longrightarrow> \<exists>r. x = Inr r \<and> updatedOrZero x = r"
  by (cases x) (simp_all add: updatedOrZero_def zeroReceipt_def)

text \<open>A provider result always closes or reschedules the send that was started.\<close>

lemma applyMailResult_op:
  assumes "applyMailResult r result now = (u, d, reason, delay)" "r_Status u \<noteq> []"
  shows "\<exists>opn. apply_op opn r = Inr u \<and> \<not> is_start opn \<and> r_Status r = ReceiptSendStarted"
proof -
  have fin: "finish r now st h q rs = Inr v \<Longrightarrow> r_Status r = ReceiptSendStarted" for st h q rs v
    by (auto simp: finish_def split: if_splits)
  consider
      (a) "apply_op (OpAccept now (mr_HTTPStatus result) (mr_RequestID result)) r = Inr u"
    | (s) "apply_op (OpSimulate now (mr_HTTPStatus result) (mr_RequestID result)) r = Inr u"
    | (t) "apply_op (OpRetry now (mr_HTTPStatus result)
        (orDefault (mr_ReasonCode result) ''PROVIDER_RETRYABLE'') (addTime now (retryDelay r result))) r = Inr u"
    | (f) "apply_op (OpFail now (mr_HTTPStatus result) (orDefault (mr_ReasonCode result) ''PROVIDER_REJECTED'')) r = Inr u"
    | (k) "apply_op (OpMarkUnknown now (orDefault (mr_ReasonCode result) ''PROVIDER_OUTCOME_UNKNOWN'')) r = Inr u"
    using assms updatedOrZero_status
    by (auto simp: applyMailResult_def Let_def split: if_splits)
  then show ?thesis
  proof cases
    case a
    then have "r_Status r = ReceiptSendStarted" using fin by (auto simp: Accept_def split: if_splits)
    then show ?thesis using a is_start.simps by blast
  next
    case s
    then have "r_Status r = ReceiptSendStarted" using fin by (auto simp: Simulate_def split: if_splits)
    then show ?thesis using s is_start.simps by blast
  next
    case t
    then have "r_Status r = ReceiptSendStarted" by (auto simp: Retry_def split: if_splits)
    then show ?thesis using t is_start.simps by blast
  next
    case f
    then have "r_Status r = ReceiptSendStarted" using fin by (auto simp: Fail_def split: if_splits)
    then show ?thesis using f is_start.simps by blast
  next
    case k
    then have "r_Status r = ReceiptSendStarted" using fin by (auto simp: MarkUnknown_def split: if_splits)
    then show ?thesis using k is_start.simps by blast
  qed
qed

lemma applyMailResult_advances:
  assumes "applyMailResult r result now = (u, d, reason, delay)" "r_Status u \<noteq> []"
  shows "advances m r u"
proof -
  obtain opn where "apply_op opn r = Inr u" "r_Status r = ReceiptSendStarted"
    using applyMailResult_op [OF assms] by blast
  then show ?thesis using op_version [of opn r u] op_edge [of opn r u] by (auto simp: advances_def edge_def)
qed

section \<open>The worker\<close>

abbreviation any :: "ghost \<Rightarrow> 'a \<Rightarrow> bool" where
  "any g x \<equiv> True"

lemma stored_as_seen: "stored_as g p r s \<Longrightarrow> seen g p s"
  by (simp add: stored_as_def)

lemma wp_commitMailResult: "seen g path stored \<Longrightarrow> wp m kv (commitMailResult path now stored result) any g"
  using applyMailResult_advances
  by (auto simp: commitMailResult_def wp_bindE split: prod.splits intro!: wp_Replace)

lemma wp_sendRecipient:
  assumes "seen g path stored"
    and "path = receiptPath (qm_ReleaseID message) (qm_OperationID message) kv recipientID"
  shows "wp m kv (sendRecipient message recipient recipientID path now stored) any g"
proof (cases "StartSend (st_Receipt stored) now")
  case (Inr started)
  note adv = StartSend_advances [OF Inr]
  have send: "wp m kv (bindE (audit name r) (\<lambda>_. bindE (perform_SendMail (notificationOf message recipient recipientID))
      (\<lambda>res. commitMailResult path now s' res))) any g'" if "stored_as g' path started s'" for g' s' name r
  proof -
    have "g_token g' = Some path" "seen (g'\<lparr>g_token := None\<rparr>) path s'"
      using that adv by (auto simp: stored_as_def seen_def)
    then show ?thesis
      using assms(2)
      by (simp add: wp_bindE perform_SendMail_def notificationPath_def notificationOf_def wp_commitMailResult)
  qed
  show ?thesis
    using adv send by (auto simp: sendRecipient_def Inr wp_bindE simp del: bindE.simps intro!: wp_Replace [OF assms(1)])
qed (simp add: sendRecipient_def)

lemma wp_resumeRecipient:
  assumes "seen g path stored"
    and "path = receiptPath (qm_ReleaseID message) (qm_OperationID message) (wo_HMACKeyVersion options) recipientID"
  shows "wp (wo_MaxAttempts options) (wo_HMACKeyVersion options)
    (resumeRecipient options message recipient recipientID path now owned stored) any g"
proof -
  let ?m = "wo_MaxAttempts options" and ?kv = "wo_HMACKeyVersion options"
  have send: "wp ?m ?kv (sendRecipient message recipient recipientID path now s) any g'" if "seen g' path s" for g' s
    using wp_sendRecipient [OF that assms(2)] .
  note adv = Exhaust_advances Reclaim_advances RecoverStale_advances
  show ?thesis
    unfolding resumeRecipient_def Let_def
    by (auto simp: wp_bindE send [OF assms(1)] split: sum.splits option.splits
        intro!: wp_Replace [OF assms(1)] intro: adv send stored_as_seen)
qed

lemma wp_processRecipient:
  "wp (wo_MaxAttempts options) (wo_HMACKeyVersion options) (processRecipient options message recipient) any g"
proof -
  have claim: "ClaimReceipt i now = Inr r \<Longrightarrow> firstClaim r" for i now r
    using claim_facts by (auto simp: firstClaim_def)
  show ?thesis
    unfolding processRecipient_def
    by (auto simp: wp_bindE perform_Now_def Let_def split: sum.splits option.splits
        intro!: wp_Get wp_Create wp_resumeRecipient claim intro: stored_as_seen)
qed

section \<open>Rows and deliveries\<close>

lemma wp_scanRows:
  assumes "\<And>r st g. wp m kv (process r st) any g"
  shows "wp m kv (scanRows rows count process st) any g"
proof (induction rows arbitrary: count st g)
  case (Cons raw rows count st g)
  have "wp m kv (process r st) (\<lambda>g' x. wp m kv (case x of (err, st') \<Rightarrow>
      case err of Some e \<Rightarrow> Ret (Inl e, st') | None \<Rightarrow> scanRows rows (Suc count) process st') any g') g" for r
    by (rule wp_mono [OF assms]) (auto simp: Cons.IH split: option.splits)
  then show ?case by (auto simp: wp_bindE split: sum.splits)
qed simp

lemma wp_scanRecipientRows:
  assumes "\<And>r st g. wp m kv (process r st) any g"
  shows "wp m kv (scanRecipientRows reader process st) any g"
  unfolding scanRecipientRows_def
  by (auto simp: wp_bindE split: prod.splits intro: wp_mono [OF wp_scanRows [OF assms]])

lemma wp_validateBatch: "wp m kv (validateBatch options reference n) any g"
  unfolding validateBatch_def
  by (auto simp: wp_bindE split: sum.splits prod.splits
      intro!: wp_Open wp_mono [OF wp_scanRecipientRows])

lemma wp_processBatch:
  "wp (wo_MaxAttempts options) (wo_HMACKeyVersion options) (processBatch options message) any g"
proof -
  have row: "wp (wo_MaxAttempts options) (wo_HMACKeyVersion options) (batchRow options message r st) any g" for r st g
    unfolding batchRow_def wp_bindE by (rule wp_mono [OF wp_processRecipient]) simp
  show ?thesis
    unfolding processBatch_def
    by (auto simp: wp_bindE split: sum.splits prod.splits
        intro!: wp_Open wp_mono [OF wp_scanRecipientRows] row)
qed

lemma wp_processVerified:
  "wp (wo_MaxAttempts options) (wo_HMACKeyVersion options) (processVerified options message) any g"
  unfolding processVerified_def wp_bindE
  by (rule wp_mono [OF wp_validateBatch]) (simp add: wp_processBatch split: sum.splits)

lemma wp_processManifest:
  "wp (wo_MaxAttempts options) (wo_HMACKeyVersion options) (processManifest options message raw) any g"
  unfolding processManifest_def
  by (auto simp: wp_bindE wp_processVerified split: sum.splits intro!: wp_Verify)

theorem wp_Process:
  "wp (wo_MaxAttempts options) (wo_HMACKeyVersion options) (Process options brokerMessageID body) any g"
  unfolding Process_def
  by (auto simp: wp_bindE wp_processManifest split: sum.splits intro!: wp_ReadSmall)

end
