(* ===== verification/Fleet.thy ===== *)
theory Fleet
  imports Protocol
begin

text \<open>
  Any number of workers on one blob service. Deliveries arrive at any time (the queue may deliver
  a message twice, or to two replicas at once), requests of different threads interleave freely,
  a thread may stop for ever, clocks are arbitrary, replies may be lost or be errors, and reads may
  even be stale. What is relied on of the service, in the rules \<open>read\<close> and \<open>write_ok\<close>: a body that is
  returned whole was written with the ETag it comes with; a conditional write takes effect only if
  its condition holds at that moment; every write gets an ETag the blob never had before; and a
  write that is acknowledged has taken effect.
\<close>

section \<open>The service and the threads\<close>

type_synonym version = "string \<times> string \<times> metadata"

record world =
  w_versions :: "string \<Rightarrow> version list"
  w_sent :: "Notification list"

definition emptyWorld :: world where
  "emptyWorld = \<lparr>w_versions = (\<lambda>_. []), w_sent = []\<rparr>"

fun holds :: "version list \<Rightarrow> condition \<Rightarrow> bool" where
  "holds vs IfAbsent = (vs = [])"
| "holds vs (IfMatch e) = (case vs of [] \<Rightarrow> False | (_, e', _) # _ \<Rightarrow> e' = e)"

definition etags :: "version list \<Rightarrow> string list" where
  "etags vs = map (\<lambda>v. fst (snd v)) vs"

definition commit :: "string \<Rightarrow> version \<Rightarrow> world \<Rightarrow> world" where
  "commit p v w = w\<lparr>w_versions := (w_versions w)(p := v # w_versions w p)\<rparr>"

inductive tstep :: "world \<Rightarrow> 'a eff \<Rightarrow> world \<Rightarrow> 'a eff \<Rightarrow> bool" where
  now: "tstep w (Now k) w (k t)"
| version: "tstep w (DlVersion c n v k) w (k reply)"
| read: "(\<And>e b. revealed reply = Some (e, b) \<Longrightarrow> \<exists>md. (b, e, md) \<in> set (w_versions w p)) \<Longrightarrow>
    tstep w (DlBlob p k) w (k reply)"
| write_ok: "holds (w_versions w p) c \<Longrightarrow> e \<notin> set (etags (w_versions w p)) \<Longrightarrow>
    tstep w (UpBlob p b md c k) (commit p (b, e, md) w) (k reply)"
| write_fail: "tstep w (UpBlob p b md c k) w (k (Some err))"
| send: "tstep w (SendMail n k) (w\<lparr>w_sent := n # w_sent w\<rparr>) (k result)"
| emit: "tstep w (Emit event t) w t"

inductive fleet :: "int \<Rightarrow> string \<Rightarrow> world \<Rightarrow> ProcessResult eff list \<Rightarrow> bool" where
  start: "fleet m kv emptyWorld []"
| deliver: "fleet m kv w ts \<Longrightarrow> wo_MaxAttempts options = m \<Longrightarrow> wo_HMACKeyVersion options = kv \<Longrightarrow>
    fleet m kv w (ts @ [Process options brokerMessageID body])"
| run: "fleet m kv w ts \<Longrightarrow> i < length ts \<Longrightarrow> tstep w (ts ! i) w' t' \<Longrightarrow> fleet m kv w' (ts[i := t'])"

section \<open>Receipts behind equal bytes\<close>

lemma ParseReceipt_facts: "ParseReceipt raw = Inr r \<Longrightarrow> raw = jprint (receiptJson r) \<and> validate r \<and> wfReceipt r"
  unfolding receipt_doc.parse_iff receipt_doc.accepted_def by blast

lemma jnums_receipt: "jnums (receiptJson r)"
proof -
  have "jnums (jstrPtr p)" "jnums (jint i)" "jnums (jintPtr q)" for p i q
    by (auto simp: jstrPtr_def jint_def jintPtr_def split: option.splits)
  then show ?thesis by (simp add: receiptJson_def)
qed

lemma clean_jint [simp]: "clean (jint i) = jint i"
  by (simp add: jint_def)

lemma itoa_nat_inj: "itoa_nat a = itoa_nat b \<longleftrightarrow> a = b"
  using decimal_itoa_nat by metis

lemma itoa_inj_all: "itoa i = itoa j \<Longrightarrow> i = j"
proof -
  assume a: "itoa i = itoa j"
  have "hd (itoa_nat n) \<noteq> CHR ''-''" for n using itoa_nat_hd_digit [of n] by auto
  then have hd: "itoa_nat n \<noteq> CHR ''-'' # s" for n s by (metis list.sel(1))
  show "i = j"
    using a hd [of "nat i"] hd [of "nat j"]
    by (cases "i < 0"; cases "j < 0") (auto simp: itoa_def itoa_nat_inj dest: sym)
qed

lemma same_print:
  assumes "jprint (receiptJson a) = jprint (receiptJson b)"
  shows "r_AttemptCount a = r_AttemptCount b" "r_StateVersion a = r_StateVersion b"
    "toValid (r_Status a) = toValid (r_Status b)"
proof -
  have "clean (receiptJson a) = clean (receiptJson b)"
    using json_doc_clean [OF jnums_receipt, of a] json_doc_clean [OF jnums_receipt, of b] assms by simp
  then show "r_AttemptCount a = r_AttemptCount b" "r_StateVersion a = r_StateVersion b"
    "toValid (r_Status a) = toValid (r_Status b)"
    by (simp_all add: receiptJson_def) (simp_all add: jint_def itoa_inj_all)
qed

lemma valid_status_ascii: "validReceiptStatus st \<Longrightarrow> toValid st = st"
  by (rule toValid_id) (auto simp: validReceiptStatus_def intro: utf8_valid_ascii)

lemma same_print_status:
  assumes "jprint (receiptJson a) = jprint (receiptJson b)" "validate a" "validate b"
  shows "r_Status a = r_Status b"
  using same_print(3) [OF assms(1)] assms(2,3) by (simp add: validate_def valid_status_ascii)

lemma startsSend_iff: "validate r \<Longrightarrow> startsSend (jprint (receiptJson r)) \<longleftrightarrow> r_Status r = ReceiptSendStarted"
proof
  assume v: "validate r" and "startsSend (jprint (receiptJson r))"
  then obtain r2 where "jprint (receiptJson r) = jprint (receiptJson r2)" "r_Status r2 = ReceiptSendStarted"
    by (auto simp: startsSend_def)
  then have "toValid (r_Status r) = toValid ReceiptSendStarted" using same_print(3) by metis
  then show "r_Status r = ReceiptSendStarted"
    using v valid_status_ascii by (simp add: validate_def validReceiptStatus_def)
qed (auto simp: startsSend_def)

section \<open>The journal of a path\<close>

text \<open>
  The versions of a receipt blob, newest first, form a chain: a first claim, then one step of the
  state machine at a time.
\<close>

definition writtenAs :: "version \<Rightarrow> Receipt \<Rightarrow> bool" where
  "writtenAs v r \<longleftrightarrow> fst v = jprint (receiptJson r) \<and> validate r"

fun journal :: "int \<Rightarrow> version list \<Rightarrow> bool" where
  "journal m [] = True"
| "journal m [v] = (\<exists>r. writtenAs v r \<and> firstClaim r)"
| "journal m (v' # v # vs) =
     ((\<exists>r r'. writtenAs v r \<and> writtenAs v' r' \<and> advances m r r') \<and> journal m (v # vs))"

definition starts :: "version list \<Rightarrow> nat" where
  "starts vs = length (filter (\<lambda>v. startsSend (fst v)) vs)"

lemma starts_simps [simp]: "starts [] = 0" "starts (v # vs) = (if startsSend (fst v) then 1 else 0) + starts vs"
  by (simp_all add: starts_def)

lemma writtenAs_start: "writtenAs v r \<Longrightarrow> startsSend (fst v) \<longleftrightarrow> r_Status r = ReceiptSendStarted"
  by (simp add: writtenAs_def startsSend_iff)

lemma writtenAs_same:
  assumes "writtenAs v a" "writtenAs v b"
  shows "r_AttemptCount a = r_AttemptCount b" "r_StateVersion a = r_StateVersion b" "r_Status a = r_Status b"
proof -
  have p: "jprint (receiptJson a) = jprint (receiptJson b)" "validate a" "validate b"
    using assms by (simp_all add: writtenAs_def)
  show "r_AttemptCount a = r_AttemptCount b" "r_StateVersion a = r_StateVersion b" "r_Status a = r_Status b"
    by (fact same_print(1) [OF p(1)], fact same_print(2) [OF p(1)], fact same_print_status [OF p])
qed

text \<open>The journal bounds the sends it has room for.\<close>

definition claimedBit :: "Receipt \<Rightarrow> int" where
  "claimedBit r = (if r_Status r = ReceiptClaimed then 1 else 0)"

lemma advances_budget:
  assumes "advances m r r'" "r_AttemptCount r \<le> m" "n + claimedBit r \<le> r_AttemptCount r"
  shows "n + (if r_Status r' = ReceiptSendStarted then 1 else 0) + claimedBit r' \<le> r_AttemptCount r'"
    "r_AttemptCount r' \<le> m" "r_StateVersion r' = r_StateVersion r + 1"
  using assms by (auto simp: advances_def terminal_def claimedBit_def)

lemma journal_budget:
  "journal m vs \<Longrightarrow> 1 \<le> m \<Longrightarrow> vs \<noteq> [] \<Longrightarrow>
   \<exists>r. writtenAs (hd vs) r \<and> r_AttemptCount r \<le> m \<and> r_StateVersion r = int (length vs) \<and>
     int (starts vs) + claimedBit r \<le> r_AttemptCount r"
proof (induction m vs rule: journal.induct)
  case (2 m v)
  then obtain r where "writtenAs v r" "firstClaim r" by auto
  then show ?case using "2.prems"(2) by (auto simp: firstClaim_def writtenAs_start claimedBit_def)
next
  case (3 m v' v vs)
  then obtain r r' where adv: "writtenAs v r" "writtenAs v' r'" "advances m r r'" "journal m (v # vs)" by auto
  obtain q where q: "writtenAs v q" "r_AttemptCount q \<le> m" "r_StateVersion q = int (length (v # vs))"
      "int (starts (v # vs)) + claimedBit q \<le> r_AttemptCount q"
    using "3.IH" adv(4) "3.prems"(2) by auto
  note same = writtenAs_same [OF q(1) adv(1)]
  have "r_AttemptCount r \<le> m" "int (starts (v # vs)) + claimedBit r \<le> r_AttemptCount r"
    using q same by (simp_all add: claimedBit_def)
  note b = advances_budget [OF adv(3) this]
  have "starts (v' # v # vs) = (if r_Status r' = ReceiptSendStarted then 1 else 0) + starts (v # vs)"
    using writtenAs_start [OF adv(2)] by (simp only: starts_simps(2))
  then have "int (starts (v' # v # vs)) + claimedBit r' \<le> r_AttemptCount r'"
    using b(1) by (simp split: if_splits)
  moreover have "r_StateVersion r' = int (length (v' # v # vs))" using b(3) q(3) same by simp
  ultimately show ?case using adv(2) b(2) by (intro exI [of _ r']) simp
qed simp

lemma journal_starts: "journal m vs \<Longrightarrow> 1 \<le> m \<Longrightarrow> int (starts vs) \<le> m"
proof (cases "vs = []")
  case False
  assume "journal m vs" "1 \<le> m"
  then obtain r where "r_AttemptCount r \<le> m" "int (starts vs) + claimedBit r \<le> r_AttemptCount r"
    using journal_budget [of m vs] False by blast
  then show ?thesis by (simp add: claimedBit_def split: if_splits)
qed simp

lemma journal_terminal_last:
  "journal m vs \<Longrightarrow> v \<in> set (tl vs) \<Longrightarrow> writtenAs v r \<Longrightarrow> \<not> terminal r"
proof (induction m vs rule: journal.induct)
  case (3 m v' w vs)
  show ?case
  proof (cases "v \<in> set vs")
    case True
    then show ?thesis using 3 by auto
  next
    case False
    then have "v = w" using "3.prems"(2) by simp
    moreover obtain q q' where "writtenAs w q" "advances m q q'" using "3.prems"(1) by auto
    ultimately have "r_Status r = r_Status q" "advances m q q'" using writtenAs_same(3) "3.prems"(3) by blast+
    then show ?thesis by (auto simp: advances_def terminal_def)
  qed
qed simp_all

section \<open>Invariant\<close>

definition truthful :: "world \<Rightarrow> ghost \<Rightarrow> bool" where
  "truthful w g \<longleftrightarrow> (\<forall>p e b. (p, e, b) \<in> g_known g \<longrightarrow> (\<exists>md. (b, e, md) \<in> set (w_versions w p)))"

definition tokens :: "ghost list \<Rightarrow> string \<Rightarrow> nat" where
  "tokens gs p = length (filter (\<lambda>g. g_token g = Some p) gs)"

definition sentTo :: "string \<Rightarrow> world \<Rightarrow> string \<Rightarrow> nat" where
  "sentTo kv w p = length (filter (\<lambda>n. notificationPath kv n = p) (w_sent w))"

definition good_world :: "int \<Rightarrow> string \<Rightarrow> world \<Rightarrow> (string \<Rightarrow> nat) \<Rightarrow> bool" where
  "good_world m kv w outstanding \<longleftrightarrow>
     (\<forall>p. journal m (w_versions w p) \<and> distinct (etags (w_versions w p)) \<and>
          sentTo kv w p + outstanding p \<le> starts (w_versions w p))"

lemma unique_etag:
  assumes "distinct (etags vs)" "(b, e, md) \<in> set vs" "(b', e, md') \<in> set vs"
  shows "b = b'"
  using assms by (induction vs) (force simp: etags_def image_iff)+

text \<open>A permitted write that takes effect extends the journal.\<close>

lemma journal_commit:
  assumes "journal m vs" "distinct (etags vs)" "writeAllowed m g p b c" "holds vs c"
    and "\<And>e old. (p, e, old) \<in> g_known g \<Longrightarrow> \<exists>md. (old, e, md) \<in> set vs"
  shows "journal m ((b, e', md) # vs)"
proof -
  obtain r' where r': "b = jprint (receiptJson r')" "validate r'" using assms(3) by (auto simp: writeAllowed_def)
  show ?thesis
  proof (cases c)
    case IfAbsent
    then show ?thesis using assms(3,4) by (auto simp: writeAllowed_def writtenAs_def)
  next
    case (IfMatch e)
    then obtain q' q old where q: "b = jprint (receiptJson q')" "validate q'" "(p, e, old) \<in> g_known g"
        "ParseReceipt old = Inr q" "advances m q q'"
      using assms(3) unfolding writeAllowed_def IfMatch condition.case by blast
    obtain b0 md0 ws where vs: "vs = (b0, e, md0) # ws"
      using assms(4) IfMatch by (auto split: list.splits)
    then have "old = b0" using assms(5) [OF q(3)] unique_etag [OF assms(2)] by (metis list.set_intros(1))
    then have "writtenAs (b0, e, md0) q"
      using ParseReceipt_facts [OF q(4)] by (simp add: writtenAs_def)
    then show ?thesis using vs q assms(1) by (auto simp: writtenAs_def)
  qed
qed

definition tok :: "ghost \<Rightarrow> string \<Rightarrow> nat" where
  "tok g p = (if g_token g = Some p then 1 else 0)"

lemma good_world_weaken:
  "good_world m kv w out \<Longrightarrow> (\<And>p. out' p \<le> out p) \<Longrightarrow> good_world m kv w out'"
  unfolding good_world_def by (meson add_left_mono order_trans)

lemma truthful_grow:
  "truthful w g \<Longrightarrow> (\<And>p. set (w_versions w p) \<subseteq> set (w_versions w' p)) \<Longrightarrow> truthful w' g"
  by (fastforce simp: truthful_def)

lemma truthful_learn:
  assumes "truthful w g" "\<And>e b. revealed reply = Some (e, b) \<Longrightarrow> \<exists>md. (b, e, md) \<in> set (w_versions w p)"
  shows "truthful w (learn p reply g)"
  using assms by (auto simp: truthful_def learn_def split: option.splits)

lemma commit_good:
  assumes "good_world m kv w (\<lambda>q. rest q + tok g q)" "truthful w g" "writeAllowed m g p b c"
    and "holds (w_versions w p) c" "e \<notin> set (etags (w_versions w p))"
  shows "good_world m kv (commit p (b, e, md) w) (\<lambda>q. rest q + tok (earn p b reply g) q)"
  unfolding good_world_def
proof (intro allI conjI)
  fix q
  let ?w = "commit p (b, e, md) w"
  have old: "journal m (w_versions w q)" "distinct (etags (w_versions w q))"
    "sentTo kv w q + (rest q + tok g q) \<le> starts (w_versions w q)" for q
    using assms(1) unfolding good_world_def by auto
  have vs: "w_versions ?w q = (if q = p then (b, e, md) # w_versions w p else w_versions w q)" "sentTo kv ?w q = sentTo kv w q"
    by (simp_all add: commit_def sentTo_def)
  have "journal m ((b, e, md) # w_versions w p)"
    using assms(2) by (intro journal_commit [OF old(1,2) assms(3,4)]) (auto simp: truthful_def)
  then show "journal m (w_versions ?w q)" using vs old(1) by simp
  show "distinct (etags (w_versions ?w q))" using vs old(2) assms(5) by (simp add: etags_def)
  have "tok (earn p b reply g) q \<le> tok g q + (if q = p \<and> startsSend b then 1 else 0)"
    by (simp add: tok_def earn_def)
  moreover have "starts (w_versions ?w q) = starts (w_versions w q) + (if q = p \<and> startsSend b then 1 else 0)"
    using vs by simp
  ultimately show "sentTo kv ?w q + (rest q + tok (earn p b reply g) q) \<le> starts (w_versions ?w q)"
    using vs(2) old(3) [of q] by linarith
qed

lemma ext_w_versions: "w_versions (w\<lparr>w_sent := x\<rparr>) = w_versions w"
  by simp

text \<open>One request of one thread keeps the invariant.\<close>

lemma tstep_good:
  assumes "tstep w t w' t'" "wp m kv t any g" "truthful w g" "good_world m kv w (\<lambda>q. rest q + tok g q)"
  shows "\<exists>g'. wp m kv t' any g' \<and> truthful w' g' \<and> good_world m kv w' (\<lambda>q. rest q + tok g' q) \<and>
    (\<forall>p. set (w_versions w p) \<subseteq> set (w_versions w' p))"
  using assms
proof (cases rule: tstep.cases)
  case (read reply p k)
  then have "wp m kv t' any (learn p reply g)" using assms(2) by simp
  moreover have "tok (learn p reply g) = tok g" by (simp add: tok_def fun_eq_iff)
  ultimately show ?thesis using read assms(3,4) truthful_learn [OF assms(3), of reply p] by auto
next
  case (write_ok p c e b md k reply)
  then have "wp m kv t' any (earn p b reply g)" "writeAllowed m g p b c" using assms(2) by simp_all
  moreover have grow: "set (w_versions w q) \<subseteq> set (w_versions w' q)" for q
    using write_ok by (auto simp: commit_def)
  moreover have "truthful w' (earn p b reply g)"
    using truthful_grow [OF assms(3) grow] by (simp add: truthful_def)
  ultimately show ?thesis
    using write_ok commit_good [OF assms(4,3) _ write_ok(4,5)] by blast
next
  case (write_fail p b md c k err)
  then have "wp m kv t' any (earn p b (Some err) g)" using assms(2) by simp
  then have "wp m kv t' any g" by (simp add: earn_def)
  then show ?thesis using write_fail assms(3,4) by auto
next
  case (send n k result)
  then have t: "g_token g = Some (notificationPath kv n)" "wp m kv t' any (g\<lparr>g_token := None\<rparr>)"
    using assms(2) by simp_all
  have "truthful w' (g\<lparr>g_token := None\<rparr>)" using send assms(3) by (simp add: truthful_def)
  moreover have "sentTo kv w' q + (rest q + tok (g\<lparr>g_token := None\<rparr>) q) = sentTo kv w q + (rest q + tok g q)" for q
    using send t(1) by (simp add: sentTo_def tok_def)
  then have "good_world m kv w' (\<lambda>q. rest q + tok (g\<lparr>g_token := None\<rparr>) q)"
    using assms(4) send(2) unfolding good_world_def by (metis ext_w_versions)
  ultimately show ?thesis using t(2) send by auto
qed auto

definition fleet_inv :: "int \<Rightarrow> string \<Rightarrow> world \<Rightarrow> ProcessResult eff list \<Rightarrow> ghost list \<Rightarrow> bool" where
  "fleet_inv m kv w ts gs \<longleftrightarrow> length gs = length ts \<and> good_world m kv w (tokens gs) \<and>
     (\<forall>i < length ts. wp m kv (ts ! i) any (gs ! i) \<and> truthful w (gs ! i))"

lemma tokens_update:
  assumes "i < length gs"
  shows "\<exists>rest. tokens gs = (\<lambda>q. rest q + tok (gs ! i) q) \<and> (\<forall>g. tokens (gs[i := g]) = (\<lambda>q. rest q + tok g q))"
proof -
  let ?rest = "\<lambda>q. tokens (take i gs) q + tokens (drop (Suc i) gs) q"
  have split: "tokens (take i gs @ g # drop (Suc i) gs) q = ?rest q + tok g q" for g q
    by (simp add: tokens_def tok_def)
  have "tokens gs = (\<lambda>q. ?rest q + tok (gs ! i) q)"
    using split [of "gs ! i"] id_take_nth_drop [OF assms] by auto
  moreover have "tokens (gs[i := g]) = (\<lambda>q. ?rest q + tok g q)" for g
    using split [of g] upd_conv_take_nth_drop [OF assms, of g] by auto
  ultimately show ?thesis by (intro exI [of _ ?rest]) simp
qed

lemma fleet_invariant: "fleet m kv w ts \<Longrightarrow> \<exists>gs. fleet_inv m kv w ts gs"
proof (induction rule: fleet.induct)
  case (start m kv)
  have "fleet_inv m kv emptyWorld [] []"
    by (simp add: fleet_inv_def good_world_def emptyWorld_def etags_def sentTo_def tokens_def)
  then show ?case by blast
next
  case (deliver m kv w ts options brokerMessageID body)
  then obtain gs where gs: "fleet_inv m kv w ts gs" by blast
  let ?g = "\<lparr>g_known = {}, g_token = None\<rparr>"
  have "tokens (gs @ [?g]) = tokens gs" by (auto simp: tokens_def)
  then have "fleet_inv m kv w (ts @ [Process options brokerMessageID body]) (gs @ [?g])"
    using gs wp_Process [of options brokerMessageID body ?g] deliver.hyps(2,3)
    by (auto simp: fleet_inv_def nth_append truthful_def less_Suc_eq)
  then show ?case by blast
next
  case (run m kv w ts i w' t')
  then obtain gs where gs: "fleet_inv m kv w ts gs" by blast
  then have i: "i < length gs" and ti: "wp m kv (ts ! i) any (gs ! i)" "truthful w (gs ! i)"
    using run.hyps(2) by (auto simp: fleet_inv_def)
  obtain rest where rest: "tokens gs = (\<lambda>q. rest q + tok (gs ! i) q)"
      "\<And>g. tokens (gs[i := g]) = (\<lambda>q. rest q + tok g q)"
    using tokens_update [OF i] by blast
  have "good_world m kv w (\<lambda>q. rest q + tok (gs ! i) q)" using gs rest(1) by (simp add: fleet_inv_def)
  from tstep_good [OF run.hyps(3) ti this] obtain g' where
    g': "wp m kv t' any g'" "truthful w' g'" "good_world m kv w' (\<lambda>q. rest q + tok g' q)"
      "\<And>p. set (w_versions w p) \<subseteq> set (w_versions w' p)" by blast
  have "fleet_inv m kv w' (ts[i := t']) (gs[i := g'])"
    using gs g' rest(2) i truthful_grow [OF _ g'(4)] by (auto simp: fleet_inv_def nth_list_update)
  then show ?case by blast
qed

lemma fleet_good: "fleet m kv w ts \<Longrightarrow> \<exists>out. good_world m kv w out"
  using fleet_invariant unfolding fleet_inv_def by blast

section \<open>What holds of every execution\<close>

lemma length_filter_subset: "(\<And>x. P x \<Longrightarrow> Q x) \<Longrightarrow> length (filter P xs) \<le> length (filter Q xs)"
  by (induction xs) (auto intro: le_SucI)

text \<open>
  C1. However many workers run, however deliveries are duplicated, requests interleave, replies get
  lost or workers stop: the number of mail requests made for one recipient of one release operation
  (under one key version) never exceeds the configured attempt budget.
\<close>

theorem fleet_sends_bounded:
  assumes "fleet m kv w ts" "1 \<le> m"
  shows "int (length (filter (\<lambda>n. n_ReleaseID n = releaseID \<and> n_OperationID n = operationID \<and>
           n_RecipientID n = recipientID) (w_sent w))) \<le> m"
proof -
  let ?p = "receiptPath releaseID operationID kv recipientID"
  obtain out where "good_world m kv w out" using fleet_good [OF assms(1)] by blast
  then have "journal m (w_versions w ?p)" "sentTo kv w ?p \<le> starts (w_versions w ?p)"
    unfolding good_world_def by (auto intro: order_trans [OF le_add1])
  moreover have "length (filter (\<lambda>n. n_ReleaseID n = releaseID \<and> n_OperationID n = operationID \<and>
      n_RecipientID n = recipientID) (w_sent w)) \<le> sentTo kv w ?p"
    unfolding sentTo_def by (rule length_filter_subset) (auto simp: notificationPath_def)
  ultimately show ?thesis using journal_starts [OF _ assms(2)] by fastforce
qed

text \<open>
  C2. No mail request is made that is not already accounted for in storage: the requests made for a
  receipt path are never more than the versions of that receipt blob that say SEND_STARTED.
\<close>

theorem fleet_send_after_commit:
  assumes "fleet m kv w ts"
  shows "length (filter (\<lambda>n. notificationPath kv n = p) (w_sent w)) \<le>
    length (filter (\<lambda>v. startsSend (fst v)) (w_versions w p))"
proof -
  obtain out where "good_world m kv w out" using fleet_good [OF assms] by blast
  then have "sentTo kv w p + out p \<le> starts (w_versions w p)" unfolding good_world_def by blast
  then show ?thesis by (simp add: sentTo_def starts_def)
qed

text \<open>
  C7. Under concurrency every receipt blob is still one linear journal: its versions start with a
  first claim, each later version is one legal step from the version before it, with consecutive
  state versions, and no version that follows a terminal one exists.
\<close>

theorem fleet_journal:
  assumes "fleet m kv w ts"
  shows "journal m (w_versions w p) \<and>
    (\<forall>v r. v \<in> set (tl (w_versions w p)) \<longrightarrow> writtenAs v r \<longrightarrow> \<not> terminal r)"
proof -
  obtain out where "good_world m kv w out" using fleet_good [OF assms] by blast
  then have j: "journal m (w_versions w p)" unfolding good_world_def by blast
  then show ?thesis using journal_terminal_last [OF j] by blast
qed

end
