(* ===== verification/Delivery.thy ===== *)
theory Delivery
  imports Fleet
begin

text \<open>
  One delivery seen from outside: the sequences of requests and replies that \<open>Process\<close> can have.
  The main property is that nothing but exact-version reads happens before the message, the
  manifest, the batch digest and every row have been validated. Further theorems characterise how
  rows are cut from the stream and which rows the worker can take.
\<close>

section \<open>Traces\<close>

datatype event =
    EvNow go_time
  | EvVersion string string string dl_reply
  | EvRead string dl_reply
  | EvWrite string string condition "az_error option"
  | EvSend Notification MailResult
  | EvEmit AuditEvent

inductive trace :: "'a eff \<Rightarrow> event list \<Rightarrow> 'a \<Rightarrow> bool" where
  ret: "trace (Ret x) [] x"
| now: "trace (k t) evs x \<Longrightarrow> trace (Now k) (EvNow t # evs) x"
| version: "trace (k r) evs x \<Longrightarrow> trace (DlVersion c n v k) (EvVersion c n v r # evs) x"
| read: "trace (k r) evs x \<Longrightarrow> trace (DlBlob p k) (EvRead p r # evs) x"
| upload: "trace (k r) evs x \<Longrightarrow> trace (UpBlob p b md c k) (EvWrite p b c r # evs) x"
| send: "trace (k r) evs x \<Longrightarrow> trace (SendMail n k) (EvSend n r # evs) x"
| emit: "trace t evs x \<Longrightarrow> trace (Emit e t) (EvEmit e # evs) x"

inductive_simps trace_Ret [simp]: "trace (Ret y) evs x"
inductive_simps trace_Now: "trace (Now k) evs x"
inductive_simps trace_DlVersion: "trace (DlVersion c n v k) evs x"
inductive_simps trace_DlBlob: "trace (DlBlob p k) evs x"
inductive_simps trace_UpBlob: "trace (UpBlob p b md c k) evs x"
inductive_simps trace_SendMail: "trace (SendMail n k) evs x"
inductive_simps trace_Emit: "trace (Emit e t) evs x"

lemmas trace_simps = trace_Now trace_DlVersion trace_DlBlob trace_UpBlob trace_SendMail trace_Emit

lemma trace_bindI: "trace t e1 x \<Longrightarrow> trace (f x) e2 y \<Longrightarrow> trace (bindE t f) (e1 @ e2) y"
  by (induction rule: trace.induct) (auto intro: trace.intros)

lemma trace_bindD:
  "trace (bindE t f) evs y \<Longrightarrow> \<exists>e1 e2 x. evs = e1 @ e2 \<and> trace t e1 x \<and> trace (f x) e2 y"
proof (induction t arbitrary: evs)
  case (Ret x)
  then have "evs = [] @ evs \<and> trace (Ret x) [] x \<and> trace (f x) evs y" by simp
  then show ?case by blast
next
  case (Now k)
  then obtain t evs' where "evs = EvNow t # evs'" "trace (bindE (k t) f) evs' y" by (auto simp: trace_Now)
  then show ?case using Now.IH [of "k t" evs'] by (metis append_Cons rangeI trace.now)
next
  case (DlVersion c n v k)
  then obtain r evs' where "evs = EvVersion c n v r # evs'" "trace (bindE (k r) f) evs' y" by (auto simp: trace_DlVersion)
  then show ?case using DlVersion.IH [of "k r" evs'] by (metis append_Cons rangeI trace.version)
next
  case (DlBlob p k)
  then obtain r evs' where "evs = EvRead p r # evs'" "trace (bindE (k r) f) evs' y" by (auto simp: trace_DlBlob)
  then show ?case using DlBlob.IH [of "k r" evs'] by (metis append_Cons rangeI trace.read)
next
  case (UpBlob p b md c k)
  then obtain r evs' where "evs = EvWrite p b c r # evs'" "trace (bindE (k r) f) evs' y" by (auto simp: trace_UpBlob)
  then show ?case using UpBlob.IH [of "k r" evs'] by (metis append_Cons rangeI trace.upload)
next
  case (SendMail n k)
  then obtain r evs' where "evs = EvSend n r # evs'" "trace (bindE (k r) f) evs' y" by (auto simp: trace_SendMail)
  then show ?case using SendMail.IH [of "k r" evs'] by (metis append_Cons rangeI trace.send)
next
  case (Emit e t)
  then obtain evs' where "evs = EvEmit e # evs'" "trace (bindE t f) evs' y" by (auto simp: trace_Emit)
  then show ?case using Emit.IH [of evs'] by (metis append_Cons trace.emit)
qed

lemma trace_bindE:
  "trace (bindE t f) evs y \<longleftrightarrow> (\<exists>e1 e2 x. evs = e1 @ e2 \<and> trace t e1 x \<and> trace (f x) e2 y)"
  using trace_bindD trace_bindI by metis

lemma trace_bind_Ret: "trace (bindE t (\<lambda>x. Ret (h x))) evs y \<longleftrightarrow> (\<exists>x. trace t evs x \<and> h x = y)"
  by (auto simp: trace_bindE)

section \<open>Exact-version reads\<close>

definition referenceEvent :: "BlobReference \<Rightarrow> dl_reply \<Rightarrow> event" where
  "referenceEvent ref reply = EvVersion (br_Container ref) (br_Name ref) (br_VersionID ref) reply"

text \<open>What \<open>download\<close> makes of a reply.\<close>

definition downloaded :: "BlobReference \<Rightarrow> dl_reply \<Rightarrow> az_response result" where
  "downloaded ref reply =
     (case reply of
        VersionRejected \<Rightarrow> Inl ErrContract
      | DlFailed err \<Rightarrow> Inl (sanitizeAzureError err)
      | DlOk response \<Rightarrow>
          if ar_Body response = None \<or> ar_ContentLength response \<noteq> Some (br_Size ref) \<or>
             ar_VersionID response \<noteq> Some (br_VersionID ref)
          then Inl ErrContract else Inr response)"

lemma trace_download:
  assumes "validBlob ref"
  shows "trace (download store ref) evs res \<longleftrightarrow>
    (if br_Container ref \<in> set (bs_allowed store)
     then \<exists>reply. evs = [referenceEvent ref reply] \<and> downloaded ref reply = res
     else evs = [] \<and> res = Inl ErrContract)"
  using assms by (auto simp: download_def perform_defs trace_DlVersion referenceEvent_def downloaded_def)

lemma trace_Open:
  assumes "validBlob ref" "trace (Open store ref) evs (Inr stream)"
  shows "\<exists>reply a. evs = [referenceEvent ref reply] \<and> downloaded ref reply = Inr a \<and> ar_Body a = Some stream"
  using assms
  by (auto simp: Open_def trace_bind_Ret trace_download split: if_split_asm sum.split_asm option.split_asm)

lemma trace_Verify:
  assumes "validBlob ref" "trace (Verify store ref) evs (Inr u)"
  shows "\<exists>reply a stream. evs = [referenceEvent ref reply] \<and> downloaded ref reply = Inr a \<and>
       ar_Body a = Some stream \<and> verifyStream ref stream = Inr ()"
  using assms
  by (auto simp: Verify_def trace_bind_Ret trace_download split: if_split_asm sum.split_asm option.split_asm)

lemma trace_ReadSmall:
  assumes "trace (ReadSmall store ref maximum) evs (Inr raw)"
  shows "\<exists>reply. evs = [referenceEvent ref reply] \<and> Matches ref raw"
  using assms by (auto simp: ReadSmall_def trace_bind_Ret trace_download split: if_split_asm sum.split_asm)

section \<open>Pure scans\<close>

text \<open>The scan of a batch whose rows have no effect: how many rows, or an error.\<close>

fun countRows :: "string list \<Rightarrow> nat result" where
  "countRows [] = Inr 0"
| "countRows (raw # rows) =
     (if raw = [] then Inl ErrContract
      else case ParseRecipient raw of
        Inl err \<Rightarrow> Inl err
      | Inr _ \<Rightarrow> (case countRows rows of Inl err \<Rightarrow> Inl err | Inr n \<Rightarrow> Inr (Suc n)))"

lemma countRows_iff:
  "countRows rows = Inr n \<longleftrightarrow> n = length rows \<and> list_all (\<lambda>raw. raw \<noteq> [] \<and> is_ok (ParseRecipient raw)) rows"
proof (induction rows arbitrary: n)
  case (Cons raw rows)
  then show ?case by (cases "countRows rows") (auto simp: is_ok_iff split: sum.splits)
qed auto

definition validBatch :: "reader \<Rightarrow> int \<Rightarrow> bool" where
  "validBatch stream n \<longleftrightarrow>
     (let (content, err) = stream; (rows, tooLong) = rowTokens content
      in \<not> tooLong \<and> err = None \<and> rows \<noteq> [] \<and> last content = newline \<and> int (length rows) = n \<and>
         list_all (\<lambda>raw. raw \<noteq> [] \<and> is_ok (ParseRecipient raw)) rows)"

lemma scanRows_count:
  "scanRows rows c (\<lambda>_ count. Ret (None, count + 1)) (st::int) =
     Ret (case countRows rows of Inl e \<Rightarrow> Inl e | Inr n \<Rightarrow> Inr (c + n),
          case countRows rows of
            Inr n \<Rightarrow> st + int n
          | Inl _ \<Rightarrow> st + int (length (takeWhile (\<lambda>raw. raw \<noteq> [] \<and> is_ok (ParseRecipient raw)) rows)))"
  by (induction rows arbitrary: c st) (auto simp: is_ok_iff split: sum.splits)

lemma trace_validateBatch:
  assumes "validBlob ref" "trace (validateBatch options ref n) evs (Inr u)"
  shows "\<exists>reply a stream. evs = [referenceEvent ref reply] \<and> downloaded ref reply = Inr a \<and>
    ar_Body a = Some stream \<and> validBatch stream n"
proof -
  obtain e1 e2 opened where o: "evs = e1 @ e2" "trace (Open (wo_Blobs options) ref) e1 opened"
      "trace (case opened of Inl err \<Rightarrow> Ret (Inl err) | Inr reader \<Rightarrow>
         bindE (scanRecipientRows reader (\<lambda>_ count. Ret (None, count + 1)) (0::int)) (\<lambda>(result, count).
           Ret (if \<not> is_ok result \<or> count \<noteq> n then Inl ErrContract else Inr ()))) e2 (Inr u)"
    using assms(2) unfolding validateBatch_def trace_bindE by blast
  then obtain stream where s: "opened = Inr stream" by (cases opened) auto
  obtain content err where c: "stream = (content, err)" by fastforce
  obtain rows tooLong where r: "rowTokens content = (rows, tooLong)" by fastforce
  have "e2 = [] \<and> validBatch stream n"
    using o(3) s c r countRows_iff [THEN iffD1, of rows]
    by (auto simp: scanRecipientRows_def scanRows_count validBatch_def trace_bindE split: if_splits sum.splits)
  moreover obtain reply a where "e1 = [referenceEvent ref reply]" "downloaded ref reply = Inr a" "ar_Body a = Some stream"
    using trace_Open [OF assms(1)] o(2) s by blast
  ultimately have "evs = [referenceEvent ref reply] \<and> downloaded ref reply = Inr a \<and> ar_Body a = Some stream \<and>
      validBatch stream n" using o(1) by simp
  then show ?thesis by blast
qed

section \<open>Nothing happens before validation\<close>

definition isVersionRead :: "event \<Rightarrow> bool" where
  "isVersionRead ev = (case ev of EvVersion _ _ _ _ \<Rightarrow> True | _ \<Rightarrow> False)"

lemma reads_download: "trace (download store ref) evs res \<Longrightarrow> list_all isVersionRead evs"
  by (auto simp: download_def perform_defs trace_DlVersion isVersionRead_def split: if_split_asm)

lemma reads_ReadSmall: "trace (ReadSmall store ref n) evs res \<Longrightarrow> list_all isVersionRead evs"
  by (auto simp: ReadSmall_def trace_bind_Ret dest: reads_download split: if_split_asm)

lemma reads_Verify: "trace (Verify store ref) evs res \<Longrightarrow> list_all isVersionRead evs"
  by (auto simp: Verify_def trace_bind_Ret dest: reads_download)

lemma reads_validateBatch: "trace (validateBatch options ref n) evs res \<Longrightarrow> list_all isVersionRead evs"
proof -
  assume "trace (validateBatch options ref n) evs res"
  then obtain e1 e2 opened where o: "evs = e1 @ e2" "trace (Open (wo_Blobs options) ref) e1 opened"
      "trace (case opened of Inl err \<Rightarrow> Ret (Inl err) | Inr reader \<Rightarrow>
         bindE (scanRecipientRows reader (\<lambda>_ count. Ret (None, count + 1)) (0::int)) (\<lambda>(result, count).
           Ret (if \<not> is_ok result \<or> count \<noteq> n then Inl ErrContract else Inr ()))) e2 res"
    unfolding validateBatch_def trace_bindE by blast
  have "e2 = []"
    using o(3) by (auto simp: scanRecipientRows_def scanRows_count trace_bindE split: sum.split_asm prod.split_asm)
  moreover have "list_all isVersionRead e1" using o(2) by (auto simp: Open_def trace_bind_Ret dest: reads_download)
  ultimately show ?thesis using o(1) by simp
qed

lemma message_references:
  assumes "ParseQueueMessage body i = Inr message"
  shows "validMessage message i" "validBlob (qm_Manifest message)" "validBlob (Reference (qm_RecipientBatch message))"
proof -
  show v: "validMessage message i"
    using assms by (auto simp: ParseQueueMessage_def split: sum.splits if_splits)
  then show "validBlob (qm_Manifest message)" "validBlob (Reference (qm_RecipientBatch message))"
    by (simp_all add: validMessage_def validBatchReference_def)
qed

definition streamOf :: "BlobReference \<Rightarrow> dl_reply \<Rightarrow> reader \<Rightarrow> bool" where
  "streamOf ref reply stream \<longleftrightarrow> (\<exists>a. downloaded ref reply = Inr a \<and> ar_Body a = Some stream)"

lemma effects_split:
  "\<not> list_all isVersionRead (e1 @ e2) \<Longrightarrow> list_all isVersionRead e1 \<Longrightarrow> \<not> list_all isVersionRead e2"
  by simp

lemma verified_stage:
  assumes "trace (processVerified options message) evs result" "\<not> list_all isVersionRead evs"
    and "validBlob (Reference (qm_RecipientBatch message))"
  shows "\<exists>r3 s3 rest. evs = referenceEvent (Reference (qm_RecipientBatch message)) r3 # rest \<and>
    streamOf (Reference (qm_RecipientBatch message)) r3 s3 \<and>
    validBatch s3 (bt_RecipientCount (qm_RecipientBatch message))"
proof -
  let ?b = "Reference (qm_RecipientBatch message)" and ?n = "bt_RecipientCount (qm_RecipientBatch message)"
  obtain e1 e2 val where e: "evs = e1 @ e2" "trace (validateBatch options ?b ?n) e1 val"
      "trace (case val of Inl _ \<Rightarrow> Ret (settle DeadLetter ''REFERENCED_BLOB_INVALID'' 0)
         | Inr _ \<Rightarrow> processBatch options message) e2 result"
    using assms(1) unfolding processVerified_def trace_bindE by blast
  have "\<not> list_all isVersionRead e2" using assms(2) e(1) reads_validateBatch [OF e(2)] by simp
  then have "val = Inr ()" using e(3) by (cases val) auto
  then obtain r3 s3 where "e1 = [referenceEvent ?b r3]" "streamOf ?b r3 s3" "validBatch s3 ?n"
    using trace_validateBatch [OF assms(3)] e(2) unfolding streamOf_def by blast
  then have "evs = referenceEvent ?b r3 # e2 \<and> streamOf ?b r3 s3 \<and> validBatch s3 ?n" using e(1) by simp
  then show ?thesis by blast
qed

lemma manifest_stage:
  assumes "trace (processManifest options message raw) evs result" "\<not> list_all isVersionRead evs"
    and "validBlob (Reference (qm_RecipientBatch message))"
  shows "\<exists>manifest r2 s2 rest. evs = referenceEvent (Reference (qm_RecipientBatch message)) r2 # rest \<and>
    ParsePublishedManifest raw = Inr manifest \<and> manifestMatchesMessage manifest message \<and>
    streamOf (Reference (qm_RecipientBatch message)) r2 s2 \<and>
    verifyStream (Reference (qm_RecipientBatch message)) s2 = Inr () \<and>
    trace (processVerified options message) rest result \<and> \<not> list_all isVersionRead rest"
proof -
  let ?b = "Reference (qm_RecipientBatch message)"
  obtain manifest where m: "ParsePublishedManifest raw = Inr manifest" "manifestMatchesMessage manifest message"
    using assms(1,2) by (auto simp: processManifest_def split: sum.split_asm if_split_asm)
  then obtain e1 e2 ver where e: "evs = e1 @ e2" "trace (Verify (wo_Blobs options) ?b) e1 ver"
      "trace (case ver of Inl err \<Rightarrow> Ret (blobFailure err) | Inr _ \<Rightarrow> processVerified options message) e2 result"
    using assms(1) by (auto simp: processManifest_def trace_bindE)
  have l: "\<not> list_all isVersionRead e2" using assms(2) e(1) reads_Verify [OF e(2)] by simp
  then have ver: "ver = Inr ()" using e(3) by (cases ver) auto
  then obtain r2 s2 where "e1 = [referenceEvent ?b r2]" "streamOf ?b r2 s2" "verifyStream ?b s2 = Inr ()"
    using trace_Verify [OF assms(3)] e(2) unfolding streamOf_def by blast
  then have "evs = referenceEvent ?b r2 # e2 \<and> streamOf ?b r2 s2 \<and> verifyStream ?b s2 = Inr ()" using e(1) by simp
  moreover have "trace (processVerified options message) e2 result" using e(3) ver by simp
  ultimately show ?thesis using m l by blast
qed

text \<open>
  C6. Before its first effect on a receipt, the mail provider, the clock or the audit log, a delivery has
  made exactly three reads: the manifest, which had the referenced digest and matches the message;
  the recipient batch, which had the referenced length and digest; and the batch again, in which
  every row was a valid recipient and the rows were as many as the message says.
\<close>

theorem Process_validates_first:
  assumes "trace (Process options brokerMessageID body) evs result" "\<not> list_all isVersionRead evs"
  shows "\<exists>message raw manifest r1 r2 r3 s2 s3 rest.
    ParseQueueMessage body brokerMessageID = Inr message \<and>
    evs = referenceEvent (qm_Manifest message) r1 # referenceEvent (Reference (qm_RecipientBatch message)) r2 #
          referenceEvent (Reference (qm_RecipientBatch message)) r3 # rest \<and>
    Matches (qm_Manifest message) raw \<and> ParsePublishedManifest raw = Inr manifest \<and>
    manifestMatchesMessage manifest message \<and>
    streamOf (Reference (qm_RecipientBatch message)) r2 s2 \<and>
    verifyStream (Reference (qm_RecipientBatch message)) s2 = Inr () \<and>
    streamOf (Reference (qm_RecipientBatch message)) r3 s3 \<and>
    validBatch s3 (bt_RecipientCount (qm_RecipientBatch message))"
proof -
  obtain message where msg: "ParseQueueMessage body brokerMessageID = Inr message"
    using assms by (cases "ParseQueueMessage body brokerMessageID") (auto simp: Process_def)
  note v = message_references [OF msg]
  obtain e1 e2 mb where e: "evs = e1 @ e2"
      "trace (ReadSmall (wo_Blobs options) (qm_Manifest message) maxManifestBytes) e1 mb"
      "trace (case mb of Inl err \<Rightarrow> Ret (blobFailure err) | Inr raw \<Rightarrow> processManifest options message raw) e2 result"
    using assms(1) msg unfolding Process_def by (auto simp: trace_bindE)
  have l: "\<not> list_all isVersionRead e2" using assms(2) e(1) reads_ReadSmall [OF e(2)] by simp
  then obtain raw where raw: "mb = Inr raw" using e(3) by (cases mb) auto
  obtain r1 where r1: "e1 = [referenceEvent (qm_Manifest message) r1]" "Matches (qm_Manifest message) raw"
    using trace_ReadSmall e(2) raw by blast
  have "trace (processManifest options message raw) e2 result" using e(3) raw by simp
  note st2 = manifest_stage [OF this l v(3)]
  show ?thesis using e(1) r1 msg st2 verified_stage [OF _ _ v(3)] by (metis append_Cons append_Nil)
qed

end
