(* ===== verification/Findings.thy ===== *)
theory Findings
  imports Delivery
begin

text \<open>
  Row and retry behaviour of the worker at its limits: how the scanner cuts rows, the bounds of the
  retry delay, and the cases in which a delivery is given up or left hanging although the parts
  involved accept it.
\<close>

section \<open>Rows\<close>

lemma rowTokens_line:
  assumes "newline \<notin> set line" "length line < 1024"
  shows "rowTokens (line @ newline # rest) = (dropCR line # fst (rowTokens rest), snd (rowTokens rest))"
proof -
  have "takeWhile (\<lambda>c. c \<noteq> newline) (line @ newline # rest) = line"
    using assms(1) by (simp add: takeWhile_append)
  then show ?thesis using assms(2) by (simp add: rowTokens.simps [of "line @ newline # rest"] Let_def split: prod.splits)
qed

lemma rowTokens_long:
  assumes "newline \<notin> set line" "1024 \<le> length line"
  shows "rowTokens (line @ rest) = ([], True)"
proof -
  have "takeWhile (\<lambda>c. c \<noteq> newline) (line @ rest) = line @ takeWhile (\<lambda>c. c \<noteq> newline) rest"
    using assms(1) by (intro takeWhile_append2) auto
  then show ?thesis using assms(2) by (simp add: rowTokens.simps [of "line @ rest"] Let_def)
qed

lemma rowTokens_Nil [simp]: "rowTokens [] = ([], False)"
  by (simp add: rowTokens.simps)

definition batchBody :: "string list \<Rightarrow> string" where
  "batchBody rows = concat (map (\<lambda>row. row @ [newline]) rows)"

definition plainRow :: "string \<Rightarrow> bool" where
  "plainRow row \<longleftrightarrow> newline \<notin> set row \<and> length row < 1024 \<and> dropCR row = row"

lemma rowTokens_batch: "list_all plainRow rows \<Longrightarrow> rowTokens (batchBody rows) = (rows, False)"
proof (induction rows)
  case (Cons row rows)
  then have "rowTokens (row @ newline # batchBody rows) = (row # rows, False)"
    using rowTokens_line [of row "batchBody rows"] by (simp add: plainRow_def)
  then show ?case by (simp add: batchBody_def)
qed (simp add: batchBody_def)

text \<open>Canonical rows contain no newline and end in a brace.\<close>

lemma escByte_no_newline: "newline \<notin> set (escByte c)"
proof -
  have "hexDigit (n mod 16) \<noteq> newline" for n
  proof -
    have "\<forall>n \<in> set [0..<16]. hexDigit n \<noteq> newline" by code_simp
    then show ?thesis by simp
  qed
  then have "newline \<notin> set (uEscape n)" for n by (auto simp: uEscape_def backslash_def newline_def dest: sym)
  moreover have "byte newline = 10" "newline \<noteq> backslash" "newline \<noteq> CHR ''b''" "newline \<noteq> CHR ''f''"
    "newline \<noteq> CHR ''n''" "newline \<noteq> CHR ''r''" "newline \<noteq> CHR ''t''" "newline \<noteq> quote_char"
    by (simp_all add: newline_def backslash_def quote_char_def)
  ultimately show ?thesis by (auto simp: escByte_def)
qed

lemma escape_ascii: "ascii s \<Longrightarrow> escape s = concat (map escByte s)"
  by (induction s) (simp_all add: escape_def chunks_ascii_Cons escChunk_def)

lemma newline_escape: "ascii s \<Longrightarrow> newline \<notin> set (escape s)"
  using escByte_no_newline by (auto simp: escape_ascii)

lemma recipient_print:
  "jprint (recipientJson r) = ''{'' @ quote ''email'' @ '':'' @ quote (rc_Email r) @ '','' @ quote ''first_name'' @
      '':'' @ quote (rc_FirstName r) @ '','' @ quote ''last_name'' @ '':'' @ quote (rc_LastName r) @ ''}''"
  by (simp add: recipientJson_def)

lemma recipient_no_newline:
  assumes "ascii (rc_Email r)" "ascii (rc_FirstName r)" "ascii (rc_LastName r)"
  shows "newline \<notin> set (jprint (recipientJson r))"
proof -
  have nl: "newline \<notin> set (quote s)" if "ascii s" for s
    using newline_escape [OF that] by (auto simp: quote_def newline_def quote_char_def)
  show ?thesis unfolding recipient_print using nl assms by (auto simp: newline_def)
qed

lemma recipient_row:
  assumes "validRecipient r" "length (jprint (recipientJson r)) < 1024"
  shows "plainRow (jprint (recipientJson r))"
proof -
  have a: "ascii (rc_Email r)" "ascii (rc_FirstName r)" "ascii (rc_LastName r)"
    using assms(1) by (simp_all add: validRecipient_def email_bytes(1) name_ascii)
  have "last (jprint (recipientJson r)) = CHR ''}''" unfolding recipient_print by simp
  then have "dropCR (jprint (recipientJson r)) = jprint (recipientJson r)" by (simp add: dropCR_def char_eval)
  then show ?thesis using assms(2) recipient_no_newline [OF a] by (simp add: plainRow_def)
qed

section \<open>Retry delays\<close>

text \<open>
  The delay before a retry is at least the provider's Retry-After and at least the exponential
  backoff of the attempt, as far as the cap of 300 seconds allows, at least one second and never
  more than 300 seconds.
\<close>

lemma retryDelay_bounds:
  "min (max (mr_RetryAfter result) (second * 2 ^ nat (max (r_AttemptCount receipt - 1) 0))) (300 * second)
     \<le> retryDelay receipt result \<and> second \<le> retryDelay receipt result \<and> retryDelay receipt result \<le> 300 * second"
proof -
  have at_least: "(if b < second then second else b) = max b second" for b by simp
  define base where "base = (let b = max (max (mr_RetryAfter result)
      (second * 2 ^ nat (max (r_AttemptCount receipt - 1) 0))) second in if b > 300 * second then 300 * second else b)"
  define j where "j = jitterSeed (r_RecipientID receipt) mod
      (min (max (base div 4) second) (10 * second) div second + 1) * second"
  have d: "retryDelay receipt result = boundedDelay (base + j)"
    unfolding retryDelay_def base_def j_def Let_def at_least ..
  have "0 < min (max (base div 4) second) (10 * second) div second + 1"
    by (simp add: second_def)
  then have "0 \<le> j" by (simp add: j_def)
  moreover have clamp: "min b (300 * second) \<le> (let c = max b second in if c > 300 * second then 300 * second else c)"
    "second \<le> (let c = max b second in if c > 300 * second then 300 * second else c)"
    "(let c = max b second in if c > 300 * second then 300 * second else c) \<le> 300 * second" for b
    by (auto simp: Let_def second_def)
  note clamp [of "max (mr_RetryAfter result) (second * 2 ^ nat (max (r_AttemptCount receipt - 1) 0))", folded base_def]
  with \<open>0 \<le> j\<close> show ?thesis unfolding d by (auto simp: boundedDelay_def)
qed

section \<open>Limits\<close>

text \<open>A recipient whose canonical row is exactly 1024 bytes long.\<close>

definition longRecipient :: Recipient where
  "longRecipient = \<lparr>rc_Email = replicate 141 CHR ''&'' @ ''aaa@a.b'',
     rc_FirstName = CHR ''A'' # replicate 63 CHR ''a'', rc_LastName = CHR ''A'' # replicate 63 CHR ''a''\<rparr>"

lemma short_domain_email:
  assumes "s \<noteq> []" "list_all emailLocalChar s"
  shows "rmatch emailPattern (s @ ''@a.b'')"
proof -
  have l: "rmatch dnsLabel [c]" if "is_lower c" for c
    using that by (simp add: dnsLabel_def ropt_def)
  have star: "rmatch (RStar r) []" for r by simp
  have "rmatch (rplus (RCls emailLocalChar)) s"
    using assms by (simp add: rmatch_rplus_cls del: rmatch.simps)
  moreover have "rmatch (rlit ''@'') ''@''" "rmatch (rlit ''.'') ''.''" by (simp_all add: rmatch_rlit del: rlit.simps rmatch.simps)
  moreover have "rmatch dnsLabel ''a''" "rmatch dnsLabel ''b''" using l by (simp_all add: char_class_defs)
  ultimately have "rmatch (RSeq (rplus (RCls emailLocalChar)) (RSeq (rlit ''@'') (RSeq dnsLabel
      (RSeq (RSeq (rlit ''.'') dnsLabel) (RStar (RSeq (rlit ''.'') dnsLabel))))))
      (s @ ''@'' @ ''a'' @ (''.'' @ ''b'') @ [])"
    by (intro rmatch_RSeqI star)
  then show ?thesis by (simp add: emailPattern_def rplus_def del: rmatch.simps rlit.simps)
qed

lemma longRecipient_email: "rmatch emailPattern (rc_Email longRecipient)"
  using short_domain_email [of "replicate 141 CHR ''&'' @ ''aaa''"]
  by (simp add: longRecipient_def list_all_iff emailLocalChar_def char_class_defs del: rmatch.simps)

lemma longRecipient_valid: "validRecipient longRecipient"
proof -
  let ?e = "rc_Email longRecipient"
  note e = email_bytes [OF longRecipient_email]
  have "trimSpace ?e = ?e"
    using e(1) by (intro trimSpace_id) (simp_all add: longRecipient_def isSpace_def)
  then have "?e = toLower (trimSpace ?e)" using toLower_id [OF e(1,2)] by simp
  moreover have "rmatch namePattern (CHR ''A'' # replicate 63 CHR ''a'')"
    by (simp add: namePattern_def rmatch_cls_seq rmatch_rupto_cls list_all_iff char_class_defs del: rmatch.simps)
  ultimately show ?thesis
    using longRecipient_email by (simp add: validRecipient_def) (simp add: longRecipient_def)
qed

lemma escByte_plain: "is_alnum c \<or> c = CHR ''_'' \<or> c = CHR ''@'' \<or> c = CHR ''.'' \<Longrightarrow> escByte c = [c]"
  by (auto simp: escByte_def quote_char_def backslash_def char_class_defs)

lemma longRecipient_row: "length (jprint (recipientJson longRecipient)) = 1024"
proof -
  have amp: "length (escByte CHR ''&'') = 6"
    by (simp add: escByte_def uEscape_def quote_char_def backslash_def)
  have plain: "length (escape s) = length s"
    if "list_all (\<lambda>c. is_alnum c \<or> c = CHR ''_'' \<or> c = CHR ''@'' \<or> c = CHR ''.'') s" for s
  proof -
    have "ascii s" using that by (rule ascii_list_all) (auto simp: char_class_defs)
    moreover have "concat (map escByte s) = s" using that by (induction s) (simp_all add: escByte_plain)
    ultimately show ?thesis by (simp add: escape_ascii)
  qed
  have mail: "length (escape (replicate 141 CHR ''&'' @ ''aaa@a.b'')) = 853"
  proof -
    have "ascii (replicate 141 CHR ''&'' @ ''aaa@a.b'')" by (simp add: ascii_def list_all_iff)
    moreover have "length (concat (map escByte (replicate n CHR ''&''))) = 6 * n" for n
      using amp by (induction n) simp_all
    moreover have "concat (map escByte ''aaa@a.b'') = ''aaa@a.b''" by (simp add: escByte_plain char_class_defs)
    ultimately show ?thesis by (simp add: escape_ascii)
  qed
  have names: "length (escape (CHR ''A'' # replicate 63 CHR ''a'')) = 64"
    by (subst plain) (simp_all add: list_all_iff char_class_defs)
  have keys: "length (escape ''email'') = 5" "length (escape ''first_name'') = 10" "length (escape ''last_name'') = 9"
    by (subst plain; simp add: char_class_defs)+
  show ?thesis by (simp add: recipientJson_def longRecipient_def quote_def mail names keys)
qed

text \<open>
  The row parser and the row scanner disagree at the limit: there is a row of exactly 1024 bytes
  that the parser accepts (as does the publisher's check, which uses the same parser), but no batch
  that starts with it passes the worker's scan, whatever follows.
\<close>

lemma row_limit_mismatch:
  "\<exists>raw r. ParseRecipient raw = Inr r \<and> length raw = 1024 \<and> (\<forall>rest err n. \<not> validBatch (raw @ newline # rest, err) n)"
proof -
  let ?raw = "jprint (recipientJson longRecipient)"
  have a: "ascii (rc_Email longRecipient)" "ascii (rc_FirstName longRecipient)" "ascii (rc_LastName longRecipient)"
    using longRecipient_valid by (simp_all add: validRecipient_def email_bytes(1) name_ascii)
  have nl: "newline \<notin> set ?raw" by (rule recipient_no_newline [OF a])
  have "ParseRecipient ?raw = Inr longRecipient"
    using longRecipient_valid longRecipient_row valid_recipient_wf [OF longRecipient_valid]
    unfolding recipient_doc.parse_iff recipient_doc.accepted_def by simp
  moreover have "\<not> validBatch (?raw @ newline # rest, err) n" for rest err n
    using rowTokens_long [OF nl, of "newline # rest"] longRecipient_row by (simp add: validBatch_def)
  ultimately show ?thesis using longRecipient_row by blast
qed


text \<open>A program whose first request has one reply continues after it.\<close>

lemma trace_bind_first:
  assumes "\<And>es x. trace t (ev # es) x \<longleftrightarrow> es = [] \<and> x = a" "\<And>x. \<not> trace t [] x"
  shows "trace (bindE t f) (ev # rest) y \<longleftrightarrow> trace (f a) rest y" "\<not> trace (bindE t f) [] y"
proof -
  show "trace (bindE t f) (ev # rest) y \<longleftrightarrow> trace (f a) rest y"
  proof
    assume "trace (bindE t f) (ev # rest) y"
    then obtain e1 e2 x where e: "ev # rest = e1 @ e2" "trace t e1 x" "trace (f x) e2 y" by (elim trace_bindD [THEN exE] exE conjE) (rule that)
    have "e1 \<noteq> []" using e(2) assms(2) by metis
    then obtain es where "e1 = ev # es" using e(1) by (metis append_eq_Cons_conv)
    then show "trace (f a) rest y" using e assms(1) [of es x] by simp
  next
    assume "trace (f a) rest y"
    then show "trace (bindE t f) (ev # rest) y" using trace_bindI [of t "[ev]" a f rest y] assms(1) by simp
  qed
  show "\<not> trace (bindE t f) [] y" using assms(2) by (auto simp: trace_bindE)
qed

text \<open>
  A transient storage failure is retried or not depending on where it happens: on the read that checks
  the digest of the batch it abandons the delivery for a retry, but on the next read of the same blob, the
  one that checks the rows, the same failure sends the message to the dead-letter queue.
\<close>

lemma transient_failure_dead_letters:
  assumes "validBlob (Reference (qm_RecipientBatch message))"
    and "bt_Container (qm_RecipientBatch message) \<in> set (bs_allowed (wo_Blobs options))"
    and "transient (sanitizeAzureError err)"
    and "ParsePublishedManifest raw = Inr manifest" "manifestMatchesMessage manifest message"
  shows "(trace (processManifest options message raw)
            (referenceEvent (Reference (qm_RecipientBatch message)) (DlFailed err) # rest) result \<longleftrightarrow>
          rest = [] \<and> result = settle Abandon ''BLOB_UNAVAILABLE'' second) \<and>
         (trace (processVerified options message)
            (referenceEvent (Reference (qm_RecipientBatch message)) (DlFailed err) # rest) result \<longleftrightarrow>
          rest = [] \<and> result = settle DeadLetter ''REFERENCED_BLOB_INVALID'' 0)"
proof -
  let ?b = "Reference (qm_RecipientBatch message)" and ?store = "wo_Blobs options"
  let ?ev = "referenceEvent ?b (DlFailed err)"
  have c: "br_Container ?b \<in> set (bs_allowed ?store)" using assms(2) by (simp add: Reference_def)
  have d: "trace (download ?store ?b) (?ev # es) res \<longleftrightarrow> es = [] \<and> res = Inl (sanitizeAzureError err)"
    "\<not> trace (download ?store ?b) [] res" for es res
    using c by (auto simp: trace_download [OF assms(1)] referenceEvent_def downloaded_def)
  have v: "trace (Verify ?store ?b) (?ev # es) res \<longleftrightarrow> es = [] \<and> res = Inl (sanitizeAzureError err)"
    "\<not> trace (Verify ?store ?b) [] res" for es res
    using d by (auto simp: Verify_def trace_bind_Ret)
  have o: "trace (Open ?store ?b) (?ev # es) res \<longleftrightarrow> es = [] \<and> res = Inl (sanitizeAzureError err)"
    "\<not> trace (Open ?store ?b) [] res" for es res
    using d by (auto simp: Open_def trace_bind_Ret)
  have b: "trace (validateBatch options ?b n) (?ev # es) res \<longleftrightarrow> es = [] \<and> res = Inl (sanitizeAzureError err)"
    "\<not> trace (validateBatch options ?b n) [] res" for n es res
    unfolding validateBatch_def trace_bind_first(1) [OF o] using trace_bind_first(2) [OF o] by simp_all
  show ?thesis
    using assms(3-5) unfolding processManifest_def processVerified_def trace_bind_first(1) [OF b]
    by (simp add: trace_bind_first(1) [OF v] blobFailure_def)
qed

section \<open>Unreadable receipts\<close>

lemma chunks_cons:
  assumes "decodeRune s = (n, w)" "\<not> (n = runeError \<and> w = 1)" "s \<noteq> []"
  shows "chunks (take w s @ t) = (n, take w s) # chunks t"
proof -
  have w: "1 \<le> w" "w \<le> length s" using decodeRune_width [OF assms(3)] decodeRune_width_le [of s] assms(1) by simp_all
  then have "take w s @ t \<noteq> []" using assms(3) by auto
  then show ?thesis using chunks_nonempty [of "take w s @ t"] decodeRune_prefix [OF assms] w by simp
qed

lemma chunks_error: "chunks (encodeRune runeError @ t) = (runeError, encodeRune runeError) # chunks t"
proof -
  have e: "encodeRune runeError = [char_of (0xEF::nat), char_of (0xBF::nat), char_of (0xBD::nat)]"
    by (simp add: encodeRune_def Let_def)
  have "decodeRune (char_of (0xEF::nat) # char_of (0xBF::nat) # char_of (0xBD::nat) # t) = (runeError, 3)"
    using decodeRune_three [of "char_of (0xEF::nat)" "char_of (0xBF::nat)" "char_of (0xBD::nat)" t]
    by (simp add: in_bytes_def lead3_lo_def lead3_hi_def)
  then show ?thesis using chunks_nonempty [of "encodeRune runeError @ t"] unfolding e by simp
qed

lemma escape_toValid_length:
  "length (escape (toValid s)) \<le> length (escape s) \<and>
   (\<not> utf8_valid s \<longrightarrow> length (escape (toValid s)) < length (escape s))"
proof (induction s rule: chunks.induct)
  case (1 s)
  show ?case
  proof (cases "s = []")
    case True
    then show ?thesis by (simp add: toValid_def escape_def)
  next
    case False
    obtain n w where nw: "decodeRune s = (n, w)" by fastforce
    let ?ch = "(n, take w s)" and ?t = "drop w s"
    note ih = "1.IH" [OF False, unfolded nw snd_conv]
    have s: "chunks s = ?ch # chunks ?t" using False nw by (simp add: chunks_nonempty)
    then have e: "escape s = escChunk ?ch @ escape ?t" "toValid s = validChunk ?ch @ toValid ?t"
      "utf8_valid s \<longleftrightarrow> \<not> bad_chunk ?ch \<and> utf8_valid ?t"
      by (simp_all add: escape_def toValid_def utf8_valid_def)
    show ?thesis
    proof (cases "bad_chunk ?ch")
      case True
      then have "escape (toValid s) = escChunk (runeError, encodeRune runeError) @ escape (toValid ?t)"
        using chunks_error [of "toValid ?t"] e(2) by (simp add: validChunk_def escape_def)
      moreover have "length (escChunk (runeError, encodeRune runeError)) = 3"
        by (simp add: escChunk_def bad_chunk_def encodeRune_def Let_def)
      moreover have "length (escChunk ?ch) = 6"
        using True by (simp add: escChunk_def bad_chunk_def uEscape_def)
      ultimately show ?thesis using ih e by auto
    next
      case good: False
      have "\<not> (n = runeError \<and> w = 1)"
        using good False by (auto simp: bad_chunk_def Suc_le_eq)
      from chunks_cons [OF nw this False, of "toValid ?t"]
      have "escape (toValid s) = escChunk ?ch @ escape (toValid ?t)"
        using e(2) good by (simp add: validChunk_def escape_def)
      then show ?thesis using ih e good by auto
    qed
  qed
qed

text \<open>The printed size of a receipt, and how cleaning invalid strings changes it.\<close>

definition ptrSize :: "string option \<Rightarrow> nat" where
  "ptrSize p = (case p of None \<Rightarrow> 4 | Some s \<Rightarrow> length (quote s))"

definition ptrClean :: "string option \<Rightarrow> string option" where
  "ptrClean p = map_option toValid p"

lemma jstrPtr_size: "length (jprint (jstrPtr p)) = ptrSize p"
  by (simp add: jstrPtr_def ptrSize_def split: option.splits)

lemma jstrPtr_clean: "clean (jstrPtr p) = jstrPtr (ptrClean p)"
  by (simp add: jstrPtr_def ptrClean_def split: option.splits)

lemma jstrPtr_inj: "jstrPtr p = jstrPtr q \<longleftrightarrow> p = q"
  by (auto simp: jstrPtr_def split: option.splits)

lemma quote_toValid: "length (quote (toValid s)) \<le> length (quote s)"
  using escape_toValid_length [of s] by (simp add: quote_def)

lemma ptrSize_clean: "ptrSize (ptrClean p) \<le> ptrSize p"
  using quote_toValid by (simp add: ptrSize_def ptrClean_def split: option.splits)

lemma receipt_size:
  assumes "clean (receiptJson r) = receiptJson r'" "r_ProviderRequestID r = Some s" "\<not> utf8_valid s"
  shows "length (jprint (receiptJson r')) < length (jprint (receiptJson r))"
proof -
  have q: "clean (jintPtr i) = jintPtr i" for i by (simp add: jintPtr_def split: option.splits)
  have req: "length (quote (toValid s)) < length (quote s)"
    using escape_toValid_length [of s] assms(3) by (simp add: quote_def)
  note eqs = assms(1) [unfolded receiptJson_def, simplified, unfolded q jstrPtr_clean jstrPtr_inj]
  have f: "r_ClaimedAt r' = ptrClean (r_ClaimedAt r)" "r_NextAttemptAt r' = ptrClean (r_NextAttemptAt r)"
    "r_ReasonCode r' = ptrClean (r_ReasonCode r)" "r_SendStartedAt r' = ptrClean (r_SendStartedAt r)"
    "r_TerminalAt r' = ptrClean (r_TerminalAt r)" "r_ProviderRequestID r' = Some (toValid s)"
    "r_HMACKeyVersion r' = toValid (r_HMACKeyVersion r)" "r_OperationID r' = toValid (r_OperationID r)"
    "r_Provider r' = toValid (r_Provider r)" "r_QueueMessageID r' = toValid (r_QueueMessageID r)"
    "r_RecipientID r' = toValid (r_RecipientID r)" "r_ReleaseID r' = toValid (r_ReleaseID r)"
    "r_ReleaseVersion r' = toValid (r_ReleaseVersion r)" "r_SchemaVersion r' = toValid (r_SchemaVersion r)"
    "r_Status r' = toValid (r_Status r)" "r_UpdatedAt r' = toValid (r_UpdatedAt r)"
    "jint (r_AttemptCount r') = jint (r_AttemptCount r)" "jint (r_StateVersion r') = jint (r_StateVersion r)"
    "jintPtr (r_ProviderHTTPStatus r') = jintPtr (r_ProviderHTTPStatus r)"
    using eqs assms(2) by (simp_all add: ptrClean_def)
  show ?thesis
    unfolding receiptJson_def f jprint.simps jprintMembers.simps length_append list.size jstrPtr_size assms(2)
    using req quote_toValid [of "r_HMACKeyVersion r"] quote_toValid [of "r_OperationID r"]
      quote_toValid [of "r_Provider r"] quote_toValid [of "r_QueueMessageID r"] quote_toValid [of "r_RecipientID r"]
      quote_toValid [of "r_ReleaseID r"] quote_toValid [of "r_ReleaseVersion r"] quote_toValid [of "r_SchemaVersion r"]
      quote_toValid [of "r_Status r"] quote_toValid [of "r_UpdatedAt r"] ptrSize_clean [of "r_ClaimedAt r"]
      ptrSize_clean [of "r_NextAttemptAt r"] ptrSize_clean [of "r_ReasonCode r"] ptrSize_clean [of "r_SendStartedAt r"]
      ptrSize_clean [of "r_TerminalAt r"]
    by (simp add: ptrSize_def)
qed

text \<open>
  A provider request id that is not valid UTF-8 passes validation and is written, but the receipt can
  never be read again: reading the bytes that marshalling produces fails. (Request ids come from a response
  header cut to 128 bytes, which can end inside a character.)
\<close>

lemma unreadable_receipt:
  assumes "MarshalReceipt r = Inr raw" "r_ProviderRequestID r = Some s" "\<not> utf8_valid s"
  shows "ParseReceipt raw = Inl ErrReceiptConflict"
proof (cases "ParseReceipt raw")
  case (Inl e)
  then show ?thesis by (auto simp: ParseReceipt_def split: sum.splits if_splits)
next
  case (Inr r')
  have raw: "raw = jprint (receiptJson r)" using assms(1) by (auto simp: MarshalReceipt_def split: if_splits)
  note p = ParseReceipt_facts [OF Inr]
  have "clean (receiptJson r) = receiptJson r'"
    using p raw receipt_json(1) [of r'] by (intro jprint_clean jnums_receipt) auto
  then have "length (jprint (receiptJson r')) < length (jprint (receiptJson r))"
    using receipt_size assms(2,3) by blast
  then show ?thesis using p raw by simp
qed

end
