(* ===== verification/Completion.thy ===== *)
theory Completion
  imports FaultFree
begin

text \<open>
  Whole deliveries on a service without faults: each recipient without a receipt gets one mail and a
  terminal receipt, each recipient whose receipt is already terminal is skipped, and the delivery completes.
  First deliveries, redeliveries and deliveries that resume a half-finished batch are instances.
  A concrete delivery shows that the hypotheses can be met; it also drives the executions of the theories
  \<open>Fleet\<close> and \<open>Delivery\<close>.
\<close>

section \<open>Receipt paths\<close>

definition labelChar :: "char \<Rightarrow> bool" where
  "labelChar c \<longleftrightarrow> is_alnum c \<or> c = CHR ''_'' \<or> c = CHR ''.'' \<or> c = CHR ''-''"

lemma lowerDigit_label: "lowerDigit c \<or> c = CHR ''_'' \<or> c = CHR ''-'' \<Longrightarrow> labelChar c \<and> c \<noteq> CHR ''.''"
  by (auto simp: labelChar_def char_class_defs)

lemma release_facts:
  assumes "rmatch releasePattern s"
  shows "s \<noteq> []" "length s \<le> 64" "list_all (\<lambda>c. labelChar c \<and> c \<noteq> CHR ''.'') s"
proof -
  obtain c t where s: "s = c # t" "lowerDigit c" and t: "t = [] \<or> rmatch (RSeq (rupto 62 (RCls (\<lambda>c. lowerDigit c \<or>
      c = CHR ''_'' \<or> c = CHR ''-''))) (RCls lowerDigit)) t"
    using assms by (auto simp: releasePattern_def rmatch_cls_seq simp del: rmatch.simps split: list.splits)
  have "list_all (\<lambda>c. labelChar c \<and> c \<noteq> CHR ''.'') t \<and> length t \<le> 63"
  proof (cases "t = []")
    case False
    then obtain u d where t: "t = u @ [d]" "length u \<le> 62" "lowerDigit d"
        and u: "list_all (\<lambda>c. lowerDigit c \<or> c = CHR ''_'' \<or> c = CHR ''-'') u"
      using t by (auto simp: rmatch_RSeq rmatch_rupto_cls rmatch_RCls simp del: rmatch.simps)
    have "list_all (\<lambda>c. labelChar c \<and> c \<noteq> CHR ''.'') u" using u lowerDigit_label by (rule list.pred_mono_strong)
    then show ?thesis using t lowerDigit_label [of d] by simp
  qed simp
  then show "s \<noteq> []" "length s \<le> 64" "list_all (\<lambda>c. labelChar c \<and> c \<noteq> CHR ''.'') s"
    using s lowerDigit_label [of c] by simp_all
qed

lemma digest_facts:
  assumes "rmatch digestPattern s"
  shows "s \<noteq> []" "length s = 64" "list_all (\<lambda>c. labelChar c \<and> c \<noteq> CHR ''.'') s"
  using assms by (auto simp: digest_iff list_all_iff labelChar_def char_class_defs)

lemma dotless_segment: "s \<noteq> [] \<Longrightarrow> list_all (\<lambda>c. labelChar c \<and> c \<noteq> CHR ''.'') s \<Longrightarrow> s \<noteq> ''.'' \<and> s \<noteq> ''..''"
  by auto

lemma labelChar_safe:
  assumes "labelChar c"
  shows "c \<noteq> CHR ''/''" "c \<noteq> backslash" "c \<noteq> CHR ''?''" "c \<noteq> CHR ''#''" "\<not> (byte c < 0x20 \<or> byte c = 0x7f)"
  using assms by (auto simp: labelChar_def char_class_defs backslash_def)

lemma hasSuffix_byte: "hasSuffix s [c] \<longleftrightarrow> s \<noteq> [] \<and> last s = c"
proof (cases s rule: rev_cases)
  case (snoc t d)
  then show ?thesis by (simp add: hasSuffix_def)
qed (simp add: hasSuffix_def)

lemma receiptPath_valid:
  assumes rel: "rmatch releasePattern rel" and opn: "rmatch digestPattern opn" and kv: "rmatch versionLabelPattern kv"
    and rid: "rmatch digestPattern rid" and dots: "kv \<noteq> ''.''" "kv \<noteq> ''..''"
  shows "validBlobName (receiptPath rel opn kv rid)"
proof -
  let ?p = "receiptPath rel opn kv rid"
  have l: "list_all labelChar rel" "list_all labelChar opn" "list_all labelChar kv" "list_all labelChar (rid @ ''.json'')"
    using release_facts [OF rel] digest_facts [OF opn] digest_facts [OF rid] kv
    by (auto simp: list_all_iff label_iff labelChar_def char_class_defs simp del: rmatch.simps)
  have ns: "CHR ''/'' \<notin> set rel" "CHR ''/'' \<notin> set opn" "CHR ''/'' \<notin> set kv" "CHR ''/'' \<notin> set (rid @ ''.json'')"
    using l labelChar_safe(1) unfolding list_all_iff by blast+
  have sp: "split CHR ''/'' ?p = [rel, opn, kv, rid @ ''.json'']"
    using ns by (simp add: receiptPath_def split_append_sep split_no_sep)
  have chars: "c \<in> set ?p \<Longrightarrow> labelChar c \<or> c = CHR ''/''" for c
    using l by (auto simp: receiptPath_def list_all_iff)
  have "controlFree ?p"
    using chars labelChar_safe(5) by (force simp: controlFree_bytes list_all_iff)
  moreover have "\<not> containsAny ?p (backslash # ''?#'')"
    using chars labelChar_safe(2-4) by (force simp: containsAny_def backslash_def list_ex_iff)
  moreover have "length ?p \<le> 1024"
    using release_facts(2) [OF rel] digest_facts(2) [OF opn] digest_facts(2) [OF rid] kv
    by (simp add: receiptPath_def label_iff del: rmatch.simps)
  moreover have "\<not> hasPrefix ?p ''/''"
    using release_facts(1) [OF rel] ns(1) by (cases rel) (auto simp: receiptPath_def hasPrefix_def)
  moreover have "\<not> hasSuffix ?p ''/''" by (simp add: receiptPath_def hasSuffix_byte)
  moreover have "rel \<noteq> ''.'' \<and> rel \<noteq> ''..''" "opn \<noteq> ''.'' \<and> opn \<noteq> ''..''"
    using dotless_segment release_facts [OF rel] digest_facts [OF opn] by blast+
  moreover have "kv \<noteq> []" using kv by (auto simp: label_iff simp del: rmatch.simps)
  ultimately show ?thesis
    using sp dots release_facts(1) [OF rel] digest_facts(1) [OF opn]
    by (auto simp: validBlobName_def receiptPath_def)
qed

section \<open>Receipts that fit\<close>

lemma reason_length: "rmatch reasonPattern s \<Longrightarrow> length s \<le> 64"
  by (simp add: reason_iff del: rmatch.simps)

lemma itoa_short: "0 \<le> i \<Longrightarrow> i < 10000 \<Longrightarrow> length (itoa i) \<le> 4"
  using itoa_nat_length_bound [of "nat i"] by (simp add: itoa_def)

lemma storableI:
  assumes v: "validate r" "wfReceipt r"
    and times: "\<forall>t \<in> {r_ClaimedAt r, r_NextAttemptAt r, r_SendStartedAt r, r_TerminalAt r}. optLength t \<le> 20"
      "length (r_UpdatedAt r) \<le> 20"
    and small: "length (r_ReleaseVersion r) \<le> 1024" "r_StateVersion r < 10000"
      "optionally (\<lambda>s. 0 \<le> s \<and> s < 10000) (r_ProviderHTTPStatus r)"
  shows "storable r"
proof -
  have ids: "length (r_OperationID r) = 64" "length (r_RecipientID r) = 64" "length (r_ReleaseID r) \<le> 64"
      "length (r_HMACKeyVersion r) \<le> 64" "length (r_Provider r) \<le> 8" "length (r_QueueMessageID r) \<le> 128"
      "length (r_SchemaVersion r) = 3" "length (r_Status r) \<le> 12"
    using v(1) release_facts(2)
    by (auto simp: validate_def digest_iff label_iff validReceiptStatus_def simp del: rmatch.simps)
  have opts: "optLength (r_ReasonCode r) \<le> 64" "optLength (r_ProviderRequestID r) \<le> 128"
    using v(1) reason_length by (auto simp: validate_def optLength_def optionally_def split: option.splits)
  have nums: "length (itoa (r_AttemptCount r)) \<le> 4" "length (itoa (r_StateVersion r)) \<le> 4"
      "length (jprint (jintPtr (r_ProviderHTTPStatus r))) \<le> 4"
    using v(1) small(2,3) by (auto simp: validate_def jintPtr_def jint_def intro: itoa_short split: option.splits)
  have "weight r \<le> 20 * 5 + 64 * 4 + 128 * 2 + 64 + 8 + 3 + 12 + 1024"
    using ids opts times small(1) by (simp add: weight_def)
  then show ?thesis using v nums receipt_length [of r] by (simp add: storable_def)
qed

section \<open>One recipient\<close>

definition fitOptions :: "WorkerOptions \<Rightarrow> bool" where
  "fitOptions options \<longleftrightarrow>
     NewWorker False options = Some options \<and> wo_HMACKeyVersion options \<noteq> ''.'' \<and> wo_HMACKeyVersion options \<noteq> ''..''"

definition fitMessage :: "QueueMessage \<Rightarrow> bool" where
  "fitMessage message \<longleftrightarrow>
     wfMessage message \<and> validMessage message (qm_MessageID message) \<and> length (qm_ReleaseVersion message) \<le> 1024"

text \<open>A provider answer that finishes the notification.\<close>

definition delivered :: "MailResult \<Rightarrow> bool" where
  "delivered result \<longleftrightarrow>
     (mr_Outcome result = MailAccepted \<and> mr_HTTPStatus result = 202 \<or>
      mr_Outcome result = MailSimulated \<and> mr_HTTPStatus result = 200) \<and>
     length (mr_RequestID result) \<le> 128 \<and> controlFree (mr_RequestID result) \<and> utf8_valid (mr_RequestID result)"

definition pathOf :: "WorkerOptions \<Rightarrow> QueueMessage \<Rightarrow> Recipient \<Rightarrow> string" where
  "pathOf options message recipient =
     receiptPath (qm_ReleaseID message) (qm_OperationID message) (wo_HMACKeyVersion options)
       (recipientIDOf options recipient)"

definition mailFor :: "WorkerOptions \<Rightarrow> QueueMessage \<Rightarrow> Recipient \<Rightarrow> Notification" where
  "mailFor options message recipient = notificationOf message recipient (recipientIDOf options recipient)"

definition succeeded :: "WorkerOptions \<Rightarrow> QueueMessage \<Rightarrow> Recipient \<Rightarrow> Receipt \<Rightarrow> bool" where
  "succeeded options message recipient r \<longleftrightarrow>
     storable r \<and> receiptMatches r message (recipientIDOf options recipient) \<and>
     (r_Status r = ReceiptAccepted \<or> r_Status r = ReceiptSimulated)"

definition settledIn :: "WorkerOptions \<Rightarrow> QueueMessage \<Rightarrow> Recipient \<Rightarrow> world \<Rightarrow> bool" where
  "settledIn options message recipient w \<longleftrightarrow>
     (\<exists>r e vs. w_versions w (pathOf options message recipient) = storedVersion r e # vs \<and>
        succeeded options message recipient r)"

lemma fitOptions_facts:
  assumes "fitOptions options"
  shows "rmatch versionLabelPattern (wo_HMACKeyVersion options)" "wo_HMACKeyVersion options \<noteq> []"
    "wo_Provider options = ''stub'' \<or> wo_Provider options = ''sendgrid''"
    "1 \<le> wo_MaxAttempts options" "wo_MaxAttempts options \<le> 5"
proof -
  show l: "rmatch versionLabelPattern (wo_HMACKeyVersion options)"
    "wo_Provider options = ''stub'' \<or> wo_Provider options = ''sendgrid''"
    "1 \<le> wo_MaxAttempts options" "wo_MaxAttempts options \<le> 5"
    using assms by (auto simp: fitOptions_def NewWorker_def split: if_splits)
  show "wo_HMACKeyVersion options \<noteq> []" using l(1) by (auto simp: label_iff simp del: rmatch.simps)
qed

lemma fitMessage_facts:
  assumes "fitMessage message"
  shows "rmatch digestPattern (qm_OperationID message)" "rmatch releasePattern (qm_ReleaseID message)"
    "rmatch releaseVersionPattern (qm_ReleaseVersion message)" "length (qm_ReleaseVersion message) \<le> 1024"
    "utf8_valid (qm_OperationID message)" "utf8_valid (qm_ReleaseID message)" "utf8_valid (qm_ReleaseVersion message)"
    "utf8_valid (qm_MessageID message)"
  using assms unfolding fitMessage_def validMessage_def wfMessage_def by blast+

lemma pathOf_valid: "fitOptions options \<Longrightarrow> fitMessage message \<Longrightarrow> validBlobName (pathOf options message recipient)"
  unfolding pathOf_def
  by (intro receiptPath_valid)
    (simp_all add: fitOptions_facts fitMessage_facts recipientIDOf_def, simp_all add: fitOptions_def)

text \<open>The receipts of a first attempt, written at one instant.\<close>

definition claimOf :: "WorkerOptions \<Rightarrow> QueueMessage \<Rightarrow> Recipient \<Rightarrow> string \<Rightarrow> Receipt" where
  "claimOf options message recipient ts = zeroReceipt\<lparr>
     r_AttemptCount := 1, r_ClaimedAt := Some ts, r_HMACKeyVersion := wo_HMACKeyVersion options,
     r_OperationID := qm_OperationID message, r_Provider := wo_Provider options,
     r_QueueMessageID := qm_MessageID message, r_RecipientID := recipientIDOf options recipient,
     r_ReleaseID := qm_ReleaseID message, r_ReleaseVersion := qm_ReleaseVersion message,
     r_SchemaVersion := ''1.0'', r_StateVersion := 1, r_Status := ReceiptClaimed, r_UpdatedAt := ts\<rparr>"

definition startOf :: "Receipt \<Rightarrow> string \<Rightarrow> Receipt" where
  "startOf c ts = c\<lparr>r_Status := ReceiptSendStarted, r_StateVersion := inc64 (r_StateVersion c),
     r_SendStartedAt := Some ts, r_NextAttemptAt := None, r_ReasonCode := None, r_UpdatedAt := ts\<rparr>"

definition finishOf :: "Receipt \<Rightarrow> string \<Rightarrow> MailResult \<Rightarrow> Receipt" where
  "finishOf s ts result = s\<lparr>
     r_Status := mr_Outcome result, r_StateVersion := inc64 (r_StateVersion s),
     r_ProviderHTTPStatus := Some (mr_HTTPStatus result),
     r_ProviderRequestID := (if mr_RequestID result \<noteq> [] then Some (mr_RequestID result) else None),
     r_ReasonCode := None, r_TerminalAt := Some ts, r_NextAttemptAt := None, r_UpdatedAt := ts\<rparr>"

lemmas attempt_defs = claimOf_def startOf_def finishOf_def zeroReceipt_def inc64_def max_int64_def

lemma attempt_storable:
  fixes recipient :: Recipient
  assumes fit: "fitOptions options" "fitMessage message" and now: "printable (t_ns now)" and mail: "delivered result"
  defines "c \<equiv> claimOf options message recipient (formatTime now)"
  shows "storable c" "storable (startOf c (formatTime now))" "storable (finishOf (startOf c (formatTime now)) (formatTime now) result)"
proof -
  note ts = validTime_formatTime [OF now] formatTime_length [OF now] utf8_valid_ascii [OF formatTime_ascii [of now]]
  note opt = fitOptions_facts [OF fit(1)] and msg = fitMessage_facts [OF fit(2)]
  have id: "qm_MessageID message \<noteq> []" "length (qm_MessageID message) \<le> 128" "controlFree (qm_MessageID message)"
    using message_id_ok fit(2) by (auto simp: fitMessage_def)
  have rid: "rmatch digestPattern (recipientIDOf options recipient)" "utf8_valid (recipientIDOf options recipient)"
    by (simp_all add: recipientIDOf_def utf8_valid_ascii ascii_lower_hex hexEncode_lower_hex)
  have "list_all repositoryChar (wo_HMACKeyVersion options)" using opt(1) by (simp add: label_iff del: rmatch.simps)
  then have "ascii (wo_HMACKeyVersion options)" by (rule ascii_list_all) (auto simp: char_class_defs)
  then have kv: "utf8_valid (wo_HMACKeyVersion options)" "utf8_valid (wo_Provider options)"
    using opt(3) by (auto intro: utf8_valid_ascii)
  have st: "utf8_valid ReceiptClaimed" "utf8_valid ReceiptSendStarted" "utf8_valid ReceiptAccepted"
    "utf8_valid ReceiptSimulated" "utf8_valid ''1.0''" by (simp_all add: utf8_valid_ascii)
  have status: "mr_Outcome result = ReceiptAccepted \<or> mr_Outcome result = ReceiptSimulated"
    "mr_HTTPStatus result = 202 \<or> mr_HTTPStatus result = 200"
    "length (mr_RequestID result) \<le> 128" "controlFree (mr_RequestID result)" "utf8_valid (mr_RequestID result)"
    using mail by (auto simp: delivered_def)
  show "storable c" unfolding c_def
    by (rule storableI) (use ts opt msg id rid kv st in \<open>simp_all add: attempt_defs validate_def validReceiptStatus_def
      wfReceipt_def int64_ok_def optLength_def\<close>)
  show "storable (startOf c (formatTime now))" unfolding c_def
    by (rule storableI) (use ts opt msg id rid kv st in \<open>simp_all add: attempt_defs validate_def validReceiptStatus_def
      wfReceipt_def int64_ok_def optLength_def\<close>)
  show "storable (finishOf (startOf c (formatTime now)) (formatTime now) result)" unfolding c_def
    by (rule storableI) (use ts opt msg id rid kv st status in \<open>auto simp: attempt_defs validate_def validReceiptStatus_def
      wfReceipt_def int64_ok_def optLength_def\<close>)
qed

lemma claim_runs:
  assumes "fitOptions options" "fitMessage message" "t_utc now" "printable (t_ns now)"
  shows "ClaimReceipt (intentOf options message (recipientIDOf options recipient)) now =
    Inr (claimOf options message recipient (formatTime now))"
proof -
  have "delivered \<lparr>mr_Outcome = MailAccepted, mr_HTTPStatus = 202, mr_RequestID = [], mr_ReasonCode = [], mr_RetryAfter = 0\<rparr>"
    by (simp add: delivered_def controlFree_bytes utf8_valid_ascii)
  then have "validate (claimOf options message recipient (formatTime now))"
    using attempt_storable(1) [OF assms(1,2,4)] by (simp add: storable_def)
  moreover have "qm_MessageID message \<noteq> []" "length (qm_MessageID message) \<le> 128" "controlFree (qm_MessageID message)"
    using message_id_ok assms(2) by (auto simp: fitMessage_def)
  ultimately show ?thesis
    using fitOptions_facts [OF assms(1)] fitMessage_facts [OF assms(2)] assms(3)
    by (auto simp: ClaimReceipt_def intentOf_def claimOf_def Let_def recipientIDOf_def)
qed

lemma finish_runs:
  assumes "delivered result" "r_Status s = ReceiptSendStarted" "t_utc now"
    and "storable (finishOf s (formatTime now) result)"
  shows "applyMailResult s result now = (finishOf s (formatTime now) result, Complete, [], 0)"
proof -
  have "finish s now (mr_Outcome result) (mr_HTTPStatus result) (mr_RequestID result) [] =
      Inr (finishOf s (formatTime now) result)"
    using assms by (auto simp: finish_def terminal_def Let_def finishOf_def storable_def delivered_def)
  then show ?thesis
    using assms(1) by (auto simp: applyMailResult_def delivered_def Accept_def Simulate_def updatedOrZero_def)
qed

text \<open>A recipient without a receipt: one mail, one finished receipt.\<close>

lemma run_fresh:
  assumes fit: "fitOptions options" "fitMessage message" and now: "printable (t_ns (e_now env))"
    and mail: "delivered (e_mail env (mailFor options message recipient))"
    and none: "w_versions w (pathOf options message recipient) = []"
  shows "\<exists>es w' r. run env (processRecipient options message recipient) w = (Some (settle Complete [] 0), w', es) \<and>
    recorded w (pathOf options message recipient) (mailFor options message recipient) r w' \<and>
    succeeded options message recipient r"
proof -
  let ?p = "pathOf options message recipient" and ?rid = "recipientIDOf options recipient"
  let ?now = "asUTC (e_now env)" and ?res = "e_mail env (mailFor options message recipient)"
  let ?ts = "formatTime ?now"
  define c where "c = claimOf options message recipient ?ts"
  define st where "st = startOf c ?ts"
  define f where "f = finishOf st ?ts ?res"
  have now': "printable (t_ns ?now)" using now by simp
  have ok: "storable c" "storable st" "storable f"
    using attempt_storable [OF fit now' mail, of recipient] by (simp_all only: c_def st_def f_def)
  have stat: "r_Status c = ReceiptClaimed" "r_Status st = ReceiptSendStarted" "r_Status f = mr_Outcome ?res"
    by (simp_all add: attempt_defs c_def st_def f_def)
  have m: "receiptMatches c message ?rid" "receiptMatches f message ?rid"
    using fitOptions_facts(2) [OF fit(1)] by (simp_all add: receiptMatches_def attempt_defs c_def st_def f_def)
  have suc: "succeeded options message recipient f"
    using ok(3) m(2) stat(3) mail by (auto simp: succeeded_def delivered_def)
  note vp = pathOf_valid [OF fit, of recipient]
  let ?e0 = "freshTag (w_versions w ?p)" and ?w0 = "commit ?p (storedVersion c (freshTag (w_versions w ?p))) w"
  obtain es1 where g: "run env (Get ?p) w = (Inr None, w, es1)"
    using run_Get [OF vp, of env w] none by (auto simp: serve_def getReply_def azureStatus_def)
  obtain es2 where cr: "run env (Create ?p c) w = (Inr \<lparr>st_Receipt = c, st_ETag = ?e0\<rparr>, ?w0, es2)"
    using run_put [OF vp ok(1), of w IfAbsent] none by (auto simp: Create_def)
  have v0: "w_versions ?w0 ?p = storedVersion c ?e0 # w_versions w ?p" by (simp add: commit_def)
  have "StartSend c ?now = Inr st"
    using ok(2) stat(1) by (simp add: StartSend_def terminal_def Let_def st_def startOf_def storable_def)
  then obtain es3 w' where sd: "run env (sendRecipient message recipient ?rid ?p ?now \<lparr>st_Receipt = c, st_ETag = ?e0\<rparr>) ?w0 =
      (Some (settle Complete [] 0), w', es3)" "recorded ?w0 ?p (mailFor options message recipient) f w'"
    using run_sendRecipient [OF vp v0 freshTag_nonempty _ ok(2) _ ok(3), of ?now env message recipient ?rid Complete "[]" 0]
      finish_runs [OF mail stat(2) _ ok(3) [unfolded f_def]] stat(3) mail
    by (auto simp: mailFor_def f_def delivered_def)
  have "run env (processRecipient options message recipient) w =
      (Some (settle Complete [] 0), w', EvNow (e_now env) # es1 @ es2 @ es3)"
    using g cr sd(1) m(1) stat(1) claim_runs [OF fit _ now', of recipient]
    by (simp add: processRecipient_def perform_Now_def run_bindE Let_def pathOf_def resumeRecipient_def c_def)
  moreover have "recorded w ?p (mailFor options message recipient) f w'"
    using sd(2) by (auto simp: recorded_def commit_def)
  ultimately show ?thesis using suc by blast
qed

text \<open>A recipient whose notification is finished is skipped, without a write and without a mail.\<close>

lemma run_settled:
  assumes "fitOptions options" "fitMessage message" "settledIn options message recipient w"
  shows "\<exists>es. run env (processRecipient options message recipient) w = (None, w, es)"
proof -
  let ?p = "pathOf options message recipient"
  obtain r e vs where r: "w_versions w ?p = storedVersion r e # vs" "succeeded options message recipient r"
    using assms(3) by (auto simp: settledIn_def)
  then have "getReply (serve (w_versions w ?p)) = Inr (Some \<lparr>st_Receipt = r, st_ETag = e\<rparr>)"
    by (simp add: getReply_serve succeeded_def)
  then obtain es where "run env (Get ?p) w = (Inr (Some \<lparr>st_Receipt = r, st_ETag = e\<rparr>), w, es)"
    using run_Get [OF pathOf_valid [OF assms(1,2), of recipient], of env w] by force
  then have "run env (processRecipient options message recipient) w = (None, w, EvNow (e_now env) # es)"
    using r(2) by (simp add: processRecipient_def perform_Now_def run_bindE Let_def pathOf_def resumeRecipient_def
        succeeded_def)
  then show ?thesis by blast
qed

section \<open>A batch\<close>

definition rowOf :: "Recipient \<Rightarrow> string" where
  "rowOf r = jprint (recipientJson r)"

definition freshIn :: "WorkerOptions \<Rightarrow> QueueMessage \<Rightarrow> world \<Rightarrow> Recipient \<Rightarrow> bool" where
  "freshIn options message w r \<longleftrightarrow> w_versions w (pathOf options message r) = []"

text \<open>A state between deliveries: every recipient of the batch has either no receipt or a successful one.\<close>

definition resumable :: "WorkerOptions \<Rightarrow> QueueMessage \<Rightarrow> Recipient list \<Rightarrow> world \<Rightarrow> bool" where
  "resumable options message rs w \<longleftrightarrow>
     (\<forall>r \<in> set rs. freshIn options message w r \<or> settledIn options message r w)"

text \<open>What a delivery does to the world: one mail for each recipient without a receipt, in the order of the rows.\<close>

definition completed :: "WorkerOptions \<Rightarrow> QueueMessage \<Rightarrow> Recipient list \<Rightarrow> world \<Rightarrow> world \<Rightarrow> bool" where
  "completed options message rs w w' \<longleftrightarrow>
     w_sent w' = rev (map (mailFor options message) (filter (freshIn options message w) rs)) @ w_sent w \<and>
     (\<forall>r \<in> set rs. settledIn options message r w') \<and>
     (\<forall>q. q \<notin> pathOf options message ` {r \<in> set rs. freshIn options message w r} \<longrightarrow> w_versions w' q = w_versions w q)"

definition counted :: "ProcessResult \<Rightarrow> nat \<Rightarrow> nat \<Rightarrow> ProcessResult" where
  "counted res p k = res\<lparr>pr_ProcessedCount := pr_ProcessedCount res + int p, pr_SkippedCount := pr_SkippedCount res + int k\<rparr>"

lemma pathOf_eq: "pathOf options message r = pathOf options message r' \<longleftrightarrow> recipientIDOf options r = recipientIDOf options r'"
  by (simp add: pathOf_def receiptPath_def)

lemma settledIn_frame:
  "w_versions w' (pathOf options message r) = w_versions w (pathOf options message r) \<Longrightarrow>
     settledIn options message r w' = settledIn options message r w"
  by (simp add: settledIn_def)

lemma settled_not_fresh: "settledIn options message r w \<Longrightarrow> \<not> freshIn options message w r"
  by (auto simp: settledIn_def freshIn_def)

lemma recorded_settled:
  "recorded w (pathOf options message r) n q w' \<Longrightarrow> succeeded options message r q \<Longrightarrow> settledIn options message r w'"
  by (auto simp: recorded_def settledIn_def)

text \<open>One row of the loop, on either kind of recipient.\<close>

lemma run_row:
  assumes fit: "fitOptions options" "fitMessage message" and now: "printable (t_ns (e_now env))"
    and mail: "freshIn options message w r \<Longrightarrow> delivered (e_mail env (mailFor options message r))"
    and st: "resumable options message [r] w"
  shows "\<exists>es w'. run env (batchRow options message r res) w =
      ((None, if freshIn options message w r then counted res 1 0 else counted res 0 1), w', es) \<and>
    completed options message [r] w w'"
proof (cases "freshIn options message w r")
  case True
  then obtain es w' q where q: "run env (processRecipient options message r) w = (Some (settle Complete [] 0), w', es)"
      "recorded w (pathOf options message r) (mailFor options message r) q w'" "succeeded options message r q"
    using run_fresh [OF fit now mail] unfolding freshIn_def by blast
  have "run env (batchRow options message r res) w = ((None, counted res 1 0), w', es)"
    using q(1) by (simp add: batchRow_def run_bindE settle_def counted_def)
  moreover have "completed options message [r] w w'"
    using q(2) True recorded_settled [OF q(2,3)] by (auto simp: completed_def recorded_def)
  ultimately show ?thesis using True by auto
next
  case False
  then have s: "settledIn options message r w" using st by (simp add: resumable_def)
  then obtain es where q: "run env (processRecipient options message r) w = (None, w, es)"
    using run_settled [OF fit] by blast
  have "run env (batchRow options message r res) w = ((None, counted res 0 1), w, es)"
    using q by (simp add: batchRow_def run_bindE counted_def)
  moreover have "completed options message [r] w w" using False s by (simp add: completed_def)
  ultimately show ?thesis using False by auto
qed

lemma completed_other:
  assumes "completed options message rs w w'" "recipientIDOf options x \<notin> recipientIDOf options ` set rs"
  shows "w_versions w' (pathOf options message x) = w_versions w (pathOf options message x)"
proof -
  have "pathOf options message x \<notin> pathOf options message ` {r \<in> set rs. freshIn options message w r}"
    using assms(2) by (auto simp: pathOf_eq image_iff)
  then show ?thesis using assms(1) by (simp add: completed_def)
qed

lemma completed_Cons:
  assumes "completed options message [r] w w1" "completed options message rs w1 w2"
    and "recipientIDOf options r \<notin> recipientIDOf options ` set rs"
  shows "completed options message (r # rs) w w2"
proof -
  have other: "w_versions w1 (pathOf options message x) = w_versions w (pathOf options message x)" if "x \<in> set rs" for x
    using assms(3) that by (intro completed_other [OF assms(1)]) (simp, metis imageI)
  then have same: "filter (freshIn options message w1) rs = filter (freshIn options message w) rs"
    "{x \<in> set rs. freshIn options message w1 x} = {x \<in> set rs. freshIn options message w x}"
    by (auto simp: freshIn_def intro!: filter_cong)
  have "w_versions w2 (pathOf options message r) = w_versions w1 (pathOf options message r)"
    using completed_other [OF assms(2,3)] .
  moreover have "w_versions w2 q = w_versions w q"
    if "q \<notin> pathOf options message ` {x \<in> set (r # rs). freshIn options message w x}" for q
  proof -
    have "q \<notin> pathOf options message ` {x \<in> set [r]. freshIn options message w x}"
      "q \<notin> pathOf options message ` {x \<in> set rs. freshIn options message w1 x}" using that same(2) by auto
    then show ?thesis using assms(1,2) by (simp add: completed_def)
  qed
  ultimately show ?thesis
    using assms(1,2) settledIn_frame [of w2 options message r w1] by (auto simp: completed_def same(1))
qed

lemma counted_counted: "counted (counted res p k) p' k' = counted res (p + p') (k + k')"
  by (simp add: counted_def)

lemma run_rows:
  assumes fit: "fitOptions options" "fitMessage message" and now: "printable (t_ns (e_now env))"
  shows "\<lbrakk>\<forall>r \<in> set rs. (freshIn options message w r \<longrightarrow> delivered (e_mail env (mailFor options message r))) \<and>
        ParseRecipient (rowOf r) = Inr r \<and> rowOf r \<noteq> [];
      distinct (map (recipientIDOf options) rs); resumable options message rs w\<rbrakk> \<Longrightarrow>
    \<exists>es w'. run env (scanRows (map rowOf rs) c (batchRow options message) res) w =
      ((Inr (c + length rs), counted res (length (filter (freshIn options message w) rs))
          (length (filter (\<lambda>r. \<not> freshIn options message w r) rs))), w', es) \<and>
    completed options message rs w w'"
proof (induction rs arbitrary: c res w)
  case Nil
  then show ?case by (simp add: completed_def counted_def)
next
  case (Cons r rs c res w)
  obtain e1 w1 where r: "run env (batchRow options message r res) w =
      ((None, if freshIn options message w r then counted res 1 0 else counted res 0 1), w1, e1)"
      "completed options message [r] w w1"
    using run_row [OF fit now, where r = r and w = w and res = res] Cons.prems by (auto simp: resumable_def)
  let ?res = "if freshIn options message w r then counted res 1 0 else counted res 0 1"
  have other: "w_versions w1 (pathOf options message x) = w_versions w (pathOf options message x)" if "x \<in> set rs" for x
    using Cons.prems(2) that by (intro completed_other [OF r(2)]) (simp, metis imageI)
  have "resumable options message rs w1"
    using Cons.prems(3) other settledIn_frame [OF other] by (auto simp: resumable_def freshIn_def)
  moreover have "\<forall>x \<in> set rs. (freshIn options message w1 x \<longrightarrow> delivered (e_mail env (mailFor options message x))) \<and>
      ParseRecipient (rowOf x) = Inr x \<and> rowOf x \<noteq> []"
    using Cons.prems(1) other by (simp add: freshIn_def)
  ultimately obtain e2 w2 where rs: "run env (scanRows (map rowOf rs) (Suc c) (batchRow options message) ?res) w1 =
      ((Inr (Suc c + length rs), counted ?res (length (filter (freshIn options message w1) rs))
          (length (filter (\<lambda>r. \<not> freshIn options message w1 r) rs))), w2, e2)" "completed options message rs w1 w2"
    using Cons.IH [of w1 "Suc c" ?res] Cons.prems(2) by auto
  have same: "filter (freshIn options message w1) rs = filter (freshIn options message w) rs"
    "filter (\<lambda>r. \<not> freshIn options message w1 r) rs = filter (\<lambda>r. \<not> freshIn options message w r) rs"
    using other by (auto simp: freshIn_def intro!: filter_cong)
  have "run env (scanRows (map rowOf (r # rs)) c (batchRow options message) res) w =
      ((Inr (c + length (r # rs)), counted res (length (filter (freshIn options message w) (r # rs)))
          (length (filter (\<lambda>x. \<not> freshIn options message w x) (r # rs)))), w2, e1 @ e2)"
    using r(1) rs(1) Cons.prems(1) by (simp add: run_bindE same counted_counted)
  moreover have "completed options message (r # rs) w w2"
    using completed_Cons [OF r(2) rs(2)] Cons.prems(2) by simp
  ultimately show ?case by blast
qed

section \<open>A whole delivery\<close>

text \<open>The blob service has the referenced content at the referenced version.\<close>

definition serves :: "env \<Rightarrow> BlobReference \<Rightarrow> string \<Rightarrow> bool" where
  "serves env ref content \<longleftrightarrow>
     Matches ref content \<and>
     (case e_blob env (br_Container ref) (br_Name ref) (br_VersionID ref) of
        DlOk a \<Rightarrow> ar_Body a = Some (content, None) \<and> ar_ContentLength a = Some (br_Size ref) \<and>
                  ar_VersionID a = Some (br_VersionID ref)
      | _ \<Rightarrow> False)"

text \<open>A queue message together with the manifest and the rows it refers to.\<close>

definition deliverable :: "WorkerOptions \<Rightarrow> env \<Rightarrow> QueueMessage \<Rightarrow> PublishedManifest \<Rightarrow> Recipient list \<Rightarrow> bool" where
  "deliverable options env message manifest rs \<longleftrightarrow>
     fitOptions options \<and> fitMessage message \<and> length (jprint (messageJson message)) \<le> 65536 \<and>
     printable (t_ns (e_now env)) \<and>
     br_Container (qm_Manifest message) \<in> set (bs_allowed (wo_Blobs options)) \<and>
     bt_Container (qm_RecipientBatch message) \<in> set (bs_allowed (wo_Blobs options)) \<and>
     ParsePublishedManifest (jprint (manifestJson manifest)) = Inr manifest \<and>
     manifestMatchesMessage manifest message \<and> serves env (qm_Manifest message) (jprint (manifestJson manifest)) \<and>
     serves env (Reference (qm_RecipientBatch message)) (batchBody (map rowOf rs)) \<and>
     bt_RecipientCount (qm_RecipientBatch message) = int (length rs) \<and>
     (\<forall>r \<in> set rs. validRecipient r \<and> length (rowOf r) < 1024) \<and> distinct (map (recipientIDOf options) rs)"

lemma run_download:
  assumes "validBlob ref" "br_Container ref \<in> set (bs_allowed store)" "serves env ref content"
  shows "\<exists>es a. run env (download store ref) w = (Inr a, w, es) \<and> ar_Body a = Some (content, None)"
proof -
  obtain a where "e_blob env (br_Container ref) (br_Name ref) (br_VersionID ref) = DlOk a"
      "ar_Body a = Some (content, None)" "ar_ContentLength a = Some (br_Size ref)" "ar_VersionID a = Some (br_VersionID ref)"
    using assms(3) by (auto simp: serves_def split: dl_reply.splits)
  then show ?thesis using assms(1,2) by (auto simp: download_def perform_defs)
qed

lemma run_reads:
  assumes "validBlob ref" "br_Container ref \<in> set (bs_allowed store)" "serves env ref content"
  shows "\<exists>es. run env (Open store ref) w = (Inr (content, None), w, es)"
    and "\<exists>es. run env (Verify store ref) w = (Inr (), w, es)"
    and "length content \<le> 65536 \<Longrightarrow> \<exists>es. run env (ReadSmall store ref maxManifestBytes) w = (Inr content, w, es)"
proof -
  obtain es a where d: "run env (download store ref) w = (Inr a, w, es)" "ar_Body a = Some (content, None)"
    using run_download [OF assms] by blast
  have m: "Matches ref content" using assms(3) by (simp add: serves_def)
  have "take (nat (int (length content) + 1)) content = content" by simp
  then have "verifyStream ref (content, None) = Inr ()"
    using m by (auto simp: verifyStream_def Matches_def Let_def)
  then show "\<exists>es. run env (Verify store ref) w = (Inr (), w, es)" using d by (simp add: Verify_def run_bindE)
  show "\<exists>es. run env (Open store ref) w = (Inr (content, None), w, es)" using d by (simp add: Open_def run_bindE)
  assume "length content \<le> 65536"
  then show "\<exists>es. run env (ReadSmall store ref maxManifestBytes) w = (Inr content, w, es)"
    using d m assms(1) by (simp add: ReadSmall_def run_bindE readBounded_def maxManifestBytes_def Matches_def)
qed

lemma rows_parse:
  assumes "validRecipient r" "length (rowOf r) < 1024"
  shows "ParseRecipient (rowOf r) = Inr r" "rowOf r \<noteq> []" "plainRow (rowOf r)"
proof -
  show "ParseRecipient (rowOf r) = Inr r"
    using assms valid_recipient_wf [OF assms(1)] unfolding recipient_doc.parse_iff recipient_doc.accepted_def
    by (simp add: rowOf_def)
  show "rowOf r \<noteq> []" unfolding rowOf_def recipient_print by simp
  show "plainRow (rowOf r)" using recipient_row [OF assms(1)] assms(2) by (simp add: rowOf_def)
qed

lemma last_batchBody: "rows \<noteq> [] \<Longrightarrow> last (batchBody rows) = newline"
  by (induction rows rule: rev_induct) (simp_all add: batchBody_def)

lemma run_processBatch:
  assumes d: "deliverable options env message manifest rs" and st: "resumable options message rs w"
    and mail: "\<forall>r \<in> set rs. freshIn options message w r \<longrightarrow> delivered (e_mail env (mailFor options message r))"
  shows "\<exists>es w'. run env (processBatch options message) w =
      (counted (settle Complete [] 0) (length (filter (freshIn options message w) rs))
          (length (filter (\<lambda>r. \<not> freshIn options message w r) rs)), w', es) \<and> completed options message rs w w'"
proof -
  let ?res = "counted (settle Complete [] 0) (length (filter (freshIn options message w) rs))
          (length (filter (\<lambda>r. \<not> freshIn options message w r) rs))"
  have fit: "fitOptions options" "fitMessage message" "printable (t_ns (e_now env))"
    using d by (simp_all add: deliverable_def)
  have b: "validBlob (Reference (qm_RecipientBatch message))" "1 \<le> bt_RecipientCount (qm_RecipientBatch message)"
    using fit(2) by (simp_all add: fitMessage_def validMessage_def validBatchReference_def)
  have rows: "\<forall>r \<in> set rs. validRecipient r \<and> length (rowOf r) < 1024" "distinct (map (recipientIDOf options) rs)" "rs \<noteq> []"
    using d b(2) by (auto simp: deliverable_def)
  have tok: "rowTokens (batchBody (map rowOf rs)) = (map rowOf rs, False)"
    using rows(1) rows_parse(3) by (intro rowTokens_batch) (auto simp: list_all_iff)
  have "\<forall>r \<in> set rs. (freshIn options message w r \<longrightarrow> delivered (e_mail env (mailFor options message r))) \<and>
      ParseRecipient (rowOf r) = Inr r \<and> rowOf r \<noteq> []"
    using mail rows(1) rows_parse by blast
  then obtain es w' where s: "run env (scanRows (map rowOf rs) 0 (batchRow options message) (settle Complete [] 0)) w =
      ((Inr (length rs), ?res), w', es)" "completed options message rs w w'"
    using run_rows [OF fit _ rows(2) st, of 0 "settle Complete [] 0"] by auto
  obtain e1 where "run env (Open (wo_Blobs options) (Reference (qm_RecipientBatch message))) w =
      (Inr (batchBody (map rowOf rs), None), w, e1)"
    using run_reads(1) [OF b(1)] d by (fastforce simp: deliverable_def Reference_def)
  then have "run env (processBatch options message) w = (?res, w', e1 @ es)"
    using s(1) rows(3) tok by (simp add: processBatch_def run_bindE scanRecipientRows_def last_batchBody)
  then show ?thesis using s(2) by blast
qed

lemma run_validateBatch:
  assumes "deliverable options env message manifest rs"
  shows "\<exists>es. run env (validateBatch options (Reference (qm_RecipientBatch message))
      (bt_RecipientCount (qm_RecipientBatch message))) w = (Inr (), w, es)"
proof -
  have b: "validBlob (Reference (qm_RecipientBatch message))" "1 \<le> bt_RecipientCount (qm_RecipientBatch message)"
    using assms by (simp_all add: deliverable_def fitMessage_def validMessage_def validBatchReference_def)
  have rows: "\<forall>r \<in> set rs. validRecipient r \<and> length (rowOf r) < 1024" "rs \<noteq> []"
      "bt_RecipientCount (qm_RecipientBatch message) = int (length rs)"
    using assms b(2) by (auto simp: deliverable_def)
  have "rowTokens (batchBody (map rowOf rs)) = (map rowOf rs, False)"
    using rows(1) rows_parse(3) by (intro rowTokens_batch) (auto simp: list_all_iff)
  moreover have "countRows (map rowOf rs) = Inr (length rs)"
    using rows(1) rows_parse by (auto simp: countRows_iff list_all_iff)
  moreover obtain es where "run env (Open (wo_Blobs options) (Reference (qm_RecipientBatch message))) w =
      (Inr (batchBody (map rowOf rs), None), w, es)"
    using run_reads(1) [OF b(1)] assms by (fastforce simp: deliverable_def Reference_def)
  ultimately show ?thesis
    using rows(2,3) by (simp add: validateBatch_def run_bindE scanRecipientRows_def scanRows_count last_batchBody)
qed

lemma run_Process:
  assumes d: "deliverable options env message manifest rs" and st: "resumable options message rs w"
    and mail: "\<forall>r \<in> set rs. freshIn options message w r \<longrightarrow> delivered (e_mail env (mailFor options message r))"
  shows "\<exists>es w'. run env (Process options (qm_MessageID message) (jprint (messageJson message))) w =
      (counted (settle Complete [] 0) (length (filter (freshIn options message w) rs))
          (length (filter (\<lambda>r. \<not> freshIn options message w r) rs)), w', es) \<and> completed options message rs w w'"
proof -
  let ?body = "jprint (manifestJson manifest)" and ?b = "Reference (qm_RecipientBatch message)"
  obtain e4 w' where p: "run env (processBatch options message) w =
      (counted (settle Complete [] 0) (length (filter (freshIn options message w) rs))
          (length (filter (\<lambda>r. \<not> freshIn options message w r) rs)), w', e4)" "completed options message rs w w'"
    using run_processBatch [OF d st mail] by blast
  have msg: "ParseQueueMessage (jprint (messageJson message)) (qm_MessageID message) = Inr message"
    using d unfolding message_doc.parse_iff message_doc.accepted_def
    by (simp add: deliverable_def fitMessage_def maxMessageBytes_def)
  have man: "ParsePublishedManifest ?body = Inr manifest" "manifestMatchesMessage manifest message" "length ?body \<le> 65536"
    using d unfolding deliverable_def manifest_doc.parse_iff manifest_doc.accepted_def by (auto simp: maxManifestBytes_def)
  have v: "validBlob (qm_Manifest message)" "validBlob ?b"
    using d by (simp_all add: deliverable_def fitMessage_def validMessage_def validBatchReference_def)
  obtain e1 where r: "run env (ReadSmall (wo_Blobs options) (qm_Manifest message) maxManifestBytes) w = (Inr ?body, w, e1)"
    using run_reads(3) [OF v(1) _ _ man(3)] d by (fastforce simp: deliverable_def)
  obtain e2 where y: "run env (Verify (wo_Blobs options) ?b) w = (Inr (), w, e2)"
    using run_reads(2) [OF v(2)] d by (fastforce simp: deliverable_def Reference_def)
  obtain e3 where z: "run env (validateBatch options ?b (bt_RecipientCount (qm_RecipientBatch message))) w = (Inr (), w, e3)"
    using run_validateBatch [OF d] by blast
  have "run env (processVerified options message) w = (fst (run env (processBatch options message) w), w', e3 @ e4)"
    using z p(1) by (simp add: processVerified_def run_bindE)
  then have "run env (processManifest options message ?body) w = (fst (run env (processBatch options message) w), w', e2 @ e3 @ e4)"
    using y man by (simp add: processManifest_def run_bindE)
  then have "run env (Process options (qm_MessageID message) (jprint (messageJson message))) w =
      (fst (run env (processBatch options message) w), w', e1 @ e2 @ e3 @ e4)"
    using r msg by (simp add: Process_def run_bindE)
  then show ?thesis using p by auto
qed

text \<open>
  C5. On a service that answers, a valid delivery finishes its batch from any resumable state: it completes,
  sends exactly one mail to each recipient that has no receipt yet, in the order of the rows, and none to the
  others, leaves a successful receipt for every recipient, changes no other blob, and reports how many
  recipients it processed and how many it skipped.
\<close>

theorem delivery_completes:
  assumes "deliverable options env message manifest rs" "resumable options message rs w"
    and "\<forall>r \<in> set rs. freshIn options message w r \<longrightarrow> delivered (e_mail env (mailFor options message r))"
  shows "\<exists>es w'. run env (Process options (qm_MessageID message) (jprint (messageJson message))) w =
      (\<lparr>pr_Disposition = Complete, pr_ReasonCode = [],
        pr_ProcessedCount = int (length (filter (freshIn options message w) rs)),
        pr_SkippedCount = int (length (filter (\<lambda>r. \<not> freshIn options message w r) rs)), pr_RetryAfter = 0\<rparr>, w', es) \<and>
    w_sent w' = rev (map (mailFor options message) (filter (freshIn options message w) rs)) @ w_sent w \<and>
    (\<forall>r \<in> set rs. settledIn options message r w') \<and>
    (\<forall>q. q \<notin> pathOf options message ` {r \<in> set rs. freshIn options message w r} \<longrightarrow> w_versions w' q = w_versions w q)"
  using run_Process [OF assms] by (simp add: counted_def settle_def completed_def)

text \<open>
  C8. Delivering the same message again, at any later time and to any worker of the same configuration, once
  every recipient has a successful receipt: the delivery completes, skips every recipient, sends no mail and
  leaves the storage exactly as it was.
\<close>

theorem redelivery_is_silent:
  assumes "deliverable options env message manifest rs" "\<forall>r \<in> set rs. settledIn options message r w"
  shows "\<exists>es. run env (Process options (qm_MessageID message) (jprint (messageJson message))) w =
      (\<lparr>pr_Disposition = Complete, pr_ReasonCode = [], pr_ProcessedCount = 0,
        pr_SkippedCount = int (length rs), pr_RetryAfter = 0\<rparr>, w, es)"
proof -
  have nf: "\<forall>r \<in> set rs. \<not> freshIn options message w r" using assms(2) settled_not_fresh by blast
  then have l: "filter (freshIn options message w) rs = []" "filter (\<lambda>r. \<not> freshIn options message w r) rs = rs"
    "{r \<in> set rs. freshIn options message w r} = {}" by (auto simp: filter_empty_conv)
  obtain es w' where r: "run env (Process options (qm_MessageID message) (jprint (messageJson message))) w =
      (counted (settle Complete [] 0) 0 (length rs), w', es)" "completed options message rs w w'"
    using run_Process [OF assms(1), of w] assms(2) nf by (auto simp: resumable_def l)
  have "w_sent w' = w_sent w" "w_versions w' = w_versions w" using r(2) by (simp_all add: completed_def l fun_eq_iff)
  then have "w' = w" by simp
  then show ?thesis using r(1) by (simp add: counted_def settle_def)
qed

end
