(* ===== verification/Batches.thy ===== *)
theory Batches
  imports Cohort Completion
begin

text \<open>
  The batches of a publication: the recipients again, in order, cut into pieces of the batch size, each of which the
  worker's row scanner reads back with the announced count.
\<close>

section \<open>Cutting a list into pieces\<close>

function pieces :: "nat \<Rightarrow> 'a list \<Rightarrow> 'a list list" where
  "pieces n xs = (if xs = [] \<or> n = 0 then [] else take n xs # pieces n (drop n xs))"
  by pat_completeness auto
termination
  by (relation "measure (\<lambda>(n, xs). length xs)") auto

declare pieces.simps [simp del]

lemma pieces_Nil [simp]: "pieces n [] = []"
  by (simp add: pieces.simps)

lemma pieces_step: "xs \<noteq> [] \<Longrightarrow> 0 < n \<Longrightarrow> pieces n xs = take n xs # pieces n (drop n xs)"
  by (simp add: pieces.simps [of n xs])

lemma concat_pieces: "0 < n \<Longrightarrow> concat (pieces n xs) = xs"
proof (induction n xs rule: pieces.induct)
  case (1 n xs)
  then show ?case by (cases "xs = []") (simp_all add: pieces_step)
qed

lemma pieces_size: "piece \<in> set (pieces n xs) \<Longrightarrow> piece \<noteq> [] \<and> length piece \<le> n"
proof (induction n xs rule: pieces.induct)
  case (1 n xs)
  then show ?case by (auto simp: pieces.simps [of n xs] split: if_splits)
qed

lemma length_pieces: "0 < n \<Longrightarrow> length (pieces n xs) = (length xs + n - 1) div n"
proof (induction n xs rule: pieces.induct)
  case (1 n xs)
  show ?case
  proof (cases "xs = []")
    case False
    then have "length (pieces n xs) = Suc ((length xs - n + n - 1) div n)"
      using "1.IH" "1.prems" by (simp add: pieces_step)
    also have "\<dots> = (length xs + n - 1) div n"
    proof (cases "n \<le> length xs")
      case True
      define k where "k = length xs - n + n - 1"
      have "length xs + n - 1 = k + n" using True "1.prems" by (simp add: k_def)
      then show ?thesis unfolding k_def [symmetric] using "1.prems" by (simp add: div_add_self2)
    next
      case F: False
      have "0 < length xs" using False by simp
      then have "(length xs + n - 1) div n = 1" using F by (intro div_nat_eqI) (linarith, simp)
      then show ?thesis using F "1.prems" by simp
    qed
    finally show ?thesis .
  qed (use "1.prems" in simp)
qed

lemma nth_pieces: "0 < n \<Longrightarrow> i < length (pieces n xs) \<Longrightarrow> pieces n xs ! i = take n (drop (i * n) xs)"
proof (induction n xs arbitrary: i rule: pieces.induct)
  case (1 n xs)
  then have x: "xs \<noteq> []" by auto
  show ?case
  proof (cases i)
    case 0
    then show ?thesis using x "1.prems" by (simp add: pieces_step)
  next
    case (Suc j)
    then show ?thesis using x "1.IH" [of j] "1.prems" by (simp add: pieces_step add.commute)
  qed
qed

lemma pieces_index: "0 < n \<Longrightarrow> i < length (pieces n xs) \<Longrightarrow> i * n < length xs"
proof -
  assume a: "0 < n" "i < length (pieces n xs)"
  then have "pieces n xs ! i \<noteq> []" using pieces_size [of "pieces n xs ! i" n xs] by simp
  then show ?thesis unfolding nth_pieces [OF a] by (simp add: not_le)
qed

section \<open>The batches\<close>

lemma batchesFrom_pieces: "0 < lim \<Longrightarrow> batchesFrom rs lim start = map batchBytes (pieces lim (drop start rs))"
proof (induction rs lim start rule: batchesFrom.induct)
  case (1 rs n start)
  show ?case
  proof (cases "start < length rs")
    case True
    then have "take (min (start + n) (length rs) - start) (drop start rs) = take n (drop start rs)"
      by (cases "start + n \<le> length rs") (auto simp: min_def)
    then show ?thesis
      using True "1.prems" "1.IH" by (simp add: batchesFrom.simps [of rs n start] pieces_step add.commute Let_def)
  qed (simp add: batchesFrom.simps [of rs n start])
qed

lemma batchBytes_rows: "batchBytes rs = batchBody (map rowOf rs)"
  by (simp add: batchBytes_def batchBody_def rowOf_def comp_def)

lemma buildBatches_pieces:
  assumes "buildBatches rs lim = Inr bodies" "1 \<le> lim"
  shows "bodies = map batchBytes (pieces (nat lim) rs)" "length bodies \<le> 10000" "bodies \<noteq> []"
proof -
  let ?n = "nat lim"
  have n: "0 < ?n" "lim = int ?n" using assms(2) by simp_all
  show b: "bodies = map batchBytes (pieces ?n rs)"
    using assms n batchesFrom_pieces [of ?n rs 0] by (simp add: buildBatches_def Let_def split: if_splits)
  have "(int (length rs) + int ?n - 1) div int ?n = int (length bodies)"
    using n(1) unfolding b length_map length_pieces [OF n(1)] by (simp add: zdiv_int of_nat_diff)
  then show "length bodies \<le> 10000" "bodies \<noteq> []"
    using assms n by (auto simp: buildBatches_def Let_def split: if_splits)
qed

lemma batchRecipientCount_pieces:
  assumes "1 \<le> lim" "i < length (pieces (nat lim) rs)"
  shows "batchRecipientCount (int i) (int (length rs)) lim = int (length (pieces (nat lim) rs ! i))"
proof -
  define n where "n = nat lim"
  have n: "0 < n" "lim = int n" using assms(1) by (simp_all add: n_def)
  have i: "i < length (pieces n rs)" using assms(2) by (simp add: n_def)
  have "i * n < length rs" using pieces_index [OF n(1) i] .
  then have "int (length rs) - int i * int n = int (length rs - i * n)" by (simp add: of_nat_diff flip: of_nat_mult)
  then show ?thesis
    unfolding n_def [symmetric] batchRecipientCount_def n(2) by (simp add: nth_pieces [OF n(1) i] min.commute)
qed

end
