(* ===== verification/Writers.thy ===== *)
theory Writers
  imports Batches
begin

text \<open>
  What the publisher relies on: the contract of the two interfaces of \<open>publisher.go\<close> as locales over all executions, and
  their interpretation by the Azure writers of \<open>azure.go\<close>.
\<close>

section \<open>Observations\<close>

fun enqueued :: "pubEvent list \<Rightarrow> (busMessage \<times> bool) list" where
  "enqueued [] = []"
| "enqueued (EEnqueue m failed # es) = (m, failed) # enqueued es"
| "enqueued (_ # es) = enqueued es"

fun uploads :: "pubEvent list \<Rightarrow> uploadRequest list" where
  "uploads [] = []"
| "uploads (EUpload u r # es) = u # uploads es"
| "uploads (_ # es) = uploads es"

lemma enqueued_append [simp]: "enqueued (es @ es') = enqueued es @ enqueued es'"
  by (induction es rule: enqueued.induct) simp_all

lemma uploads_append [simp]: "uploads (es @ es') = uploads es @ uploads es'"
  by (induction es rule: uploads.induct) simp_all

text \<open>
  Storage has confirmed a reference: it accepted an upload recorded under that digest and answered with that version, or
  it reported that version with that digest and size.
\<close>

fun confirms :: "BlobReference \<Rightarrow> pubEvent \<Rightarrow> bool" where
  "confirms ref (EUpload u (Inr response)) =
     (up_Container u = br_Container ref \<and> up_Name u = br_Name ref \<and> ur_VersionID response = Some (br_VersionID ref) \<and>
      up_Metadata u = [(''sha256'', Some (br_SHA256 ref))])"
| "confirms ref (EGetProperties c n (Inr properties)) =
     (c = br_Container ref \<and> n = br_Name ref \<and> gp_VersionID properties = Some (br_VersionID ref) \<and>
      gp_ContentLength properties = Some (br_Size ref) \<and> metadataValue (gp_Metadata properties) ''sha256'' = br_SHA256 ref)"
| "confirms ref _ = False"

definition confirmed :: "pubEvent list \<Rightarrow> BlobReference \<Rightarrow> bool" where
  "confirmed es ref \<longleftrightarrow> list_ex (confirms ref) es"

lemma confirmed_append [simp]: "confirmed (es @ es') ref \<longleftrightarrow> confirmed es ref \<or> confirmed es' ref"
  by (simp add: confirmed_def)

text \<open>An immutable write: to that blob, only if it is absent, with that digest recorded.\<close>

definition immutableUpload :: "string \<Rightarrow> string \<Rightarrow> string \<Rightarrow> uploadRequest \<Rightarrow> bool" where
  "immutableUpload container name digest u \<longleftrightarrow>
     up_Container u = container \<and> up_Name u = name \<and> up_Condition u = IfAbsent \<and> up_Metadata u = [(''sha256'', Some digest)]"

section \<open>The interfaces\<close>

locale blob_writer =
  fixes writer :: BlobWriter
  assumes bytes_reference: "execP (bw_PutImmutableBytes writer request) es (Inr published) \<Longrightarrow>
      br_Container (pb_Reference published) = ib_Container request \<and> br_Name (pb_Reference published) = ib_Name request \<and>
      Matches (pb_Reference published) (ib_Body request) \<and> confirmed es (pb_Reference published)"
    and bytes_events: "execP (bw_PutImmutableBytes writer request) es result \<Longrightarrow>
      enqueued es = [] \<and>
      list_all (\<lambda>u. immutableUpload (ib_Container request) (ib_Name request) (hexEncode (sha256 (ib_Body request))) u \<and>
        up_Body u = (ib_Body request, None)) (uploads es)"
    and file_reference: "execP (bw_PutImmutableFile writer frequest) es (Inr published) \<Longrightarrow>
      br_Container (pb_Reference published) = if_Container frequest \<and> br_Name (pb_Reference published) = if_Name frequest \<and>
      br_SHA256 (pb_Reference published) = if_ExpectedDigest frequest \<and> br_Size (pb_Reference published) = if_ExpectedSize frequest \<and>
      confirmed es (pb_Reference published)"
    and file_events: "execP (bw_PutImmutableFile writer frequest) es result \<Longrightarrow>
      enqueued es = [] \<and> list_all (immutableUpload (if_Container frequest) (if_Name frequest) (if_ExpectedDigest frequest)) (uploads es)"
    and current_events: "execP (bw_PutCurrentManifest writer crequest) es result \<Longrightarrow>
      enqueued es = [] \<and> list_all (\<lambda>u. up_Container u = cm_Container crequest \<and> up_Name u = cm_Name crequest \<and>
        up_Body u = (cm_Body crequest, None)) (uploads es)"

locale queue_writer =
  fixes queue :: QueueWriter
  assumes send_events: "execP (qw_Send queue request) es result \<Longrightarrow>
    (es = [] \<and> \<not> is_ok result) \<or> (\<exists>failed. es = [EEnqueue (busMessageOf request) failed] \<and> is_ok result = (\<not> failed))"

section \<open>The Azure writers\<close>

lemma published_upload:
  "publishedFromUpload identity response = Inr published \<Longrightarrow>
     pb_Reference published = \<lparr>br_Container = bi_container identity, br_Name = bi_name identity,
       br_SHA256 = bi_digest identity, br_Size = bi_size identity, br_VersionID = the (ur_VersionID response)\<rparr> \<and>
     ur_VersionID response \<noteq> None"
  by (auto simp: publishedFromUpload_def split: option.splits if_splits)

lemma published_properties:
  "publishedFromProperties identity properties = Inr published \<Longrightarrow>
     pb_Reference published = \<lparr>br_Container = bi_container identity, br_Name = bi_name identity,
       br_SHA256 = metadataValue (gp_Metadata properties) ''sha256'', br_Size = the (gp_ContentLength properties),
       br_VersionID = the (gp_VersionID properties)\<rparr> \<and>
     gp_VersionID properties \<noteq> None \<and> gp_ContentLength properties \<noteq> None"
  by (auto simp: publishedFromProperties_def Let_def split: option.splits if_splits)

definition uploadOf :: "blobIdentity \<Rightarrow> reader \<Rightarrow> condition \<Rightarrow> uploadRequest" where
  "uploadOf identity body condition =
     \<lparr>up_Container = bi_container identity, up_Name = bi_name identity, up_Body = body,
      up_ContentType = bi_contentType identity, up_Metadata = [(''sha256'', Some (bi_digest identity))],
      up_Condition = condition\<rparr>"

lemma upload_uploadOf:
  "upload \<lparr>bu_identity = identity, bu_body = body, bu_conditions = condition\<rparr> = Upload (uploadOf identity body condition) Finish"
  by (simp add: upload_def uploadOf_def)

lemma existingBlob_exec:
  assumes "execP (existingBlob identity) es result"
  shows "uploads es = []" "enqueued es = []"
    and "result = Inr published \<Longrightarrow> br_Container (pb_Reference published) = bi_container identity \<and>
      br_Name (pb_Reference published) = bi_name identity \<and> br_SHA256 (pb_Reference published) = bi_digest identity \<and>
      br_Size (pb_Reference published) = bi_size identity \<and> confirmed es (pb_Reference published)"
proof -
  obtain reply where e: "es = [EGetProperties (bi_container identity) (bi_name identity) reply]"
      "result = (case reply of Inl _ \<Rightarrow> Inl errPublication | Inr properties \<Rightarrow>
         (case publishedFromProperties identity properties of Inl _ \<Rightarrow> Inl errPublication
          | Inr published \<Rightarrow> if br_SHA256 (pb_Reference published) \<noteq> bi_digest identity \<or>
              br_Size (pb_Reference published) \<noteq> bi_size identity then Inl errPublication else Inr published))"
    using assms unfolding existingBlob_def execP.simps by blast
  show "uploads es = []" "enqueued es = []" using e(1) by simp_all
  assume "result = Inr published"
  then show "br_Container (pb_Reference published) = bi_container identity \<and>
      br_Name (pb_Reference published) = bi_name identity \<and> br_SHA256 (pb_Reference published) = bi_digest identity \<and>
      br_Size (pb_Reference published) = bi_size identity \<and> confirmed es (pb_Reference published)"
    using e by (auto simp: confirmed_def split: sum.split_asm if_split_asm dest!: published_properties)
qed

lemma putImmutable_cases:
  assumes "execP (putImmutable identity body) es result"
  obtains "es = []" "result = Inl errPublication"
  | response where "es = [EUpload (uploadOf identity body IfAbsent) (Inr response)]" "result = publishedFromUpload identity response"
  | err where "es = [EUpload (uploadOf identity body IfAbsent) (Inl err)]" "result = Inl errPublication"
  | err es' where "es = EUpload (uploadOf identity body IfAbsent) (Inl err) # es'" "execP (existingBlob identity) es' result"
proof (cases "\<not> rmatch pubContainerPattern (bi_container identity) \<or> bi_name identity = [] \<or> bi_size identity < 1 \<or>
         length (bi_digest identity) \<noteq> 64 \<or> bi_contentType identity = []")
  case True
  then show ?thesis using assms that(1) by (simp add: putImmutable_def del: rmatch.simps)
next
  case False
  then obtain reply es' where e: "es = EUpload (uploadOf identity body IfAbsent) reply # es'"
      "execP (case reply of Inr response \<Rightarrow> Finish (publishedFromUpload identity response)
        | Inl err \<Rightarrow> if pubAzureStatus err \<noteq> 409 \<and> pubAzureStatus err \<noteq> 412 then Finish (Inl errPublication)
            else existingBlob identity) es' result"
    using assms unfolding putImmutable_def upload_uploadOf if_not_P [OF False] by auto
  show ?thesis
  proof (cases reply)
    case (Inl err)
    then show ?thesis using e that(3,4) by (auto split: if_split_asm)
  next
    case (Inr response)
    then show ?thesis using e that(2) by simp
  qed
qed

lemma putImmutable_exec:
  assumes "execP (putImmutable identity body) es result"
  shows "uploads es = [] \<or> uploads es = [uploadOf identity body IfAbsent]" "enqueued es = []"
    and "result = Inr published \<Longrightarrow> br_Container (pb_Reference published) = bi_container identity \<and>
      br_Name (pb_Reference published) = bi_name identity \<and> br_SHA256 (pb_Reference published) = bi_digest identity \<and>
      br_Size (pb_Reference published) = bi_size identity \<and> confirmed es (pb_Reference published)"
proof -
  show "uploads es = [] \<or> uploads es = [uploadOf identity body IfAbsent]" "enqueued es = []"
    using assms by (cases rule: putImmutable_cases; auto dest: existingBlob_exec)+
  assume r: "result = Inr published"
  show "br_Container (pb_Reference published) = bi_container identity \<and>
      br_Name (pb_Reference published) = bi_name identity \<and> br_SHA256 (pb_Reference published) = bi_digest identity \<and>
      br_Size (pb_Reference published) = bi_size identity \<and> confirmed es (pb_Reference published)"
    using assms
  proof (cases rule: putImmutable_cases)
    case (2 response)
    then show ?thesis using r by (auto simp: confirmed_def uploadOf_def dest!: sym [of "Inr published"] published_upload)
  next
    case (4 err es')
    then show ?thesis using existingBlob_exec(3) [OF 4(2) r] by (simp add: confirmed_def)
  qed (use r in auto)
qed

lemma uploadOf_immutable:
  "immutableUpload (bi_container identity) (bi_name identity) (bi_digest identity) (uploadOf identity body IfAbsent)"
  by (simp add: immutableUpload_def uploadOf_def)

lemma PutImmutableBytes_exec:
  assumes "execP (PutImmutableBytes request) es result"
  shows "enqueued es = []" "list_all (\<lambda>u. immutableUpload (ib_Container request) (ib_Name request)
      (hexEncode (sha256 (ib_Body request))) u \<and> up_Body u = (ib_Body request, None)) (uploads es)"
    and "result = Inr published \<Longrightarrow> br_Container (pb_Reference published) = ib_Container request \<and>
      br_Name (pb_Reference published) = ib_Name request \<and> Matches (pb_Reference published) (ib_Body request) \<and>
      confirmed es (pb_Reference published)"
proof -
  let ?i = "bytesIdentity (ib_Container request) (ib_Name request) (ib_Body request) (ib_ContentType request)"
  have c: "es = [] \<and> result = Inl errPublication \<or> execP (putImmutable ?i (ib_Body request, None)) es result"
    using assms by (auto simp: PutImmutableBytes_def split: if_split_asm)
  have b: "(uploads es = [] \<or> uploads es = [uploadOf ?i (ib_Body request, None) IfAbsent]) \<and> enqueued es = []"
    using c putImmutable_exec(1,2) by fastforce
  then show "enqueued es = []" "list_all (\<lambda>u. immutableUpload (ib_Container request) (ib_Name request)
      (hexEncode (sha256 (ib_Body request))) u \<and> up_Body u = (ib_Body request, None)) (uploads es)"
    using uploadOf_immutable [of ?i] by (auto simp: bytesIdentity_def uploadOf_def)
  assume "result = Inr published"
  then show "br_Container (pb_Reference published) = ib_Container request \<and>
      br_Name (pb_Reference published) = ib_Name request \<and> Matches (pb_Reference published) (ib_Body request) \<and>
      confirmed es (pb_Reference published)"
    using c putImmutable_exec(3) [of ?i] by (auto simp: bytesIdentity_def Matches_def)
qed

text \<open>Trees that touch nothing but the local file system.\<close>

primrec localOnly :: "'a pub \<Rightarrow> bool" where
  "localOnly (Finish x) = True"
| "localOnly (Getwd k) = (\<forall>r. localOnly (k r))"
| "localOnly (EvalSymlinks n k) = (\<forall>r. localOnly (k r))"
| "localOnly (StatFile n k) = (\<forall>r. localOnly (k r))"
| "localOnly (LstatFile n k) = (\<forall>r. localOnly (k r))"
| "localOnly (ReadDir n k) = (\<forall>r. localOnly (k r))"
| "localOnly (OpenZip n k) = (\<forall>r. localOnly (k r))"
| "localOnly (ReadFile n k) = (\<forall>r. localOnly (k r))"
| "localOnly (GetProperties c n k) = False"
| "localOnly (DownloadBlob c n k) = False"
| "localOnly (Upload u k) = False"
| "localOnly (Enqueue m k) = False"

lemma localOnly_exec: "execP t es x \<Longrightarrow> localOnly t \<Longrightarrow> uploads es = [] \<and> enqueued es = []"
  by (induction t arbitrary: es) (simp_all, (metis rangeI uploads.simps enqueued.simps)+)

lemma localOnly_bindP [simp]: "localOnly t \<Longrightarrow> (\<And>x. localOnly (f x)) \<Longrightarrow> localOnly (bindP t f)"
  by (induction t) auto

lemma localOnly_tryP [simp]: "localOnly t \<Longrightarrow> (\<And>x. localOnly (f x)) \<Longrightarrow> localOnly (tryP t f)"
  by (simp add: tryP_def split: sum.splits)

lemma localOnly_fileDigest [simp]: "localOnly (fileDigest name)"
  by (simp add: fileDigest_def)

lemma localOnly_checkedFile: "localOnly (checkedFile request)"
  by (auto simp: checkedFile_def split: option.splits)

lemma PutImmutableFile_exec:
  assumes "execP (PutImmutableFile request) es result"
  shows "enqueued es = []" "list_all (immutableUpload (if_Container request) (if_Name request) (if_ExpectedDigest request)) (uploads es)"
    and "result = Inr published \<Longrightarrow> br_Container (pb_Reference published) = if_Container request \<and>
      br_Name (pb_Reference published) = if_Name request \<and> br_SHA256 (pb_Reference published) = if_ExpectedDigest request \<and>
      br_Size (pb_Reference published) = if_ExpectedSize request \<and> confirmed es (pb_Reference published)"
proof -
  let ?i = "\<lparr>bi_container = if_Container request, bi_name = if_Name request, bi_digest = if_ExpectedDigest request,
      bi_size = if_ExpectedSize request, bi_contentType = if_ContentType request\<rparr>"
  have c: "(\<exists>err. execP (checkedFile request) es (Inl err) \<and> result = Inl err) \<or>
      (\<exists>e1 body e2. es = e1 @ e2 \<and> execP (checkedFile request) e1 (Inr body) \<and> execP (putImmutable ?i body) e2 result)"
    using assms unfolding PutImmutableFile_def execP_tryP .
  have l: "execP (checkedFile request) e r \<Longrightarrow> uploads e = [] \<and> enqueued e = []" for e r
    by (rule localOnly_exec [OF _ localOnly_checkedFile])
  show "enqueued es = []" using c l putImmutable_exec(2) by fastforce
  show "list_all (immutableUpload (if_Container request) (if_Name request) (if_ExpectedDigest request)) (uploads es)"
    using c l putImmutable_exec(1) [of ?i] uploadOf_immutable [of ?i] by fastforce
  assume "result = Inr published"
  then obtain e1 body e2 where "es = e1 @ e2" "execP (putImmutable ?i body) e2 (Inr published)" using c by blast
  then show "br_Container (pb_Reference published) = if_Container request \<and>
      br_Name (pb_Reference published) = if_Name request \<and> br_SHA256 (pb_Reference published) = if_ExpectedDigest request \<and>
      br_Size (pb_Reference published) = if_ExpectedSize request \<and> confirmed es (pb_Reference published)"
    using putImmutable_exec(3) [of ?i] by fastforce
qed

text \<open>The current manifest: nothing is written, or it is created, or an older version of it is replaced.\<close>

definition supersedes :: "CurrentManifestRequest \<Rightarrow> blobProperties \<Rightarrow> string \<Rightarrow> string \<Rightarrow> bool" where
  "supersedes request properties existing etag \<longleftrightarrow>
     gp_ETag properties = Some etag \<and> metadataMatches (gp_Metadata properties) existing \<and>
     (\<exists>manifest existingKey incomingKey. ParsePublishedManifest existing = Inr manifest \<and>
        productVersionKey (pm_ReleaseVersion manifest) = Some existingKey \<and>
        productVersionKey (cm_ReleaseVersion request) = Some incomingKey \<and> versionKeyLess existingKey incomingKey)"

abbreviation currentIdentity :: "CurrentManifestRequest \<Rightarrow> blobIdentity" where
  "currentIdentity request \<equiv> bytesIdentity (cm_Container request) (cm_Name request) (cm_Body request) ''application/json''"

lemma currentBody_Inr:
  "currentBody properties contentLength reply = Inr existing \<Longrightarrow>
     reply = Inr (Some (existing, None)) \<and> metadataMatches (gp_Metadata properties) existing"
  by (auto simp: currentBody_def pubReadBounded_def split: sum.split_asm option.split_asm if_split_asm prod.split_asm)

lemma downloadCurrent_exec:
  assumes "execP (downloadCurrent container name properties) es result"
  shows "uploads es = [] \<and> enqueued es = []"
    and "result = Inr existing \<Longrightarrow> es = [EDownloadBlob container name (Inr (Some (existing, None)))] \<and>
      metadataMatches (gp_Metadata properties) existing"
proof -
  have c: "es = [] \<and> \<not> is_ok result \<or>
      (\<exists>reply contentLength. es = [EDownloadBlob container name reply] \<and> result = currentBody properties contentLength reply)"
    using assms unfolding downloadCurrent_def by (auto split: if_split_asm option.split_asm)
  then show "uploads es = [] \<and> enqueued es = []" by auto
  assume "result = Inr existing"
  then show "es = [EDownloadBlob container name (Inr (Some (existing, None)))] \<and> metadataMatches (gp_Metadata properties) existing"
    using c currentBody_Inr by (metis is_ok_simps(1))
qed

lemma replaceCurrent_exec:
  assumes "execP (replaceCurrent request properties existing) es result" "metadataMatches (gp_Metadata properties) existing"
  shows "es = [] \<or> (\<exists>etag reply. es = [EUpload (uploadOf (currentIdentity request) (cm_Body request, None) (IfMatch etag)) reply] \<and>
    supersedes request properties existing etag)"
proof (cases "ParsePublishedManifest existing")
  case (Inl err)
  then show ?thesis using assms(1) by (simp add: replaceCurrent_def)
next
  case (Inr manifest)
  show ?thesis
  proof (cases "\<exists>existingKey incomingKey etag. productVersionKey (pm_ReleaseVersion manifest) = Some existingKey \<and>
      productVersionKey (cm_ReleaseVersion request) = Some incomingKey \<and> gp_ETag properties = Some etag \<and>
      versionKeyLess existingKey incomingKey")
    case True
    then obtain etag reply where "es = [EUpload (uploadOf (currentIdentity request) (cm_Body request, None) (IfMatch etag)) reply]"
        "gp_ETag properties = Some etag"
      using assms(1) Inr by (auto simp: replaceCurrent_def Let_def upload_uploadOf)
    then show ?thesis using True Inr assms(2) by (auto simp: supersedes_def)
  next
    case False
    then have "es = []"
      using assms(1) Inr by (auto simp: replaceCurrent_def split: option.split_asm if_split_asm)
    then show ?thesis by simp
  qed
qed

lemma PutCurrentManifest_cases:
  assumes "execP (PutCurrentManifest request) es result"
  obtains "uploads es = []" "enqueued es = []"
  | err es' where "es = EGetProperties (cm_Container request) (cm_Name request) (Inl err) # es'"
      "execP (PutImmutableBytes \<lparr>ib_Container = cm_Container request, ib_Name = cm_Name request,
         ib_Body = cm_Body request, ib_ContentType = ''application/json''\<rparr>) es' result"
  | properties existing etag reply where "supersedes request properties existing etag"
      "es = [EGetProperties (cm_Container request) (cm_Name request) (Inr properties),
             EDownloadBlob (cm_Container request) (cm_Name request) (Inr (Some (existing, None))),
             EUpload (uploadOf (currentIdentity request) (cm_Body request, None) (IfMatch etag)) reply]"
proof (cases "length (cm_Body request) < 1 \<or> int (length (cm_Body request)) > maxCurrentBytes")
  case True
  then show ?thesis using assms that(1) by (simp add: PutCurrentManifest_def)
next
  case False
  then obtain reply es1 where e: "es = EGetProperties (cm_Container request) (cm_Name request) reply # es1"
      "execP (case reply of
        Inl err \<Rightarrow>
          if pubAzureStatus err \<noteq> 404 then Finish (Inl errPublication)
          else PutImmutableBytes \<lparr>ib_Container = cm_Container request, ib_Name = cm_Name request,
                 ib_Body = cm_Body request, ib_ContentType = ''application/json''\<rparr>
      | Inr properties \<Rightarrow>
          tryP (downloadCurrent (cm_Container request) (cm_Name request) properties) (\<lambda>existing.
            if existing = cm_Body request
            then Finish (publishedFromProperties
                   \<lparr>bi_container = cm_Container request, bi_name = cm_Name request, bi_digest = [], bi_size = 0, bi_contentType = []\<rparr>
                   properties)
            else replaceCurrent request properties existing)) es1 result"
    using assms unfolding PutCurrentManifest_def if_not_P [OF False] execP.simps by blast
  show ?thesis
  proof (cases reply)
    case (Inl err)
    then show ?thesis using e that(1,2) by (auto split: if_split_asm)
  next
    case (Inr properties)
    then consider err where "execP (downloadCurrent (cm_Container request) (cm_Name request) properties) es1 (Inl err)"
      | d existing es2 where "es1 = d @ es2" "execP (downloadCurrent (cm_Container request) (cm_Name request) properties) d (Inr existing)"
          "es2 = [] \<or> execP (replaceCurrent request properties existing) es2 result"
      using e(2) unfolding Inr sum.case execP_tryP
      by (elim disjE exE conjE) (simp, metis append_Nil2 execP.simps(1))
    then show ?thesis
    proof cases
      case 1
      then show ?thesis using e(1) that(1) downloadCurrent_exec(1) by fastforce
    next
      case 2
      note d = downloadCurrent_exec(2) [OF 2(2) HOL.refl]
      show ?thesis using 2(1,3) d e(1) Inr that(1,3) replaceCurrent_exec by fastforce
    qed
  qed
qed

lemma PutCurrentManifest_exec:
  assumes "execP (PutCurrentManifest request) es result"
  shows "enqueued es = []" "list_all (\<lambda>u. up_Container u = cm_Container request \<and> up_Name u = cm_Name request \<and>
      up_Body u = (cm_Body request, None)) (uploads es)"
proof -
  show "enqueued es = []"
    using assms by (cases rule: PutCurrentManifest_cases) (auto dest: PutImmutableBytes_exec(1))
  show "list_all (\<lambda>u. up_Container u = cm_Container request \<and> up_Name u = cm_Name request \<and>
      up_Body u = (cm_Body request, None)) (uploads es)"
    using assms
  proof (cases rule: PutCurrentManifest_cases)
    case (2 err es')
    then show ?thesis using PutImmutableBytes_exec(2) [OF 2(2)] by (simp add: immutableUpload_def list_all_iff)
  qed (simp_all add: uploadOf_def bytesIdentity_def)
qed

lemma azureBlobWriter_sel:
  "bw_PutImmutableBytes azureBlobWriter = PutImmutableBytes" "bw_PutImmutableFile azureBlobWriter = PutImmutableFile"
  "bw_PutCurrentManifest azureBlobWriter = PutCurrentManifest"
  by (simp_all add: azureBlobWriter_def)

interpretation azure_blobs: blob_writer azureBlobWriter
proof (unfold_locales; unfold azureBlobWriter_sel)
  fix request es published
  assume "execP (PutImmutableBytes request) es (Inr published)"
  then show "br_Container (pb_Reference published) = ib_Container request \<and> br_Name (pb_Reference published) = ib_Name request \<and>
      Matches (pb_Reference published) (ib_Body request) \<and> confirmed es (pb_Reference published)"
    by (rule PutImmutableBytes_exec(3)) (rule HOL.refl)
next
  fix request es and result :: "PublishedBlob result"
  assume "execP (PutImmutableBytes request) es result"
  then show "enqueued es = [] \<and>
      list_all (\<lambda>u. immutableUpload (ib_Container request) (ib_Name request) (hexEncode (sha256 (ib_Body request))) u \<and>
        up_Body u = (ib_Body request, None)) (uploads es)"
    by (intro conjI PutImmutableBytes_exec(1,2))
next
  fix request es published
  assume "execP (PutImmutableFile request) es (Inr published)"
  then show "br_Container (pb_Reference published) = if_Container request \<and> br_Name (pb_Reference published) = if_Name request \<and>
      br_SHA256 (pb_Reference published) = if_ExpectedDigest request \<and> br_Size (pb_Reference published) = if_ExpectedSize request \<and>
      confirmed es (pb_Reference published)"
    by (rule PutImmutableFile_exec(3)) (rule HOL.refl)
next
  fix request es and result :: "PublishedBlob result"
  assume "execP (PutImmutableFile request) es result"
  then show "enqueued es = [] \<and>
      list_all (immutableUpload (if_Container request) (if_Name request) (if_ExpectedDigest request)) (uploads es)"
    by (intro conjI PutImmutableFile_exec(1,2))
next
  fix request es and result :: "PublishedBlob result"
  assume "execP (PutCurrentManifest request) es result"
  then show "enqueued es = [] \<and> list_all (\<lambda>u. up_Container u = cm_Container request \<and> up_Name u = cm_Name request \<and>
        up_Body u = (cm_Body request, None)) (uploads es)"
    by (intro conjI PutCurrentManifest_exec)
qed

lemma queueSend_exec:
  assumes "execP (queueSend request) es result"
  shows "(es = [] \<and> \<not> is_ok result) \<or> (\<exists>failed. es = [EEnqueue (busMessageOf request) failed] \<and> is_ok result = (\<not> failed))"
proof (cases "qr_MessageID request = [] \<or> length (qr_MessageID request) > 128 \<or> length (qr_Body request) < 1 \<or>
         length (qr_Body request) > 64 * 1024")
  case True
  then show ?thesis using assms unfolding queueSend_def if_P [OF True] by simp
next
  case False
  obtain failed where "es = [EEnqueue (busMessageOf request) failed]" "result = (if failed then Inl errPublication else Inr ())"
    using assms unfolding queueSend_def if_not_P [OF False] execP.simps by blast
  then show ?thesis by simp
qed

interpretation azure_queue: queue_writer azureQueueWriter
  by unfold_locales (unfold azureQueueWriter_def QueueWriter.select_convs, rule queueSend_exec)

end
