(* ===== verification/Publishing.thy ===== *)
theory Publishing
  imports Writers
begin

text \<open>
  Every execution of a publication, whatever the file system, storage and the queue answer: which messages are sent, what
  has been stored before each of them, and what a successful publication has done.
\<close>

section \<open>Quiet phases\<close>

lemma exec_map:
  "execP (bindP t (\<lambda>x. Finish (f x))) es result \<longleftrightarrow> (\<exists>x. execP t es x \<and> result = f x)"
  by (simp add: execP_bindP)

lemma quiet_split:
  assumes "enqueued es1 = []" "es1 @ es2 = pre @ EEnqueue m failed # post"
  shows "\<exists>pre'. pre = es1 @ pre' \<and> es2 = pre' @ EEnqueue m failed # post"
proof -
  consider us where "es1 = pre @ us" "us @ es2 = EEnqueue m failed # post"
    | us where "es1 @ us = pre" "es2 = us @ EEnqueue m failed # post"
    using assms(2) by (auto simp: append_eq_append_conv2)
  then show ?thesis
  proof cases
    case 1
    then show ?thesis using assms(1) by (cases us) auto
  next
    case 2
    then show ?thesis by blast
  qed
qed

lemma enqueued_pos: "enqueued (pre @ EEnqueue m failed # post) \<noteq> []"
  by simp

lemma localOnly_cleanDirectory: "localOnly (cleanDirectory raw)"
  by (auto simp: cleanDirectory_def absPath_def split: option.splits)

lemma localOnly_verifySourceArtifact: "localOnly (verifySourceArtifact root release)"
  using localOnly_cleanDirectory
  by (auto simp: verifySourceArtifact_def verifyArtifactAt_def Let_def split: option.splits)

lemma localOnly_plan: "localOnly (plan publisher request)"
  by (simp add: plan_def localOnly_verifySourceArtifact)

section \<open>Plans\<close>

text \<open>What planning has established.\<close>

definition planned :: "Publisher \<Rightarrow> PublishRequest \<Rightarrow> publicationPlan \<Rightarrow> bool" where
  "planned publisher request p \<longleftrightarrow>
     pl_request p = request \<and>
     pl_operationID p = deriveOperationID (pc_Repository (pu_config publisher)) (pq_CommitSHA request) (pq_Source request) \<and>
     buildBatches (pq_Recipients request) (pc_BatchSize (pu_config publisher)) = Inr (pl_batches p) \<and>
     rmatch pubCommitPattern (pq_CommitSHA request) \<and> validCreatedAt (pq_CreatedAt request) \<and>
     validRecipients (pq_Recipients request) \<and> validSourceRecord (pq_Source request)"

lemma verify_valid: "execP (verifySourceArtifact root release) es (Inr path) \<Longrightarrow> validSourceRecord release"
  by (auto simp: verifySourceArtifact_def split: if_split_asm)

lemma plan_planned:
  assumes "execP (plan publisher request) es (Inr p)"
  shows "planned publisher request p" "execP (verifySourceArtifact (pq_RepositoryRoot request) (pq_Source request)) es (Inr (pl_artifactPath p))"
proof -
  have ok: "\<not> (\<not> rmatch pubCommitPattern (pq_CommitSHA request) \<or> \<not> validCreatedAt (pq_CreatedAt request) \<or>
         length (pq_Recipients request) = 0 \<or> \<not> validRecipients (pq_Recipients request))"
    (is "\<not> ?refused")
  proof
    assume ?refused
    then show False using assms unfolding plan_def if_P [OF \<open>?refused\<close>] by simp
  qed
  obtain verified where v: "execP (verifySourceArtifact (pq_RepositoryRoot request) (pq_Source request)) es verified"
      "Inr p = (case verified of Inl _ \<Rightarrow> Inl (publicationError ''SOURCE_ARTIFACT'')
        | Inr artifactPath \<Rightarrow>
          (case buildBatches (pq_Recipients request) (pc_BatchSize (pu_config publisher)) of
             Inl err \<Rightarrow> Inl err
           | Inr batches \<Rightarrow>
               Inr \<lparr>pl_request = request, pl_artifactPath = artifactPath,
                    pl_operationID = deriveOperationID (pc_Repository (pu_config publisher)) (pq_CommitSHA request) (pq_Source request),
                    pl_batches = batches\<rparr>))"
    using assms unfolding plan_def if_not_P [OF ok] exec_map by blast
  then obtain path bodies where b: "verified = Inr path" "buildBatches (pq_Recipients request) (pc_BatchSize (pu_config publisher)) = Inr bodies"
      "p = \<lparr>pl_request = request, pl_artifactPath = path,
            pl_operationID = deriveOperationID (pc_Repository (pu_config publisher)) (pq_CommitSHA request) (pq_Source request),
            pl_batches = bodies\<rparr>"
    by (auto split: sum.split_asm)
  show "execP (verifySourceArtifact (pq_RepositoryRoot request) (pq_Source request)) es (Inr (pl_artifactPath p))"
    using v(1) b by simp
  show "planned publisher request p"
    using ok b v(1) verify_valid by (auto simp: planned_def)
qed

lemma Publish_cases:
  assumes "execP (Publish False publisher request) es result"
  obtains "enqueued es = []" "uploads es = []" "result = Inl errPublication"
  | e1 e2 p where "es = e1 @ e2" "execP (plan publisher request) e1 (Inr p)" "execP (publishPlan publisher p) e2 result"
proof -
  obtain e1 e2 r where e: "es = e1 @ e2" "execP (plan publisher request) e1 r"
      "execP (case r of Inl _ \<Rightarrow> Finish (Inl errPublication) | Inr p \<Rightarrow> if False then Finish (Inl errPublication) else publishPlan publisher p)
        e2 result"
    using assms unfolding Publish_def execP_bindP by blast
  show ?thesis
  proof (cases r)
    case (Inl err)
    then show ?thesis using e that(1) localOnly_exec [OF e(2) localOnly_plan] by simp
  next
    case (Inr p)
    then show ?thesis using e that(2) by simp
  qed
qed

section \<open>The phases\<close>

context blob_writer
begin

lemma publishIdentity_exec:
  assumes "pu_blobs publisher = writer" "execP (publishIdentity publisher p) es result"
  shows "enqueued es = []"
  using assms(2) bytes_events unfolding publishIdentity_def exec_map assms(1) by blast

lemma publishDAR_exec:
  assumes "pu_blobs publisher = writer" "execP (publishDAR publisher p) es result"
  shows "enqueued es = []"
    and "result = Inr published \<Longrightarrow> execP (bw_PutImmutableFile writer (darRequest publisher p)) es (Inr published)"
proof -
  obtain put where p: "execP (bw_PutImmutableFile writer (darRequest publisher p)) es put"
      "result = (case put of Inl _ \<Rightarrow> Inl (publicationError ''DAR_BLOB'') | Inr published \<Rightarrow>
             if br_SHA256 (pb_Reference published) \<noteq> sr_DARSHA256 (pq_Source (pl_request p)) \<or>
                br_Size (pb_Reference published) \<noteq> sr_DARSize (pq_Source (pl_request p)) \<or>
                br_Container (pb_Reference published) \<noteq> pc_ReleasesContainer (pu_config publisher)
             then Inl (publicationError ''DAR_BLOB'') else Inr published)"
    using assms(2) unfolding publishDAR_def Let_def exec_map assms(1) by blast
  show "enqueued es = []" using p(1) file_events by blast
  show "result = Inr published \<Longrightarrow> execP (bw_PutImmutableFile writer (darRequest publisher p)) es (Inr published)"
    using p by (cases put) (simp_all split: if_split_asm)
qed

lemma publishManifest_exec:
  assumes "pu_blobs publisher = writer" "execP (publishManifest publisher p dar) es result"
  shows "enqueued es = []"
    and "result = Inr (published, body) \<Longrightarrow> body = jprint (manifestJson (manifestOf publisher p dar)) \<and>
      is_ok (ParsePublishedManifest body) \<and> execP (bw_PutImmutableBytes writer (manifestRequest publisher p body)) es (Inr published)"
proof -
  let ?b = "jprint (manifestJson (manifestOf publisher p dar))"
  have c: "es = [] \<and> \<not> is_ok result \<or> (is_ok (ParsePublishedManifest ?b) \<and>
      (\<exists>put. execP (bw_PutImmutableBytes writer (manifestRequest publisher p ?b)) es put \<and>
        result = (case put of Inl _ \<Rightarrow> Inl (publicationError ''MANIFEST_BLOB'') | Inr published \<Rightarrow> Inr (published, ?b))))"
    using assms(2) unfolding publishManifest_def Let_def assms(1)
    by (cases "is_ok (ParsePublishedManifest ?b)") (simp_all only: exec_map if_True if_False simp_thms execP.simps is_ok_simps)
  then show "enqueued es = []" using bytes_events by (metis enqueued.simps(1))
  assume r: "result = Inr (published, body)"
  then obtain put where put: "execP (bw_PutImmutableBytes writer (manifestRequest publisher p ?b)) es put"
      "result = (case put of Inl _ \<Rightarrow> Inl (publicationError ''MANIFEST_BLOB'') | Inr published \<Rightarrow> Inr (published, ?b))"
      "is_ok (ParsePublishedManifest ?b)"
    using c by (metis is_ok_simps(1))
  then show "body = ?b \<and> is_ok (ParsePublishedManifest body) \<and>
      execP (bw_PutImmutableBytes writer (manifestRequest publisher p body)) es (Inr published)"
    using r by (cases put) simp_all
qed

lemma publishBatchList_cases:
  assumes "pu_blobs publisher = writer" "execP (publishBatchList publisher p index (body # bodies)) es result"
  obtains put where "execP (bw_PutImmutableBytes writer (batchRequest publisher p index body)) es put" "\<not> is_ok result"
  | e1 e2 batch r where "es = e1 @ e2" "execP (bw_PutImmutableBytes writer (batchRequest publisher p index body)) e1 (Inr batch)"
      "execP (publishBatchList publisher p (Suc index) bodies) e2 r" "result = map_sum id ((#) batch) r"
proof -
  obtain e1 e2 put where e: "es = e1 @ e2" "execP (bw_PutImmutableBytes writer (batchRequest publisher p index body)) e1 put"
      "execP (case put of Inl _ \<Rightarrow> Finish (Inl (publicationError ''BATCH_BLOB'')) | Inr batch \<Rightarrow>
         tryP (publishBatchList publisher p (Suc index) bodies) (\<lambda>published. Finish (Inr (batch # published)))) e2 result"
    using assms(2) unfolding publishBatchList.simps execP_bindP assms(1) by blast
  show ?thesis
  proof (cases put)
    case (Inl err)
    then have "e2 = []" "\<not> is_ok result" using e(3) by simp_all
    then show ?thesis using e(1,2) that(1) by simp
  next
    case (Inr batch)
    then obtain r where "execP (publishBatchList publisher p (Suc index) bodies) e2 r" "result = map_sum id ((#) batch) r"
      using e(3) by (auto simp: execP_tryP)
    then show ?thesis using e(1,2) Inr that(2) by simp
  qed
qed

lemma publishBatchList_quiet:
  assumes "pu_blobs publisher = writer" "execP (publishBatchList publisher p index bodies) es result"
  shows "enqueued es = []"
  using assms(2)
proof (induction bodies arbitrary: index es result)
  case (Cons body bodies)
  from assms(1) Cons.prems show ?case
    by (cases rule: publishBatchList_cases) (auto dest: bytes_events Cons.IH)
qed simp

lemma publishBatchList_result:
  assumes "pu_blobs publisher = writer" "execP (publishBatchList publisher p index bodies) es (Inr published)"
  shows "length published = length bodies \<and>
    (\<forall>k < length bodies. Matches (pb_Reference (published ! k)) (bodies ! k) \<and> confirmed es (pb_Reference (published ! k)) \<and>
       br_Container (pb_Reference (published ! k)) = pc_BatchesContainer (pu_config publisher) \<and>
       br_Name (pb_Reference (published ! k)) = ib_Name (batchRequest publisher p (index + k) []))"
  using assms(2)
proof (induction bodies arbitrary: index es published)
  case (Cons body bodies)
  from assms(1) Cons.prems show ?case
  proof (cases rule: publishBatchList_cases)
    case (2 e1 e2 batch r)
    then obtain rest where r: "r = Inr rest" "published = batch # rest" by (cases r) simp_all
    note ih = Cons.IH [OF 2(3) [unfolded r(1)]] and b = bytes_reference [OF 2(2)]
    show ?thesis using ih b 2(1) r(2) by (auto simp: batchRequest_def nth_Cons split: nat.split)
  qed simp
qed simp

end

context queue_writer
begin

lemma enqueueFrom_cases:
  assumes "pu_queue publisher = queue" "execP (enqueueFrom publisher p manifest index (batch # batches)) es result"
  obtains "es = []" "\<not> is_ok result"
  | request where "queueRequest publisher p manifest (pb_Reference batch) index = Inr request"
      "es = [EEnqueue (busMessageOf request) True]" "\<not> is_ok result"
  | request es' where "queueRequest publisher p manifest (pb_Reference batch) index = Inr request"
      "es = EEnqueue (busMessageOf request) False # es'" "execP (enqueueFrom publisher p manifest (Suc index) batches) es' result"
proof (cases "queueRequest publisher p manifest (pb_Reference batch) index")
  case (Inl err)
  then show ?thesis using assms(2) that(1) by simp
next
  case (Inr request)
  obtain e1 e2 r where e: "es = e1 @ e2" "execP (qw_Send queue request) e1 r"
      "execP (if \<not> is_ok r then Finish (Inl (publicationError ''MESSAGE_SEND''))
         else enqueueFrom publisher p manifest (Suc index) batches) e2 result"
    using assms(2) unfolding enqueueFrom.simps Inr sum.case execP_bindP assms(1) by blast
  show ?thesis using send_events [OF e(2)]
  proof (elim disjE exE conjE)
    assume "e1 = []" "\<not> is_ok r"
    then show ?thesis using e that(1) by simp
  next
    fix failed assume "e1 = [EEnqueue (busMessageOf request) failed]" "is_ok r = (\<not> failed)"
    then show ?thesis using e Inr that(2,3) by (cases failed) simp_all
  qed
qed

lemma enqueueFrom_message:
  assumes "pu_queue publisher = queue" "execP (enqueueFrom publisher p manifest index batches) (pre @ EEnqueue m failed # post) result"
  shows "uploads pre = [] \<and> (\<exists>k request. k < length batches \<and> m = busMessageOf request \<and>
    queueRequest publisher p manifest (pb_Reference (batches ! k)) (index + k) = Inr request)"
  using assms(2)
proof (induction batches arbitrary: index pre)
  case (Cons batch batches)
  from assms(1) Cons.prems show ?case
  proof (cases rule: enqueueFrom_cases)
    case (2 request)
    then show ?thesis by (cases pre) auto
  next
    case (3 request es')
    show ?thesis
    proof (cases pre)
      case Nil
      then show ?thesis using 3 by auto
    next
      case (Cons e pre')
      then have "es' = pre' @ EEnqueue m failed # post" "e = EEnqueue (busMessageOf request) False" using 3(2) by simp_all
      then show ?thesis using Cons.IH [of "Suc index" pre'] 3(3) Cons by fastforce
    qed
  qed simp
qed simp

lemma enqueueFrom_complete:
  assumes "pu_queue publisher = queue" "execP (enqueueFrom publisher p manifest index batches) es (Inr u)"
  shows "uploads es = [] \<and> (\<exists>requests. length requests = length batches \<and>
    enqueued es = map (\<lambda>request. (busMessageOf request, False)) requests \<and>
    (\<forall>k < length batches. queueRequest publisher p manifest (pb_Reference (batches ! k)) (index + k) = Inr (requests ! k)))"
  using assms(2)
proof (induction batches arbitrary: index es)
  case (Cons batch batches)
  from assms(1) Cons.prems show ?case
  proof (cases rule: enqueueFrom_cases)
    case (3 request es')
    then obtain requests where r: "uploads es' = []" "length requests = length batches"
        "enqueued es' = map (\<lambda>request. (busMessageOf request, False)) requests"
        "\<forall>k < length batches. queueRequest publisher p manifest (pb_Reference (batches ! k)) (Suc index + k) = Inr (requests ! k)"
      using Cons.IH by blast
    then show ?thesis
      using 3 by (intro conjI exI [of _ "request # requests"]) (auto simp: nth_Cons split: nat.split)
  qed simp_all
qed simp

end

end
