(* ===== verification/Publication.thy ===== *)
theory Publication
  imports Publishing
begin

text \<open>
  Claims about every execution of a publication with the Azure writers: each message is accepted by the worker's parser
  and refers only to content that storage confirmed before it was sent; a successful publication announces every
  recipient exactly once.
\<close>

section \<open>Documents that pass their own parser\<close>

context document
begin

lemma parse_printed:
  assumes "is_ok (parse (jprint (json_of x)))" "jwf (json_of x)" "\<And>y. json_of x = json_of y \<Longrightarrow> x = y"
  shows "parse (jprint (json_of x)) = Inr x"
proof -
  obtain y where y: "parse (jprint (json_of x)) = Inr y" using assms(1) by (auto simp: is_ok_iff)
  then have e: "jprint (json_of x) = jprint (json_of y)" and "wf y" unfolding parse_iff accepted_def by blast+
  then have "json_doc (jprint (json_of y)) = Some (json_of y)" by (intro json_doc_print json_wf)
  then have "json_of x = json_of y" using json_doc_print [OF assms(2)] e by (metis option.inject)
  then show ?thesis using y assms(3) by metis
qed

end

lemma itoa_inj: "itoa i = itoa j \<longleftrightarrow> i = j"
  using itoa_inj_all by blast

lemma blobJson_inj: "blobJson x = blobJson y \<longleftrightarrow> x = y"
  by (cases x; cases y) (auto simp: blobJson_def jint_def itoa_inj)

lemma batchJson_inj: "batchJson x = batchJson y \<longleftrightarrow> x = y"
  by (cases x; cases y) (auto simp: batchJson_def jint_def itoa_inj)

lemma messageJson_inj: "messageJson x = messageJson y \<longleftrightarrow> x = y"
  by (cases x; cases y) (auto simp: messageJson_def blobJson_inj batchJson_inj)

lemma manifestJson_inj: "manifestJson x = manifestJson y \<longleftrightarrow> x = y"
  by (cases x; cases y) (auto simp: manifestJson_def blobJson_inj)

text \<open>Strings that \<open>json.Marshal\<close> prints without replacing bytes.\<close>

definition textBlob :: "BlobReference \<Rightarrow> bool" where
  "textBlob r \<longleftrightarrow> utf8_valid (br_Container r) \<and> utf8_valid (br_Name r) \<and> utf8_valid (br_SHA256 r) \<and> utf8_valid (br_VersionID r)"

lemma jwf_blobJson: "textBlob r \<Longrightarrow> jwf (blobJson r)"
  by (simp add: blobJson_def textBlob_def utf8_key)

lemma jwf_batchJson: "textBlob (Reference r) \<Longrightarrow> jwf (batchJson r)"
  by (simp add: batchJson_def textBlob_def Reference_def utf8_key)

section \<open>The texts of a plan\<close>

lemma ascii_match: "rmatch r s \<Longrightarrow> (\<And>c. rbytes r c \<Longrightarrow> byte c < 0x80) \<Longrightarrow> ascii s"
  using rmatch_bytes by (auto simp: ascii_def list_all_iff)

lemma pub_patterns:
  "pubCommitPattern = commitPattern" "pubContainerPattern = containerPattern" "pubRepositoryPattern = repositoryPattern"
  "releaseIDPattern = releasePattern"
  by (simp_all add: pubCommitPattern_def commitPattern_def pubContainerPattern_def containerPattern_def
      pubRepositoryPattern_def repositoryPattern_def releaseIDPattern_def releasePattern_def)

lemma container_ascii: "rmatch containerPattern s \<Longrightarrow> ascii s"
  by (erule ascii_match) (auto simp: containerPattern_def rbytes_unfold char_class_defs dest!: rbytes_dest)

lemma release_ascii: "rmatch releasePattern s \<Longrightarrow> ascii s"
  by (erule ascii_match) (auto simp: releasePattern_def rbytes_unfold char_class_defs dest!: rbytes_dest)

lemma commit_ascii: "rmatch commitPattern s \<Longrightarrow> ascii s"
  by (erule ascii_match) (auto simp: commitPattern_def char_class_defs dest!: rbytes_dest)

lemma repository_ascii: "rmatch repositoryPattern s \<Longrightarrow> ascii s"
  by (erule ascii_match) (auto simp: repositoryPattern_def rbytes_unfold char_class_defs)

lemma digits_ascii: "list_all is_digit s \<Longrightarrow> ascii s"
  by (erule ascii_list_all) (auto simp: char_class_defs)

lemma ascii_append [simp]: "ascii (s @ t) \<longleftrightarrow> ascii s \<and> ascii t"
  by (simp add: ascii_def)

lemma version_ascii: "rmatch productVersionPattern v \<Longrightarrow> ascii v"
  unfolding productVersion_iff by (auto dest!: numericPart_digits digits_ascii)

lemma hex_ascii: "ascii (hexEncode s)"
  by (rule ascii_lower_hex) (rule hexEncode_lower_hex)

text \<open>The policy of a publisher that was constructed.\<close>

definition soundConfig :: "PublicationConfig \<Rightarrow> bool" where
  "soundConfig config \<longleftrightarrow>
     rmatch repositoryPattern (pc_Repository config) \<and> rmatch containerPattern (pc_ReleasesContainer config) \<and>
     rmatch containerPattern (pc_ManifestsContainer config) \<and> rmatch containerPattern (pc_BatchesContainer config) \<and>
     distinct [pc_ReleasesContainer config, pc_ManifestsContainer config, pc_BatchesContainer config] \<and>
     1 \<le> pc_BatchSize config \<and> pc_BatchSize config \<le> 10"

lemma NewPublisher_sound:
  assumes "NewPublisher config (Some blobs) (Some queue) = Inr publisher"
  shows "soundConfig (pu_config publisher)" "pu_blobs publisher = blobs" "pu_queue publisher = queue"
proof -
  define c where "c = (if pc_BatchSize config = 0 then config\<lparr>pc_BatchSize := maxPublicationBatchSize\<rparr> else config)"
  have v: "validPublisherConfig c" "publisher = \<lparr>pu_config = c\<lparr>pc_ApplicationOrigin := trimSuffix (pc_ApplicationOrigin c) ''/''\<rparr>,
      pu_blobs = blobs, pu_queue = queue\<rparr>"
    using assms unfolding NewPublisher_def Let_def c_def [symmetric] by (simp_all split: if_split_asm)
  show "pu_blobs publisher = blobs" "pu_queue publisher = queue" using v(2) by simp_all
  show "soundConfig (pu_config publisher)"
    using v(1) unfolding v(2) validPublisherConfig_def soundConfig_def maxPublicationBatchSize_def
    by (auto simp: pub_patterns split: if_split_asm simp del: rmatch.simps)
qed

text \<open>The artifact that verification returns: at the expected place, of the recorded size and digest.\<close>

lemma verifyArtifactAt_exec:
  assumes "execP (verifyArtifactAt root release) es (Inr path)"
  shows "cleanPath path = cleanPath (joinPath [root, sr_DARPath release]) \<and>
    (\<exists>info content. es = [EEvalSymlinks (joinPath [root, sr_DARPath release]) (Some path), EStat path (Some info),
        EReadFile (cleanPath path) (Some (content, None))] \<and>
       fi_IsRegular info \<and> fi_Size info = sr_DARSize release \<and> sr_DARSHA256 release = hexEncode (sha256 content))"
proof -
  let ?n = "joinPath [root, sr_DARPath release]"
  define k where "k resolved info = (case info of None \<Rightarrow> Finish (Inl ErrSource) | Some artifactInfo \<Rightarrow>
      if \<not> fi_IsRegular artifactInfo \<or> fi_Size artifactInfo \<noteq> sr_DARSize release then Finish (Inl ErrSource)
      else bindP (fileDigest resolved) (\<lambda>digest.
        Finish (if digest \<noteq> Inr (sr_DARSHA256 release) then Inl ErrSource else Inr resolved)))"
    for resolved and info :: "fileInfo option"
  obtain link es1 where l: "es = EEvalSymlinks ?n link # es1"
      "execP (case link of None \<Rightarrow> Finish (Inl ErrSource) | Some resolved \<Rightarrow>
         if cleanPath resolved \<noteq> cleanPath ?n then Finish (Inl ErrSource)
         else (case relPath root resolved of None \<Rightarrow> Finish (Inl ErrSource) | Some relative \<Rightarrow>
           if relative = ''..'' \<or> hasPrefix relative ''../'' then Finish (Inl ErrSource)
           else StatFile resolved (k resolved))) es1 (Inr path)"
    using assms unfolding verifyArtifactAt_def Let_def execP.simps k_def by blast
  obtain resolved where r: "link = Some resolved" using l(2) by (cases link) simp_all
  obtain relative where "relPath root resolved = Some relative"
    using l(2) r by (cases "relPath root resolved") (simp_all split: if_split_asm)
  then obtain info es2 where i: "cleanPath resolved = cleanPath ?n" "es1 = EStat resolved info # es2"
      "execP (k resolved info) es2 (Inr path)"
    using l(2) r by (auto split: if_split_asm)
  obtain ai where a: "info = Some ai" using i(3) unfolding k_def by (cases info) simp_all
  then have d: "fi_IsRegular ai" "fi_Size ai = sr_DARSize release" "resolved = path"
      "execP (fileDigest resolved) es2 (Inr (sr_DARSHA256 release))"
    using i(3) unfolding k_def by (auto simp: exec_map split: if_split_asm)
  then obtain reply where f: "es2 = [EReadFile (cleanPath resolved) reply]"
      "Inr (sr_DARSHA256 release) = (case reply of Some (content, None) \<Rightarrow> Inr (hexEncode (sha256 content)) | _ \<Rightarrow> Inl ErrSource)"
    unfolding fileDigest_def by auto
  obtain content where "reply = Some (content, None)" "sr_DARSHA256 release = hexEncode (sha256 content)"
    using f(2) by (cases reply) (auto split: option.split_asm)
  then show ?thesis using l(1) r i(1,2) a d f(1) by auto
qed

lemma verify_digest:
  assumes "execP (verifySourceArtifact root release) es (Inr path)"
  shows "\<exists>content. sr_DARSHA256 release = hexEncode (sha256 content)"
proof -
  obtain r e where "execP (verifyArtifactAt r release) e (Inr path)"
    using assms by (auto simp: verifySourceArtifact_def execP_tryP split: if_split_asm)
  then show ?thesis using verifyArtifactAt_exec by blast
qed

lemma leftPad_ascii: "ascii (leftPad value width)"
  using digits_ascii [OF itoa_nat_digits [of "value"]] by (auto simp: leftPad_def ascii_def list_all_iff)

text \<open>The texts of the plan itself are ASCII.\<close>

lemma planned_ascii:
  assumes "planned publisher request p" "soundConfig (pu_config publisher)"
  shows "ascii (pl_operationID p)" "ascii (sr_Version (pq_Source request))" "ascii (sr_DownloadName (pq_Source request))"
    "ascii (sr_ReleaseID (pq_Source request))" "ascii (pq_CommitSHA request)" "ascii (toLower (pc_Repository (pu_config publisher)))"
    "pl_request p = request"
proof -
  have v: "validSourceRecord (pq_Source request)" and r: "pl_request p = request"
    using assms(1) by (simp_all add: planned_def)
  show "ascii (pl_operationID p)" using assms(1) by (simp add: planned_def deriveOperationID_def hex_ascii)
  show w: "ascii (sr_Version (pq_Source request))" using v version_ascii by (simp add: validSourceRecord_def)
  show "ascii (sr_DownloadName (pq_Source request))"
    using v w by (auto simp: validSourceRecord_def downloadNameOf_def trimPrefix_def ascii_def list_all_iff dest: in_set_dropD)
  show "ascii (sr_ReleaseID (pq_Source request))" using v release_ascii by (simp add: validSourceRecord_def pub_patterns)
  show "ascii (pq_CommitSHA request)" using assms(1) commit_ascii by (simp add: planned_def pub_patterns)
  have "ascii (pc_Repository (pu_config publisher))" using assms(2) repository_ascii by (simp add: soundConfig_def)
  then show "ascii (toLower (pc_Repository (pu_config publisher)))"
    by (auto simp: toLower_ascii ascii_def list_all_iff lower_char_def char_class_defs)
  show "pl_request p = request" by (rule r)
qed

section \<open>Versions as text\<close>

text \<open>What storage answers in its version header is valid UTF-8 (Azure uses timestamps).\<close>

definition textVersion :: "string option \<Rightarrow> bool" where
  "textVersion v = (case v of None \<Rightarrow> True | Some s \<Rightarrow> utf8_valid s)"

fun versionText :: "pubEvent \<Rightarrow> bool" where
  "versionText (EUpload u (Inr response)) = textVersion (ur_VersionID response)"
| "versionText (EGetProperties c n (Inr properties)) = textVersion (gp_VersionID properties)"
| "versionText _ = True"

lemma confirmed_text: "confirmed es ref \<Longrightarrow> list_all versionText es \<Longrightarrow> utf8_valid (br_VersionID ref)"
proof (induction es)
  case (Cons e es)
  show ?case
  proof (cases "confirms ref e")
    case True
    then show ?thesis using Cons.prems(2) by (cases "(ref, e)" rule: confirms.cases) (auto simp: textVersion_def)
  next
    case False
    then show ?thesis using Cons by (simp add: confirmed_def)
  qed
qed (simp add: confirmed_def)

section \<open>The phases before a message\<close>

lemma tryP_message:
  assumes "execP (tryP t f) (pre @ EEnqueue m failed # post) r" "\<And>es x. execP t es x \<Longrightarrow> enqueued es = []"
  obtains e1 x pre' where "pre = e1 @ pre'" "execP t e1 (Inr x)" "execP (f x) (pre' @ EEnqueue m failed # post) r"
  using assms(1) unfolding execP_tryP
proof (elim disjE exE conjE)
  fix err assume "execP t (pre @ EEnqueue m failed # post) (Inl err)"
  then show thesis using assms(2) enqueued_pos by blast
next
  fix e1 x e2 assume "pre @ EEnqueue m failed # post = e1 @ e2" "execP t e1 (Inr x)" "execP (f x) e2 r"
  then show thesis using quiet_split [of e1 e2 pre m failed post] assms(2) that by metis
qed

lemma tryP_message_first:
  assumes "execP (tryP t f) (pre @ EEnqueue m failed # post) r" "\<And>x es y. execP (f x) es y \<Longrightarrow> enqueued es = []"
  obtains post' r' where "execP t (pre @ EEnqueue m failed # post') r'"
  using assms(1) unfolding execP_tryP
proof (elim disjE exE conjE)
  fix err assume "execP t (pre @ EEnqueue m failed # post) (Inl err)"
  then show thesis by (rule that)
next
  fix e1 x e2 assume e: "pre @ EEnqueue m failed # post = e1 @ e2" "execP t e1 (Inr x)" "execP (f x) e2 r"
  have "enqueued e2 = []" using e(3) assms(2) by blast
  then have "\<exists>post'. e1 = pre @ EEnqueue m failed # post'"
    using e(1) by (auto simp: append_eq_append_conv2 append_eq_Cons_conv Cons_eq_append_conv)
  then show thesis using e(2) that by blast
qed

lemma advance_quiet: "execP (advanceCurrentManifest publisher p body) es r \<Longrightarrow> pu_blobs publisher = azureBlobWriter \<Longrightarrow> enqueued es = []"
  unfolding advanceCurrentManifest_def exec_map using azure_blobs.current_events by metis

text \<open>When a message leaves, the four phases before it have succeeded.\<close>

lemma publishPlan_message:
  assumes "pu_blobs publisher = azureBlobWriter" "pu_queue publisher = azureQueueWriter"
    and "execP (publishPlan publisher p) (pre @ EEnqueue m failed # post) result"
  obtains e1 e2 e3 e4 pre' dar manifest body batches k request where
    "pre = e1 @ e2 @ e3 @ e4 @ pre'" "execP (publishIdentity publisher p) e1 (Inr ())"
    "execP (publishDAR publisher p) e2 (Inr dar)" "execP (publishManifest publisher p (pb_Reference dar)) e3 (Inr (manifest, body))"
    "execP (publishBatches publisher p) e4 (Inr batches)" "uploads pre' = []" "k < length batches" "m = busMessageOf request"
    "queueRequest publisher p (pb_Reference manifest) (pb_Reference (batches ! k)) k = Inr request"
proof -
  note q1 = azure_blobs.publishIdentity_exec [OF assms(1)] and q2 = azure_blobs.publishDAR_exec(1) [OF assms(1)]
    and q3 = azure_blobs.publishManifest_exec(1) [OF assms(1)] and q4 = azure_blobs.publishBatchList_quiet [OF assms(1)]
  from assms(3)[unfolded publishPlan_def] obtain e1 u pre1 where 1: "pre = e1 @ pre1" "execP (publishIdentity publisher p) e1 (Inr u)"
    and r1: "execP (tryP (publishDAR publisher p) (\<lambda>dar.
     tryP (publishManifest publisher p (pb_Reference dar)) (\<lambda>(manifest, manifestBody).
     tryP (publishBatches publisher p) (\<lambda>batches.
     tryP (enqueueBatches publisher p (pb_Reference manifest) batches) (\<lambda>_.
     tryP (advanceCurrentManifest publisher p manifestBody) (\<lambda>_.
     Finish (Inr (planResult p)))))))) (pre1 @ EEnqueue m failed # post) result"
    by (rule tryP_message) (use q1 in blast)
  from r1 obtain e2 dar pre2 where 2: "pre1 = e2 @ pre2" "execP (publishDAR publisher p) e2 (Inr dar)"
    and r2: "execP (tryP (publishManifest publisher p (pb_Reference dar)) (\<lambda>(manifest, manifestBody).
     tryP (publishBatches publisher p) (\<lambda>batches.
     tryP (enqueueBatches publisher p (pb_Reference manifest) batches) (\<lambda>_.
     tryP (advanceCurrentManifest publisher p manifestBody) (\<lambda>_.
     Finish (Inr (planResult p))))))) (pre2 @ EEnqueue m failed # post) result"
    by (rule tryP_message) (use q2 in blast)
  from r2 obtain e3 mb pre3 where 3: "pre2 = e3 @ pre3" "execP (publishManifest publisher p (pb_Reference dar)) e3 (Inr mb)"
    and r3: "execP (tryP (publishBatches publisher p) (\<lambda>batches.
     tryP (enqueueBatches publisher p (pb_Reference (fst mb)) batches) (\<lambda>_.
     tryP (advanceCurrentManifest publisher p (snd mb)) (\<lambda>_.
     Finish (Inr (planResult p)))))) (pre3 @ EEnqueue m failed # post) result"
    by (rule tryP_message) (use q3 in \<open>auto simp: split_beta\<close>)
  from r3 obtain e4 batches pre4 where 4: "pre3 = e4 @ pre4" "execP (publishBatches publisher p) e4 (Inr batches)"
    and r4: "execP (tryP (enqueueBatches publisher p (pb_Reference (fst mb)) batches) (\<lambda>_.
     tryP (advanceCurrentManifest publisher p (snd mb)) (\<lambda>_. Finish (Inr (planResult p))))) (pre4 @ EEnqueue m failed # post) result"
    by (rule tryP_message) (use q4 in \<open>auto simp: publishBatches_def\<close>)
  have "execP (tryP (advanceCurrentManifest publisher p (snd mb)) (\<lambda>_. Finish (Inr (planResult p)))) es y \<Longrightarrow> enqueued es = []" for es y
    unfolding execP_tryP using advance_quiet assms(1) by fastforce
  from r4 this obtain post' r' where "execP (enqueueBatches publisher p (pb_Reference (fst mb)) batches) (pre4 @ EEnqueue m failed # post') r'"
    by (rule tryP_message_first)
  then obtain k request where "uploads pre4 = []" "k < length batches" "m = busMessageOf request"
      "queueRequest publisher p (pb_Reference (fst mb)) (pb_Reference (batches ! k)) k = Inr request"
    unfolding enqueueBatches_def by (auto dest!: azure_queue.enqueueFrom_message [OF assms(2)])
  then show thesis
    using that [of e1 e2 e3 e4 pre4 dar "fst mb" "snd mb" batches k request] 1 2 3 4
    by simp
qed

section \<open>References and documents\<close>

text \<open>The inputs whose text the program takes as it is: the configured origin and the publication time.\<close>

definition textInputs :: "Publisher \<Rightarrow> PublishRequest \<Rightarrow> bool" where
  "textInputs publisher request \<longleftrightarrow> utf8_valid (pc_ApplicationOrigin (pu_config publisher)) \<and> utf8_valid (pq_CreatedAt request)"

lemma jwf_manifestOf:
  assumes "planned publisher request p" "soundConfig (pu_config publisher)" "textInputs publisher request" "textBlob dar"
  shows "jwf (manifestJson (manifestOf publisher p dar))"
  using planned_ascii [OF assms(1,2)] assms(3,4)
  by (simp add: manifestJson_def manifestOf_def Let_def utf8_key utf8_valid_ascii jwf_blobJson textInputs_def)

lemma jwf_messageOf:
  assumes "planned publisher request p" "soundConfig (pu_config publisher)" "textInputs publisher request" "textBlob manifest" "textBlob batch"
  shows "jwf (messageJson (messageOf publisher p manifest batch k))"
proof -
  note a = planned_ascii [OF assms(1,2)]
  have "ascii (''/v1/releases/'' @ sr_Version (pq_Source request) @ ''/download/'' @ sr_DownloadName (pq_Source request))"
    using a by simp
  then have "utf8_valid (pc_ApplicationOrigin (pu_config publisher) @ ''/v1/releases/'' @ sr_Version (pq_Source request) @ ''/download/'' @
      sr_DownloadName (pq_Source request))"
    using assms(3) unfolding textInputs_def by (intro utf8_valid_append [OF _ utf8_valid_ascii]) simp_all
  moreover have "utf8_valid (pl_operationID p @ '':'' @ itoa (int k))"
    using a(1) ascii_itoa by (intro utf8_valid_ascii) simp
  ultimately show ?thesis
    using a assms(3-5) jwf_batchJson [of "qm_RecipientBatch (messageOf publisher p manifest batch k)"]
    by (simp add: messageJson_def messageOf_def Let_def utf8_key utf8_valid_ascii jwf_blobJson textInputs_def textBlob_def Reference_def)
qed

lemma messageOf_parsed:
  assumes "planned publisher request p" "soundConfig (pu_config publisher)" "textInputs publisher request" "textBlob manifest" "textBlob batch"
    and "queueRequest publisher p manifest batch k = Inr queued"
  shows "ParseQueueMessage (bm_Body (busMessageOf queued)) (bm_MessageID (busMessageOf queued)) = Inr (messageOf publisher p manifest batch k)"
    "queued = \<lparr>qr_MessageID = qm_MessageID (messageOf publisher p manifest batch k), qr_Body = jprint (messageJson (messageOf publisher p manifest batch k))\<rparr>"
proof -
  let ?m = "messageOf publisher p manifest batch k"
  have q: "is_ok (ParseQueueMessage (jprint (messageJson ?m)) (qm_MessageID ?m))"
    "queued = \<lparr>qr_MessageID = qm_MessageID ?m, qr_Body = jprint (messageJson ?m)\<rparr>"
    using assms(6) by (auto simp: queueRequest_def Let_def split: if_split_asm)
  then show "queued = \<lparr>qr_MessageID = qm_MessageID ?m, qr_Body = jprint (messageJson ?m)\<rparr>" by simp
  show "ParseQueueMessage (bm_Body (busMessageOf queued)) (bm_MessageID (busMessageOf queued)) = Inr ?m"
    unfolding q(2) busMessageOf_def busMessage.select_convs QueueRequest.select_convs
    by (rule message_doc.parse_printed [OF q(1) jwf_messageOf [OF assms(1-5)]]) (simp add: messageJson_inj)
qed

lemma manifestOf_parsed:
  assumes "planned publisher request p" "soundConfig (pu_config publisher)" "textInputs publisher request" "textBlob dar"
    and "is_ok (ParsePublishedManifest (jprint (manifestJson (manifestOf publisher p dar))))"
  shows "ParsePublishedManifest (jprint (manifestJson (manifestOf publisher p dar))) = Inr (manifestOf publisher p dar)"
  by (rule manifest_doc.parse_printed [OF assms(5) jwf_manifestOf [OF assms(1-4)]]) (simp add: manifestJson_inj)

text \<open>A plan's blobs, as the phases return them.\<close>

lemma dar_text:
  assumes "planned publisher request p" "soundConfig (pu_config publisher)" "pu_blobs publisher = azureBlobWriter"
    and "execP (publishDAR publisher p) es (Inr dar)" "list_all versionText es" "ascii (sr_DARSHA256 (pq_Source request))"
  shows "textBlob (pb_Reference dar)" "confirmed es (pb_Reference dar)" "br_SHA256 (pb_Reference dar) = sr_DARSHA256 (pq_Source request)"
    "br_Size (pb_Reference dar) = sr_DARSize (pq_Source request)"
proof -
  note a = planned_ascii [OF assms(1,2)]
  have f: "br_Container (pb_Reference dar) = pc_ReleasesContainer (pu_config publisher) \<and>
      br_Name (pb_Reference dar) = sr_Version (pq_Source request) @ ''/'' @ sr_DownloadName (pq_Source request) \<and>
      br_SHA256 (pb_Reference dar) = sr_DARSHA256 (pq_Source request) \<and> br_Size (pb_Reference dar) = sr_DARSize (pq_Source request) \<and>
      confirmed es (pb_Reference dar)"
    using azure_blobs.file_reference [OF azure_blobs.publishDAR_exec(2) [OF assms(3,4) HOL.refl]] a(7) by (simp add: darRequest_def Let_def)
  then show "confirmed es (pb_Reference dar)" "br_SHA256 (pb_Reference dar) = sr_DARSHA256 (pq_Source request)"
    "br_Size (pb_Reference dar) = sr_DARSize (pq_Source request)" by blast+
  show "textBlob (pb_Reference dar)"
    using f a assms(2,6) container_ascii confirmed_text [OF _ assms(5)]
    by (simp add: textBlob_def utf8_valid_ascii soundConfig_def del: rmatch.simps)
qed

lemma manifest_text:
  assumes "planned publisher request p" "soundConfig (pu_config publisher)" "pu_blobs publisher = azureBlobWriter"
    and "execP (publishManifest publisher p dar) es (Inr (manifest, body))" "list_all versionText es"
  shows "textBlob (pb_Reference manifest)" "confirmed es (pb_Reference manifest)" "Matches (pb_Reference manifest) body"
    "body = jprint (manifestJson (manifestOf publisher p dar))" "is_ok (ParsePublishedManifest body)"
proof -
  note a = planned_ascii [OF assms(1,2)]
  have m: "body = jprint (manifestJson (manifestOf publisher p dar)) \<and>
      is_ok (ParsePublishedManifest body) \<and> execP (bw_PutImmutableBytes azureBlobWriter (manifestRequest publisher p body)) es (Inr manifest)"
    using azure_blobs.publishManifest_exec(2) [OF assms(3,4) HOL.refl] .
  then have f: "br_Container (pb_Reference manifest) = pc_ManifestsContainer (pu_config publisher) \<and>
      br_Name (pb_Reference manifest) = ''published/'' @ sr_ReleaseID (pq_Source request) @ ''/'' @ pl_operationID p @ ''.json'' \<and>
      Matches (pb_Reference manifest) body \<and> confirmed es (pb_Reference manifest)"
    using azure_blobs.bytes_reference a(7) unfolding manifestRequest_def by fastforce
  show "confirmed es (pb_Reference manifest)" "Matches (pb_Reference manifest) body"
    "body = jprint (manifestJson (manifestOf publisher p dar))" "is_ok (ParsePublishedManifest body)" using f m by blast+
  have "br_SHA256 (pb_Reference manifest) = hexEncode (sha256 body)" using f by (simp add: Matches_def)
  then show "textBlob (pb_Reference manifest)"
    using f a assms(2) container_ascii confirmed_text [OF _ assms(5)] hex_ascii
    by (simp add: textBlob_def utf8_valid_ascii soundConfig_def del: rmatch.simps)
qed

lemma batch_text:
  assumes "planned publisher request p" "soundConfig (pu_config publisher)" "pu_blobs publisher = azureBlobWriter"
    and "execP (publishBatches publisher p) es (Inr batches)" "list_all versionText es" "k < length batches"
  shows "length batches = length (pl_batches p)" "textBlob (pb_Reference (batches ! k))" "confirmed es (pb_Reference (batches ! k))"
    "Matches (pb_Reference (batches ! k)) (pl_batches p ! k)"
proof -
  note a = planned_ascii [OF assms(1,2)]
  note r = azure_blobs.publishBatchList_result [OF assms(3) assms(4)[unfolded publishBatches_def]]
  show l: "length batches = length (pl_batches p)" using r by blast
  then have f: "Matches (pb_Reference (batches ! k)) (pl_batches p ! k)" "confirmed es (pb_Reference (batches ! k))"
      "br_Container (pb_Reference (batches ! k)) = pc_BatchesContainer (pu_config publisher)"
      "br_Name (pb_Reference (batches ! k)) = pl_operationID p @ ''/batch-'' @ leftPad k 4 @ ''.jsonl''"
    using r assms(6) by (simp_all add: batchRequest_def)
  show "Matches (pb_Reference (batches ! k)) (pl_batches p ! k)" "confirmed es (pb_Reference (batches ! k))" by (rule f)+
  have "br_SHA256 (pb_Reference (batches ! k)) = hexEncode (sha256 (pl_batches p ! k))" using f(1) by (simp add: Matches_def)
  then show "textBlob (pb_Reference (batches ! k))"
    using f a assms(2) container_ascii confirmed_text [OF _ assms(5)] hex_ascii leftPad_ascii
    by (simp add: textBlob_def utf8_valid_ascii soundConfig_def del: rmatch.simps)
qed

section \<open>Claims\<close>

definition currentBlob :: "Publisher \<Rightarrow> PublishRequest \<Rightarrow> string \<times> string" where
  "currentBlob publisher request =
     (pc_ManifestsContainer (pu_config publisher), ''current/'' @ sr_ReleaseID (pq_Source request) @ ''.json'')"

text \<open>A write that creates a blob other than the current manifest.\<close>

definition creates :: "Publisher \<Rightarrow> PublishRequest \<Rightarrow> uploadRequest \<Rightarrow> bool" where
  "creates publisher request u \<longleftrightarrow>
     up_Condition u = IfAbsent \<and> (up_Container u, up_Name u) \<noteq> currentBlob publisher request"

lemma bytes_creates:
  assumes "execP (bw_PutImmutableBytes azureBlobWriter q) es r" "(ib_Container q, ib_Name q) \<noteq> currentBlob publisher request"
  shows "list_all (creates publisher request) (uploads es)"
  using azure_blobs.bytes_events [OF assms(1)] assms(2) by (auto simp: list_all_iff creates_def immutableUpload_def)

lemma batches_create:
  assumes "pu_blobs publisher = azureBlobWriter" "execP (publishBatchList publisher p index bodies) es r"
    and "soundConfig (pu_config publisher)"
  shows "list_all (creates publisher request) (uploads es)"
  using assms(2)
proof (induction bodies arbitrary: index es r)
  case (Cons body bodies)
  have n: "(ib_Container (batchRequest publisher p index body), ib_Name (batchRequest publisher p index body)) \<noteq> currentBlob publisher request"
    using assms(3) by (auto simp: soundConfig_def currentBlob_def batchRequest_def)
  from assms(1) Cons.prems show ?case
  proof (cases rule: azure_blobs.publishBatchList_cases)
    case (1 put)
    then show ?thesis using bytes_creates n by blast
  next
    case (2 e1 e2 batch r)
    then show ?thesis using bytes_creates [OF _ n] Cons.IH by simp
  qed
qed simp

lemma phases_create:
  assumes "soundConfig (pu_config publisher)" "pu_blobs publisher = azureBlobWriter" "pl_request p = request"
    and "execP (publishIdentity publisher p) e1 (Inr ())" "execP (publishDAR publisher p) e2 (Inr dar)"
    and "execP (publishManifest publisher p (pb_Reference dar)) e3 (Inr (manifest, body))" "execP (publishBatches publisher p) e4 (Inr batches)"
  shows "list_all (creates publisher request) (uploads (e1 @ e2 @ e3 @ e4))"
proof -
  have n: "(ib_Container (identityRequest publisher p), ib_Name (identityRequest publisher p)) \<noteq> currentBlob publisher request"
    "(ib_Container (manifestRequest publisher p body), ib_Name (manifestRequest publisher p body)) \<noteq> currentBlob publisher request"
    by (simp_all add: identityRequest_def manifestRequest_def currentBlob_def)
  have "list_all (creates publisher request) (uploads e1)"
    using assms(4) bytes_creates [OF _ n(1)] unfolding publishIdentity_def exec_map assms(2) by blast
  moreover have "list_all (creates publisher request) (uploads e3)"
    using azure_blobs.publishManifest_exec(2) [OF assms(2,6) HOL.refl] bytes_creates [OF _ n(2)] by blast
  moreover have "list_all (creates publisher request) (uploads e4)"
    using batches_create [OF assms(2) assms(7)[unfolded publishBatches_def] assms(1)] .
  moreover have "list_all (creates publisher request) (uploads e2)"
    using azure_blobs.file_events [OF azure_blobs.publishDAR_exec(2) [OF assms(2,5) HOL.refl]] assms(1)
    by (auto simp: list_all_iff creates_def immutableUpload_def darRequest_def Let_def currentBlob_def soundConfig_def)
  ultimately show ?thesis by simp
qed

abbreviation cohortPieces :: "Publisher \<Rightarrow> PublishRequest \<Rightarrow> Recipient list list" where
  "cohortPieces publisher request \<equiv> pieces (nat (pc_BatchSize (pu_config publisher))) (pq_Recipients request)"

lemma planned_pieces:
  assumes "planned publisher request p" "soundConfig (pu_config publisher)"
  shows "pl_batches p = map batchBytes (cohortPieces publisher request)"
    and "k < length (pl_batches p) \<Longrightarrow>
      batchRecipientCount (int k) (int (length (pq_Recipients request))) (pc_BatchSize (pu_config publisher)) =
        int (length (cohortPieces publisher request ! k))"
proof -
  have b: "buildBatches (pq_Recipients request) (pc_BatchSize (pu_config publisher)) = Inr (pl_batches p)"
    "1 \<le> pc_BatchSize (pu_config publisher)"
    using assms by (simp_all add: planned_def soundConfig_def)
  show e: "pl_batches p = map batchBytes (cohortPieces publisher request)" by (rule buildBatches_pieces(1) [OF b])
  show "batchRecipientCount (int k) (int (length (pq_Recipients request))) (pc_BatchSize (pu_config publisher)) =
        int (length (cohortPieces publisher request ! k))" if "k < length (pl_batches p)"
    using batchRecipientCount_pieces [OF b(2)] that e by simp
qed

text \<open>What a message stands for: the piece of the cohort with its index, and a manifest that names the artifact.\<close>

definition announces :: "Publisher \<Rightarrow> PublishRequest \<Rightarrow> QueueMessage \<Rightarrow> nat \<Rightarrow> bool" where
  "announces publisher request message k \<longleftrightarrow>
     k < length (cohortPieces publisher request) \<and>
     bt_BatchIndex (qm_RecipientBatch message) = int k \<and>
     bt_BatchCount (qm_RecipientBatch message) = int (length (cohortPieces publisher request)) \<and>
     bt_RecipientCount (qm_RecipientBatch message) = int (length (cohortPieces publisher request ! k)) \<and>
     Matches (Reference (qm_RecipientBatch message)) (batchBytes (cohortPieces publisher request ! k)) \<and>
     qm_ReleaseVersion message = sr_Version (pq_Source request)"

lemma messageOf_announces:
  assumes "planned publisher request p" "soundConfig (pu_config publisher)" "k < length (pl_batches p)"
    and "Matches batch (pl_batches p ! k)"
  shows "announces publisher request (messageOf publisher p manifest batch k) k"
  using planned_pieces [OF assms(1,2)] assms
  by (auto simp: announces_def messageOf_def Let_def Reference_def Matches_def planned_def)

text \<open>
  C4. Whatever storage and the queue answer: when a publication sends a message, the worker's parser accepts it under its
  message id; it announces one piece of the cohort with the right index and counts; and before it was sent, storage had
  confirmed the batch with exactly the rows of that piece, a valid manifest that matches the message, and the artifact
  with the digest and size of the verified source. Until then only new blobs were created, and the
  current manifest of the release was not touched.
\<close>

theorem messages_follow_content:
  assumes "NewPublisher config (Some azureBlobWriter) (Some azureQueueWriter) = Inr publisher"
    and "execP (Publish False publisher request) (pre @ EEnqueue m failed # post) result"
    and "textInputs publisher request" "list_all versionText pre"
  shows "\<exists>message manifest k.
    ParseQueueMessage (bm_Body m) (bm_MessageID m) = Inr message \<and> announces publisher request message k \<and>
    confirmed pre (Reference (qm_RecipientBatch message)) \<and> confirmed pre (qm_Manifest message) \<and>
    Matches (qm_Manifest message) (jprint (manifestJson manifest)) \<and>
    ParsePublishedManifest (jprint (manifestJson manifest)) = Inr manifest \<and> manifestMatchesMessage manifest message \<and>
    confirmed pre (pm_DAR manifest) \<and> br_SHA256 (pm_DAR manifest) = sr_DARSHA256 (pq_Source request) \<and>
    br_Size (pm_DAR manifest) = sr_DARSize (pq_Source request) \<and>
    list_all (creates publisher request) (uploads pre)"
  using assms(2)
proof (cases rule: Publish_cases)
  case (2 e0 es p)
  note c = NewPublisher_sound [OF assms(1)] and pl = plan_planned [OF 2(2)]
  note lo = localOnly_exec [OF 2(2) localOnly_plan]
  obtain pre0 where pre0: "pre = e0 @ pre0" "es = pre0 @ EEnqueue m failed # post"
    using quiet_split [of e0 es pre m failed post] lo 2(1) by metis
  obtain e1 e2 e3 e4 pre' dar manifest body batches k queued where ph:
    "pre0 = e1 @ e2 @ e3 @ e4 @ pre'" "execP (publishIdentity publisher p) e1 (Inr ())"
    "execP (publishDAR publisher p) e2 (Inr dar)" "execP (publishManifest publisher p (pb_Reference dar)) e3 (Inr (manifest, body))"
    "execP (publishBatches publisher p) e4 (Inr batches)" "uploads pre' = []" "k < length batches" "m = busMessageOf queued"
    "queueRequest publisher p (pb_Reference manifest) (pb_Reference (batches ! k)) k = Inr queued"
    using publishPlan_message [OF c(2,3) 2(3)[unfolded pre0(2)]] by metis
  have v: "list_all versionText e2" "list_all versionText e3" "list_all versionText e4"
    using assms(4) pre0(1) ph(1) by simp_all
  have h: "ascii (sr_DARSHA256 (pq_Source request))" using verify_digest [OF pl(2)] hex_ascii by auto
  note d = dar_text [OF pl(1) c(1,2) ph(3) v(1) h] and mt = manifest_text [OF pl(1) c(1,2) ph(4) v(2)]
    and bt = batch_text [OF pl(1) c(1,2) ph(5) v(3) ph(7)]
  let ?m = "messageOf publisher p (pb_Reference manifest) (pb_Reference (batches ! k)) k"
  let ?mf = "manifestOf publisher p (pb_Reference dar)"
  have "ParseQueueMessage (bm_Body m) (bm_MessageID m) = Inr ?m"
    unfolding ph(8) by (rule messageOf_parsed(1) [OF pl(1) c(1) assms(3) mt(1) bt(2) ph(9)])
  moreover have "announces publisher request ?m k"
    using messageOf_announces [OF pl(1) c(1) _ bt(4)] bt(1) ph(7) by simp
  moreover have "ParsePublishedManifest (jprint (manifestJson ?mf)) = Inr ?mf"
    using manifestOf_parsed [OF pl(1) c(1) assms(3) d(1)] mt(4,5) by simp
  moreover have "manifestMatchesMessage ?mf ?m" by (simp add: manifestMatchesMessage_def manifestOf_def messageOf_def Let_def)
  moreover have "Reference (qm_RecipientBatch ?m) = pb_Reference (batches ! k)" "qm_Manifest ?m = pb_Reference manifest"
    "pm_DAR ?mf = pb_Reference dar"
    by (simp_all add: messageOf_def manifestOf_def Reference_def Let_def)
  moreover have "list_all (creates publisher request) (uploads pre)"
    using phases_create [OF c(1,2) planned_ascii(7) [OF pl(1) c(1)] ph(2-5)] lo ph(1,6) pre0(1) by simp
  ultimately show ?thesis
    using d(2-4) mt(2-4) bt(3) pre0(1) ph(1)
    by (intro exI [of _ ?m] exI [of _ ?mf] exI [of _ k]) simp
qed simp

lemma publishPlan_success:
  assumes "execP (publishPlan publisher p) es (Inr result)"
  obtains e1 e2 e3 e4 e5 e6 dar manifest body batches where
    "es = e1 @ e2 @ e3 @ e4 @ e5 @ e6" "execP (publishIdentity publisher p) e1 (Inr ())"
    "execP (publishDAR publisher p) e2 (Inr dar)" "execP (publishManifest publisher p (pb_Reference dar)) e3 (Inr (manifest, body))"
    "execP (publishBatches publisher p) e4 (Inr batches)" "execP (enqueueBatches publisher p (pb_Reference manifest) batches) e5 (Inr ())"
    "execP (advanceCurrentManifest publisher p body) e6 (Inr ())" "result = planResult p"
  using assms unfolding publishPlan_def execP_tryP by (auto simp: execP_tryP)

lemma publishPlan_quiet_phases:
  assumes "pu_blobs publisher = azureBlobWriter" "execP (publishIdentity publisher p) e1 r1" "execP (publishDAR publisher p) e2 r2"
    "execP (publishManifest publisher p dar) e3 r3" "execP (publishBatches publisher p) e4 r4"
    "execP (advanceCurrentManifest publisher p body) e6 r6"
  shows "enqueued e1 = []" "enqueued e2 = []" "enqueued e3 = []" "enqueued e4 = []" "enqueued e6 = []"
  using azure_blobs.publishIdentity_exec [OF assms(1,2)] azure_blobs.publishDAR_exec(1) [OF assms(1,3)]
    azure_blobs.publishManifest_exec(1) [OF assms(1,4)] azure_blobs.publishBatchList_quiet [OF assms(1) assms(5)[unfolded publishBatches_def]]
    advance_quiet [OF assms(6,1)] by blast+

lemma validRecipients_iff:
  "validRecipients rs \<longleftrightarrow> list_all (\<lambda>r. is_ok (ParseRecipient (jprint (recipientJson r)))) rs \<and> sorted_wrt (<) (map rc_Email rs)"
proof -
  have "validRecipientsFrom prev rs \<longleftrightarrow> list_all (\<lambda>r. is_ok (ParseRecipient (jprint (recipientJson r)))) rs \<and>
      sorted_wrt (<) (map rc_Email rs) \<and> (\<forall>e. prev = Some e \<longrightarrow> list_all (\<lambda>r. e < rc_Email r) rs)" for prev
  proof (induction rs arbitrary: prev)
    case (Cons r rs)
    have "prev = Some e \<Longrightarrow> e < rc_Email r \<Longrightarrow> list_all (\<lambda>r'. rc_Email r < rc_Email r') rs \<Longrightarrow> list_all (\<lambda>r'. e < rc_Email r') rs" for e
      by (fastforce simp: list_all_iff)
    then show ?case using Cons.IH [of "Some (rc_Email r)"] by (auto simp: list_all_iff not_le split: option.splits)
  qed simp
  then show ?thesis by (simp add: validRecipients_def)
qed

text \<open>
  C10. A successful publication has sent one message for each piece of the cohort, in order, each accepted by the worker's
  parser and announcing its piece; the pieces are the whole cohort in order, none is empty or longer than
  ten, and no address occurs twice.
\<close>

theorem publication_announces_everyone:
  assumes "NewPublisher config (Some azureBlobWriter) (Some azureQueueWriter) = Inr publisher"
    and "execP (Publish False publisher request) es (Inr result)"
    and "textInputs publisher request" "list_all versionText es"
  shows "\<exists>messages.
    map (\<lambda>(m, failed). (ParseQueueMessage (bm_Body m) (bm_MessageID m), failed)) (enqueued es) =
      map (\<lambda>message. (Inr message, False)) messages \<and>
    length messages = length (cohortPieces publisher request) \<and> rs_BatchCount result = int (length messages) \<and>
    (\<forall>k < length messages. announces publisher request (messages ! k) k) \<and>
    concat (cohortPieces publisher request) = pq_Recipients request \<and>
    list_all (\<lambda>piece. piece \<noteq> [] \<and> length piece \<le> 10) (cohortPieces publisher request) \<and>
    distinct (map rc_Email (pq_Recipients request))"
  using assms(2)
proof (cases rule: Publish_cases)
  case (2 e0 e p)
  note c = NewPublisher_sound [OF assms(1)] and pl = plan_planned [OF 2(2)]
  note lo = localOnly_exec [OF 2(2) localOnly_plan]
  obtain e1 e2 e3 e4 e5 e6 dar manifest body batches where ph:
    "e = e1 @ e2 @ e3 @ e4 @ e5 @ e6" "execP (publishIdentity publisher p) e1 (Inr ())"
    "execP (publishDAR publisher p) e2 (Inr dar)" "execP (publishManifest publisher p (pb_Reference dar)) e3 (Inr (manifest, body))"
    "execP (publishBatches publisher p) e4 (Inr batches)" "execP (enqueueBatches publisher p (pb_Reference manifest) batches) e5 (Inr ())"
    "execP (advanceCurrentManifest publisher p body) e6 (Inr ())" "result = planResult p"
    using 2(3) by (rule publishPlan_success)
  have v: "list_all versionText e3" "list_all versionText e4" using assms(4) 2(1) ph(1) by simp_all
  note mt = manifest_text [OF pl(1) c(1,2) ph(4) v(1)] and bt = batch_text [OF pl(1) c(1,2) ph(5) v(2)]
  have size: "0 < nat (pc_BatchSize (pu_config publisher))" "nat (pc_BatchSize (pu_config publisher)) \<le> 10"
    using c(1) by (auto simp: soundConfig_def nat_le_iff)
  obtain requests where q: "length requests = length batches" "enqueued e5 = map (\<lambda>request. (busMessageOf request, False)) requests"
      "\<forall>k < length batches. queueRequest publisher p (pb_Reference manifest) (pb_Reference (batches ! k)) k = Inr (requests ! k)"
    using azure_queue.enqueueFrom_complete [OF c(3) ph(6)[unfolded enqueueBatches_def]] by auto
  let ?f = "\<lambda>k. messageOf publisher p (pb_Reference manifest) (pb_Reference (batches ! k)) k"
  have l: "length batches = length (pl_batches p)" using azure_blobs.publishBatchList_result [OF c(2) ph(5)[unfolded publishBatches_def]] by blast
  then have n: "length batches = length (cohortPieces publisher request)" using planned_pieces(1) [OF pl(1) c(1)] by simp
  have s: "enqueued es = map (\<lambda>request. (busMessageOf request, False)) requests"
    using publishPlan_quiet_phases [OF c(2) ph(2-5,7)] lo 2(1) ph(1) q(2) by simp
  have par: "ParseQueueMessage (bm_Body (busMessageOf (requests ! k))) (bm_MessageID (busMessageOf (requests ! k))) = Inr (?f k)"
    if "k < length batches" for k
    using messageOf_parsed(1) [OF pl(1) c(1) assms(3) mt(1) bt(2) [OF that]] q(3) that by blast
  have "map (\<lambda>(m, failed). (ParseQueueMessage (bm_Body m) (bm_MessageID m), failed)) (enqueued es) =
      map (\<lambda>message. (Inr message, False)) (map ?f [0..<length batches])"
    unfolding s by (rule nth_equalityI) (simp_all add: q(1) par)
  moreover have "\<forall>k < length batches. announces publisher request (?f k) k"
    using messageOf_announces [OF pl(1) c(1)] bt(4) l by simp
  moreover have "distinct (map rc_Email (pq_Recipients request))"
    using pl(1) strict_sorted_iff [of "map rc_Email (pq_Recipients request)"] by (simp add: planned_def validRecipients_iff)
  ultimately show ?thesis
    using n l ph(8) concat_pieces [OF size(1)] pieces_size size(2)
    by (intro exI [of _ "map ?f [0..<length batches]"]) (fastforce simp: planResult_def list_all_iff)
qed simp

end
