(* ===== verification/PubContracts.thy ===== *)
theory PubContracts
  imports Publication Releases Cohort Completion
begin

text \<open>
  The documents of a sound publication satisfy the contracts that the worker enforces: for inputs of bounded length the
  manifest and every queue message of a plan pass their parsers, so the checks before each write and each send succeed.
\<close>

section \<open>Versions and names\<close>

lemma numericPart_length: "rmatch numericPart u \<Longrightarrow> decimal u < 2 ^ 32 \<Longrightarrow> length u \<le> 10"
  using itoa_nat_length [of "decimal u" 10] itoa_decimal [of u] by simp

lemma version_contract:
  assumes "productVersionKey v = Some k"
  shows "length v \<le> 36" "rmatch releaseVersionPattern v" "rmatch downloadNamePattern (downloadNameOf v)"
    "length (downloadNameOf v) \<le> 43"
proof -
  obtain a b c d where p: "v = CHR ''v'' # a @ CHR ''.'' # b @ CHR ''.'' # c @ CHR ''.'' # d"
    "rmatch numericPart a" "rmatch numericPart b" "rmatch numericPart c" "length d = 2" "list_all is_digit d"
    using assms by (rule productVersionKey_parts)
  have m: "rmatch productVersionPattern v" using assms by (simp add: productVersionKey_def split: if_splits)
  have "split CHR ''.'' (trimPrefix v ''v'') = [a, b, c, d]"
    using version_parts [of a b c d] p numericPart_digits by (simp add: trimPrefix_def hasPrefix_def)
  then have "decimal a < 2 ^ 32" "decimal b < 2 ^ 32" "decimal c < 2 ^ 32"
    using assms by (auto simp: productVersionKey_def parseUint_def split: if_splits)
  then have l: "length a \<le> 10" "length b \<le> 10" "length c \<le> 10"
    using numericPart_length p(2-4) by blast+
  then show v: "length v \<le> 36" using p by simp
  show "rmatch releaseVersionPattern v"
    using m unfolding releaseVersionPattern_def productVersionPattern_def rmatch_RAlt by (rule disjI2)
  show "length (downloadNameOf v) \<le> 43" using v p by (simp add: downloadNameOf_def trimPrefix_def hasPrefix_def)
  have digits: "list_all is_digit a" "list_all is_digit b" "list_all is_digit c" using p numericPart_digits by blast+
  have t: "trimPrefix v ''v'' = a @ CHR ''.'' # b @ CHR ''.'' # c @ CHR ''.'' # d" using p by (simp add: trimPrefix_def hasPrefix_def)
  have "list_all repositoryChar (''ar-'' @ trimPrefix v ''v'')"
    using digits p(6) unfolding t by (auto simp: list_all_iff is_alnum_def is_alpha_def char_class_defs)
  moreover have "length (''ar-'' @ trimPrefix v ''v'') \<le> 122" using v p by (simp add: trimPrefix_def hasPrefix_def)
  ultimately have "rmatch (rupto 122 (RCls repositoryChar)) (''ar-'' @ trimPrefix v ''v'')" by (simp only: rmatch_rupto_cls)
  then have "rmatch downloadNamePattern (''d'' @ (''ar-'' @ trimPrefix v ''v'') @ ''.'' @ ''zip'')"
    unfolding downloadNamePattern_def rseqs.simps
    by (intro rmatch_RSeqI) (simp_all add: rmatch_rlit rmatch_RAlt rmatch_RCls is_alnum_def is_alpha_def char_class_defs
        del: rlit.simps rmatch.simps append.simps)
  then show "rmatch downloadNamePattern (downloadNameOf v)" by (simp add: downloadNameOf_def del: rmatch.simps)
qed

text \<open>A blob name made of plain segments.\<close>

definition plainSegment :: "string \<Rightarrow> bool" where
  "plainSegment s \<longleftrightarrow> list_all segmentChar s \<and> s \<noteq> [] \<and> s \<noteq> ''.'' \<and> s \<noteq> ''..''"

lemma pathChar_backslash: "\<not> pathChar backslash"
  by (simp add: pathChar_def backslash_def char_class_defs)

lemma plain_blob_name:
  assumes "list_all plainSegment parts" "parts \<noteq> []" "length (join CHR ''/'' parts) \<le> 1024"
  shows "validBlobName (join CHR ''/'' parts)"
proof -
  let ?n = "join CHR ''/'' parts"
  have "list_all (list_all pathChar) parts" using assms(1) by (auto simp: list_all_iff plainSegment_def segmentChar_def)
  then have c: "list_all pathChar ?n" by (rule join_all) (simp add: pathChar_def)
  have "\<forall>p \<in> set parts. CHR ''/'' \<notin> set p" using assms(1) by (auto simp: list_all_iff plainSegment_def segmentChar_def)
  with assms(2) have s: "split CHR ''/'' ?n = parts" by (rule split_join)
  then have "hd parts \<noteq> []" "last parts \<noteq> []" using assms(1,2) by (auto simp: list_all_iff plainSegment_def)
  moreover have "hasPrefix ?n ''/'' \<Longrightarrow> hd (split CHR ''/'' ?n) = []" by (auto simp: hasPrefix_iff)
  moreover have "hasSuffix ?n ''/'' \<Longrightarrow> last (split CHR ''/'' ?n) = []" 
    using split_two [of "CHR ''/''" _ "[]"] by (auto simp: hasSuffix_iff)
  ultimately have "\<not> hasPrefix ?n ''/''" "\<not> hasSuffix ?n ''/''" unfolding s by blast+
  moreover have "?n \<noteq> []" using s \<open>hd parts \<noteq> []\<close> by (cases "?n") auto
  moreover have "\<not> containsAny ?n (backslash # ''?#'')"
    using list_all_notin [OF c] pathChar_backslash by (auto simp: containsAny_def list_ex_iff)
  moreover have "controlFree ?n"
    unfolding controlFree_bytes using c by (rule list.pred_mono_strong) (rule pathChar_facts)
  moreover have "list_all (\<lambda>segment. \<not> (segment = [] \<or> segment = ''.'' \<or> segment = ''..'')) (split CHR ''/'' ?n)"
    using assms(1) unfolding s by (auto simp: list_all_iff plainSegment_def)
  ultimately show ?thesis using assms(3) unfolding validBlobName_def by simp
qed

lemma plain_digits: "list_all is_digit s \<Longrightarrow> list_all segmentChar s"
  by (auto simp: list_all_iff intro: segmentChar_alnum)

lemma plain_long: "list_all segmentChar s \<Longrightarrow> 3 \<le> length s \<Longrightarrow> plainSegment s"
  by (auto simp: plainSegment_def)

lemma hex_segment: "list_all segmentChar (hexEncode s)"
  using hexEncode_lower_hex [of s]
  by (auto simp: list_all_iff segmentChar_def pathChar_def is_alnum_def is_alpha_def is_lower_hex_def char_class_defs)

lemma release_segment:
  assumes "rmatch releasePattern s"
  shows "plainSegment s" "length s \<le> 64"
proof -
  note f = release_facts [OF assms]
  have label: "labelChar c \<Longrightarrow> segmentChar c" for c
    by (auto simp: labelChar_def segmentChar_def pathChar_def is_alnum_def is_alpha_def char_class_defs)
  have "list_all segmentChar s" using f(3) label by (auto simp: list_all_iff)
  moreover have "CHR ''.'' \<notin> set s" by (rule list_all_notin [OF f(3)]) simp
  then have "s \<noteq> ''.''" "s \<noteq> ''..''" by (metis list.set_intros(1))+
  ultimately show "plainSegment s" using f(1) by (simp only: plainSegment_def simp_thms)
  show "length s \<le> 64" by (rule f(2))
qed

lemma leftPad_segment: "list_all segmentChar (leftPad value width)"
  using plain_digits [OF itoa_nat_digits [of "value"]] segmentChar_letters by (auto simp: leftPad_def list_all_iff)

lemma leftPad_length: "value < 10000 \<Longrightarrow> length (leftPad value 4) = 4"
  using itoa_nat_length_bound [of "value"] by (simp add: leftPad_def)

lemma segment_texts:
  "list_all segmentChar ''published''" "list_all segmentChar ''.json''" "list_all segmentChar ''batch-''" "list_all segmentChar ''.jsonl''"
  by (simp_all add: segmentChar_def pathChar_def char_class_defs)

lemma repository_lower:
  assumes "rmatch repositoryPattern r"
  shows "rmatch repositoryPattern (toLower r)"
proof -
  obtain a b where ab: "r = a @ ''/'' @ b" "a \<noteq> []" "b \<noteq> []" "list_all repositoryChar a" "list_all repositoryChar b"
    using assms by (auto simp: repositoryPattern_def rmatch_RSeq rmatch_rplus_cls rmatch_rlit simp del: rlit.simps rmatch.simps)
  have lower: "repositoryChar (lower_char c)" if "repositoryChar c" for c
    using that by (auto simp: lower_char_def is_alnum_def is_alpha_def char_class_defs)
  have t: "toLower r = map lower_char a @ ''/'' @ map lower_char b"
    using repository_ascii [OF assms] ab(1) by (simp add: toLower_ascii lower_char_def char_class_defs)
  have "list_all repositoryChar (map lower_char a)" "list_all repositoryChar (map lower_char b)"
    using ab(4,5) lower by (auto simp: list_all_iff)
  then show ?thesis
    using ab(2,3) unfolding t repositoryPattern_def rseqs.simps
    by (intro rmatch_RSeqI) (simp_all add: rmatch_rplus_cls rmatch_rlit del: rlit.simps rmatch.simps)
qed

section \<open>Bounded inputs\<close>

text \<open>
  Bounds that the program leaves to its deployment: the repository name, the time stamp and the host of the application
  are not arbitrarily long, the origin is a plain https host, the recipients are text, and the numbers of the version fit into 32 bits (which
  discovery checks).
\<close>

definition boundedInputs :: "Publisher \<Rightarrow> PublishRequest \<Rightarrow> bool" where
  "boundedInputs publisher request \<longleftrightarrow>
     length (pc_Repository (pu_config publisher)) \<le> 256 \<and> productVersionKey (sr_Version (pq_Source request)) \<noteq> None \<and>
     length (pq_CreatedAt request) \<le> 64 \<and> utf8_valid (pq_CreatedAt request) \<and>
     list_all wfRecipient (pq_Recipients request) \<and>
     (\<exists>host. pc_ApplicationOrigin (pu_config publisher) = ''https://'' @ host \<and> list_all dnsChar host \<and> length host \<le> 253 \<and>
        (hasSuffix host ''.azurecontainerapps.io'' \<or> hasSuffix host ''.example.internal''))"

text \<open>A version identifier that the contracts accept.\<close>

definition fitVersion :: "string \<Rightarrow> bool" where
  "fitVersion v \<longleftrightarrow> 1 \<le> length v \<and> length v \<le> 128 \<and> controlFree v \<and> utf8_valid v"

lemma bounded_text: "boundedInputs publisher request \<Longrightarrow> textInputs publisher request"
proof -
  assume b: "boundedInputs publisher request"
  then obtain host where h: "pc_ApplicationOrigin (pu_config publisher) = ''https://'' @ host" "list_all dnsChar host"
    by (auto simp: boundedInputs_def)
  have "ascii host" using h(2) dnsChar_facts(3) by (auto simp: ascii_def list_all_iff)
  then have "ascii (''https://'' @ host)" by simp
  then show ?thesis using b h(1) utf8_valid_ascii unfolding textInputs_def boundedInputs_def by metis
qed

lemma hex_digest: "rmatch digestPattern (hexEncode (sha256 s))"
  by (simp add: digest_iff hexEncode_lower_hex)

lemma digest_ascii: "rmatch digestPattern s \<Longrightarrow> ascii s"
  by (simp add: digest_iff ascii_lower_hex)

lemma container_length: "rmatch containerPattern s \<Longrightarrow> length s \<le> 63"
  by (auto simp: containerPattern_def rmatch_cls_seq rmatch_RSeq rmatch_rbetween_cls rmatch_RCls simp del: rmatch.simps split: list.splits)

lemma blob_contract:
  assumes "rmatch containerPattern (br_Container r)" "rmatch digestPattern (br_SHA256 r)" "1 \<le> br_Size r" "br_Size r \<le> maxArtifactBytes"
    and "fitVersion (br_VersionID r)" "br_Name r = join CHR ''/'' parts" "list_all plainSegment parts" "parts \<noteq> []"
    and "length (join CHR ''/'' parts) \<le> 256"
  shows "validBlob r" "wfBlob r" "length (br_Container r) \<le> 63" "length (br_SHA256 r) = 64" "length (itoa (br_Size r)) \<le> 10"
proof -
  have n: "validBlobName (br_Name r)" using plain_blob_name [OF assms(7,8)] assms(6,9) by simp
  then show "validBlob r" using assms(1-5) by (simp add: validBlob_def fitVersion_def del: rmatch.simps)
  have "list_all (list_all pathChar) parts" using assms(7) by (auto simp: list_all_iff plainSegment_def segmentChar_def)
  then have "list_all pathChar (br_Name r)" unfolding assms(6) by (rule join_all) (simp add: pathChar_def)
  then have "ascii (br_Name r)" by (auto simp: ascii_def list_all_iff pathChar_def is_alnum_def is_alpha_def char_class_defs)
  then show "wfBlob r"
    using assms(1-5) container_ascii digest_ascii
    by (simp add: wfBlob_def utf8_valid_ascii fitVersion_def int64_ok_def maxArtifactBytes_def del: rmatch.simps)
  show "length (br_Container r) \<le> 63" by (rule container_length [OF assms(1)])
  show "length (br_SHA256 r) = 64" using assms(2) by (simp add: digest_iff)
  show "length (itoa (br_Size r)) \<le> 10"
    using assms(3,4) itoa_nat_length [of "nat (br_Size r)" 10] by (simp add: itoa_def maxArtifactBytes_def)
qed

section \<open>The manifest\<close>

text \<open>The reference to the artifact of a plan.\<close>

definition darReference :: "Publisher \<Rightarrow> PublishRequest \<Rightarrow> string \<Rightarrow> BlobReference" where
  "darReference publisher request versionID =
     \<lparr>br_Container = pc_ReleasesContainer (pu_config publisher),
      br_Name = sr_Version (pq_Source request) @ ''/'' @ sr_DownloadName (pq_Source request),
      br_SHA256 = sr_DARSHA256 (pq_Source request), br_Size = sr_DARSize (pq_Source request), br_VersionID = versionID\<rparr>"

lemma planned_facts:
  assumes "planned publisher request p" "soundConfig (pu_config publisher)" "boundedInputs publisher request"
  shows "length (sr_Version (pq_Source request)) \<le> 36" "rmatch releaseVersionPattern (sr_Version (pq_Source request))"
    "rmatch downloadNamePattern (sr_DownloadName (pq_Source request))" "length (sr_DownloadName (pq_Source request)) \<le> 43"
    "rmatch releasePattern (sr_ReleaseID (pq_Source request))" "rmatch digestPattern (pl_operationID p)"
    "rmatch commitPattern (pq_CommitSHA request)" "length (pq_CommitSHA request) = 40" "length (pl_operationID p) = 64"
    "plainSegment (sr_Version (pq_Source request))" "plainSegment (sr_DownloadName (pq_Source request))"
    "plainSegment (sr_ReleaseID (pq_Source request))" "length (sr_ReleaseID (pq_Source request)) \<le> 64"
    "list_all segmentChar (pl_operationID p)"
    "validTimestamp (pq_CreatedAt request)" "1 \<le> sr_DARSize (pq_Source request)" "sr_DARSize (pq_Source request) \<le> maxArtifactBytes"
proof -
  obtain k where k: "productVersionKey (sr_Version (pq_Source request)) = Some k" using assms(3) by (auto simp: boundedInputs_def)
  have v: "validSourceRecord (pq_Source request)" using assms(1) by (simp add: planned_def)
  then have n: "sr_DownloadName (pq_Source request) = downloadNameOf (sr_Version (pq_Source request))" by (simp add: validSourceRecord_def)
  note c = version_contract [OF k]
  show "length (sr_Version (pq_Source request)) \<le> 36" "rmatch releaseVersionPattern (sr_Version (pq_Source request))"
    "rmatch downloadNamePattern (sr_DownloadName (pq_Source request))" "length (sr_DownloadName (pq_Source request)) \<le> 43"
    using c n by (simp_all del: rmatch.simps)
  show r: "rmatch releasePattern (sr_ReleaseID (pq_Source request))" using v by (simp add: validSourceRecord_def pub_patterns)
  show "rmatch digestPattern (pl_operationID p)" "list_all segmentChar (pl_operationID p)" 
    using assms(1) hex_digest hex_segment by (simp_all add: planned_def deriveOperationID_def del: rmatch.simps)
  then show "length (pl_operationID p) = 64" by (simp add: digest_iff)
  show "rmatch commitPattern (pq_CommitSHA request)" using assms(1) by (simp add: planned_def pub_patterns)
  then show "length (pq_CommitSHA request) = 40" by (simp add: commit_iff)
  show "plainSegment (sr_ReleaseID (pq_Source request))" "length (sr_ReleaseID (pq_Source request)) \<le> 64"
    using release_segment [OF r] by simp_all
  obtain a b c d where "sr_Version (pq_Source request) = CHR ''v'' # a @ CHR ''.'' # b @ CHR ''.'' # c @ CHR ''.'' # d"
    using k by (rule productVersionKey_parts)
  then have "3 \<le> length (sr_Version (pq_Source request))" by simp
  then show "plainSegment (sr_Version (pq_Source request))" using plain_long version_path [OF c(2)] by blast
  show "plainSegment (sr_DownloadName (pq_Source request))"
    unfolding n using plain_long [OF download_path [OF c(3)]] by (simp add: downloadNameOf_def)
  show "validTimestamp (pq_CreatedAt request)" using assms(1) by (simp add: planned_def validCreatedAt_def validTimestamp_def)
  show "1 \<le> sr_DARSize (pq_Source request)" "sr_DARSize (pq_Source request) \<le> maxArtifactBytes"
    using v by (simp_all add: validSourceRecord_def maxArchiveBytes_def MaxObjectSize_def maxArtifactBytes_def)
qed

lemma dar_contract:
  assumes "planned publisher request p" "soundConfig (pu_config publisher)" "boundedInputs publisher request"
    and "rmatch digestPattern (sr_DARSHA256 (pq_Source request))" "fitVersion v"
  shows "validBlob (darReference publisher request v)" "wfBlob (darReference publisher request v)"
    "length (pc_ReleasesContainer (pu_config publisher)) \<le> 63" "length (itoa (sr_DARSize (pq_Source request))) \<le> 10"
    "length (sr_DARSHA256 (pq_Source request)) = 64"
proof -
  note f = planned_facts [OF assms(1-3)]
  have b: "validBlob (darReference publisher request v) \<and> wfBlob (darReference publisher request v) \<and>
     length (br_Container (darReference publisher request v)) \<le> 63 \<and> length (br_SHA256 (darReference publisher request v)) = 64 \<and>
     length (itoa (br_Size (darReference publisher request v))) \<le> 10"
    using blob_contract [of "darReference publisher request v" "[sr_Version (pq_Source request), sr_DownloadName (pq_Source request)]"]
      f assms(2,4,5) by (simp add: darReference_def soundConfig_def del: rmatch.simps)
  then show "validBlob (darReference publisher request v)" "wfBlob (darReference publisher request v)"
    "length (pc_ReleasesContainer (pu_config publisher)) \<le> 63" "length (itoa (sr_DARSize (pq_Source request))) \<le> 10"
    "length (sr_DARSHA256 (pq_Source request)) = 64" by (simp_all add: darReference_def)
qed

lemma manifest_contract:
  assumes "planned publisher request p" "soundConfig (pu_config publisher)" "boundedInputs publisher request"
    and "rmatch digestPattern (sr_DARSHA256 (pq_Source request))" "fitVersion v"
  shows "ParsePublishedManifest (jprint (manifestJson (manifestOf publisher p (darReference publisher request v)))) =
      Inr (manifestOf publisher p (darReference publisher request v))"
    and "length (jprint (manifestJson (manifestOf publisher p (darReference publisher request v)))) \<le> 65536"
proof -
  note f = planned_facts [OF assms(1-3)] and d = dar_contract [OF assms] and a = planned_ascii [OF assms(1,2)]
  let ?m = "manifestOf publisher p (darReference publisher request v)"
  have "rmatch repositoryPattern (toLower (pc_Repository (pu_config publisher)))"
    using assms(2) repository_lower by (simp add: soundConfig_def del: rmatch.simps)
  then have "validManifest ?m" using f d a(7) by (simp add: validManifest_def manifestOf_def Let_def del: rmatch.simps)
  moreover have "wfManifest ?m"
    using d a assms(3) by (simp add: wfManifest_def manifestOf_def Let_def utf8_valid_ascii boundedInputs_def)
  moreover have "ascii (pc_Repository (pu_config publisher))" using assms(2) repository_ascii by (simp add: soundConfig_def)
  then have "length (toLower (pc_Repository (pu_config publisher))) \<le> 256" using assms(3) by (simp add: toLower_ascii boundedInputs_def)
  then have "jbound (manifestJson ?m) \<le> 65536"
    using f d a(7) assms(3,5) by (simp add: manifestJson_def manifestOf_def Let_def blobJson_def darReference_def jint_def boundedInputs_def fitVersion_def)
  then show "length (jprint (manifestJson ?m)) \<le> 65536" using jprint_bound(1) [of "manifestJson ?m"] by simp
  ultimately show "ParsePublishedManifest (jprint (manifestJson ?m)) = Inr ?m"
    unfolding manifest_doc.parse_iff manifest_doc.accepted_def by (simp add: maxManifestBytes_def)
qed

section \<open>The messages\<close>

lemma recipientJson_inj: "recipientJson x = recipientJson y \<longleftrightarrow> x = y"
  by (cases x; cases y) (auto simp: recipientJson_def)

lemma recipients_sound:
  assumes "validRecipients rs" "r \<in> set rs" "wfRecipient r"
  shows "validRecipient r" "length (rowOf r) \<le> 1024"
proof -
  have "is_ok (ParseRecipient (jprint (recipientJson r)))"
    using assms(1,2) unfolding validRecipients_iff list_all_iff by blast
  then have "ParseRecipient (jprint (recipientJson r)) = Inr r"
    using assms(3) by (rule recipient_doc.parse_printed [OF _ recipient_doc.json_wf]) (simp add: recipientJson_inj)
  then show "validRecipient r" "length (rowOf r) \<le> 1024"
    unfolding recipient_doc.parse_iff recipient_doc.accepted_def rowOf_def by auto
qed

lemma planned_batches:
  assumes "planned publisher request p" "soundConfig (pu_config publisher)" "boundedInputs publisher request" "k < length (pl_batches p)"
  shows "k < 10000" "1 \<le> length (pl_batches p ! k)" "length (pl_batches p ! k) \<le> 10250" "length (pl_batches p) \<le> 10000"
    "1 \<le> length (cohortPieces publisher request ! k)" "length (cohortPieces publisher request ! k) \<le> 10"
proof -
  have b: "buildBatches (pq_Recipients request) (pc_BatchSize (pu_config publisher)) = Inr (pl_batches p)"
    "1 \<le> pc_BatchSize (pu_config publisher)" "pc_BatchSize (pu_config publisher) \<le> 10"
    using assms(1,2) by (simp_all add: planned_def soundConfig_def)
  note q = buildBatches_pieces [OF b(1,2)]
  let ?piece = "cohortPieces publisher request ! k"
  have m: "?piece \<in> set (cohortPieces publisher request)" using assms(4) q(1) by simp
  then have l: "?piece \<noteq> []" "length ?piece \<le> 10" using pieces_size [OF m] b(3) by auto
  show "1 \<le> length ?piece" "length ?piece \<le> 10" using l by (simp_all add: Suc_le_eq)
  show "k < 10000" "length (pl_batches p) \<le> 10000" using q(2) assms(4) by simp_all
  have r: "length (rowOf r) \<le> 1024" if "r \<in> set ?piece" for r
  proof -
    have "r \<in> set (concat (cohortPieces publisher request))" using m that by (simp only: set_concat) blast
    moreover have "concat (cohortPieces publisher request) = pq_Recipients request" using b(2) by (intro concat_pieces) simp
    ultimately have "r \<in> set (pq_Recipients request)" by simp
    then show ?thesis
      using recipients_sound(2) assms(1,3) by (auto simp: planned_def boundedInputs_def list_all_iff)
  qed
  have "length (batchBytes rs) \<le> 1025 * length rs" if "\<forall>r \<in> set rs. length (rowOf r) \<le> 1024" for rs
    using that by (induction rs) (simp_all add: batchBytes_def rowOf_def)
  then have "length (batchBytes ?piece) \<le> 1025 * length ?piece" using r by blast
  then show "length (pl_batches p ! k) \<le> 10250" using q(1) assms(4) l by simp
  show "1 \<le> length (pl_batches p ! k)" using q(1) assms(4) l(1) by (cases ?piece) (simp_all add: batchBytes_def)
qed

definition manifestReference :: "Publisher \<Rightarrow> publicationPlan \<Rightarrow> string \<Rightarrow> string \<Rightarrow> BlobReference" where
  "manifestReference publisher p body versionID =
     \<lparr>br_Container = pc_ManifestsContainer (pu_config publisher),
      br_Name = ''published/'' @ sr_ReleaseID (pq_Source (pl_request p)) @ ''/'' @ pl_operationID p @ ''.json'',
      br_SHA256 = hexEncode (sha256 body), br_Size = int (length body), br_VersionID = versionID\<rparr>"

definition batchReference :: "Publisher \<Rightarrow> publicationPlan \<Rightarrow> nat \<Rightarrow> string \<Rightarrow> BlobReference" where
  "batchReference publisher p k versionID =
     \<lparr>br_Container = pc_BatchesContainer (pu_config publisher), br_Name = pl_operationID p @ ''/batch-'' @ leftPad k 4 @ ''.jsonl'',
      br_SHA256 = hexEncode (sha256 (pl_batches p ! k)), br_Size = int (length (pl_batches p ! k)), br_VersionID = versionID\<rparr>"

lemma manifest_reference_contract:
  assumes "planned publisher request p" "soundConfig (pu_config publisher)" "boundedInputs publisher request"
    and "1 \<le> length body" "length body \<le> 65536" "fitVersion v"
  shows "validBlob (manifestReference publisher p body v)" "wfBlob (manifestReference publisher p body v)"
    "jbound (blobJson (manifestReference publisher p body v)) \<le> 10000"
proof -
  note f = planned_facts [OF assms(1-3)] and a = planned_ascii [OF assms(1,2)]
  let ?r = "manifestReference publisher p body v"
  let ?parts = "[''published'', sr_ReleaseID (pq_Source request), pl_operationID p @ ''.json'']"
  have l: "length (join CHR ''/'' ?parts) \<le> 256" using f(9,13) by simp
  have s: "list_all plainSegment ?parts" using f(12,14) segment_texts plain_long by simp
  have n: "br_Name ?r = join CHR ''/'' ?parts" by (simp add: manifestReference_def a(7))
  note c = blob_contract [of ?r ?parts, OF _ _ _ _ _ n s _ l]
  have e: "validBlob ?r \<and> wfBlob ?r \<and> length (br_Container ?r) \<le> 63 \<and> length (br_SHA256 ?r) = 64 \<and> length (itoa (br_Size ?r)) \<le> 10"
    using c assms hex_digest by (simp add: manifestReference_def soundConfig_def maxArtifactBytes_def del: rmatch.simps)
  then show "validBlob ?r" "wfBlob ?r" by blast+
  show "jbound (blobJson ?r) \<le> 10000"
    using e l assms(6) unfolding n [symmetric] by (simp add: blobJson_def jint_def manifestReference_def fitVersion_def)
qed

lemma batch_reference_contract:
  assumes "planned publisher request p" "soundConfig (pu_config publisher)" "boundedInputs publisher request"
    and "k < length (pl_batches p)" "fitVersion v"
  shows "validBlob (batchReference publisher p k v)" "wfBlob (batchReference publisher p k v)"
    "jbound (blobJson (batchReference publisher p k v)) \<le> 10000"
proof -
  note f = planned_facts [OF assms(1-3)] and a = planned_ascii [OF assms(1,2)] and b = planned_batches [OF assms(1-4)]
  let ?r = "batchReference publisher p k v"
  let ?parts = "[pl_operationID p, ''batch-'' @ leftPad k 4 @ ''.jsonl'']"
  have l: "length (join CHR ''/'' ?parts) \<le> 256" using f(9) leftPad_length [OF b(1)] by simp
  have s: "list_all plainSegment ?parts" using f(9,14) segment_texts leftPad_segment plain_long by simp
  have n: "br_Name ?r = join CHR ''/'' ?parts" by (simp add: batchReference_def)
  note c = blob_contract [of ?r ?parts, OF _ _ _ _ _ n s _ l]
  have e: "validBlob ?r \<and> wfBlob ?r \<and> length (br_Container ?r) \<le> 63 \<and> length (br_SHA256 ?r) = 64 \<and> length (itoa (br_Size ?r)) \<le> 10"
    using c b assms hex_digest by (simp add: batchReference_def soundConfig_def maxArtifactBytes_def del: rmatch.simps)
  then show "validBlob ?r" "wfBlob ?r" by blast+
  show "jbound (blobJson ?r) \<le> 10000"
    using e l assms(5) unfolding n [symmetric] by (simp add: blobJson_def jint_def batchReference_def fitVersion_def)
qed

lemma message_contract:
  assumes "planned publisher request p" "soundConfig (pu_config publisher)" "boundedInputs publisher request"
    and "1 \<le> length body" "length body \<le> 65536" "fitVersion v" "k < length (pl_batches p)" "fitVersion v'"
  defines "message \<equiv> messageOf publisher p (manifestReference publisher p body v) (batchReference publisher p k v') k"
  shows "fitMessage message" "length (jprint (messageJson message)) \<le> 65536" "length (qm_MessageID message) \<le> 69"
proof -
  note f = planned_facts [OF assms(1-3)] and a = planned_ascii [OF assms(1,2)] and b = planned_batches [OF assms(1-3,7)]
  note r = manifest_reference_contract [OF assms(1-6)] and s = batch_reference_contract [OF assms(1-3,7,8)]
  obtain host where h: "pc_ApplicationOrigin (pu_config publisher) = ''https://'' @ host" "list_all dnsChar host" "length host \<le> 253"
      "hasSuffix host ''.azurecontainerapps.io'' \<or> hasSuffix host ''.example.internal''"
    using assms(3) by (auto simp: boundedInputs_def)
  have ref: "qm_Manifest message = manifestReference publisher p body v"
    "Reference (qm_RecipientBatch message) = batchReference publisher p k v'"
    by (simp_all add: message_def messageOf_def Let_def Reference_def)
  have count: "bt_RecipientCount (qm_RecipientBatch message) = int (length (cohortPieces publisher request ! k))"
    "bt_BatchIndex (qm_RecipientBatch message) = int k" "bt_BatchCount (qm_RecipientBatch message) = int (length (pl_batches p))"
    using planned_pieces(2) [OF assms(1,2,7)] a(7) by (simp_all add: message_def messageOf_def Let_def)
  have url: "qm_ApplicationURL message = ''https://'' @ host @ ''/v1/releases/'' @ sr_Version (pq_Source request) @ ''/download/'' @
      sr_DownloadName (pq_Source request)"
    using h(1) a(7) by (simp add: message_def messageOf_def Let_def)
  have sel: "qm_SchemaVersion message = ''1.0''" "qm_MessageID message = pl_operationID p @ '':'' @ itoa (int k)"
      "qm_OperationID message = pl_operationID p" "qm_ReleaseID message = sr_ReleaseID (pq_Source request)"
      "qm_ReleaseVersion message = sr_Version (pq_Source request)" "qm_SourceCommitSHA message = pq_CommitSHA request"
      "qm_CreatedAt message = pq_CreatedAt request"
    using a(7) by (simp_all add: message_def messageOf_def Let_def)
  have batch: "validBatchReference (qm_RecipientBatch message)" "wfBatch (qm_RecipientBatch message)"
    using s(1,2) b assms(7) by (simp_all add: validBatchReference_def wfBatch_def ref count int64_ok_def)
  have "validApplicationURL (qm_ApplicationURL message) (sr_Version (pq_Source request))"
    unfolding url by (rule application_url_ok [OF h(2,4) f(2,3)])
  then have v: "validMessage message (qm_MessageID message)"
    using f r(1) batch(1) by (simp add: validMessage_def sel ref count del: rmatch.simps)
  have "utf8_valid (qm_ApplicationURL message)"
    unfolding url by (intro utf8_valid_ascii) (use a h(2) dnsChar_facts(3) in \<open>auto simp: ascii_def list_all_iff\<close>)
  moreover have i: "length (itoa (int k)) \<le> 4" using b(1) by (intro itoa_short) simp_all
  moreover have "utf8_valid (pl_operationID p @ '':'' @ itoa (int k))" using a(1) ascii_itoa by (intro utf8_valid_ascii) simp
  ultimately have "wfMessage message"
    using a r(2) batch(2) assms(3) by (simp add: wfMessage_def sel ref utf8_valid_ascii boundedInputs_def)
  then show "fitMessage message" using v f(1) by (simp add: fitMessage_def sel)
  show "length (qm_MessageID message) \<le> 69" using f(9) i by (simp add: sel)
  have "jbound (batchJson (qm_RecipientBatch message)) \<le> 12000"
  proof -
    have "length (itoa (bt_BatchCount (qm_RecipientBatch message))) \<le> 10" "length (itoa (bt_RecipientCount (qm_RecipientBatch message))) \<le> 10"
      using b itoa_nat_length [of "length (pl_batches p)" 10] itoa_nat_length [of "length (cohortPieces publisher request ! k)" 10]
      by (simp_all add: count itoa_def)
    then show ?thesis using s(3) i unfolding ref(2) [symmetric] by (simp add: batchJson_def blobJson_def Reference_def jint_def count)
  qed
  moreover have "length (qm_ApplicationURL message) \<le> 400" unfolding url using h(3) f(1,4) by simp
  ultimately have "jbound (messageJson message) \<le> 65536"
    using r(3) f(1,8,9,13) i assms(3) by (simp add: messageJson_def sel ref boundedInputs_def)
  then show "length (jprint (messageJson message)) \<le> 65536" using jprint_bound(1) [of "messageJson message"] by simp
qed

end
