(* ===== verification/PubRun.thy ===== *)
theory PubRun
  imports PubContracts
begin

text \<open>
  Publications on a service that answers: a validated plan is published completely, publishing it again changes
  nothing, and every message that was sent can be delivered by the worker from what was stored.
\<close>

section \<open>Runs without their events\<close>

definition yields :: "filesystem \<Rightarrow> 'a pub \<Rightarrow> pubWorld \<Rightarrow> 'a \<Rightarrow> pubWorld \<Rightarrow> bool" where
  "yields fs t w x w' \<longleftrightarrow> (\<exists>es. runP fs t w = (x, w', es))"

lemma yields_Finish [simp]: "yields fs (Finish x) w y w' \<longleftrightarrow> y = x \<and> w' = w"
  by (auto simp: yields_def)

lemma yields_bindP: "yields fs t w x w1 \<Longrightarrow> yields fs (f x) w1 y w2 \<Longrightarrow> yields fs (bindP t f) w y w2"
  by (auto simp: yields_def runP_bindP)

lemma yields_tryP: "yields fs t w (Inr x) w1 \<Longrightarrow> yields fs (f x) w1 y w2 \<Longrightarrow> yields fs (tryP t f) w y w2"
  unfolding tryP_def by (erule yields_bindP) simp

lemma yields_files:
  "yields fs (StatFile n k) w x w' \<longleftrightarrow> yields fs (k (fs_Stat fs n)) w x w'"
  "yields fs (ReadFile n k1) w x w' \<longleftrightarrow> yields fs (k1 (fs_ReadFile fs n)) w x w'"
  "yields fs (GetProperties c n k2) w x w' \<longleftrightarrow> yields fs (k2 (propertiesOf (pw_blobs w (c, n)))) w x w'"
  "yields fs (DownloadBlob c n k3) w x w' \<longleftrightarrow> yields fs (k3 (contentOf (pw_blobs w (c, n)))) w x w'"
  by (auto simp: yields_def Let_def split: prod.splits)

section \<open>Blobs that hold their content\<close>

definition digestMetadata :: "string \<Rightarrow> metadata" where
  "digestMetadata body = [(''sha256'', Some (hexEncode (sha256 body)))]"

text \<open>The newest version of the blob is that content, with its digest recorded.\<close>

definition holdsBody :: "pubWorld \<Rightarrow> string \<times> string \<Rightarrow> string \<Rightarrow> bool" where
  "holdsBody w at body \<longleftrightarrow>
     (case pw_blobs w at of [] \<Rightarrow> False
      | v # _ \<Rightarrow> bv_Content v = body \<and> bv_Metadata v = digestMetadata body \<and> fitVersion (bv_VersionID v))"

definition openFor :: "pubWorld \<Rightarrow> string \<times> string \<Rightarrow> string \<Rightarrow> bool" where
  "openFor w at body \<longleftrightarrow> pw_blobs w at = [] \<or> holdsBody w at body"

definition stored :: "string \<times> string \<Rightarrow> string \<Rightarrow> pubWorld \<Rightarrow> pubWorld" where
  "stored at body w =
     (if pw_blobs w at = []
      then w\<lparr>pw_blobs := (pw_blobs w)(at := [\<lparr>bv_Content = body, bv_ETag = tagOf [], bv_VersionID = tagOf [],
               bv_Metadata = digestMetadata body\<rparr>])\<rparr>
      else w)"

definition versionAt :: "pubWorld \<Rightarrow> string \<times> string \<Rightarrow> string" where
  "versionAt w at = bv_VersionID (hd (pw_blobs w at))"

definition publishedAt :: "pubWorld \<Rightarrow> string \<times> string \<Rightarrow> string \<Rightarrow> PublishedBlob" where
  "publishedAt w at body =
     \<lparr>pb_Reference = \<lparr>br_Container = fst at, br_Name = snd at, br_SHA256 = hexEncode (sha256 body), br_Size = int (length body),
        br_VersionID = versionAt w at\<rparr>,
      pb_ETag = bv_ETag (hd (pw_blobs w at))\<rparr>"

lemma tagOf_Nil: "tagOf [] = ''v0''" "fitVersion (tagOf [])"
proof -
  show t: "tagOf [] = ''v0''" by (simp add: tagOf_def itoa_nat.simps digit_char_0)
  show "fitVersion (tagOf [])"
    unfolding t fitVersion_def by (simp add: controlFree_bytes utf8_valid_ascii ascii_def)
qed

lemma stored_holds: "openFor w at body \<Longrightarrow> holdsBody (stored at body w) at body"
  by (auto simp: openFor_def stored_def holdsBody_def tagOf_Nil(2))

lemma stored_keeps: "pw_blobs w at \<noteq> [] \<Longrightarrow> pw_blobs (stored at' body w) at = pw_blobs w at"
  by (auto simp: stored_def)

lemma stored_other: "at \<noteq> at' \<Longrightarrow> pw_blobs (stored at' body w) at = pw_blobs w at"
  by (auto simp: stored_def)

lemma stored_queue [simp]: "pw_queue (stored at body w) = pw_queue w"
  by (simp add: stored_def)

lemma stored_id: "holdsBody w at body \<Longrightarrow> stored at body w = w"
  by (auto simp: stored_def holdsBody_def)

lemma holds_version: "holdsBody w at body \<Longrightarrow> fitVersion (versionAt w at) \<and> pw_blobs w at \<noteq> []"
  by (auto simp: holdsBody_def versionAt_def split: list.splits)

lemma holds_stored: "holdsBody w at body \<Longrightarrow> holdsBody (stored at' body' w) at body"
  using holds_version [of w at body] stored_keeps [of w at at' body'] by (simp add: holdsBody_def)

section \<open>The writers\<close>

lemma yields_existing:
  assumes "holdsBody w (bi_container identity, bi_name identity) body" "bi_digest identity = hexEncode (sha256 body)"
    and "bi_size identity = int (length body)" "body \<noteq> []"
  shows "yields fs (existingBlob identity) w (Inr (publishedAt w (bi_container identity, bi_name identity) body)) w"
proof -
  let ?at = "(bi_container identity, bi_name identity)"
  obtain v vs where v: "pw_blobs w ?at = v # vs" "bv_Content v = body" "bv_Metadata v = digestMetadata body" "fitVersion (bv_VersionID v)"
    using assms(1) by (auto simp: holdsBody_def split: list.splits)
  have "length (hexEncode (sha256 body)) = 64" using hex_digest [of body] by (simp add: digest_iff)
  moreover have "bv_VersionID v \<noteq> []" using v(4) by (auto simp: fitVersion_def)
  ultimately show ?thesis
    using v assms(2-4)
    by (simp add: existingBlob_def yields_files propertiesOf_def publishedFromProperties_def digestMetadata_def publishedAt_def versionAt_def
        Let_def Suc_le_eq)
qed

lemma yields_putImmutable:
  assumes "openFor w (bi_container identity, bi_name identity) body" "bi_digest identity = hexEncode (sha256 body)"
    and "bi_size identity = int (length body)" "body \<noteq> []" "rmatch containerPattern (bi_container identity)"
    and "bi_name identity \<noteq> []" "bi_contentType identity \<noteq> []"
  shows "yields fs (putImmutable identity (body, None)) w
      (Inr (publishedAt (stored (bi_container identity, bi_name identity) body w) (bi_container identity, bi_name identity) body))
      (stored (bi_container identity, bi_name identity) body w)"
proof -
  let ?at = "(bi_container identity, bi_name identity)"
  have l: "length (hexEncode (sha256 body)) = 64" using hex_digest [of body] by (simp add: digest_iff)
  have ok: "\<not> (\<not> rmatch pubContainerPattern (bi_container identity) \<or> bi_name identity = [] \<or> bi_size identity < 1 \<or>
         length (bi_digest identity) \<noteq> 64 \<or> bi_contentType identity = [])"
    using assms(2-7) l by (simp add: pub_patterns Suc_le_eq del: rmatch.simps)
  show ?thesis
  proof (cases "pw_blobs w ?at = []")
    case True
    have "yields fs (upload \<lparr>bu_identity = identity, bu_body = (body, None), bu_conditions = IfAbsent\<rparr>) w
        (Inr \<lparr>ur_ETag = Some (tagOf []), ur_VersionID = Some (tagOf [])\<rparr>) (stored ?at body w)"
      using True assms(2) by (simp add: yields_def upload_uploadOf uploadOf_def addVersion_def stored_def digestMetadata_def Let_def)
    moreover have "publishedFromUpload identity \<lparr>ur_ETag = Some (tagOf []), ur_VersionID = Some (tagOf [])\<rparr> =
        Inr (publishedAt (stored ?at body w) ?at body)"
      using True assms(2,3) tagOf_Nil(1) by (simp add: publishedFromUpload_def publishedAt_def versionAt_def stored_def)
    ultimately show ?thesis unfolding putImmutable_def if_not_P [OF ok] by (auto intro!: yields_bindP)
  next
    case False
    then have h: "holdsBody w ?at body" using assms(1) by (simp add: openFor_def)
    have "yields fs (upload \<lparr>bu_identity = identity, bu_body = (body, None), bu_conditions = IfAbsent\<rparr>) w (Inl (AzStatus 412)) w"
      using False by (simp add: yields_def upload_uploadOf uploadOf_def Let_def)
    then show ?thesis
      using yields_existing [OF h assms(2-4)] unfolding putImmutable_def if_not_P [OF ok] stored_id [OF h]
      by (auto intro!: yields_bindP simp: pubAzureStatus_def)
  qed
qed

lemma yields_bytes:
  assumes "openFor w (ib_Container q, ib_Name q) (ib_Body q)" "ib_Body q \<noteq> []" "rmatch containerPattern (ib_Container q)"
    and "ib_Name q \<noteq> []" "ib_ContentType q \<noteq> []"
  shows "yields fs (PutImmutableBytes q) w
      (Inr (publishedAt (stored (ib_Container q, ib_Name q) (ib_Body q) w) (ib_Container q, ib_Name q) (ib_Body q)))
      (stored (ib_Container q, ib_Name q) (ib_Body q) w)"
  using yields_putImmutable [of w "bytesIdentity (ib_Container q) (ib_Name q) (ib_Body q) (ib_ContentType q)" "ib_Body q" fs] assms
  by (simp add: PutImmutableBytes_def bytesIdentity_def Suc_le_eq not_less del: rmatch.simps)

lemma yields_file:
  assumes "openFor w (if_Container q, if_Name q) body" "body \<noteq> []" "rmatch containerPattern (if_Container q)"
    and "if_Name q \<noteq> []" "if_ContentType q \<noteq> []" "if_ExpectedDigest q = hexEncode (sha256 body)" "if_ExpectedSize q = int (length body)"
    and "fs_Stat fs (if_FileName q) = Some info" "fi_IsRegular info" "fi_Size info = int (length body)"
    and "fs_ReadFile fs (if_FileName q) = Some (body, None)" "fs_ReadFile fs (cleanPath (if_FileName q)) = Some (body, None)"
  shows "yields fs (PutImmutableFile q) w
      (Inr (publishedAt (stored (if_Container q, if_Name q) body w) (if_Container q, if_Name q) body))
      (stored (if_Container q, if_Name q) body w)"
proof -
  have d: "yields fs (fileDigest (if_FileName q)) w (Inr (if_ExpectedDigest q)) w"
    using assms(6,12) by (simp add: fileDigest_def yields_files)
  have "yields fs (checkedFile q) w (Inr (body, None)) w"
    using assms(7-11) d by (auto simp: checkedFile_def yields_files intro!: yields_bindP [OF d])
  then show ?thesis
    unfolding PutImmutableFile_def
    by (rule yields_tryP) (use yields_putImmutable [of w "\<lparr>bi_container = if_Container q, bi_name = if_Name q,
           bi_digest = if_ExpectedDigest q, bi_size = if_ExpectedSize q, bi_contentType = if_ContentType q\<rparr>" body fs] assms(1-7) in
      \<open>simp del: rmatch.simps\<close>)
qed

section \<open>The current manifest\<close>

text \<open>The newest version of the blob is that content.\<close>

definition newest :: "pubWorld \<Rightarrow> string \<times> string \<Rightarrow> string \<Rightarrow> bool" where
  "newest w at body \<longleftrightarrow>
     (case pw_blobs w at of [] \<Rightarrow> False
      | v # _ \<Rightarrow> bv_Content v = body \<and> bv_Metadata v = digestMetadata body \<and> bv_VersionID v \<noteq> [])"

text \<open>The current manifest may be advanced to a version: there is none, or one of an older version.\<close>

definition behind :: "pubWorld \<Rightarrow> string \<times> string \<Rightarrow> string \<Rightarrow> bool" where
  "behind w at version \<longleftrightarrow>
     pw_blobs w at = [] \<or>
     (\<exists>manifest k k'. newest w at (jprint (manifestJson manifest)) \<and>
        ParsePublishedManifest (jprint (manifestJson manifest)) = Inr manifest \<and>
        productVersionKey (pm_ReleaseVersion manifest) = Some k \<and> productVersionKey version = Some k' \<and> versionKeyLess k k')"

lemma hex_length [simp]: "length (hexEncode (sha256 body)) = 64"
  using hex_digest [of body] by (simp add: digest_iff)

lemma newest_reply:
  assumes "newest w at body"
  obtains v vs where "pw_blobs w at = v # vs" "bv_Content v = body" "bv_Metadata v = digestMetadata body" "bv_VersionID v \<noteq> []"
    "propertiesOf (pw_blobs w at) = Inr \<lparr>gp_ETag = Some (bv_ETag v), gp_VersionID = Some (bv_VersionID v),
       gp_ContentLength = Some (int (length body)), gp_Metadata = digestMetadata body\<rparr>"
    "contentOf (pw_blobs w at) = Inr (Some (body, None))"
  using assms by (auto simp: newest_def propertiesOf_def contentOf_def split: list.splits)

lemma yields_downloadCurrent:
  assumes "contentOf (pw_blobs w (c, n)) = Inr (Some (body, None))" "body \<noteq> []" "length body \<le> 65536"
    and "gp_ContentLength properties = Some (int (length body))" "gp_Metadata properties = digestMetadata body"
  shows "yields fs (downloadCurrent c n properties) w (Inr body) w"
  using assms
  by (simp add: downloadCurrent_def yields_files currentBody_def pubReadBounded_def maxCurrentBytes_def metadataMatches_def digestMetadata_def
      Suc_le_eq not_less)

lemma manifest_print_short: "ParsePublishedManifest (jprint (manifestJson m)) = Inr m \<Longrightarrow>
    jprint (manifestJson m) \<noteq> [] \<and> length (jprint (manifestJson m)) \<le> 65536"
  unfolding manifest_doc.parse_iff manifest_doc.accepted_def by (simp add: maxManifestBytes_def manifestJson_def)

definition advanceOk :: "pubWorld \<Rightarrow> CurrentManifestRequest \<Rightarrow> pubWorld \<Rightarrow> bool" where
  "advanceOk w q w' \<longleftrightarrow>
     newest w' (cm_Container q, cm_Name q) (cm_Body q) \<and> pw_queue w' = pw_queue w \<and>
     (\<forall>at. at \<noteq> (cm_Container q, cm_Name q) \<longrightarrow> pw_blobs w' at = pw_blobs w at) \<and>
     (newest w (cm_Container q, cm_Name q) (cm_Body q) \<longrightarrow> w' = w)"

lemma holds_newest: "holdsBody w at body \<Longrightarrow> newest w at body"
  by (auto simp: holdsBody_def newest_def fitVersion_def split: list.splits)

lemma yields_current_present:
  assumes "cm_Body q \<noteq> []" "length (cm_Body q) \<le> 65536"
    and "propertiesOf (pw_blobs w (cm_Container q, cm_Name q)) = Inr properties"
    and "yields fs (downloadCurrent (cm_Container q) (cm_Name q) properties) w (Inr existing) w"
    and "yields fs (if existing = cm_Body q
            then Finish (publishedFromProperties
                   \<lparr>bi_container = cm_Container q, bi_name = cm_Name q, bi_digest = [], bi_size = 0, bi_contentType = []\<rparr> properties)
            else replaceCurrent q properties existing) w x w'"
  shows "yields fs (PutCurrentManifest q) w x w'"
  using assms(1-3) yields_tryP [where f = "\<lambda>existing. if existing = cm_Body q
            then Finish (publishedFromProperties
                   \<lparr>bi_container = cm_Container q, bi_name = cm_Name q, bi_digest = [], bi_size = 0, bi_contentType = []\<rparr> properties)
            else replaceCurrent q properties existing", OF assms(4,5)]
  by (simp add: PutCurrentManifest_def yields_files maxCurrentBytes_def Suc_le_eq not_less)

lemma yields_current_same:
  assumes "newest w (cm_Container q, cm_Name q) (cm_Body q)" "cm_Body q \<noteq> []" "length (cm_Body q) \<le> 65536"
  shows "\<exists>published. yields fs (PutCurrentManifest q) w (Inr published) w"
proof -
  let ?at = "(cm_Container q, cm_Name q)"
  from assms(1) obtain v vs where v: "pw_blobs w ?at = v # vs" "bv_Content v = cm_Body q" "bv_Metadata v = digestMetadata (cm_Body q)"
      "bv_VersionID v \<noteq> []" and r: "propertiesOf (pw_blobs w ?at) = Inr \<lparr>gp_ETag = Some (bv_ETag v), gp_VersionID = Some (bv_VersionID v),
       gp_ContentLength = Some (int (length (cm_Body q))), gp_Metadata = digestMetadata (cm_Body q)\<rparr>"
      "contentOf (pw_blobs w ?at) = Inr (Some (cm_Body q, None))"
    by (rule newest_reply)
  let ?p = "\<lparr>gp_ETag = Some (bv_ETag v), gp_VersionID = Some (bv_VersionID v),
       gp_ContentLength = Some (int (length (cm_Body q))), gp_Metadata = digestMetadata (cm_Body q)\<rparr>"
  have d: "yields fs (downloadCurrent (cm_Container q) (cm_Name q) ?p) w (Inr (cm_Body q)) w"
    by (rule yields_downloadCurrent [OF r(2) assms(2,3)]) simp_all
  have "\<exists>published. publishedFromProperties \<lparr>bi_container = cm_Container q, bi_name = cm_Name q, bi_digest = [], bi_size = 0,
      bi_contentType = []\<rparr> ?p = Inr published"
    using v(4) assms(2) by (simp add: publishedFromProperties_def digestMetadata_def Let_def Suc_le_eq)
  then obtain published where "publishedFromProperties \<lparr>bi_container = cm_Container q, bi_name = cm_Name q, bi_digest = [], bi_size = 0,
      bi_contentType = []\<rparr> ?p = Inr published" ..
  then have "yields fs (PutCurrentManifest q) w (Inr published) w"
    by (intro yields_current_present [OF assms(2,3) r(1) d]) simp
  then show ?thesis ..
qed

lemma yields_current_older:
  assumes "newest w (cm_Container q, cm_Name q) (jprint (manifestJson manifest))" "cm_Body q \<noteq> []" "length (cm_Body q) \<le> 65536"
    and "ParsePublishedManifest (jprint (manifestJson manifest)) = Inr manifest" "jprint (manifestJson manifest) \<noteq> cm_Body q"
    and "productVersionKey (pm_ReleaseVersion manifest) = Some k" "productVersionKey (cm_ReleaseVersion q) = Some k'" "versionKeyLess k k'"
  shows "\<exists>published w'. yields fs (PutCurrentManifest q) w (Inr published) w' \<and> advanceOk w q w'"
proof -
  let ?at = "(cm_Container q, cm_Name q)" and ?old = "jprint (manifestJson manifest)"
  from assms(1) obtain v vs where v: "pw_blobs w ?at = v # vs" "bv_Content v = ?old" "bv_Metadata v = digestMetadata ?old"
      "bv_VersionID v \<noteq> []" and r: "propertiesOf (pw_blobs w ?at) = Inr \<lparr>gp_ETag = Some (bv_ETag v), gp_VersionID = Some (bv_VersionID v),
       gp_ContentLength = Some (int (length ?old)), gp_Metadata = digestMetadata ?old\<rparr>"
      "contentOf (pw_blobs w ?at) = Inr (Some (?old, None))"
    by (rule newest_reply)
  define p where "p = \<lparr>gp_ETag = Some (bv_ETag v), gp_VersionID = Some (bv_VersionID v),
       gp_ContentLength = Some (int (length ?old)), gp_Metadata = digestMetadata ?old\<rparr>"
  define identity where "identity = bytesIdentity (cm_Container q) (cm_Name q) (cm_Body q) ''application/json''"
  define u where "u = uploadOf identity (cm_Body q, None) (IfMatch (bv_ETag v))"
  define t where "t = tagOf (v # vs)"
  define w' where "w' = addVersion u t t w"
  have t: "t \<noteq> []" by (simp add: t_def tagOf_def)
  have d: "yields fs (downloadCurrent (cm_Container q) (cm_Name q) p) w (Inr ?old) w"
    using manifest_print_short [OF assms(4)] by (intro yields_downloadCurrent [OF r(2)]) (simp_all add: p_def)
  have up: "yields fs (upload \<lparr>bu_identity = identity, bu_body = (cm_Body q, None), bu_conditions = IfMatch (bv_ETag v)\<rparr>) w
      (Inr \<lparr>ur_ETag = Some t, ur_VersionID = Some t\<rparr>) w'"
    using v(1) unfolding upload_uploadOf u_def [symmetric]
    by (simp add: yields_def w'_def t_def u_def uploadOf_def identity_def bytesIdentity_def Let_def)
  obtain published where pub: "publishedFromUpload identity \<lparr>ur_ETag = Some t, ur_VersionID = Some t\<rparr> = Inr published"
    using t by (simp add: publishedFromUpload_def)
  have "yields fs (replaceCurrent q p ?old) w (Inr published) w'"
    using assms(4,6-8) pub unfolding replaceCurrent_def Let_def identity_def [symmetric]
    by (simp add: p_def) (rule yields_bindP [OF up], simp)
  then have "yields fs (PutCurrentManifest q) w (Inr published) w'"
    using assms(5) by (intro yields_current_present [OF assms(2,3) r(1) [folded p_def] d]) simp
  moreover have "advanceOk w q w'"
    using t v assms(5) by (auto simp: advanceOk_def newest_def w'_def addVersion_def u_def uploadOf_def identity_def bytesIdentity_def digestMetadata_def)
  ultimately show ?thesis by blast
qed

lemma yields_current:
  assumes "newest w (cm_Container q, cm_Name q) (cm_Body q) \<or> behind w (cm_Container q, cm_Name q) (cm_ReleaseVersion q)"
    and "cm_Body q \<noteq> []" "length (cm_Body q) \<le> 65536" "rmatch containerPattern (cm_Container q)" "cm_Name q \<noteq> []"
  shows "\<exists>published w'. yields fs (PutCurrentManifest q) w (Inr published) w' \<and> advanceOk w q w'"
proof (cases "newest w (cm_Container q, cm_Name q) (cm_Body q)")
  case True
  then show ?thesis using yields_current_same [OF True assms(2,3)] by (auto simp: advanceOk_def)
next
  case False
  let ?at = "(cm_Container q, cm_Name q)"
  show ?thesis
  proof (cases "pw_blobs w ?at = []")
    case True
    let ?q = "\<lparr>ib_Container = cm_Container q, ib_Name = cm_Name q, ib_Body = cm_Body q, ib_ContentType = ''application/json''\<rparr>"
    have "yields fs (PutImmutableBytes ?q) w (Inr (publishedAt (stored ?at (cm_Body q) w) ?at (cm_Body q))) (stored ?at (cm_Body q) w)"
      using yields_bytes [of w ?q fs] True assms(2,4,5) by (simp add: openFor_def del: rmatch.simps)
    then have "yields fs (PutCurrentManifest q) w (Inr (publishedAt (stored ?at (cm_Body q) w) ?at (cm_Body q))) (stored ?at (cm_Body q) w)"
      using True assms(2,3)
      by (simp add: PutCurrentManifest_def yields_files propertiesOf_def pubAzureStatus_def maxCurrentBytes_def Suc_le_eq not_less)
    moreover have "advanceOk w q (stored ?at (cm_Body q) w)"
      using True False stored_holds [of w ?at "cm_Body q"] holds_newest stored_other by (fastforce simp: advanceOk_def openFor_def)
    ultimately show ?thesis by blast
  next
    case nonempty: False
    then obtain manifest k k' where m: "newest w ?at (jprint (manifestJson manifest))"
        "ParsePublishedManifest (jprint (manifestJson manifest)) = Inr manifest" "productVersionKey (pm_ReleaseVersion manifest) = Some k"
        "productVersionKey (cm_ReleaseVersion q) = Some k'" "versionKeyLess k k'"
      using assms(1) False by (auto simp: behind_def)
    have "jprint (manifestJson manifest) \<noteq> cm_Body q" using False m(1) by auto
    then show ?thesis using yields_current_older [OF m(1) assms(2,3) m(2) _ m(3-5)] by blast
  qed
qed

section \<open>The content of a plan\<close>

definition identityAt :: "Publisher \<Rightarrow> publicationPlan \<Rightarrow> string \<times> string" where
  "identityAt publisher p = (ib_Container (identityRequest publisher p), ib_Name (identityRequest publisher p))"

definition darAt :: "Publisher \<Rightarrow> publicationPlan \<Rightarrow> string \<times> string" where
  "darAt publisher p = (if_Container (darRequest publisher p), if_Name (darRequest publisher p))"

definition manifestAt :: "Publisher \<Rightarrow> publicationPlan \<Rightarrow> string \<times> string" where
  "manifestAt publisher p = (ib_Container (manifestRequest publisher p []), ib_Name (manifestRequest publisher p []))"

definition batchAt :: "Publisher \<Rightarrow> publicationPlan \<Rightarrow> nat \<Rightarrow> string \<times> string" where
  "batchAt publisher p k = (ib_Container (batchRequest publisher p k []), ib_Name (batchRequest publisher p k []))"

definition manifestBodyIn :: "Publisher \<Rightarrow> publicationPlan \<Rightarrow> pubWorld \<Rightarrow> string" where
  "manifestBodyIn publisher p w =
     jprint (manifestJson (manifestOf publisher p (darReference publisher (pl_request p) (versionAt w (darAt publisher p)))))"

text \<open>Everything that a publication of the plan writes is there.\<close>

definition complete :: "Publisher \<Rightarrow> publicationPlan \<Rightarrow> string \<Rightarrow> pubWorld \<Rightarrow> bool" where
  "complete publisher p content w \<longleftrightarrow>
     holdsBody w (identityAt publisher p) (identityBody publisher p) \<and> holdsBody w (darAt publisher p) content \<and>
     holdsBody w (manifestAt publisher p) (manifestBodyIn publisher p w) \<and>
     (\<forall>k < length (pl_batches p). holdsBody w (batchAt publisher p k) (pl_batches p ! k))"

text \<open>Every blob of the plan is absent, or there with the content that the plan has for it.\<close>

definition ready :: "Publisher \<Rightarrow> publicationPlan \<Rightarrow> string \<Rightarrow> pubWorld \<Rightarrow> bool" where
  "ready publisher p content w \<longleftrightarrow>
     openFor w (identityAt publisher p) (identityBody publisher p) \<and> openFor w (darAt publisher p) content \<and>
     (pw_blobs w (manifestAt publisher p) = [] \<or>
      holdsBody w (darAt publisher p) content \<and> holdsBody w (manifestAt publisher p) (manifestBodyIn publisher p w)) \<and>
     (\<forall>k < length (pl_batches p). openFor w (batchAt publisher p k) (pl_batches p ! k))"

lemma complete_ready: "complete publisher p content w \<Longrightarrow> ready publisher p content w"
  by (simp add: complete_def ready_def openFor_def)

primrec storeBatches :: "Publisher \<Rightarrow> publicationPlan \<Rightarrow> nat \<Rightarrow> string list \<Rightarrow> pubWorld \<Rightarrow> pubWorld" where
  "storeBatches publisher p k [] w = w"
| "storeBatches publisher p k (body # bodies) w =
     storeBatches publisher p (Suc k) bodies (stored (batchAt publisher p k) body w)"

definition storeArtifact :: "Publisher \<Rightarrow> publicationPlan \<Rightarrow> string \<Rightarrow> pubWorld \<Rightarrow> pubWorld" where
  "storeArtifact publisher p content w = stored (darAt publisher p) content (stored (identityAt publisher p) (identityBody publisher p) w)"

definition storeManifest :: "Publisher \<Rightarrow> publicationPlan \<Rightarrow> pubWorld \<Rightarrow> pubWorld" where
  "storeManifest publisher p w = stored (manifestAt publisher p) (manifestBodyIn publisher p w) w"

definition storePlan :: "Publisher \<Rightarrow> publicationPlan \<Rightarrow> string \<Rightarrow> pubWorld \<Rightarrow> pubWorld" where
  "storePlan publisher p content w =
     storeBatches publisher p 0 (pl_batches p) (storeManifest publisher p (storeArtifact publisher p content w))"

lemma storeBatches_keeps: "pw_blobs w at \<noteq> [] \<Longrightarrow> pw_blobs (storeBatches publisher p k bodies w) at = pw_blobs w at"
proof (induction bodies arbitrary: k w)
  case (Cons body bodies)
  then show ?case using stored_keeps [of w at] by simp
qed simp

lemma storeBatches_queue [simp]: "pw_queue (storeBatches publisher p k bodies w) = pw_queue w"
  by (induction bodies arbitrary: k w) simp_all

lemma leftPad_inj: "leftPad i 4 = leftPad j 4 \<longleftrightarrow> i = j"
proof
  have zeros: "decimal (replicate n CHR ''0'' @ s) = decimal s" for n s
    by (induction n) (simp_all add: decimal_def digit_value_def)
  assume "leftPad i 4 = leftPad j 4"
  then have "decimal (leftPad i 4) = decimal (leftPad j 4)" by simp
  then show "i = j" by (simp add: leftPad_def zeros decimal_itoa_nat)
qed simp

lemma batchAt_inj: "batchAt publisher p i = batchAt publisher p j \<longleftrightarrow> i = j"
  by (simp add: batchAt_def batchRequest_def leftPad_inj)

lemma openFor_stored: "openFor w at body \<Longrightarrow> at \<noteq> at' \<or> holdsBody w at body \<Longrightarrow> openFor (stored at' body' w) at body"
  using holds_stored [of w at body at' body'] stored_other [of at at' body' w] unfolding openFor_def by (cases "at = at'") auto

text \<open>The places of a plan are different blobs.\<close>

lemma places_distinct:
  assumes "soundConfig (pu_config publisher)"
  shows "identityAt publisher p \<noteq> darAt publisher p" "identityAt publisher p \<noteq> manifestAt publisher p" "darAt publisher p \<noteq> manifestAt publisher p"
    "batchAt publisher p k \<noteq> identityAt publisher p" "batchAt publisher p k \<noteq> darAt publisher p" "batchAt publisher p k \<noteq> manifestAt publisher p"
    "currentBlob publisher request \<noteq> identityAt publisher p" "currentBlob publisher request \<noteq> darAt publisher p"
    "currentBlob publisher request \<noteq> manifestAt publisher p" "currentBlob publisher request \<noteq> batchAt publisher p k"
proof -
  define c where "c = pu_config publisher"
  have "pc_ReleasesContainer c \<noteq> pc_ManifestsContainer c" "pc_ReleasesContainer c \<noteq> pc_BatchesContainer c"
    "pc_ManifestsContainer c \<noteq> pc_BatchesContainer c"
    using assms unfolding soundConfig_def c_def by simp_all
  note d = this this[symmetric]
  note places = identityAt_def darAt_def manifestAt_def batchAt_def currentBlob_def identityRequest_def darRequest_def
      manifestRequest_def batchRequest_def Let_def c_def [symmetric]
  show "identityAt publisher p \<noteq> darAt publisher p" "identityAt publisher p \<noteq> manifestAt publisher p" "darAt publisher p \<noteq> manifestAt publisher p"
    by (simp_all add: places d)
  show "batchAt publisher p k \<noteq> identityAt publisher p" "batchAt publisher p k \<noteq> darAt publisher p" "batchAt publisher p k \<noteq> manifestAt publisher p"
    by (simp_all add: places d)
  show "currentBlob publisher request \<noteq> identityAt publisher p" "currentBlob publisher request \<noteq> darAt publisher p"
    "currentBlob publisher request \<noteq> manifestAt publisher p" "currentBlob publisher request \<noteq> batchAt publisher p k"
    by (simp_all add: places d)
qed

lemma storeBatches_complete:
  assumes "\<forall>i < length bodies. openFor w (batchAt publisher p (k + i)) (bodies ! i)"
  shows "\<forall>i < length bodies. holdsBody (storeBatches publisher p k bodies w) (batchAt publisher p (k + i)) (bodies ! i)"
  using assms
proof (induction bodies arbitrary: k w)
  case (Cons body bodies)
  let ?w = "stored (batchAt publisher p k) body w"
  have first: "holdsBody ?w (batchAt publisher p k) body" using Cons.prems by (intro stored_holds) force
  have "openFor ?w (batchAt publisher p (Suc k + i)) (bodies ! i)" if "i < length bodies" for i
    using Cons.prems that by (intro openFor_stored) (force simp: batchAt_inj)+
  then have rest: "\<forall>i < length bodies. holdsBody (storeBatches publisher p (Suc k) bodies ?w) (batchAt publisher p (Suc k + i)) (bodies ! i)"
    using Cons.IH [of ?w "Suc k"] by blast
  have "holdsBody (storeBatches publisher p (Suc k) bodies ?w) (batchAt publisher p k) body"
    using first holds_version [OF first] storeBatches_keeps [of ?w "batchAt publisher p k"] by (simp add: holdsBody_def)
  then show ?case using rest by (auto simp: less_Suc_eq_0_disj)
qed simp

lemma storeBatches_id:
  "\<forall>i < length bodies. holdsBody w (batchAt publisher p (k + i)) (bodies ! i) \<Longrightarrow> storeBatches publisher p k bodies w = w"
proof (induction bodies arbitrary: k)
  case (Cons body bodies)
  have "holdsBody w (batchAt publisher p k) body" using Cons.prems by force
  moreover have "\<forall>i < length bodies. holdsBody w (batchAt publisher p (Suc k + i)) (bodies ! i)" using Cons.prems by force
  ultimately show ?case using Cons.IH [of "Suc k"] by (simp add: stored_id)
qed simp

lemma storeBatches_other: "(\<forall>i. at \<noteq> batchAt publisher p i) \<Longrightarrow> pw_blobs (storeBatches publisher p k bodies w) at = pw_blobs w at"
  by (induction bodies arbitrary: k w) (simp_all add: stored_other)

lemma versionAt_cong: "pw_blobs w at = pw_blobs w' at \<Longrightarrow> versionAt w at = versionAt w' at"
  by (simp add: versionAt_def)

text \<open>What the writes leave: the content of the plan, and nothing else changed.\<close>

lemma storeArtifact_facts:
  assumes "ready publisher p content w" "soundConfig (pu_config publisher)"
  shows "holdsBody (storeArtifact publisher p content w) (identityAt publisher p) (identityBody publisher p)"
    "holdsBody (storeArtifact publisher p content w) (darAt publisher p) content"
    "openFor (storeArtifact publisher p content w) (manifestAt publisher p) (manifestBodyIn publisher p (storeArtifact publisher p content w))"
    "k < length (pl_batches p) \<Longrightarrow> openFor (storeArtifact publisher p content w) (batchAt publisher p k) (pl_batches p ! k)"
proof -
  note d = places_distinct [OF assms(2)] and r = assms(1)[unfolded ready_def]
  let ?w1 = "stored (identityAt publisher p) (identityBody publisher p) w"
  have i: "holdsBody ?w1 (identityAt publisher p) (identityBody publisher p)" using r stored_holds by blast
  then show "holdsBody (storeArtifact publisher p content w) (identityAt publisher p) (identityBody publisher p)"
    unfolding storeArtifact_def by (rule holds_stored)
  have "openFor ?w1 (darAt publisher p) content" using r d(1) [of p] by (intro openFor_stored) metis+
  then show h: "holdsBody (storeArtifact publisher p content w) (darAt publisher p) content" unfolding storeArtifact_def by (rule stored_holds)
  show "openFor (storeArtifact publisher p content w) (manifestAt publisher p) (manifestBodyIn publisher p (storeArtifact publisher p content w))"
  proof (cases "pw_blobs w (manifestAt publisher p) = []")
    case True
    then show ?thesis using d(2,3) stored_other unfolding openFor_def storeArtifact_def by metis
  next
    case False
    then have m: "holdsBody w (darAt publisher p) content" "holdsBody w (manifestAt publisher p) (manifestBodyIn publisher p w)" using r by auto
    have "pw_blobs (storeArtifact publisher p content w) (darAt publisher p) = pw_blobs w (darAt publisher p)"
      using holds_version [OF m(1)] unfolding storeArtifact_def by (metis stored_keeps)
    then have "manifestBodyIn publisher p (storeArtifact publisher p content w) = manifestBodyIn publisher p w"
      unfolding manifestBodyIn_def using versionAt_cong by metis
    then show ?thesis using m(2) unfolding storeArtifact_def openFor_def by (simp add: holds_stored)
  qed
  show "openFor (storeArtifact publisher p content w) (batchAt publisher p k) (pl_batches p ! k)" if "k < length (pl_batches p)"
    using r d(4,5) that unfolding storeArtifact_def by (intro openFor_stored) auto
qed

lemma storePlan_facts:
  assumes "ready publisher p content w" "soundConfig (pu_config publisher)"
  shows "complete publisher p content (storePlan publisher p content w)" "pw_queue (storePlan publisher p content w) = pw_queue w"
    "pw_blobs (storePlan publisher p content w) (currentBlob publisher request) = pw_blobs w (currentBlob publisher request)"
    "complete publisher p content w \<Longrightarrow> storePlan publisher p content w = w"
    "manifestBodyIn publisher p (storePlan publisher p content w) = manifestBodyIn publisher p (storeArtifact publisher p content w)"
    "\<forall>k < length (pl_batches p). openFor (storeManifest publisher p (storeArtifact publisher p content w)) (batchAt publisher p k) (pl_batches p ! k)"
    "holdsBody (storeManifest publisher p (storeArtifact publisher p content w)) (manifestAt publisher p)
       (manifestBodyIn publisher p (storeArtifact publisher p content w))"
proof -
  note d = places_distinct [OF assms(2)] and a = storeArtifact_facts [OF assms]
  let ?w2 = "storeArtifact publisher p content w"
  let ?w3 = "storeManifest publisher p ?w2"
  show m: "holdsBody ?w3 (manifestAt publisher p) (manifestBodyIn publisher p ?w2)" unfolding storeManifest_def by (rule stored_holds [OF a(3)])
  show b: "\<forall>k < length (pl_batches p). openFor ?w3 (batchAt publisher p k) (pl_batches p ! k)"
    using a(4) d(6) unfolding storeManifest_def by (auto intro!: openFor_stored)
  have keep: "holdsBody ?w3 at body \<Longrightarrow> holdsBody (storePlan publisher p content w) at body \<and>
      versionAt (storePlan publisher p content w) at = versionAt ?w3 at" for at body
    using holds_version [of ?w3 at body] storeBatches_keeps [of ?w3 at] unfolding storePlan_def by (simp add: holdsBody_def versionAt_def)
  have dar: "holdsBody ?w3 (darAt publisher p) content" "versionAt ?w3 (darAt publisher p) = versionAt ?w2 (darAt publisher p)"
    using holds_stored [OF a(2)] holds_version [OF a(2)] stored_keeps unfolding storeManifest_def versionAt_def by metis+
  show body: "manifestBodyIn publisher p (storePlan publisher p content w) = manifestBodyIn publisher p ?w2"
    using keep [OF dar(1)] dar(2) by (simp add: manifestBodyIn_def)
  have "holdsBody ?w3 (identityAt publisher p) (identityBody publisher p)" unfolding storeManifest_def by (rule holds_stored [OF a(1)])
  then show "complete publisher p content (storePlan publisher p content w)"
    using keep dar(1) m body storeBatches_complete [of "pl_batches p" ?w3 publisher p 0] b
    unfolding complete_def by (simp add: storePlan_def)
  show "pw_queue (storePlan publisher p content w) = pw_queue w" by (simp add: storePlan_def storeManifest_def storeArtifact_def)
  show "pw_blobs (storePlan publisher p content w) (currentBlob publisher request) = pw_blobs w (currentBlob publisher request)"
    using d(7-10) by (simp add: storePlan_def storeManifest_def storeArtifact_def storeBatches_other stored_other)
  show "storePlan publisher p content w = w" if "complete publisher p content w"
    using that storeBatches_id [of "pl_batches p" w publisher p 0]
    by (simp add: complete_def storePlan_def storeManifest_def storeArtifact_def stored_id)
qed

section \<open>The phases\<close>

text \<open>The artifact file of a plan: what the plan verified can be read from it.\<close>

definition artifact :: "filesystem \<Rightarrow> publicationPlan \<Rightarrow> string \<Rightarrow> bool" where
  "artifact fs p content \<longleftrightarrow>
     content \<noteq> [] \<and> sr_DARSHA256 (pq_Source (pl_request p)) = hexEncode (sha256 content) \<and>
     sr_DARSize (pq_Source (pl_request p)) = int (length content) \<and>
     (\<exists>info. fs_Stat fs (pl_artifactPath p) = Some info \<and> fi_IsRegular info \<and> fi_Size info = int (length content)) \<and>
     fs_ReadFile fs (pl_artifactPath p) = Some (content, None) \<and> fs_ReadFile fs (cleanPath (pl_artifactPath p)) = Some (content, None)"

lemma yields_publishIdentity:
  assumes "ready publisher p content w" "soundConfig (pu_config publisher)" "pu_blobs publisher = azureBlobWriter"
  shows "yields fs (publishIdentity publisher p) w (Inr ()) (stored (identityAt publisher p) (identityBody publisher p) w)"
proof -
  have "yields fs (bw_PutImmutableBytes (pu_blobs publisher) (identityRequest publisher p)) w
      (Inr (publishedAt (stored (identityAt publisher p) (identityBody publisher p) w) (identityAt publisher p) (identityBody publisher p)))
      (stored (identityAt publisher p) (identityBody publisher p) w)"
    using yields_bytes [of w "identityRequest publisher p" fs] assms
    by (simp add: ready_def identityAt_def identityRequest_def azureBlobWriter_sel soundConfig_def identityBody_def identityJson_def
        del: rmatch.simps)
  then show ?thesis unfolding publishIdentity_def by (rule yields_bindP) simp
qed

lemma yields_publishDAR:
  assumes "ready publisher p content w" "soundConfig (pu_config publisher)" "pu_blobs publisher = azureBlobWriter" "artifact fs p content"
    and "w1 = stored (identityAt publisher p) (identityBody publisher p) w" "w2 = storeArtifact publisher p content w"
  shows "yields fs (publishDAR publisher p) w1 (Inr (publishedAt w2 (darAt publisher p) content)) w2"
    and "pb_Reference (publishedAt w2 (darAt publisher p) content) =
      darReference publisher (pl_request p) (versionAt w2 (darAt publisher p))"
proof -
  note d = places_distinct [OF assms(2)]
  show r: "pb_Reference (publishedAt w2 (darAt publisher p) content) = darReference publisher (pl_request p) (versionAt w2 (darAt publisher p))"
    using assms(4) by (simp add: publishedAt_def darReference_def darAt_def darRequest_def Let_def artifact_def)
  obtain info where i: "fs_Stat fs (if_FileName (darRequest publisher p)) = Some info" "fi_IsRegular info" "fi_Size info = int (length content)"
    using assms(4) by (auto simp: artifact_def darRequest_def Let_def)
  have o: "openFor w1 (if_Container (darRequest publisher p), if_Name (darRequest publisher p)) content"
    using assms(1) d(1) [of p] unfolding assms(5) darAt_def [symmetric] by (intro openFor_stored) (auto simp: ready_def)
  have "rmatch containerPattern (if_Container (darRequest publisher p))" "if_Name (darRequest publisher p) \<noteq> []"
    "if_ContentType (darRequest publisher p) \<noteq> []"
    using assms(2) by (simp_all add: darRequest_def Let_def soundConfig_def del: rmatch.simps)
  note q = yields_file [OF o _ this _ _ i]
  have "yields fs (bw_PutImmutableFile (pu_blobs publisher) (darRequest publisher p)) w1
      (Inr (publishedAt w2 (darAt publisher p) content)) w2"
    using q assms(3,4) unfolding storeArtifact_def assms(5,6) darAt_def azureBlobWriter_sel
    by (simp add: azureBlobWriter_sel artifact_def darRequest_def Let_def)
  then show "yields fs (publishDAR publisher p) w1 (Inr (publishedAt w2 (darAt publisher p) content)) w2"
    unfolding publishDAR_def Let_def by (rule yields_bindP) (simp add: r, simp add: darReference_def)
qed

lemma darReference_planned:
  "planned publisher request p \<Longrightarrow> pl_request p = request"
  by (simp add: planned_def)

lemma manifest_ready:
  assumes "planned publisher request p" "soundConfig (pu_config publisher)" "boundedInputs publisher request" "artifact fs p content"
    and "holdsBody w (darAt publisher p) content"
  shows "is_ok (ParsePublishedManifest (manifestBodyIn publisher p w))" "length (manifestBodyIn publisher p w) \<le> 65536"
    "1 \<le> length (manifestBodyIn publisher p w)"
    "ParsePublishedManifest (manifestBodyIn publisher p w) =
       Inr (manifestOf publisher p (darReference publisher request (versionAt w (darAt publisher p))))"
proof -
  have v: "fitVersion (versionAt w (darAt publisher p))" using holds_version [OF assms(5)] by simp
  have e: "pl_request p = request" using assms(1) by (rule darReference_planned)
  have h: "rmatch digestPattern (sr_DARSHA256 (pq_Source request))" using assms(4) hex_digest e by (simp add: artifact_def)
  note c = manifest_contract [OF assms(1-3) h v]
  show "ParsePublishedManifest (manifestBodyIn publisher p w) =
       Inr (manifestOf publisher p (darReference publisher request (versionAt w (darAt publisher p))))"
    "is_ok (ParsePublishedManifest (manifestBodyIn publisher p w))" "length (manifestBodyIn publisher p w) \<le> 65536"
    using c by (simp_all add: manifestBodyIn_def e)
  show "1 \<le> length (manifestBodyIn publisher p w)" by (simp add: manifestBodyIn_def manifestJson_def)
qed

lemma yields_publishManifest:
  assumes "planned publisher request p" "soundConfig (pu_config publisher)" "boundedInputs publisher request" "artifact fs p content"
    and "pu_blobs publisher = azureBlobWriter" "ready publisher p content w" "w2 = storeArtifact publisher p content w"
  shows "yields fs (publishManifest publisher p (darReference publisher (pl_request p) (versionAt w2 (darAt publisher p)))) w2
      (Inr (publishedAt (storeManifest publisher p w2) (manifestAt publisher p) (manifestBodyIn publisher p w2), manifestBodyIn publisher p w2))
      (storeManifest publisher p w2)"
proof -
  note a = storeArtifact_facts [OF assms(6,2)]
  note m = manifest_ready [OF assms(1-4) a(2) [folded assms(7)]]
  let ?q = "manifestRequest publisher p (manifestBodyIn publisher p w2)"
  have at: "(ib_Container ?q, ib_Name ?q) = manifestAt publisher p" by (simp add: manifestAt_def manifestRequest_def)
  have "openFor w2 (ib_Container ?q, ib_Name ?q) (ib_Body ?q)"
    using a(3) unfolding at assms(7) [symmetric] by (simp add: manifestRequest_def)
  moreover have "ib_Body ?q \<noteq> []" "rmatch containerPattern (ib_Container ?q)" "ib_Name ?q \<noteq> []" "ib_ContentType ?q \<noteq> []"
    using m(3) assms(2) by (auto simp: manifestRequest_def soundConfig_def simp del: rmatch.simps)
  ultimately have "yields fs (PutImmutableBytes ?q) w2 (Inr (publishedAt (stored (ib_Container ?q, ib_Name ?q) (ib_Body ?q) w2)
      (ib_Container ?q, ib_Name ?q) (ib_Body ?q))) (stored (ib_Container ?q, ib_Name ?q) (ib_Body ?q) w2)" by (rule yields_bytes)
  then have "yields fs (bw_PutImmutableBytes (pu_blobs publisher) ?q) w2
      (Inr (publishedAt (storeManifest publisher p w2) (manifestAt publisher p) (manifestBodyIn publisher p w2))) (storeManifest publisher p w2)"
    unfolding at storeManifest_def assms(5) azureBlobWriter_sel by (simp add: manifestRequest_def)
  then show ?thesis
    using m(1) unfolding publishManifest_def Let_def manifestBodyIn_def [symmetric] by (auto intro!: yields_bindP)
qed

lemma yields_publishBatchList:
  assumes "soundConfig (pu_config publisher)" "pu_blobs publisher = azureBlobWriter" "\<forall>body \<in> set bodies. body \<noteq> []"
    and "\<forall>i < length bodies. openFor w (batchAt publisher p (k + i)) (bodies ! i)"
  shows "yields fs (publishBatchList publisher p k bodies) w
      (Inr (map (\<lambda>i. publishedAt (storeBatches publisher p k bodies w) (batchAt publisher p (k + i)) (bodies ! i)) [0..<length bodies]))
      (storeBatches publisher p k bodies w)"
  using assms(3,4)
proof (induction bodies arbitrary: k w)
  case (Cons body bodies)
  let ?q = "batchRequest publisher p k body" and ?w = "stored (batchAt publisher p k) body w"
  let ?W = "storeBatches publisher p (Suc k) bodies ?w"
  have at: "(ib_Container ?q, ib_Name ?q) = batchAt publisher p k" "ib_Body ?q = body" by (simp_all add: batchAt_def batchRequest_def)
  have o: "openFor w (batchAt publisher p k) body" using Cons.prems(2) by force
  have "yields fs (PutImmutableBytes ?q) w (Inr (publishedAt ?w (batchAt publisher p k) body)) ?w"
    using yields_bytes [of w ?q fs] o Cons.prems(1) assms(1) unfolding at
    by (simp add: batchRequest_def soundConfig_def del: rmatch.simps)
  then have first: "yields fs (bw_PutImmutableBytes (pu_blobs publisher) ?q) w (Inr (publishedAt ?w (batchAt publisher p k) body)) ?w"
    by (simp add: assms(2) azureBlobWriter_sel)
  have "openFor ?w (batchAt publisher p (Suc k + i)) (bodies ! i)" if "i < length bodies" for i
    using Cons.prems(2) that by (intro openFor_stored) (force simp: batchAt_inj)+
  then have rest: "yields fs (publishBatchList publisher p (Suc k) bodies) ?w
      (Inr (map (\<lambda>i. publishedAt ?W (batchAt publisher p (Suc k + i)) (bodies ! i)) [0..<length bodies])) ?W"
    using Cons.IH [of ?w "Suc k"] Cons.prems(1) by simp
  have "pw_blobs ?W (batchAt publisher p k) = pw_blobs ?w (batchAt publisher p k)"
    using holds_version [OF stored_holds [OF o]] by (simp add: storeBatches_keeps)
  then have same: "publishedAt ?w (batchAt publisher p k) body = publishedAt ?W (batchAt publisher p k) body"
    by (simp add: publishedAt_def versionAt_def)
  have "[0..<length (body # bodies)] = 0 # map Suc [0..<length bodies]" by (simp add: map_Suc_upt upt_conv_Cons del: upt_Suc)
  then have l: "map (\<lambda>i. publishedAt ?W (batchAt publisher p (k + i)) ((body # bodies) ! i)) [0..<length (body # bodies)] =
      publishedAt ?W (batchAt publisher p k) body #
      map (\<lambda>i. publishedAt ?W (batchAt publisher p (Suc k + i)) (bodies ! i)) [0..<length bodies]"
    by (simp only: list.map map_map comp_def) simp
  show ?case unfolding publishBatchList.simps storeBatches.simps l
    by (rule yields_bindP [OF first], simp, rule yields_tryP [OF rest]) (simp add: same)
qed simp

section \<open>The messages of a plan\<close>

definition messageIn :: "Publisher \<Rightarrow> publicationPlan \<Rightarrow> pubWorld \<Rightarrow> nat \<Rightarrow> QueueMessage" where
  "messageIn publisher p w k =
     messageOf publisher p
       (manifestReference publisher p (manifestBodyIn publisher p w) (versionAt w (manifestAt publisher p)))
       (batchReference publisher p k (versionAt w (batchAt publisher p k))) k"

definition sentMessage :: "QueueMessage \<Rightarrow> busMessage" where
  "sentMessage message = busMessageOf \<lparr>qr_MessageID = qm_MessageID message, qr_Body = jprint (messageJson message)\<rparr>"

definition planMessages :: "Publisher \<Rightarrow> publicationPlan \<Rightarrow> pubWorld \<Rightarrow> QueueMessage list" where
  "planMessages publisher p w = map (messageIn publisher p w) [0..<length (pl_batches p)]"

lemma messageIn_fit:
  assumes "planned publisher request p" "soundConfig (pu_config publisher)" "boundedInputs publisher request" "artifact fs p content"
    and "complete publisher p content w" "k < length (pl_batches p)"
  shows "fitMessage (messageIn publisher p w k)" "length (jprint (messageJson (messageIn publisher p w k))) \<le> 65536"
    "length (qm_MessageID (messageIn publisher p w k)) \<le> 69" "qm_MessageID (messageIn publisher p w k) \<noteq> []"
    "jprint (messageJson (messageIn publisher p w k)) \<noteq> []"
proof -
  have h: "holdsBody w (darAt publisher p) content" "holdsBody w (manifestAt publisher p) (manifestBodyIn publisher p w)"
    "holdsBody w (batchAt publisher p k) (pl_batches p ! k)"
    using assms(5,6) by (simp_all add: complete_def)
  note m = manifest_ready [OF assms(1-4) h(1)]
  have v: "fitVersion (versionAt w (manifestAt publisher p))" "fitVersion (versionAt w (batchAt publisher p k))"
    using holds_version [OF h(2)] holds_version [OF h(3)] by simp_all
  note c = message_contract [OF assms(1-3) m(3,2) v(1) assms(6) v(2), folded messageIn_def]
  show "fitMessage (messageIn publisher p w k)" "length (jprint (messageJson (messageIn publisher p w k))) \<le> 65536"
    "length (qm_MessageID (messageIn publisher p w k)) \<le> 69" by (rule c)+
  show "qm_MessageID (messageIn publisher p w k) \<noteq> []" "jprint (messageJson (messageIn publisher p w k)) \<noteq> []"
    by (simp_all add: messageIn_def messageOf_def Let_def messageJson_def)
qed

lemma messageIn_parsed:
  assumes "fitMessage m" "length (jprint (messageJson m)) \<le> 65536"
  shows "ParseQueueMessage (jprint (messageJson m)) (qm_MessageID m) = Inr m"
  using assms unfolding message_doc.parse_iff message_doc.accepted_def by (simp add: maxMessageBytes_def fitMessage_def)

lemma yields_send:
  assumes "pu_queue publisher = azureQueueWriter" "qr_MessageID q \<noteq> []" "length (qr_MessageID q) \<le> 69" "qr_Body q \<noteq> []" "length (qr_Body q) \<le> 65536"
  shows "yields fs (qw_Send (pu_queue publisher) q) w (Inr ()) (w\<lparr>pw_queue := busMessageOf q # pw_queue w\<rparr>)"
  using assms by (simp add: azureQueueWriter_def queueSend_def yields_def Suc_le_eq)

lemma yields_enqueueFrom:
  assumes "planned publisher request p" "soundConfig (pu_config publisher)" "boundedInputs publisher request" "artifact fs p content"
    and "complete publisher p content W" "pu_queue publisher = azureQueueWriter"
    and "pb_Reference manifest = manifestReference publisher p (manifestBodyIn publisher p W) (versionAt W (manifestAt publisher p))"
    and "\<forall>i < length batches. pb_Reference (batches ! i) = batchReference publisher p (k + i) (versionAt W (batchAt publisher p (k + i)))"
    and "k + length batches \<le> length (pl_batches p)"
  shows "yields fs (enqueueFrom publisher p (pb_Reference manifest) k batches) w (Inr ())
      (w\<lparr>pw_queue := rev (map (sentMessage \<circ> messageIn publisher p W) [k..<k + length batches]) @ pw_queue w\<rparr>)"
  using assms(8,9)
proof (induction batches arbitrary: k w)
  case (Cons batch batches)
  let ?m = "messageIn publisher p W k"
  let ?w = "w\<lparr>pw_queue := sentMessage ?m # pw_queue w\<rparr>"
  have "k < length (pl_batches p)" using Cons.prems(2) by simp
  note f = messageIn_fit [OF assms(1-5) this]
  have b: "pb_Reference batch = batchReference publisher p k (versionAt W (batchAt publisher p k))" using Cons.prems(1) by force
  have "messageOf publisher p (pb_Reference manifest) (pb_Reference batch) k = ?m" unfolding messageIn_def assms(7) b ..
  then have q: "queueRequest publisher p (pb_Reference manifest) (pb_Reference batch) k =
      Inr \<lparr>qr_MessageID = qm_MessageID ?m, qr_Body = jprint (messageJson ?m)\<rparr>"
    using messageIn_parsed [OF f(1,2)] by (simp add: queueRequest_def Let_def)
  have send: "yields fs (qw_Send (pu_queue publisher) \<lparr>qr_MessageID = qm_MessageID ?m, qr_Body = jprint (messageJson ?m)\<rparr>) w (Inr ()) ?w"
    using yields_send [OF assms(6), of "\<lparr>qr_MessageID = qm_MessageID ?m, qr_Body = jprint (messageJson ?m)\<rparr>"] f by (simp add: sentMessage_def)
  have "\<forall>i < length batches. pb_Reference (batches ! i) = batchReference publisher p (Suc k + i) (versionAt W (batchAt publisher p (Suc k + i)))"
    using Cons.prems(1) by force
  then have "yields fs (enqueueFrom publisher p (pb_Reference manifest) (Suc k) batches) ?w (Inr ())
      (?w\<lparr>pw_queue := rev (map (sentMessage \<circ> messageIn publisher p W) [Suc k..<Suc k + length batches]) @ pw_queue ?w\<rparr>)"
    using Cons.prems(2) by (intro Cons.IH) simp_all
  moreover have "[k..<k + length (batch # batches)] = k # [Suc k..<Suc k + length batches]" by (simp add: upt_conv_Cons del: upt_Suc)
  ultimately have rest: "yields fs (enqueueFrom publisher p (pb_Reference manifest) (Suc k) batches) ?w (Inr ())
      (w\<lparr>pw_queue := rev (map (sentMessage \<circ> messageIn publisher p W) [k..<k + length (batch # batches)]) @ pw_queue w\<rparr>)"
    by simp
  show ?case unfolding enqueueFrom.simps q sum.case by (rule yields_bindP [OF send]) (use rest in \<open>simp add: comp_def\<close>)
qed simp

section \<open>Publishing the plan\<close>

lemma publishPlan_run:
  assumes "planned publisher request p" "soundConfig (pu_config publisher)" "boundedInputs publisher request" "artifact fs p content"
    and "pu_blobs publisher = azureBlobWriter" "pu_queue publisher = azureQueueWriter" "ready publisher p content w"
    and "newest w (currentBlob publisher request) (manifestBodyIn publisher p (storePlan publisher p content w)) \<or>
      behind w (currentBlob publisher request) (sr_Version (pq_Source request))"
  shows "\<exists>w'. yields fs (publishPlan publisher p) w (Inr (planResult p)) w' \<and> complete publisher p content w' \<and>
    newest w' (currentBlob publisher request) (manifestBodyIn publisher p w') \<and>
    pw_queue w' = rev (map sentMessage (planMessages publisher p w')) @ pw_queue w \<and>
    (complete publisher p content w \<and> newest w (currentBlob publisher request) (manifestBodyIn publisher p w) \<longrightarrow> pw_blobs w' = pw_blobs w)"
proof -
  let ?w2 = "storeArtifact publisher p content w"
  let ?w3 = "storeManifest publisher p ?w2"
  let ?W = "storePlan publisher p content w"
  let ?body = "manifestBodyIn publisher p ?w2"
  let ?manifest = "publishedAt ?w3 (manifestAt publisher p) ?body"
  let ?batches = "map (\<lambda>i. publishedAt ?W (batchAt publisher p (0 + i)) (pl_batches p ! i)) [0..<length (pl_batches p)]"
  let ?queue = "rev (map sentMessage (planMessages publisher p ?W)) @ pw_queue w"
  note e = darReference_planned [OF assms(1)] and st = storePlan_facts [OF assms(7,2)] and d = places_distinct [OF assms(2)]
  note y1 = yields_publishIdentity [OF assms(7,2,5)] and y2 = yields_publishDAR [OF assms(7,2,5,4) HOL.refl HOL.refl]
    and y3 = yields_publishManifest [OF assms(1-5,7) HOL.refl]
  have "\<forall>body \<in> set (pl_batches p). body \<noteq> []"
    using planned_batches(2) [OF assms(1-3)] by (fastforce simp: in_set_conv_nth)
  then have y4: "yields fs (publishBatches publisher p) ?w3 (Inr ?batches) ?W"
    using yields_publishBatchList [OF assms(2,5), of "pl_batches p" ?w3 p 0] st(6) unfolding publishBatches_def storePlan_def by simp
  have "pw_blobs ?W (manifestAt publisher p) = pw_blobs ?w3 (manifestAt publisher p)"
    using holds_version [OF st(7)] unfolding storePlan_def by (simp add: storeBatches_keeps)
  then have r: "pb_Reference ?manifest = manifestReference publisher p (manifestBodyIn publisher p ?W) (versionAt ?W (manifestAt publisher p))"
    by (simp add: publishedAt_def manifestReference_def st(5) versionAt_def manifestAt_def manifestRequest_def)
  have "\<forall>i < length ?batches. pb_Reference (?batches ! i) = batchReference publisher p (0 + i) (versionAt ?W (batchAt publisher p (0 + i)))"
    by (simp add: publishedAt_def batchReference_def batchAt_def batchRequest_def)
  then have y5: "yields fs (enqueueBatches publisher p (pb_Reference ?manifest) ?batches) ?W (Inr ()) (?W\<lparr>pw_queue := ?queue\<rparr>)"
    using yields_enqueueFrom [OF assms(1-4) st(1) assms(6) r, of ?batches 0 ?W] st(2)
    unfolding enqueueBatches_def planMessages_def by (simp add: comp_def)
  let ?w5 = "?W\<lparr>pw_queue := ?queue\<rparr>" and ?q = "currentRequest publisher p ?body"
  have at: "(cm_Container ?q, cm_Name ?q) = currentBlob publisher request" "cm_Body ?q = ?body"
    "cm_ReleaseVersion ?q = sr_Version (pq_Source request)" by (simp_all add: currentRequest_def currentBlob_def e)
  note m = manifest_ready [OF assms(1-4) storeArtifact_facts(2) [OF assms(7,2)]]
  have "newest ?w5 (currentBlob publisher request) ?body \<or> behind ?w5 (currentBlob publisher request) (sr_Version (pq_Source request))"
    using assms(8) st(3,5) by (simp add: newest_def behind_def)
  moreover have "rmatch containerPattern (cm_Container ?q)" "cm_Name ?q \<noteq> []" "?body \<noteq> []"
    using assms(2) m(3) by (auto simp: currentRequest_def soundConfig_def simp del: rmatch.simps)
  ultimately obtain published w' where c: "yields fs (PutCurrentManifest ?q) ?w5 (Inr published) w'" "advanceOk ?w5 ?q w'"
    using yields_current [of ?w5 ?q fs] m(2) unfolding at by blast
  have y6: "yields fs (advanceCurrentManifest publisher p ?body) ?w5 (Inr ()) w'"
    unfolding advanceCurrentManifest_def assms(5) azureBlobWriter_sel by (rule yields_bindP [OF c(1)]) simp
  have "yields fs (publishPlan publisher p) w (Inr (planResult p)) w'"
    unfolding publishPlan_def
    by (rule yields_tryP [OF y1], rule yields_tryP [OF y2(1)], unfold y2(2), rule yields_tryP [OF y3], unfold prod.case,
        rule yields_tryP [OF y4], rule yields_tryP [OF y5], rule yields_tryP [OF y6]) simp
  moreover have n: "newest w' (currentBlob publisher request) ?body" "pw_queue w' = ?queue"
      "\<And>at. at \<noteq> currentBlob publisher request \<Longrightarrow> pw_blobs w' at = pw_blobs ?W at"
      "newest ?w5 (currentBlob publisher request) ?body \<Longrightarrow> w' = ?w5"
    using c(2) unfolding advanceOk_def at by (auto simp: split_paired_all)
  have same: "pw_blobs w' (identityAt publisher p) = pw_blobs ?W (identityAt publisher p)" "pw_blobs w' (darAt publisher p) = pw_blobs ?W (darAt publisher p)"
    "pw_blobs w' (manifestAt publisher p) = pw_blobs ?W (manifestAt publisher p)" "pw_blobs w' (batchAt publisher p k) = pw_blobs ?W (batchAt publisher p k)" for k
    using n(3) d(7-10) by metis+
  then have b: "manifestBodyIn publisher p w' = ?body" "planMessages publisher p w' = planMessages publisher p ?W"
    using st(5) by (simp_all add: manifestBodyIn_def planMessages_def messageIn_def versionAt_def)
  moreover have "complete publisher p content w'" using st(1,5) same b(1) by (simp add: complete_def holdsBody_def)
  moreover have "pw_blobs w' = pw_blobs w" if "complete publisher p content w" "newest w (currentBlob publisher request) (manifestBodyIn publisher p w)"
  proof -
    have "?W = w" using st(4) that(1) by blast
    then have "newest ?w5 (currentBlob publisher request) ?body" using that(2) st(5) [symmetric] by (simp add: newest_def)
    then have "w' = ?w5" by (rule n(4))
    then show ?thesis using \<open>?W = w\<close> by simp
  qed
  ultimately show ?thesis using n(1,2) by (intro exI [of _ w']) simp
qed

section \<open>Claims\<close>

text \<open>Before the first publication: no blob of the plan is there, and the current manifest of the release is absent or older.\<close>

definition unpublished :: "Publisher \<Rightarrow> publicationPlan \<Rightarrow> pubWorld \<Rightarrow> bool" where
  "unpublished publisher p w \<longleftrightarrow>
     pw_blobs w (identityAt publisher p) = [] \<and> pw_blobs w (darAt publisher p) = [] \<and> pw_blobs w (manifestAt publisher p) = [] \<and>
     (\<forall>k. pw_blobs w (batchAt publisher p k) = []) \<and>
     behind w (currentBlob publisher (pl_request p)) (sr_Version (pq_Source (pl_request p)))"

text \<open>A file that reads the same under its cleaned name, and whose size is the length of its content.\<close>

definition honestFile :: "filesystem \<Rightarrow> string \<Rightarrow> bool" where
  "honestFile fs path \<longleftrightarrow>
     fs_ReadFile fs path = fs_ReadFile fs (cleanPath path) \<and>
     (case (fs_ReadFile fs path, fs_Stat fs path) of
        (Some (content, None), Some info) \<Rightarrow> fi_Size info = int (length content)
      | _ \<Rightarrow> True)"

fun answersFile :: "filesystem \<Rightarrow> pubEvent \<Rightarrow> bool" where
  "answersFile fs (EStat n r) \<longleftrightarrow> r = fs_Stat fs n"
| "answersFile fs (EReadFile n r) \<longleftrightarrow> r = fs_ReadFile fs n"
| "answersFile fs _ \<longleftrightarrow> True"

lemma runP_files: "runP fs t w = (x, w', es) \<Longrightarrow> list_all (answersFile fs) es"
proof -
  have "list_all (answersFile fs) (snd (snd (runP fs t w)))"
    by (induction t arbitrary: w) (simp_all add: Let_def split_beta)
  then show "runP fs t w = (x, w', es) \<Longrightarrow> list_all (answersFile fs) es" by simp
qed

lemma localOnly_run: "localOnly t \<Longrightarrow> runP fs t w = (fst (runP fs t v), w, snd (snd (runP fs t v)))"
  by (induction t) (simp_all add: Let_def split_beta)

lemma plan_artifact:
  assumes "yields fs (plan publisher request) w (Inr p) w" "honestFile fs (pl_artifactPath p)"
  shows "planned publisher request p" "\<exists>content. artifact fs p content"
proof -
  obtain es where r: "runP fs (plan publisher request) w = (Inr p, w, es)" using assms(1) by (auto simp: yields_def)
  note pl = plan_planned [OF runP_execP [OF r]]
  show "planned publisher request p" by (rule pl(1))
  have v: "validSourceRecord (pq_Source request)" "pl_request p = request" using pl(1) by (simp_all add: planned_def)
  obtain root e1 e2 where e: "es = e1 @ e2" "execP (verifyArtifactAt root (pq_Source request)) e2 (Inr (pl_artifactPath p))"
    using pl(2) v(1) by (auto simp: verifySourceArtifact_def execP_tryP)
  obtain info content where f: "e2 = [EEvalSymlinks (joinPath [root, sr_DARPath (pq_Source request)]) (Some (pl_artifactPath p)),
        EStat (pl_artifactPath p) (Some info), EReadFile (cleanPath (pl_artifactPath p)) (Some (content, None))]"
      "fi_IsRegular info" "fi_Size info = sr_DARSize (pq_Source request)" "sr_DARSHA256 (pq_Source request) = hexEncode (sha256 content)"
    using verifyArtifactAt_exec [OF e(2)] by blast
  have "fs_Stat fs (pl_artifactPath p) = Some info" "fs_ReadFile fs (cleanPath (pl_artifactPath p)) = Some (content, None)"
    using runP_files [OF r] unfolding e(1) f(1) by simp_all
  then have "artifact fs p content"
    using assms(2) f(2-4) v by (auto simp: artifact_def honestFile_def validSourceRecord_def)
  then show "\<exists>content. artifact fs p content" ..
qed

lemma unpublished_ready: "unpublished publisher p w \<Longrightarrow> ready publisher p content w"
  by (simp add: unpublished_def ready_def openFor_def)

lemma yields_Publish:
  assumes "yields fs (plan publisher request) w (Inr p) w" "yields fs (publishPlan publisher p) w x w'"
  shows "yields fs (Publish False publisher request) w x w'"
  unfolding Publish_def by (rule yields_bindP [OF assms(1)]) (simp add: assms(2))

lemma yields_plan:
  assumes "yields fs (plan publisher request) w (Inr p) w"
  shows "yields fs (plan publisher request) v (Inr p) v"
proof -
  obtain es where "runP fs (plan publisher request) w = (Inr p, w, es)" using assms by (auto simp: yields_def)
  then have "runP fs (plan publisher request) v = (Inr p, v, es)"
    using localOnly_run [OF localOnly_plan, where w = v and v = w] by simp
  then show ?thesis by (auto simp: yields_def)
qed

text \<open>The world after a first publication.\<close>

lemma publish_first:
  assumes "NewPublisher config (Some azureBlobWriter) (Some azureQueueWriter) = Inr publisher"
    and "yields fs (plan publisher request) w (Inr p) w" "boundedInputs publisher request" "honestFile fs (pl_artifactPath p)"
    and "unpublished publisher p w"
  obtains content w' where "artifact fs p content" "yields fs (Publish False publisher request) w (Inr (planResult p)) w'"
    "complete publisher p content w'" "newest w' (currentBlob publisher request) (manifestBodyIn publisher p w')"
    "pw_queue w' = rev (map sentMessage (planMessages publisher p w')) @ pw_queue w"
proof -
  note c = NewPublisher_sound [OF assms(1)] and pl = plan_artifact [OF assms(2,4)]
  obtain content where a: "artifact fs p content" using pl(2) ..
  have "pl_request p = request" using pl(1) by (rule darReference_planned)
  then have "behind w (currentBlob publisher request) (sr_Version (pq_Source request))" using assms(5) by (simp add: unpublished_def)
  then obtain w' where "yields fs (publishPlan publisher p) w (Inr (planResult p)) w'" "complete publisher p content w'"
      "newest w' (currentBlob publisher request) (manifestBodyIn publisher p w')"
      "pw_queue w' = rev (map sentMessage (planMessages publisher p w')) @ pw_queue w"
    using publishPlan_run [OF pl(1) c(1) assms(3) a c(2,3) unpublished_ready [OF assms(5)]] by blast
  then show thesis using that a yields_Publish [OF assms(2)] by blast
qed

text \<open>
  C11. On a service that answers, a publication whose plan was accepted succeeds: for inputs of bounded length no contract
  check refuses it half way. Afterwards the artifact, the manifest and every batch are stored with the content of
  the plan, the current manifest of the release is the new one, and the queue has one message per batch, in order,
  each of which the worker's parser accepts.
\<close>

theorem publication_succeeds:
  assumes "NewPublisher config (Some azureBlobWriter) (Some azureQueueWriter) = Inr publisher"
    and "yields fs (plan publisher request) w (Inr p) w" "boundedInputs publisher request" "honestFile fs (pl_artifactPath p)"
    and "unpublished publisher p w"
  shows "\<exists>content w'. yields fs (Publish False publisher request) w (Inr (planResult p)) w' \<and>
    hexEncode (sha256 content) = sr_DARSHA256 (pq_Source request) \<and> complete publisher p content w' \<and>
    newest w' (currentBlob publisher request) (manifestBodyIn publisher p w') \<and>
    pw_queue w' = rev (map sentMessage (planMessages publisher p w')) @ pw_queue w \<and>
    length (planMessages publisher p w') = length (cohortPieces publisher request) \<and>
    list_all (\<lambda>m. ParseQueueMessage (jprint (messageJson m)) (qm_MessageID m) = Inr m) (planMessages publisher p w')"
proof -
  note c = NewPublisher_sound [OF assms(1)] and pl = plan_artifact [OF assms(2,4)]
  from assms obtain content w' where r: "artifact fs p content" "yields fs (Publish False publisher request) w (Inr (planResult p)) w'"
    "complete publisher p content w'" "newest w' (currentBlob publisher request) (manifestBodyIn publisher p w')"
    "pw_queue w' = rev (map sentMessage (planMessages publisher p w')) @ pw_queue w"
    by (rule publish_first)
  have "hexEncode (sha256 content) = sr_DARSHA256 (pq_Source request)"
    using r(1) darReference_planned [OF pl(1)] by (simp add: artifact_def)
  moreover have "length (planMessages publisher p w') = length (cohortPieces publisher request)"
    using planned_pieces(1) [OF pl(1) c(1)] by (simp add: planMessages_def)
  moreover have "list_all (\<lambda>m. ParseQueueMessage (jprint (messageJson m)) (qm_MessageID m) = Inr m) (planMessages publisher p w')"
    using messageIn_fit(1,2) [OF pl(1) c(1) assms(3) r(1,3)] by (auto simp: planMessages_def list_all_iff intro!: messageIn_parsed)
  ultimately show ?thesis using r(2-5) by blast
qed

text \<open>
  C12. Publishing the same request again, after a first publication and while the service answers, succeeds with the same result, creates no
  version of any blob, and sends exactly the messages of the first publication, with the same ids, which the queue
  and the receipts deduplicate.
\<close>

theorem republication_idempotent:
  assumes "NewPublisher config (Some azureBlobWriter) (Some azureQueueWriter) = Inr publisher"
    and "yields fs (plan publisher request) w (Inr p) w" "boundedInputs publisher request" "honestFile fs (pl_artifactPath p)"
    and "unpublished publisher p w"
  shows "\<exists>w' w''. yields fs (Publish False publisher request) w (Inr (planResult p)) w' \<and>
    yields fs (Publish False publisher request) w' (Inr (planResult p)) w'' \<and> pw_blobs w'' = pw_blobs w' \<and>
    pw_queue w' = rev (map sentMessage (planMessages publisher p w')) @ pw_queue w \<and>
    pw_queue w'' = rev (map sentMessage (planMessages publisher p w')) @ pw_queue w'"
proof -
  note c = NewPublisher_sound [OF assms(1)] and pl = plan_artifact [OF assms(2,4)]
  from assms obtain content w' where r: "artifact fs p content" "yields fs (Publish False publisher request) w (Inr (planResult p)) w'"
    "complete publisher p content w'" "newest w' (currentBlob publisher request) (manifestBodyIn publisher p w')"
    "pw_queue w' = rev (map sentMessage (planMessages publisher p w')) @ pw_queue w"
    by (rule publish_first)
  have "storePlan publisher p content w' = w'"
    using storePlan_facts(4) [OF complete_ready [OF r(3)] c(1)] r(3) by blast
  then obtain w'' where s: "yields fs (publishPlan publisher p) w' (Inr (planResult p)) w''"
      "pw_queue w'' = rev (map sentMessage (planMessages publisher p w'')) @ pw_queue w'" "pw_blobs w'' = pw_blobs w'"
    using publishPlan_run [OF pl(1) c(1) assms(3) r(1) c(2,3) complete_ready [OF r(3)]] r(3,4) by auto
  have "planMessages publisher p w'' = planMessages publisher p w'"
    using s(3) by (simp add: planMessages_def messageIn_def manifestBodyIn_def versionAt_def)
  then show ?thesis using r(2,5) s yields_Publish [OF yields_plan [OF assms(2)]] by metis
qed

end
