(* ===== verification/Example.thy ===== *)
theory Example
  imports Completion Mail
begin

text \<open>
  One concrete delivery: a message, its manifest, a batch with one recipient, and a service that holds
  them. It satisfies every hypothesis of the delivery theorems, so the theorems about all executions of the
  fleet and all traces of a delivery apply to a run that really sends a mail.
\<close>

section \<open>The documents\<close>

definition exampleOptions :: WorkerOptions where
  "exampleOptions = \<lparr>wo_Blobs = \<lparr>bs_allowed = [''c'']\<rparr>, wo_HMACKey = replicate 32 CHR ''k'', wo_HMACKeyVersion = ''k1'',
     wo_Provider = ''stub'', wo_MaxAttempts = 5, wo_ClaimTimeout = 60 * second\<rparr>"

definition exampleRecipient :: Recipient where
  "exampleRecipient = \<lparr>rc_Email = ''u@a.b'', rc_FirstName = ''A'', rc_LastName = ''B''\<rparr>"

definition exampleManifest :: PublishedManifest where
  "exampleManifest = \<lparr>
     pm_DAR = \<lparr>br_Container = ''c'', br_Name = ''d'', br_SHA256 = replicate 64 CHR ''a'', br_Size = 1, br_VersionID = ''v''\<rparr>,
     pm_DownloadName = ''a.dar'', pm_OperationID = replicate 64 CHR ''a'', pm_PublishedAt = formatTime epoch,
     pm_ReleaseID = ''r'', pm_ReleaseVersion = ''1.2.3'', pm_Repository = ''o/r'', pm_SchemaVersion = ''1.0'',
     pm_SourceCommitSHA = replicate 40 CHR ''a''\<rparr>"

definition manifestBody :: string where
  "manifestBody = jprint (manifestJson exampleManifest)"

definition rowsBody :: string where
  "rowsBody = batchBody (map rowOf [exampleRecipient])"

definition exampleMessage :: QueueMessage where
  "exampleMessage = \<lparr>
     qm_ApplicationURL = ''https://app.example.internal/v1/releases/1.2.3/download/a.dar'',
     qm_CreatedAt = formatTime epoch,
     qm_Manifest = \<lparr>br_Container = ''c'', br_Name = ''m'', br_SHA256 = hexEncode (sha256 manifestBody),
       br_Size = int (length manifestBody), br_VersionID = ''v''\<rparr>,
     qm_MessageID = replicate 64 CHR ''a'' @ '':'' @ itoa 0, qm_OperationID = replicate 64 CHR ''a'',
     qm_RecipientBatch = \<lparr>bt_BatchCount = 1, bt_BatchIndex = 0, bt_Container = ''c'', bt_Name = ''b'',
       bt_RecipientCount = 1, bt_SHA256 = hexEncode (sha256 rowsBody), bt_Size = int (length rowsBody),
       bt_VersionID = ''v''\<rparr>,
     qm_ReleaseID = ''r'', qm_ReleaseVersion = ''1.2.3'', qm_SchemaVersion = ''1.0'',
     qm_SourceCommitSHA = replicate 40 CHR ''a''\<rparr>"

definition exampleEnv :: env where
  "exampleEnv = \<lparr>e_now = epoch,
     e_mail = (\<lambda>_. \<lparr>mr_Outcome = MailAccepted, mr_HTTPStatus = 202, mr_RequestID = ''id'', mr_ReasonCode = [], mr_RetryAfter = 0\<rparr>),
     e_blob = (\<lambda>c n v.
       let body = (if n = ''m'' then manifestBody else rowsBody)
       in DlOk \<lparr>ar_Body = Some (body, None), ar_ContentLength = Some (int (length body)), ar_VersionID = Some v,
                ar_ETag = Some ''e'', ar_Metadata = []\<rparr>)\<rparr>"

definition exampleBody :: string where
  "exampleBody = jprint (messageJson exampleMessage)"

section \<open>They are valid\<close>

lemma epoch_stamp: "validTimestamp (formatTime epoch)" "utf8_valid (formatTime epoch)" "length (formatTime epoch) = 20"
proof -
  have "hasSuffix (formatTime t) ''Z''" for t
    unfolding hasSuffix_byte by (simp add: formatTime_def formatZ_def Let_def split: prod.splits)
  then show "validTimestamp (formatTime epoch)"
    using validTime_formatTime [of epoch]
    by (auto simp: validTimestamp_def validReceiptTime_def parseTime_def split: option.splits)
  show "utf8_valid (formatTime epoch)" "length (formatTime epoch) = 20"
    by (simp_all add: utf8_valid_ascii formatTime_ascii formatTime_length)
qed

lemma example_patterns:
  "rmatch containerPattern ''c''" "rmatch digestPattern (replicate 64 CHR ''a'')" "rmatch commitPattern (replicate 40 CHR ''a'')"
  "rmatch releasePattern ''r''" "rmatch repositoryPattern ''o/r''"
proof -
  show "rmatch containerPattern ''c''" "rmatch releasePattern ''r''"
    by (simp_all add: containerPattern_def releasePattern_def rmatch_cls_seq char_class_defs del: rmatch.simps)
  show "rmatch digestPattern (replicate 64 CHR ''a'')" "rmatch commitPattern (replicate 40 CHR ''a'')"
    by (simp_all add: digest_iff commit_iff list_all_iff char_class_defs del: rmatch.simps)
  have "rmatch (RSeq (rplus (RCls repositoryChar)) (RSeq (rlit ''/'') (rplus (RCls repositoryChar)))) (''o'' @ ''/'' @ ''r'')"
    by (intro rmatch_RSeqI) (simp_all add: rmatch_rplus_cls rmatch_rlit char_class_defs del: rmatch.simps rlit.simps)
  then show "rmatch repositoryPattern ''o/r''" by (simp add: repositoryPattern_def del: rmatch.simps rlit.simps)
qed

lemma letter_name: "is_lower c \<Longrightarrow> validBlobName [c]"
  by (auto simp: validBlobName_def hasPrefix_def hasSuffix_def containsAny_def controlFree_bytes char_class_defs backslash_def)

lemma example_names: "validBlobName ''d''" "validBlobName ''m''" "validBlobName ''b''"
  by (rule letter_name, simp add: char_class_defs)+

lemma example_sizes:
  "length manifestBody \<le> 65536" "1 \<le> length manifestBody" "length (rowOf exampleRecipient) < 1024"
  "length rowsBody \<le> 2000" "1 \<le> length rowsBody"
proof -
  have "jbound (manifestJson exampleManifest) \<le> 65536"
    by (simp add: manifestJson_def exampleManifest_def blobJson_def jint_def epoch_stamp itoa_def itoa_nat.simps)
  then show "length manifestBody \<le> 65536" using jprint_bound(1) [of "manifestJson exampleManifest"] by (simp add: manifestBody_def)
  have "jbound (recipientJson exampleRecipient) < 1024" by (simp add: recipientJson_def exampleRecipient_def)
  then show r: "length (rowOf exampleRecipient) < 1024"
    using jprint_bound(1) [of "recipientJson exampleRecipient"] by (simp add: rowOf_def)
  show "length rowsBody \<le> 2000" "1 \<le> length rowsBody" using r by (simp_all add: rowsBody_def batchBody_def)
  show "1 \<le> length manifestBody" by (simp add: manifestBody_def manifestJson_def)
qed

lemma exampleManifest_ok: "wfManifest exampleManifest" "validManifest exampleManifest"
proof -
  note e = example_patterns example_names epoch_stamp example_url(2,3)
  have u: "utf8_valid (replicate n CHR ''a'')" for n by (rule utf8_valid_ascii) (simp add: ascii_def list_all_iff)
  show "wfManifest exampleManifest"
    using e u by (simp add: wfManifest_def exampleManifest_def wfBlob_def utf8_valid_ascii int64_ok_def)
  show "validManifest exampleManifest"
    using e by (simp add: validManifest_def exampleManifest_def validBlob_def controlFree_bytes maxArtifactBytes_def
        del: rmatch.simps)
qed

lemma exampleMessage_ok: "fitMessage exampleMessage" "length exampleBody \<le> 65536"
proof -
  note e = example_patterns example_names epoch_stamp example_url(1,2) example_sizes
  have u: "utf8_valid (replicate n CHR ''a'')" "utf8_valid (hexEncode s)" for n s
    by (rule utf8_valid_ascii, simp add: ascii_def list_all_iff, rule utf8_valid_ascii, simp add: ascii_lower_hex hexEncode_lower_hex)
  have z: "itoa 0 = ''0''" by (simp add: itoa_def itoa_nat.simps digit_char_0)
  then have "utf8_valid (replicate 64 CHR ''a'' @ '':'' @ itoa 0)" by (intro utf8_valid_ascii) (simp add: ascii_def list_all_iff)
  moreover have "int (length manifestBody) \<le> 65536" "int (length rowsBody) \<le> 2000" using e by simp_all
  ultimately have "wfMessage exampleMessage"
    using e u by (simp add: wfMessage_def exampleMessage_def wfBlob_def wfBatch_def Reference_def utf8_valid_ascii int64_ok_def)
  moreover have "validMessage exampleMessage (qm_MessageID exampleMessage)"
    using e by (simp add: validMessage_def exampleMessage_def validBlob_def validBatchReference_def Reference_def
        controlFree_bytes maxArtifactBytes_def del: rmatch.simps)
  ultimately show "fitMessage exampleMessage" by (simp add: fitMessage_def exampleMessage_def)
  have len: "length (itoa (int (length manifestBody))) \<le> 5" "length (itoa (int (length rowsBody))) \<le> 5"
    "length (itoa 1) \<le> 4"
    using e itoa_short [of 1] itoa_nat_length [of "length manifestBody" 5] itoa_nat_length [of "length rowsBody" 5] by (simp_all add: itoa_def)
  have "jbound (messageJson exampleMessage) \<le> 65536"
    using len z by (simp add: messageJson_def exampleMessage_def blobJson_def batchJson_def jint_def epoch_stamp itoa_nat.simps)
  then show "length exampleBody \<le> 65536" using jprint_bound(1) [of "messageJson exampleMessage"] by (simp add: exampleBody_def)
qed

lemma exampleRecipient_ok: "validRecipient exampleRecipient"
proof -
  have e: "rmatch emailPattern ''u@a.b''"
    using short_domain_email [of "''u''"] by (simp add: emailLocalChar_def char_class_defs del: rmatch.simps)
  note b = email_bytes [OF e]
  have "trimSpace ''u@a.b'' = ''u@a.b''" using b(1) by (intro trimSpace_id) (simp_all add: isSpace_def)
  moreover have "rmatch namePattern ''A''" "rmatch namePattern ''B''"
    by (simp_all add: namePattern_def rmatch_cls_seq rmatch_rupto_cls char_class_defs del: rmatch.simps)
  ultimately show ?thesis using e toLower_id [OF b(1,2)] by (simp add: validRecipient_def exampleRecipient_def del: rmatch.simps)
qed

lemma exampleOptions_ok: "fitOptions exampleOptions"
  using example_label by (simp add: fitOptions_def NewWorker_def exampleOptions_def second_def del: rmatch.simps)

lemma example_deliverable: "deliverable exampleOptions exampleEnv exampleMessage exampleManifest [exampleRecipient]"
proof -
  have "serves exampleEnv (qm_Manifest exampleMessage) manifestBody"
    "serves exampleEnv (Reference (qm_RecipientBatch exampleMessage)) rowsBody"
    by (simp_all add: serves_def Matches_def exampleMessage_def exampleEnv_def Reference_def Let_def)
  moreover have "ParsePublishedManifest manifestBody = Inr exampleManifest"
    using exampleManifest_ok example_sizes(1) unfolding manifest_doc.parse_iff manifest_doc.accepted_def
    by (simp add: manifestBody_def maxManifestBytes_def)
  moreover have "manifestMatchesMessage exampleManifest exampleMessage"
    by (simp add: manifestMatchesMessage_def exampleManifest_def exampleMessage_def)
  ultimately show ?thesis
    using exampleOptions_ok exampleMessage_ok exampleRecipient_ok example_sizes(3)
    unfolding deliverable_def exampleBody_def [symmetric] manifestBody_def [symmetric] rowsBody_def [symmetric]
    by (simp add: exampleEnv_def) (simp add: exampleMessage_def exampleOptions_def)
qed

section \<open>The run\<close>

lemma run_reads_only: "run env t w = (x, w', es) \<Longrightarrow> list_all isVersionRead es \<Longrightarrow> w' = w"
proof (induction t arbitrary: w es)
  case (DlVersion c n v k)
  then obtain es' where "run env (k (e_blob env c n v)) w = (x, w', es')" "list_all isVersionRead es'"
    by (auto simp: Let_def split: prod.splits)
  then show ?case using DlVersion.IH by blast
qed (auto simp: Let_def isVersionRead_def split: prod.splits if_splits)

lemma example_fresh: "resumable exampleOptions exampleMessage [exampleRecipient] emptyWorld"
  by (simp add: resumable_def freshIn_def emptyWorld_def)

lemma example_mail: "delivered (e_mail exampleEnv n)"
  by (simp add: delivered_def exampleEnv_def controlFree_bytes utf8_valid_ascii)

lemma example_run:
  "\<exists>result w es. run exampleEnv (Process exampleOptions (qm_MessageID exampleMessage) exampleBody) emptyWorld = (result, w, es) \<and>
     settledIn exampleOptions exampleMessage exampleRecipient w \<and>
     w_sent w = [mailFor exampleOptions exampleMessage exampleRecipient]"
  using run_Process [OF example_deliverable example_fresh] example_mail
  by (auto simp: exampleBody_def completed_def freshIn_def emptyWorld_def)

lemma example_fleet:
  "\<exists>w ts. fleet 5 ''k1'' w ts \<and> w_sent w = [mailFor exampleOptions exampleMessage exampleRecipient]"
proof -
  obtain result w es where "run exampleEnv (Process exampleOptions (qm_MessageID exampleMessage) exampleBody) emptyWorld =
      (result, w, es)" "w_sent w = [mailFor exampleOptions exampleMessage exampleRecipient]"
    using example_run by blast
  then show ?thesis
    using fleet_delivery [OF fleet.start [of 5 "''k1''"], of exampleOptions] by (force simp: exampleOptions_def)
qed

theorem delivery_completes_witness:
  "\<exists>es w'. run exampleEnv (Process exampleOptions (qm_MessageID exampleMessage) exampleBody) emptyWorld =
      (\<lparr>pr_Disposition = Complete, pr_ReasonCode = [], pr_ProcessedCount = 1, pr_SkippedCount = 0, pr_RetryAfter = 0\<rparr>, w', es) \<and>
    w_sent w' = [mailFor exampleOptions exampleMessage exampleRecipient]"
  using delivery_completes [OF example_deliverable example_fresh] example_mail
  by (auto simp: exampleBody_def freshIn_def emptyWorld_def)

theorem redelivery_is_silent_witness:
  "\<exists>w es. w_sent w = [mailFor exampleOptions exampleMessage exampleRecipient] \<and>
     run exampleEnv (Process exampleOptions (qm_MessageID exampleMessage) exampleBody) w =
      (\<lparr>pr_Disposition = Complete, pr_ReasonCode = [], pr_ProcessedCount = 0, pr_SkippedCount = 1, pr_RetryAfter = 0\<rparr>, w, es)"
proof -
  obtain w where "settledIn exampleOptions exampleMessage exampleRecipient w"
      "w_sent w = [mailFor exampleOptions exampleMessage exampleRecipient]"
    using example_run by blast
  then show ?thesis using redelivery_is_silent [OF example_deliverable, of w] by (auto simp: exampleBody_def)
qed

theorem fleet_sends_bounded_witness:
  "\<exists>w ts. fleet 5 ''k1'' w ts \<and> w_sent w = [mailFor exampleOptions exampleMessage exampleRecipient] \<and>
     int (length (filter (\<lambda>n. n_ReleaseID n = ''r'' \<and> n_OperationID n = replicate 64 CHR ''a'' \<and>
       n_RecipientID n = recipientIDOf exampleOptions exampleRecipient) (w_sent w))) \<le> 5"
  using example_fleet fleet_sends_bounded [where m = 5 and kv = "''k1''"] by fastforce

theorem fleet_send_after_commit_witness:
  "\<exists>w ts. fleet 5 ''k1'' w ts \<and> w_sent w = [mailFor exampleOptions exampleMessage exampleRecipient] \<and>
     1 \<le> length (filter (\<lambda>v. startsSend (fst v)) (w_versions w (pathOf exampleOptions exampleMessage exampleRecipient)))"
proof -
  obtain w ts where w: "fleet 5 ''k1'' w ts" "w_sent w = [mailFor exampleOptions exampleMessage exampleRecipient]"
    using example_fleet by blast
  have "notificationPath ''k1'' (mailFor exampleOptions exampleMessage exampleRecipient) =
      pathOf exampleOptions exampleMessage exampleRecipient"
    by (simp add: notificationPath_def mailFor_def notificationOf_def pathOf_def exampleOptions_def)
  then show ?thesis
    using fleet_send_after_commit [OF w(1), of "pathOf exampleOptions exampleMessage exampleRecipient"] w by auto
qed

theorem fleet_journal_witness:
  "\<exists>w ts. fleet 5 ''k1'' w ts \<and> w_sent w = [mailFor exampleOptions exampleMessage exampleRecipient] \<and>
     journal 5 (w_versions w (pathOf exampleOptions exampleMessage exampleRecipient))"
  using example_fleet fleet_journal [where m = 5 and kv = "''k1''"] by blast

theorem Process_validates_first_witness:
  "\<exists>evs result message raw. trace (Process exampleOptions (qm_MessageID exampleMessage) exampleBody) evs result \<and>
     \<not> list_all isVersionRead evs \<and>
     ParseQueueMessage exampleBody (qm_MessageID exampleMessage) = Inr message \<and> Matches (qm_Manifest message) raw"
proof -
  obtain result w es where r: "run exampleEnv (Process exampleOptions (qm_MessageID exampleMessage) exampleBody) emptyWorld =
      (result, w, es)" "w_sent w = [mailFor exampleOptions exampleMessage exampleRecipient]"
    using example_run by blast
  have "w \<noteq> emptyWorld" using r(2) by (auto simp: emptyWorld_def)
  then have "\<not> list_all isVersionRead es" using run_reads_only [OF r(1)] by blast
  with run_trace [OF r(1)] show ?thesis using Process_validates_first by metis
qed


section \<open>A mail request\<close>

definition exampleMailConfig :: MailConfig where
  "exampleMailConfig = \<lparr>mc_Mode = MailModeStub, mc_FromEmail = ''u@a.b'', mc_FromName = ''N'', mc_AllowedRecipients = [''u@a.b''],
     mc_APIKey = [], mc_StubEndpoint = ''https://s.example.internal/v3/mail/send'', mc_Timeout = 0, mc_Client = None\<rparr>"

lemma example_canonical: "canonicalEmail ''u@a.b'' = (''u@a.b'', True)"
  using exampleRecipient_ok by (simp add: canonicalEmail_def validRecipient_def exampleRecipient_def del: rmatch.simps)

lemma example_stub: "urlParse ''https://s.example.internal/v3/mail/send'' \<noteq> None" "validStubEndpoint ''https://s.example.internal/v3/mail/send''"
proof -
  have d: "list_all dnsChar ''s.example.internal''" "list_all pathChar ''/v3/mail/send''"
    by (simp_all add: dnsChar_def pathChar_def char_class_defs)
  let ?u = "emptyUrl\<lparr>u_scheme := ''https'', u_host := ''s.example.internal'', u_path := ''/v3/mail/send''\<rparr>"
  have u: "urlParse ''https://s.example.internal/v3/mail/send'' = Some ?u"
    using urlParse_https [OF d] by simp
  then show "urlParse ''https://s.example.internal/v3/mail/send'' \<noteq> None" by simp
  have "hostname ?u = ''s.example.internal''" "urlPort ?u = []" using hostname_dns [of ?u] d(1) by simp_all
  moreover have "toLower ''s.example.internal'' = ''s.example.internal''"
    by (rule toLower_id) (simp_all add: char_class_defs)
  ultimately show "validStubEndpoint ''https://s.example.internal/v3/mail/send''"
    using u by (simp add: validStubEndpoint_def hasSuffix_def emptyUrl_def)
qed

lemma example_mailer: "\<exists>mailer. NewHTTPMailer exampleMailConfig = Inr mailer \<and> hm_fromEmail mailer = ''u@a.b'' \<and> hm_fromName mailer = ''N''"
  using example_canonical example_stub
  by (simp add: NewHTTPMailer_def exampleMailConfig_def allowedFor_def endpointFor_def controlFree_bytes second_def)

lemma example_request:
  "\<exists>mailer request. NewHTTPMailer exampleMailConfig = Inr mailer \<and>
     mailRequest mailer (mailFor exampleOptions exampleMessage exampleRecipient) = Inr request"
proof -
  obtain mailer where m: "NewHTTPMailer exampleMailConfig = Inr mailer" "hm_fromEmail mailer = ''u@a.b''" "hm_fromName mailer = ''N''"
    using example_mailer by blast
  note f = mailer_facts [OF m(1)]
  let ?n = "mailFor exampleOptions exampleMessage exampleRecipient"
  have a: "hm_mode mailer = MailModeStub" "hm_allowed mailer = [''u@a.b'']"
      "hm_endpoint mailer = ''https://s.example.internal/v3/mail/send''"
    using f example_canonical example_stub by (simp_all add: exampleMailConfig_def allowedFor_def endpointFor_def)
  have t: "trimSpace (''A'' @ '' '' @ ''B'') = ''A B''"
    by (subst trimSpace_id) (simp_all add: isSpace_def)
  have r: "n_FirstName ?n = ''A''" "n_LastName ?n = ''B''" "n_ReleaseVersion ?n = ''1.2.3''" "length (n_OperationID ?n) = 64"
      "length (n_RecipientID ?n) = 64" "length (n_ReleaseID ?n) = 1" "length (n_ApplicationURL ?n) = 61"
    by (simp_all add: mailFor_def notificationOf_def exampleMessage_def exampleRecipient_def recipientIDOf_def)
  have h: "length (escapeString s) \<le> 5 * length s" for s
    by (induction s) (simp_all add: escapeString_def htmlByte_def)
  have "jbound (buildMailPayload mailer ?n ''u@a.b'') \<le> 65536"
    unfolding buildMailPayload_def Let_def r(1,2) t
    using a m r h [of "''A''"] h [of "''1.2.3''"] h [of "n_ApplicationURL ?n"] by (simp add: plainText_def htmlBody_def)
  then have "length (jprint (buildMailPayload mailer ?n ''u@a.b'')) \<le> 65536" using jprint_bound(1) le_trans by blast
  then obtain request where r: "mailRequest mailer ?n = Inr request"
    using a example_canonical example_stub(1)
    by (auto simp: mailRequest_def mailFor_def notificationOf_def exampleRecipient_def buildMailPayload_def Let_def)
  show ?thesis using m(1) r by blast
qed


end
