(* ===== verification/PubExample.thy ===== *)
theory PubExample
  imports PubRun Example
begin

text \<open>
  One concrete publication: a policy, a checkout with one archive, one recipient, an empty storage account. It meets the
  hypotheses of the publication theorems, so they apply to a run that really stores blobs and sends a message.
\<close>

section \<open>The publication\<close>

definition publisherConfig :: PublicationConfig where
  "publisherConfig = \<lparr>pc_Repository = ''o/r'', pc_ReleasesContainer = ''r'', pc_ManifestsContainer = ''m'', pc_BatchesContainer = ''b'',
     pc_ApplicationOrigin = ''https://app.example.internal/'', pc_BatchSize = 10\<rparr>"

definition examplePublisher :: Publisher where
  "examplePublisher = \<lparr>pu_config = publisherConfig\<lparr>pc_ApplicationOrigin := ''https://app.example.internal''\<rparr>,
     pu_blobs = azureBlobWriter, pu_queue = azureQueueWriter\<rparr>"

definition exampleSource :: SourceRelease where
  "exampleSource = \<lparr>sr_DARPath = ''releases/v0.0.0.00/dar-0.0.0.00.zip'', sr_DARSHA256 = hexEncode (sha256 ''z''), sr_DARSize = 1,
     sr_DownloadName = ''dar-0.0.0.00.zip'', sr_ReleaseID = ''r'', sr_SchemaVersion = ''1.0'', sr_Version = ''v0.0.0.00''\<rparr>"

definition exampleRequest :: PublishRequest where
  "exampleRequest = \<lparr>pq_RepositoryRoot = ''/r'', pq_Source = exampleSource, pq_Recipients = [exampleRecipient],
     pq_CommitSHA = replicate 40 CHR ''a'', pq_CreatedAt = formatTime epoch\<rparr>"

definition exampleFiles :: filesystem where
  "exampleFiles = \<lparr>fs_Getwd = None, fs_EvalSymlinks = Some,
     fs_Stat = (\<lambda>name. Some \<lparr>fi_Size = 1, fi_IsDir = (name = ''/r''), fi_IsRegular = (name \<noteq> ''/r''), fi_IsSymlink = False\<rparr>),
     fs_Lstat = (\<lambda>_. None), fs_ReadDir = (\<lambda>_. None), fs_OpenZip = (\<lambda>_. None), fs_ReadFile = (\<lambda>_. Some (''z'', None))\<rparr>"

definition exampleArtifact :: string where
  "exampleArtifact = ''/r/releases/v0.0.0.00/dar-0.0.0.00.zip''"

definition examplePlan :: publicationPlan where
  "examplePlan = \<lparr>pl_request = exampleRequest, pl_artifactPath = exampleArtifact,
     pl_operationID = deriveOperationID ''o/r'' (replicate 40 CHR ''a'') exampleSource, pl_batches = [batchBytes [exampleRecipient]]\<rparr>"

section \<open>It is accepted\<close>

lemma example_origin: "validApplicationOrigin ''https://app.example.internal/''"
proof -
  let ?u = "emptyUrl\<lparr>u_scheme := ''https'', u_host := ''app.example.internal'', u_path := ''/''\<rparr>"
  have u: "urlParse ''https://app.example.internal/'' = Some ?u"
    using urlParse_https [OF example_url(4), of "''/''" "[]"] by (simp add: pathChar_def)
  have "hostname ?u = ''app.example.internal''" "urlPort ?u = []" using hostname_dns [of ?u] example_url(4) by simp_all
  moreover have "toLower ''app.example.internal'' = ''app.example.internal''"
    by (rule toLower_id) (simp_all add: char_class_defs)
  ultimately show ?thesis using u example_url(5) by (simp add: validApplicationOrigin_def emptyUrl_def)
qed

lemma letter_container: "is_lower c \<Longrightarrow> rmatch containerPattern [c]"
  by (simp add: containerPattern_def rmatch_cls_seq del: rmatch.simps)

lemma example_publisher: "NewPublisher publisherConfig (Some azureBlobWriter) (Some azureQueueWriter) = Inr examplePublisher"
proof -
  have "rmatch containerPattern ''r''" "rmatch containerPattern ''m''" "rmatch containerPattern ''b''"
    by (rule letter_container, simp add: char_class_defs)+
  then have "validPublisherConfig publisherConfig"
    using example_patterns(5) example_origin
    by (simp add: validPublisherConfig_def publisherConfig_def maxPublicationBatchSize_def pub_patterns hasPrefix_def del: rmatch.simps)
  moreover have "trimSuffix ''https://app.example.internal/'' ''/'' = ''https://app.example.internal''"
    by (simp add: trimSuffix_def hasSuffix_def)
  ultimately show ?thesis by (simp add: NewPublisher_def examplePublisher_def Let_def publisherConfig_def)
qed

lemma example_version: "productVersionKey ''v0.0.0.00'' = Some [0, 0, 0, 0]" "rmatch productVersionPattern ''v0.0.0.00''"
proof -
  have d: "list_all is_digit ''0''" "list_all is_digit ''00''" "rmatch numericPart ''0''"
    by (simp_all add: char_class_defs numericPart_iff del: rmatch.simps)
  then show m: "rmatch productVersionPattern ''v0.0.0.00''"
    unfolding productVersion_iff by (intro exI [of _ "''0''"] exI [of _ "''00''"]) simp
  have "split CHR ''.'' (trimPrefix ''v0.0.0.00'' ''v'') = [''0'', ''0'', ''0'', ''00'']"
    by (simp add: trimPrefix_def hasPrefix_def)
  then show "productVersionKey ''v0.0.0.00'' = Some [0, 0, 0, 0]"
    using m d by (simp add: productVersionKey_def parseUint_def decimal_def digit_value_def del: rmatch.simps)
qed

lemma example_source: "validSourceRecord exampleSource"
  using example_version(2) example_patterns(4)
  by (simp add: validSourceRecord_def exampleSource_def pub_patterns downloadNameOf_def trimPrefix_def hasPrefix_def
      maxArchiveBytes_def MaxObjectSize_def del: rmatch.simps)

lemma example_recipients: "validRecipients [exampleRecipient]" "wfRecipient exampleRecipient"
proof -
  show w: "wfRecipient exampleRecipient" using exampleRecipient_ok by (rule valid_recipient_wf)
  have "ParseRecipient (jprint (recipientJson exampleRecipient)) = Inr exampleRecipient"
    using w exampleRecipient_ok example_sizes(3) unfolding recipient_doc.parse_iff recipient_doc.accepted_def by (simp add: rowOf_def)
  then show "validRecipients [exampleRecipient]" by (simp add: validRecipients_def)
qed

lemma example_paths:
  "joinPath [''/r'', sr_DARPath exampleSource] = exampleArtifact" "cleanPath exampleArtifact = exampleArtifact"
  "relPath ''/r'' exampleArtifact = Some (sr_DARPath exampleSource)" "cleanPath ''/r'' = ''/r''"
proof -
  let ?es = "[''releases'', ''v0.0.0.00'', ''dar-0.0.0.00.zip'']"
  have j: "join slash ?es = sr_DARPath exampleSource" by (simp add: exampleSource_def)
  have g: "list_all (\<lambda>e. goodElement e \<and> slash \<notin> set e) ?es" by (simp add: goodElement_def)
  have "''/r'' = slash # join slash [''r'']" "list_all (\<lambda>e. goodElement e \<and> slash \<notin> set e) [''r'']" by (simp_all add: goodElement_def)
  then have a: "absClean ''/r''" unfolding absClean_def by blast
  have e: "exampleArtifact = ''/r'' @ slash # sr_DARPath exampleSource" by (simp add: exampleArtifact_def exampleSource_def)
  note b = joinPath_below [OF a _ g, unfolded j] and r = relPath_below [OF a _ g, unfolded j]
  show "joinPath [''/r'', sr_DARPath exampleSource] = exampleArtifact" unfolding e by (rule b) simp
  show "cleanPath exampleArtifact = exampleArtifact" unfolding e by (rule absClean_clean, rule b) simp
  show "relPath ''/r'' exampleArtifact = Some (sr_DARPath exampleSource)" unfolding e by (rule r) simp
  show "cleanPath ''/r'' = ''/r''" by (rule absClean_clean [OF a])
qed

lemma yields_links:
  "yields fs (EvalSymlinks n k) w x w' \<longleftrightarrow> yields fs (k (fs_EvalSymlinks fs n)) w x w'"
  by (auto simp: yields_def Let_def split: prod.splits)

lemma example_verify: "yields exampleFiles (verifySourceArtifact ''/r'' exampleSource) w (Inr exampleArtifact) w"
proof -
  have n: "exampleArtifact \<noteq> ''/r''" by (simp add: exampleArtifact_def)
  have d: "yields exampleFiles (cleanDirectory ''/r'') w (Inr ''/r'') w"
  proof -
    have "trimSpace ''/r'' = ''/r''" by (rule trimSpace_id) (simp_all add: isSpace_def)
    moreover have "yields exampleFiles (absPath ''/r'') w (Inr ''/r'') w"
      using example_paths(4) by (simp add: absPath_def hasPrefix_def)
    ultimately show ?thesis
      unfolding cleanDirectory_def by (simp, intro yields_tryP) (assumption, simp add: yields_links yields_files exampleFiles_def example_paths(4))
  qed
  have g: "yields exampleFiles (fileDigest exampleArtifact) w (Inr (sr_DARSHA256 exampleSource)) w"
    by (simp add: fileDigest_def yields_files exampleFiles_def exampleSource_def)
  have "yields exampleFiles (verifyArtifactAt ''/r'' exampleSource) w (Inr exampleArtifact) w"
    unfolding verifyArtifactAt_def example_paths(1) Let_def yields_links
    using n example_paths(3) g
    by (auto simp: exampleFiles_def yields_files hasPrefix_def exampleSource_def intro!: yields_bindP)
  then show ?thesis unfolding verifySourceArtifact_def using example_source d by (auto intro!: yields_tryP)
qed

lemma example_plan: "yields exampleFiles (plan examplePublisher exampleRequest) w (Inr examplePlan) w"
proof -
  have "validCreatedAt (formatTime epoch)" using epoch_stamp(1) by (simp add: validCreatedAt_def validTimestamp_def)
  then have ok: "\<not> (\<not> rmatch pubCommitPattern (pq_CommitSHA exampleRequest) \<or> \<not> validCreatedAt (pq_CreatedAt exampleRequest) \<or>
         length (pq_Recipients exampleRequest) = 0 \<or> \<not> validRecipients (pq_Recipients exampleRequest))"
    using example_patterns(3) example_recipients(1) by (simp add: exampleRequest_def pub_patterns del: rmatch.simps)
  have v: "yields exampleFiles (verifySourceArtifact (pq_RepositoryRoot exampleRequest) (pq_Source exampleRequest)) w (Inr exampleArtifact) w"
    using example_verify by (simp add: exampleRequest_def)
  have "buildBatches [exampleRecipient] 10 = Inr [batchBytes [exampleRecipient]]"
    by (simp add: buildBatches_def batchesFrom.simps [of _ _ 0] batchesFrom.simps [of _ _ 10] Let_def)
  then show ?thesis unfolding plan_def if_not_P [OF ok]
    by (intro yields_bindP [OF v]) (simp add: exampleRequest_def examplePublisher_def publisherConfig_def examplePlan_def)
qed

lemma example_bounds: "boundedInputs examplePublisher exampleRequest"
proof -
  have "list_all dnsChar ''app.example.internal''" "hasSuffix ''app.example.internal'' ''.example.internal''" by (rule example_url)+
  then have "\<exists>host. ''https://app.example.internal'' = ''https://'' @ host \<and> list_all dnsChar host \<and> length host \<le> 253 \<and>
      (hasSuffix host ''.azurecontainerapps.io'' \<or> hasSuffix host ''.example.internal'')"
    by (intro exI [of _ "''app.example.internal''"]) simp
  then show ?thesis
    using example_version(1) epoch_stamp(2,3) example_recipients(2)
    unfolding boundedInputs_def by (simp add: examplePublisher_def publisherConfig_def exampleRequest_def exampleSource_def)
qed

lemma example_honest: "honestFile exampleFiles (pl_artifactPath examplePlan)"
  by (simp add: honestFile_def exampleFiles_def)

lemma example_unpublished: "unpublished examplePublisher examplePlan emptyPubWorld"
  by (simp add: unpublished_def behind_def emptyPubWorld_def)

section \<open>The run\<close>

theorem publication_succeeds_witness:
  "\<exists>content w. yields exampleFiles (Publish False examplePublisher exampleRequest) emptyPubWorld (Inr (planResult examplePlan)) w \<and>
     complete examplePublisher examplePlan content w \<and> length (pw_queue w) = 1"
proof -
  obtain content w where w: "yields exampleFiles (Publish False examplePublisher exampleRequest) emptyPubWorld (Inr (planResult examplePlan)) w"
      "complete examplePublisher examplePlan content w"
      "pw_queue w = rev (map sentMessage (planMessages examplePublisher examplePlan w)) @ pw_queue emptyPubWorld"
    using publication_succeeds [OF example_publisher example_plan example_bounds example_honest example_unpublished] by blast
  have "length (planMessages examplePublisher examplePlan w) = 1" by (simp add: planMessages_def examplePlan_def)
  then have "length (pw_queue w) = 1" unfolding w(3) by (simp add: emptyPubWorld_def)
  then show ?thesis using w(1,2) by blast
qed

theorem republication_idempotent_witness:
  "\<exists>w w'. yields exampleFiles (Publish False examplePublisher exampleRequest) emptyPubWorld (Inr (planResult examplePlan)) w \<and>
     yields exampleFiles (Publish False examplePublisher exampleRequest) w (Inr (planResult examplePlan)) w' \<and>
     pw_blobs w' = pw_blobs w \<and> pw_queue w' = pw_queue w @ pw_queue w"
proof -
  obtain w w' where w: "yields exampleFiles (Publish False examplePublisher exampleRequest) emptyPubWorld (Inr (planResult examplePlan)) w"
     "yields exampleFiles (Publish False examplePublisher exampleRequest) w (Inr (planResult examplePlan)) w'"
     "pw_blobs w' = pw_blobs w"
     "pw_queue w = rev (map sentMessage (planMessages examplePublisher examplePlan w)) @ pw_queue emptyPubWorld"
     "pw_queue w' = rev (map sentMessage (planMessages examplePublisher examplePlan w)) @ pw_queue w"
    using republication_idempotent [OF example_publisher example_plan example_bounds example_honest example_unpublished] by blast
  have "pw_queue w' = pw_queue w @ pw_queue w" using w(4,5) by (simp add: emptyPubWorld_def)
  then show ?thesis using w(1-3) by blast
qed

text \<open>The store of the example names its versions in plain text.\<close>

lemma tagOf_text: "utf8_valid (tagOf vs)"
  using digits_ascii [OF itoa_nat_digits] by (intro utf8_valid_ascii) (simp add: tagOf_def ascii_def)

definition textWorld :: "pubWorld \<Rightarrow> bool" where
  "textWorld w \<longleftrightarrow> (\<forall>at. list_all (\<lambda>v. utf8_valid (bv_VersionID v)) (pw_blobs w at))"

lemma runP_text: "textWorld w \<Longrightarrow> list_all versionText (snd (snd (runP fs t w)))"
proof (induction t arbitrary: w)
  case (GetProperties c n k)
  have "versionText (EGetProperties c n (propertiesOf (pw_blobs w (c, n))))"
    using GetProperties.prems [unfolded textWorld_def, THEN spec, of "(c, n)"]
    by (cases "pw_blobs w (c, n)") (simp_all add: propertiesOf_def textVersion_def)
  then show ?case using GetProperties by (simp add: Let_def split_beta)
next
  case (Upload u k)
  have "textWorld (addVersion u (tagOf vs) (tagOf vs) w)" for vs
    using Upload.prems tagOf_text by (simp add: textWorld_def addVersion_def)
  then show ?case using Upload tagOf_text by (simp add: Let_def split_beta textVersion_def)
next
  case (Enqueue m k)
  then show ?case by (simp add: Let_def split_beta textWorld_def)
qed (simp_all add: Let_def split_beta)

lemma runP_queue: "pw_queue (fst (snd (runP fs t w))) = rev (map fst (enqueued (snd (snd (runP fs t w))))) @ pw_queue w"
  by (induction t arbitrary: w) (simp_all add: Let_def split_beta addVersion_def)

lemma example_execution:
  obtains es where "execP (Publish False examplePublisher exampleRequest) es (Inr (planResult examplePlan))" "list_all versionText es"
    "enqueued es \<noteq> []"
proof -
  from example_publisher example_plan example_bounds example_honest example_unpublished
  obtain content w where y: "yields exampleFiles (Publish False examplePublisher exampleRequest) emptyPubWorld (Inr (planResult examplePlan)) w"
      "pw_queue w = rev (map sentMessage (planMessages examplePublisher examplePlan w)) @ pw_queue emptyPubWorld"
    by (rule publish_first)
  then obtain es where r: "runP exampleFiles (Publish False examplePublisher exampleRequest) emptyPubWorld = (Inr (planResult examplePlan), w, es)"
      "pw_queue w = rev (map sentMessage (planMessages examplePublisher examplePlan w)) @ pw_queue emptyPubWorld"
    by (auto simp: yields_def)
  have "textWorld emptyPubWorld" by (simp add: textWorld_def emptyPubWorld_def)
  then have "list_all versionText es" using runP_text r(1) by (metis snd_conv)
  moreover have "planMessages examplePublisher examplePlan w \<noteq> []" by (simp add: planMessages_def examplePlan_def)
  then have "enqueued es \<noteq> []"
    using r runP_queue [of exampleFiles "Publish False examplePublisher exampleRequest" emptyPubWorld] by auto
  ultimately show thesis using that runP_execP [OF r(1)] by blast
qed

lemma enqueued_split:
  assumes "enqueued es \<noteq> []"
  obtains pre m failed post where "es = pre @ EEnqueue m failed # post"
proof -
  have "\<exists>pre m failed post. es = pre @ EEnqueue m failed # post"
    using assms
  proof (induction es rule: enqueued.induct)
    case (2 m failed es)
    show ?case by (intro exI [of _ "[]"]) simp
  qed (simp_all, (metis append_Cons)+)
  then show thesis using that by blast
qed

theorem publication_announces_everyone_witness:
  "\<exists>es message. execP (Publish False examplePublisher exampleRequest) es (Inr (planResult examplePlan)) \<and>
     map (\<lambda>(m, failed). (ParseQueueMessage (bm_Body m) (bm_MessageID m), failed)) (enqueued es) = [(Inr message, False)] \<and>
     announces examplePublisher exampleRequest message 0"
proof -
  obtain es where e: "execP (Publish False examplePublisher exampleRequest) es (Inr (planResult examplePlan))" "list_all versionText es"
    by (rule example_execution)
  obtain messages where m: "map (\<lambda>(m, failed). (ParseQueueMessage (bm_Body m) (bm_MessageID m), failed)) (enqueued es) =
      map (\<lambda>message. (Inr message, False)) messages" "rs_BatchCount (planResult examplePlan) = int (length messages)"
      "\<forall>k < length messages. announces examplePublisher exampleRequest (messages ! k) k"
    using publication_announces_everyone [OF example_publisher e(1) bounded_text [OF example_bounds] e(2)] by blast
  have "length messages = 1" using m(2) by (simp add: planResult_def examplePlan_def)
  then obtain message where "messages = [message]" by (auto simp: length_Suc_conv)
  then show ?thesis using e(1) m(1,3) by auto
qed

theorem messages_follow_content_witness:
  "\<exists>pre m failed post message. execP (Publish False examplePublisher exampleRequest) (pre @ EEnqueue m failed # post) (Inr (planResult examplePlan)) \<and>
     ParseQueueMessage (bm_Body m) (bm_MessageID m) = Inr message \<and> confirmed pre (qm_Manifest message)"
proof -
  obtain es where e: "execP (Publish False examplePublisher exampleRequest) es (Inr (planResult examplePlan))" "list_all versionText es"
      "enqueued es \<noteq> []"
    by (rule example_execution)
  from e(3) obtain pre m failed post where s: "es = pre @ EEnqueue m failed # post" by (rule enqueued_split)
  have "list_all versionText pre" using e(2) s by simp
  then show ?thesis
    using messages_follow_content [OF example_publisher e(1)[unfolded s] bounded_text [OF example_bounds]] e(1) s by blast
qed

end
