(* ===== verification/EndToEnd.thy ===== *)
theory EndToEnd
  imports PubExample
begin

text \<open>
  The two programs together: what the publisher stored and queued is what the worker reads and receives. A publication
  followed by the delivery of its messages sends every recipient of the request exactly one mail.
\<close>

section \<open>The worker on the publisher's store\<close>

text \<open>Storage answers a download of an exact version with that version.\<close>

definition servesFrom :: "pubWorld \<Rightarrow> string \<Rightarrow> string \<Rightarrow> string \<Rightarrow> dl_reply" where
  "servesFrom w c n v =
     (case filter (\<lambda>b. bv_VersionID b = v) (pw_blobs w (c, n)) of
        [] \<Rightarrow> DlFailed (AzStatus 404)
      | b # _ \<Rightarrow> DlOk \<lparr>ar_Body = Some (bv_Content b, None), ar_ContentLength = Some (int (length (bv_Content b))),
                      ar_VersionID = Some v, ar_ETag = Some (bv_ETag b), ar_Metadata = bv_Metadata b\<rparr>)"

lemma serves_stored:
  assumes "holdsBody w (br_Container ref, br_Name ref) body" "e_blob env = servesFrom w"
    and "br_VersionID ref = versionAt w (br_Container ref, br_Name ref)" "Matches ref body"
  shows "serves env ref body"
proof -
  obtain v vs where "pw_blobs w (br_Container ref, br_Name ref) = v # vs" "bv_Content v = body"
    using assms(1) by (auto simp: holdsBody_def split: list.splits)
  then show ?thesis using assms(2-4) by (simp add: serves_def servesFrom_def versionAt_def Matches_def)
qed

text \<open>The worker takes the messages of the queue one after the other.\<close>

primrec deliverAll :: "WorkerOptions \<Rightarrow> env \<Rightarrow> busMessage list \<Rightarrow> world \<Rightarrow> ProcessResult list \<times> world" where
  "deliverAll options env [] v = ([], v)"
| "deliverAll options env (m # ms) v =
     (let (result, v1, _) = run env (Process options (bm_MessageID m) (bm_Body m)) v;
          (results, v2) = deliverAll options env ms v1
      in (result # results, v2))"

definition receiptOf :: "WorkerOptions \<Rightarrow> string \<Rightarrow> string \<Rightarrow> Recipient \<Rightarrow> string" where
  "receiptOf options releaseID operationID r =
     receiptPath releaseID operationID (wo_HMACKeyVersion options) (recipientIDOf options r)"

lemma receiptOf_eq: "receiptOf options a b r = receiptOf options a b r' \<longleftrightarrow> recipientIDOf options r = recipientIDOf options r'"
  by (simp add: receiptOf_def receiptPath_def)

text \<open>Messages of one operation with the rows they announce, each deliverable.\<close>

definition deliverableIn :: "WorkerOptions \<Rightarrow> env \<Rightarrow> PublishedManifest \<Rightarrow> string \<Rightarrow> string \<Rightarrow> QueueMessage \<Rightarrow> Recipient list \<Rightarrow> bool" where
  "deliverableIn options env manifest releaseID operationID m piece \<longleftrightarrow>
     deliverable options env m manifest piece \<and> qm_ReleaseID m = releaseID \<and> qm_OperationID m = operationID"

lemma deliver_first:
  assumes "deliverableIn options env manifest a b m piece" "\<forall>n. delivered (e_mail env n)"
    and "\<forall>r \<in> set piece. w_versions v (receiptOf options a b r) = []"
  obtains result es v' where "run env (Process options (qm_MessageID m) (jprint (messageJson m))) v = (result, v', es)"
    "pr_Disposition result = Complete" "w_sent v' = rev (map (mailFor options m) piece) @ w_sent v"
    "\<forall>q. q \<notin> receiptOf options a b ` set piece \<longrightarrow> w_versions v' q = w_versions v q"
proof -
  have p: "pathOf options m = receiptOf options a b" using assms(1) by (auto simp: pathOf_def receiptOf_def deliverableIn_def fun_eq_iff)
  have f: "\<forall>r \<in> set piece. freshIn options m v r" using assms(3) by (simp add: freshIn_def p)
  have "deliverable options env m manifest piece" "resumable options m piece v"
    using assms(1) f by (simp_all add: deliverableIn_def resumable_def)
  from run_Process [OF this] assms(2) obtain es v' where
      "run env (Process options (qm_MessageID m) (jprint (messageJson m))) v =
        (counted (settle Complete [] 0) (length (filter (freshIn options m v) piece))
          (length (filter (\<lambda>r. \<not> freshIn options m v r) piece)), v', es)" "completed options m piece v v'"
    by blast
  moreover have "filter (freshIn options m v) piece = piece" "{r \<in> set piece. freshIn options m v r} = set piece" using f by (auto simp: filter_id_conv)
  ultimately show thesis
    using that [of _ v' es] by (auto simp: completed_def p counted_def settle_def)
qed

lemma deliver_list:
  assumes "list_all2 (deliverableIn options env manifest a b) ms groups" "\<forall>n. delivered (e_mail env n)"
    and "distinct (map (recipientIDOf options) (concat groups))"
    and "\<forall>r \<in> set (concat groups). w_versions v (receiptOf options a b r) = []"
  shows "\<exists>results v'. deliverAll options env (map sentMessage ms) v = (results, v') \<and>
    list_all (\<lambda>r. pr_Disposition r = Complete) results \<and> length results = length ms \<and>
    rev (w_sent v') = rev (w_sent v) @ concat (map2 (\<lambda>m. map (mailFor options m)) ms groups)"
  using assms(1,3,4)
proof (induction ms groups arbitrary: v rule: list_all2_induct)
  case (Cons m ms piece groups)
  have "\<forall>r \<in> set piece. w_versions v (receiptOf options a b r) = []" using Cons.prems(2) by simp
  with Cons.hyps(1) assms(2) obtain result es v1 where r: "run env (Process options (qm_MessageID m) (jprint (messageJson m))) v = (result, v1, es)"
      "pr_Disposition result = Complete" "w_sent v1 = rev (map (mailFor options m) piece) @ w_sent v"
      "\<forall>q. q \<notin> receiptOf options a b ` set piece \<longrightarrow> w_versions v1 q = w_versions v q"
    by (rule deliver_first)
  have "w_versions v1 (receiptOf options a b x) = []" if "x \<in> set (concat groups)" for x
  proof -
    have "receiptOf options a b x \<notin> receiptOf options a b ` set piece"
    proof
      assume "receiptOf options a b x \<in> receiptOf options a b ` set piece"
      then obtain y where y: "y \<in> set piece" "recipientIDOf options x = recipientIDOf options y" by (auto simp: receiptOf_eq)
      have "set (map (recipientIDOf options) piece) \<inter> set (map (recipientIDOf options) (concat groups)) = {}"
        using Cons.prems(1) by (simp only: concat.simps map_append distinct_append)
      moreover have "recipientIDOf options x \<in> set (map (recipientIDOf options) (concat groups))"
        "recipientIDOf options y \<in> set (map (recipientIDOf options) piece)" using that y(1) by simp_all
      ultimately show False using y(2) by (metis disjoint_iff)
    qed
    then show ?thesis using r(4) Cons.prems(2) that by simp
  qed
  then obtain results v2 where "deliverAll options env (map sentMessage ms) v1 = (results, v2)"
      "list_all (\<lambda>r. pr_Disposition r = Complete) results" "length results = length ms"
      "rev (w_sent v2) = rev (w_sent v1) @ concat (map2 (\<lambda>m. map (mailFor options m)) ms groups)"
    using Cons.IH [of v1] Cons.prems(1) by auto
  moreover have "bm_MessageID (sentMessage m) = qm_MessageID m" "bm_Body (sentMessage m) = jprint (messageJson m)"
    by (simp_all add: sentMessage_def busMessageOf_def)
  ultimately show ?case using r(1-3) by simp
qed simp

section \<open>Messages of a complete publication\<close>

text \<open>What the worker needs besides the publication: its own configuration, and a mail provider that accepts.\<close>

definition workerReady :: "WorkerOptions \<Rightarrow> env \<Rightarrow> Publisher \<Rightarrow> PublishRequest \<Rightarrow> bool" where
  "workerReady options env publisher request \<longleftrightarrow>
     fitOptions options \<and> printable (t_ns (e_now env)) \<and> (\<forall>n. delivered (e_mail env n)) \<and>
     pc_ManifestsContainer (pu_config publisher) \<in> set (bs_allowed (wo_Blobs options)) \<and>
     pc_BatchesContainer (pu_config publisher) \<in> set (bs_allowed (wo_Blobs options)) \<and>
     list_all (\<lambda>r. length (rowOf r) < 1024) (pq_Recipients request) \<and>
     distinct (map (recipientIDOf options) (pq_Recipients request))"

lemma distinct_piece:
  assumes "distinct (map f (concat xss))" "k < length xss"
  shows "distinct (map f (xss ! k))"
  using assms by (induction xss arbitrary: k) (auto simp: less_Suc_eq_0_disj)

lemma piece_members: "k < length xss \<Longrightarrow> r \<in> set (xss ! k) \<Longrightarrow> r \<in> set (concat xss)"
  using nth_mem by auto

lemma message_deliverable:
  assumes "planned publisher request p" "soundConfig (pu_config publisher)" "boundedInputs publisher request" "artifact fs p content"
    and "complete publisher p content w" "k < length (pl_batches p)" "workerReady options env publisher request" "e_blob env = servesFrom w"
  shows "deliverableIn options env (manifestOf publisher p (darReference publisher request (versionAt w (darAt publisher p))))
      (sr_ReleaseID (pq_Source request)) (pl_operationID p) (messageIn publisher p w k) (cohortPieces publisher request ! k)"
proof -
  let ?m = "messageIn publisher p w k" and ?piece = "cohortPieces publisher request ! k"
  let ?manifest = "manifestOf publisher p (darReference publisher request (versionAt w (darAt publisher p)))"
  note e = darReference_planned [OF assms(1)] and f = messageIn_fit [OF assms(1-6)] and pb = planned_pieces [OF assms(1,2)]
  have h: "holdsBody w (darAt publisher p) content" "holdsBody w (manifestAt publisher p) (manifestBodyIn publisher p w)"
    "holdsBody w (batchAt publisher p k) (pl_batches p ! k)"
    using assms(5,6) by (simp_all add: complete_def)
  note mr = manifest_ready [OF assms(1-4) h(1)]
  have body: "manifestBodyIn publisher p w = jprint (manifestJson ?manifest)" by (simp add: manifestBodyIn_def e)
  have rows: "pl_batches p ! k = batchBody (map rowOf ?piece)" using assms(6) pb(1) by (simp add: batchBytes_rows)
  have mref: "qm_Manifest ?m = manifestReference publisher p (manifestBodyIn publisher p w) (versionAt w (manifestAt publisher p))"
    "Reference (qm_RecipientBatch ?m) = batchReference publisher p k (versionAt w (batchAt publisher p k))"
    by (simp_all add: messageIn_def messageOf_def Let_def Reference_def)
  have "serves env (qm_Manifest ?m) (manifestBodyIn publisher p w)"
    using h(2) by (intro serves_stored [OF _ assms(8)])
      (simp_all add: mref manifestReference_def manifestAt_def manifestRequest_def Matches_def)
  moreover have "serves env (Reference (qm_RecipientBatch ?m)) (batchBody (map rowOf ?piece))"
    using h(3) unfolding rows [symmetric] by (intro serves_stored [OF _ assms(8)])
      (simp_all add: mref batchReference_def batchAt_def batchRequest_def Matches_def)
  moreover have c: "concat (cohortPieces publisher request) = pq_Recipients request"
    using assms(2) by (intro concat_pieces) (simp add: soundConfig_def)
  have k: "k < length (cohortPieces publisher request)" using assms(6) pb(1) by simp
  have "\<forall>r \<in> set ?piece. validRecipient r \<and> length (rowOf r) < 1024"
  proof
    fix r assume "r \<in> set ?piece"
    then have "r \<in> set (pq_Recipients request)" using piece_members [OF k] c by simp
    then show "validRecipient r \<and> length (rowOf r) < 1024"
      using recipients_sound(1) assms(1,3,7) by (auto simp: planned_def boundedInputs_def workerReady_def list_all_iff)
  qed
  moreover have "distinct (map (recipientIDOf options) ?piece)"
    by (rule distinct_piece [OF _ k]) (use assms(7) in \<open>simp only: c workerReady_def\<close>)
  moreover have "manifestMatchesMessage ?manifest ?m"
    by (simp add: manifestMatchesMessage_def manifestOf_def messageIn_def messageOf_def Let_def)
  moreover have "bt_RecipientCount (qm_RecipientBatch ?m) = int (length ?piece)"
    using pb(2) [OF assms(6)] e by (simp add: messageIn_def messageOf_def Let_def)
  moreover have "bt_Container (qm_RecipientBatch ?m) = pc_BatchesContainer (pu_config publisher)"
    "br_Container (qm_Manifest ?m) = pc_ManifestsContainer (pu_config publisher)"
    by (simp_all add: messageIn_def messageOf_def Let_def batchReference_def manifestReference_def)
  moreover have "qm_ReleaseID ?m = sr_ReleaseID (pq_Source request)" "qm_OperationID ?m = pl_operationID p"
    by (simp_all add: messageIn_def messageOf_def Let_def e)
  ultimately show ?thesis
    using f(1,2) mr(4) assms(7) unfolding deliverableIn_def deliverable_def body by (simp add: workerReady_def)
qed

section \<open>Claim\<close>

text \<open>
  C3. Publishing a release on a service that answers and then delivering the queued messages with a correctly configured
  worker sends exactly one mail to each recipient of the request, in the order of the cohort, each with the
  link to the published version; every delivery completes.
\<close>

theorem publish_then_deliver:
  assumes "NewPublisher config (Some azureBlobWriter) (Some azureQueueWriter) = Inr publisher"
    and "yields fs (plan publisher request) w (Inr p) w" "boundedInputs publisher request" "honestFile fs (pl_artifactPath p)"
    and "unpublished publisher p w" "pw_queue w = []" "workerReady options env publisher request"
  shows "\<exists>w' results v. yields fs (Publish False publisher request) w (Inr (planResult p)) w' \<and>
    deliverAll options (env\<lparr>e_blob := servesFrom w'\<rparr>) (rev (pw_queue w')) emptyWorld = (results, v) \<and>
    list_all (\<lambda>r. pr_Disposition r = Complete) results \<and> length results = length (cohortPieces publisher request) \<and>
    map n_Email (rev (w_sent v)) = map rc_Email (pq_Recipients request) \<and>
    list_all (\<lambda>n. n_ApplicationURL n = pc_ApplicationOrigin (pu_config publisher) @ ''/v1/releases/'' @ sr_Version (pq_Source request) @
      ''/download/'' @ sr_DownloadName (pq_Source request)) (w_sent v)"
proof -
  note c = NewPublisher_sound [OF assms(1)] and pl = plan_artifact [OF assms(2,4)]
  note e = darReference_planned [OF pl(1)] and pb = planned_pieces [OF pl(1) c(1)]
  from assms(1-5) obtain content w' where r: "artifact fs p content" "yields fs (Publish False publisher request) w (Inr (planResult p)) w'"
    "complete publisher p content w'" "pw_queue w' = rev (map sentMessage (planMessages publisher p w')) @ pw_queue w"
    by (rule publish_first)
  let ?env = "env\<lparr>e_blob := servesFrom w'\<rparr>" and ?groups = "cohortPieces publisher request"
  let ?manifest = "manifestOf publisher p (darReference publisher request (versionAt w' (darAt publisher p)))"
  have ready: "workerReady options ?env publisher request" using assms(7) by (simp add: workerReady_def)
  have "deliverableIn options ?env ?manifest (sr_ReleaseID (pq_Source request)) (pl_operationID p) (messageIn publisher p w' k) (?groups ! k)"
    if "k < length (pl_batches p)" for k
    by (rule message_deliverable [OF pl(1) c(1) assms(3) r(1,3) that ready]) simp
  then have da: "list_all2 (deliverableIn options ?env ?manifest (sr_ReleaseID (pq_Source request)) (pl_operationID p))
      (planMessages publisher p w') ?groups"
    using pb(1) by (simp add: planMessages_def list_all2_conv_all_nth)
  have cc: "concat ?groups = pq_Recipients request" using c(1) by (intro concat_pieces) (simp add: soundConfig_def)
  have "\<forall>n. delivered (e_mail ?env n)" "distinct (map (recipientIDOf options) (concat ?groups))"
    using ready unfolding workerReady_def cc by blast+
  then obtain results v where d: "deliverAll options ?env (map sentMessage (planMessages publisher p w')) emptyWorld = (results, v)"
      "list_all (\<lambda>r. pr_Disposition r = Complete) results" "length results = length (planMessages publisher p w')"
      "rev (w_sent v) = rev (w_sent emptyWorld) @ concat (map2 (\<lambda>m. map (mailFor options m)) (planMessages publisher p w') ?groups)"
    using deliver_list [OF da, of emptyWorld] by (auto simp: emptyWorld_def)
  have l: "length (planMessages publisher p w') = length ?groups" using pb(1) by (simp add: planMessages_def)
  have mails: "map n_Email (concat (map2 (\<lambda>m. map (mailFor options m)) ms groups)) = map rc_Email (concat groups)"
    if "length ms = length groups" for ms groups
    using that by (induction ms groups rule: list_induct2) (simp_all add: mailFor_def notificationOf_def comp_def)
  have sent: "rev (w_sent v) = concat (map2 (\<lambda>m. map (mailFor options m)) (planMessages publisher p w') ?groups)"
    using d(4) by (simp add: emptyWorld_def)
  let ?link = "pc_ApplicationOrigin (pu_config publisher) @ ''/v1/releases/'' @ sr_Version (pq_Source request) @ ''/download/'' @
      sr_DownloadName (pq_Source request)"
  have "\<forall>m \<in> set (planMessages publisher p w'). qm_ApplicationURL m = ?link"
    by (auto simp: planMessages_def messageIn_def messageOf_def Let_def e)
  moreover have "n \<in> set (concat (map2 (\<lambda>m. map (mailFor options m)) ms groups)) \<Longrightarrow> \<exists>m \<in> set ms. n_ApplicationURL n = qm_ApplicationURL m"
    for n ms groups
    by (auto simp: mailFor_def notificationOf_def dest!: set_zip_leftD)
  ultimately have "\<forall>n \<in> set (rev (w_sent v)). n_ApplicationURL n = ?link" unfolding sent by metis
  moreover have "rev (pw_queue w') = map sentMessage (planMessages publisher p w')" using r(4) assms(6) by simp
  moreover have "map n_Email (rev (w_sent v)) = map rc_Email (pq_Recipients request)" unfolding sent mails [OF l] cc ..
  ultimately show ?thesis using r(2) d(1-3) l by (auto simp: list_all_iff)
qed

definition workerOptions :: WorkerOptions where
  "workerOptions = exampleOptions\<lparr>wo_Blobs := \<lparr>bs_allowed = [''m'', ''b'']\<rparr>\<rparr>"

lemma example_worker: "workerReady workerOptions exampleEnv examplePublisher exampleRequest"
proof -
  have "fitOptions workerOptions"
    using example_label by (simp add: fitOptions_def NewWorker_def workerOptions_def exampleOptions_def second_def del: rmatch.simps)
  moreover have "printable (t_ns (e_now exampleEnv))" using example_deliverable by (simp add: deliverable_def)
  ultimately show ?thesis
    using example_mail example_sizes(3)
    by (simp add: workerReady_def workerOptions_def exampleRequest_def examplePublisher_def publisherConfig_def)
qed

theorem publish_then_deliver_witness:
  "\<exists>w results v. yields exampleFiles (Publish False examplePublisher exampleRequest) emptyPubWorld (Inr (planResult examplePlan)) w \<and>
     deliverAll workerOptions (exampleEnv\<lparr>e_blob := servesFrom w\<rparr>) (rev (pw_queue w)) emptyWorld = (results, v) \<and>
     list_all (\<lambda>r. pr_Disposition r = Complete) results \<and> map n_Email (rev (w_sent v)) = [''u@a.b'']"
proof -
  have "pw_queue emptyPubWorld = []" "map rc_Email (pq_Recipients exampleRequest) = [''u@a.b'']"
    by (simp_all add: emptyPubWorld_def exampleRequest_def exampleRecipient_def)
  then show ?thesis
    using publish_then_deliver [OF example_publisher example_plan example_bounds example_honest example_unpublished _ example_worker] by metis
qed

end
