(* ===== verification/BatchFiles.thy ===== *)
theory BatchFiles
  imports PubExample
begin

text \<open>
  The batch files between publisher and worker: what \<open>buildBatches\<close> writes is, read row by row with the worker's
  scanner and parser, the cohort cut into consecutive pieces. \<open>pieces\<close> is the specification, the files are the
  implementation.
\<close>

definition scanned :: "string \<Rightarrow> Recipient result list" where
  "scanned body = map ParseRecipient (fst (rowTokens body))"

lemma scanned_batch:
  assumes "list_all (\<lambda>r. validRecipient r \<and> length (rowOf r) < 1024) rs"
  shows "scanned (batchBytes rs) = map Inr rs" "snd (rowTokens (batchBytes rs)) = False"
proof -
  have "list_all plainRow (map rowOf rs)" using assms rows_parse(3) by (auto simp: list_all_iff)
  then have t: "rowTokens (batchBytes rs) = (map rowOf rs, False)" unfolding batchBytes_rows by (rule rowTokens_batch)
  then show "scanned (batchBytes rs) = map Inr rs" using assms rows_parse(1) by (auto simp: scanned_def list_all_iff)
  show "snd (rowTokens (batchBytes rs)) = False" using t by simp
qed



end
