(* ===== verification/Discovery.thy ===== *)
theory Discovery
  imports PubExample
begin

text \<open>
  The release source as a whole: which archives are accepted, where their members would land, and which release
  discovery picks from a checkout; with a small checkout as example.
\<close>

section \<open>Archives\<close>


lemma accepted_member: "validateArchive lower members = Inr () \<Longrightarrow> m \<in> set members \<Longrightarrow> validateMemberName (zm_Name m) = Inr ()"
  using validateMembers_iff [of 0 lower members "[]" 0]
  by (auto simp: validateArchive_def memberAllowed_def list_all_iff split: if_splits sum.splits)

text \<open>
  Extracting an accepted archive below a directory stays below it: the path of each member is the directory followed
  by the member's name, and it is already clean, so it cannot climb out of the directory.
\<close>

lemma members_confined:
  assumes "validateArchive lower members = Inr ()" "member \<in> set members" "absClean directory"
  shows "joinPath [directory, zm_Name member] = directory @ slash # trimSuffix (zm_Name member) ''/'' \<and>
    cleanPath (joinPath [directory, zm_Name member]) = joinPath [directory, zm_Name member]"
proof -
  note ok = accepted_member [OF assms(1,2)]
  have e: "joinPath [directory, zm_Name member] = directory @ slash # trimSuffix (zm_Name member) ''/''"
    by (rule member_below [OF assms(3) ok])
  let ?es = "split slash (trimSuffix (zm_Name member) ''/'')"
  have "list_all (\<lambda>e. goodElement e \<and> slash \<notin> set e) ?es"
    using ok split_parts_no_sep by (fastforce simp: validateMemberName_iff list_all_iff)
  then have "absClean (directory @ slash # join slash ?es)" by (intro joinPath_below(2) [OF assms(3)]) simp_all
  then show ?thesis unfolding e using absClean_clean by (simp add: join_split)
qed

definition exampleMember :: zipMember where
  "exampleMember = \<lparr>zm_Name = ''a.dar'', zm_Flags = 0, zm_Method = 8, zm_CreatorVersion = 0, zm_ExternalAttrs = 0,
     zm_UncompressedSize = 1, zm_UncompressedSize64 = 1, zm_Open = Some ((''z'', None), False)\<rparr>"

lemma example_member: "validateArchive toLower [exampleMember] = Inr ()"
proof -
  have "\<not> rmatch windowsDrivePattern ''a.dar''"
    by (simp add: windowsDrivePattern_def rmatch_cls_seq rmatch_rlit_seq del: rmatch.simps rlit.simps)
  moreover have "trimSuffix ''a.dar'' ''/'' = ''a.dar''" by (simp add: trimSuffix_def hasSuffix_def)
  ultimately have "validateMemberName ''a.dar'' = Inr ()"
    unfolding validateMemberName_iff by (simp add: controlFree_bytes backslash_def goodElement_def)
  moreover have "toLower ''.dar'' = ''.dar''" by (rule toLower_id) (simp_all add: char_class_defs)
  moreover have "pathExt ''a.dar'' = ''.dar''" by (simp add: pathExt_def)
  ultimately show ?thesis
    by (simp add: validateArchive_def exampleMember_def memberSymlink_def memberIsDir_def unixCreator_def dosCreator_def hasSuffix_def
        maxArchiveEntries_def maxUncompressedBytes_def Let_def memberReadable_def)
qed

section \<open>Discovery\<close>

text \<open>An entry of the releases directory that discovery tolerates.\<close>

definition releaseEntry :: "dirEntry \<Rightarrow> bool" where
  "releaseEntry entry \<longleftrightarrow>
     de_Name entry = ''README.md'' \<and> de_IsRegular entry \<or>
     de_IsDir entry \<and> \<not> de_IsSymlink entry \<and> productVersionKey (de_Name entry) \<noteq> None"

lemma releaseCandidates_Inr:
  "releaseCandidates entries = Inr candidates \<Longrightarrow>
     list_all releaseEntry entries \<and>
     (\<forall>(name, key) \<in> set candidates. productVersionKey name = Some key \<and> name \<in> de_Name ` set entries) \<and>
     (\<forall>entry \<in> set entries. de_Name entry = ''README.md'' \<and> de_IsRegular entry \<or> de_Name entry \<in> fst ` set candidates)"
proof (induction entries arbitrary: candidates)
  case (Cons entry entries)
  show ?case
  proof (cases "de_Name entry = ''README.md'' \<and> de_IsRegular entry")
    case True
    then have "releaseCandidates entries = Inr candidates" using Cons.prems by simp
    then show ?thesis using Cons.IH True by (auto simp: releaseEntry_def)
  next
    case False
    then obtain key rest where k: "de_IsDir entry" "\<not> de_IsSymlink entry" "productVersionKey (de_Name entry) = Some key"
        "releaseCandidates entries = Inr rest" "candidates = (de_Name entry, key) # rest"
      using Cons.prems by (auto split: if_split_asm option.split_asm sum.split_asm)
    then show ?thesis using Cons.IH [OF k(4)] by (auto simp: releaseEntry_def)
  qed
qed simp

lemma sorted_last: "sorted xs \<Longrightarrow> x \<in> set xs \<Longrightarrow> x \<le> last xs"
  by (induction xs rule: rev_induct) (auto simp: sorted_append)

lemma sort_candidates:
  assumes "\<forall>(name, key) \<in> set candidates. productVersionKey name = Some key" "candidates \<noteq> []"
  shows "last (sortBy candidateLess candidates) \<in> set candidates"
    and "c \<in> set candidates \<Longrightarrow> \<not> versionKeyLess (snd (last (sortBy candidateLess candidates))) (snd c)"
proof -
  have four: "length (snd c) = 4" if "c \<in> set candidates" for c
    using assms(1) that productVersionKey_length by fastforce
  have less: "candidateLess x y \<longleftrightarrow> snd x < snd y" if "x \<in> set candidates" "y \<in> set candidates" for x y
    using versionKeyLess_lex [of "snd x" "snd y"] four [OF that(1)] four [OF that(2)] by (simp add: candidateLess_def)
  then have s: "sortBy candidateLess candidates = sort_key snd candidates" by (rule sortBy_key)
  have n: "sort_key snd candidates \<noteq> []" using assms(2) by (metis set_empty set_sort)
  then show m: "last (sortBy candidateLess candidates) \<in> set candidates" unfolding s by (metis last_in_set set_sort)
  show "\<not> versionKeyLess (snd (last (sortBy candidateLess candidates))) (snd c)" if "c \<in> set candidates"
  proof -
    have "sorted (map snd (sort_key snd candidates))" by simp
    moreover have "c \<in> set (sort_key snd candidates)" using that by simp
    ultimately have "snd c \<le> snd (last (sort_key snd candidates))"
      using sorted_last [of "map snd (sort_key snd candidates)" "snd c"] n by (simp add: last_map)
    then show ?thesis using versionKeyLess_lex four m that unfolding s by (metis not_less)
  qed
qed

lemma zip_exec:
  "execP (validateReleaseZIP lower archive) es (Inr u) \<longleftrightarrow>
     (\<exists>members. es = [EOpenZip archive (Some members)] \<and> validateArchive lower members = Inr u)"
  by (auto simp: validateReleaseZIP_def split: option.splits)

lemma digest_exec:
  "execP (fileDigest name) es (Inr digest) \<longleftrightarrow>
     (\<exists>content. es = [EReadFile (cleanPath name) (Some (content, None))] \<and> digest = hexEncode (sha256 content))"
  unfolding fileDigest_def by (auto split: option.split_asm prod.split_asm)

definition sourceOf :: "string \<Rightarrow> string \<Rightarrow> string \<Rightarrow> int \<Rightarrow> SourceRelease" where
  "sourceOf version releaseID digest bytes =
     \<lparr>sr_DARPath = joinPath [''releases'', version, downloadNameOf version], sr_DARSHA256 = digest, sr_DARSize = bytes,
      sr_DownloadName = downloadNameOf version, sr_ReleaseID = releaseID, sr_SchemaVersion = ''1.0'', sr_Version = version\<rparr>"

lemma inspectRelease_exec:
  assumes "execP (inspectRelease lower releases version releaseID) es (Inr source)"
  obtains archive info members content where "EOpenZip archive (Some members) \<in> set es"
    "EReadFile (cleanPath archive) (Some (content, None)) \<in> set es" "EStat archive (Some info) \<in> set es"
    "archive = joinPath [joinPath [releases, version], downloadNameOf version]"
    "validateArchive lower members = Inr ()" "1 \<le> fi_Size info" "fi_Size info \<le> maxArchiveBytes"
    "source = sourceOf version releaseID (hexEncode (sha256 content)) (fi_Size info)"
proof -
  let ?archive = "joinPath [joinPath [releases, version], downloadNameOf version]"
  obtain listing es1 where l: "es = EReadDir (joinPath [releases, version]) listing # es1"
    and r: "execP (case listing of
           Some [entry] \<Rightarrow>
             if de_Name entry \<noteq> downloadNameOf version \<or> de_IsDir entry \<or> de_IsSymlink entry then Finish (Inl ErrSource)
             else StatFile ?archive (\<lambda>info. case info of
               None \<Rightarrow> Finish (Inl ErrSource)
             | Some archiveInfo \<Rightarrow>
                 if fi_Size archiveInfo < 1 \<or> fi_Size archiveInfo > maxArchiveBytes then Finish (Inl ErrSource)
                 else tryP (validateReleaseZIP lower ?archive) (\<lambda>_.
                      tryP (fileDigest ?archive) (\<lambda>digest.
                      Finish (Inr (sourceOf version releaseID digest (fi_Size archiveInfo))))))
         | _ \<Rightarrow> Finish (Inl ErrSource)) es1 (Inr source)"
    using assms unfolding inspectRelease_def Let_def sourceOf_def execP.simps by blast
  obtain entry where e: "listing = Some [entry]" using r by (auto split: option.split_asm list.split_asm)
  then obtain info es2 where i: "es1 = EStat ?archive (Some info) # es2" "\<not> (fi_Size info < 1 \<or> fi_Size info > maxArchiveBytes)"
    and t: "execP (tryP (validateReleaseZIP lower ?archive) (\<lambda>_. tryP (fileDigest ?archive) (\<lambda>digest.
                      Finish (Inr (sourceOf version releaseID digest (fi_Size info)))))) es2 (Inr source)"
    using r by (auto split: if_split_asm option.split_asm)
  obtain members content where "es2 = [EOpenZip ?archive (Some members), EReadFile (cleanPath ?archive) (Some (content, None))]"
      "validateArchive lower members = Inr ()" "source = sourceOf version releaseID (hexEncode (sha256 content)) (fi_Size info)"
    using t unfolding execP_tryP zip_exec digest_exec by auto
  then show thesis using that [of ?archive members content info] l i by auto
qed

lemma sourceOf_valid:
  assumes "productVersionKey version = Some key" "rmatch releaseIDPattern releaseID" "length digest = 64" "1 \<le> bytes" "bytes \<le> maxArchiveBytes"
  shows "validSourceRecord (sourceOf version releaseID digest bytes)"
proof -
  note c = version_contract [OF assms(1)]
  have p: "rmatch productVersionPattern version" using assms(1) by (simp add: productVersionKey_def split: if_splits)
  obtain a b d e where v: "version = CHR ''v'' # a @ CHR ''.'' # b @ CHR ''.'' # d @ CHR ''.'' # e"
    using assms(1) by (rule productVersionKey_parts)
  have "slash \<notin> set version" "slash \<notin> set (downloadNameOf version)"
    using version_path [OF c(2)] download_path [OF c(3)] by (auto simp: list_all_iff segmentChar_def)
  moreover have "goodElement version" using v by (simp add: goodElement_def)
  moreover have "goodElement (downloadNameOf version)" by (simp add: goodElement_def downloadNameOf_def)
  moreover have "goodElement ''releases''" by (simp add: goodElement_def)
  ultimately have s: "split slash (join slash [''releases'', version, downloadNameOf version]) = [''releases'', version, downloadNameOf version]"
      "list_all goodElement [''releases'', version, downloadNameOf version]"
    by (simp_all add: split_append_sep split_no_sep)
  have "cleanPath (join slash [''releases'', version, downloadNameOf version]) = join slash [''releases'', version, downloadNameOf version]"
    by (rule cleanPath_relative) (use s in \<open>simp_all add: hasPrefix_def\<close>)
  then have "joinPath [''releases'', version, downloadNameOf version] = ''releases/'' @ version @ ''/'' @ downloadNameOf version"
    by (simp add: joinPath_def)
  then show ?thesis using assms(2-5) p by (simp add: validSourceRecord_def sourceOf_def del: rmatch.simps)
qed

lemma DiscoverSource_exec:
  assumes "execP (DiscoverSource lower root releaseID) es (Inr source)"
  obtains releases entries candidates es3 where "rmatch releaseIDPattern releaseID" "EReadDir releases (Some entries) \<in> set es"
    "set es3 \<subseteq> set es" "releaseCandidates entries = Inr candidates" "candidates \<noteq> []"
    "execP (inspectRelease lower releases (fst (last (sortBy candidateLess candidates))) releaseID) es3 (Inr source)"
proof -
  have id: "rmatch releaseIDPattern releaseID" using assms by (auto simp: DiscoverSource_def split: if_split_asm)
  then have nid: "\<not> \<not> rmatch releaseIDPattern releaseID" by simp
  obtain es0 base es1 where r: "es = es0 @ es1" "execP (let releases = joinPath [base, ''releases'']
           in tryP (rejectSymlink releases) (\<lambda>_.
              ReadDir releases (\<lambda>listing. case listing of
                None \<Rightarrow> Finish (Inl ErrSource)
              | Some entries \<Rightarrow>
                  if length entries = 0 then Finish (Inl ErrSource)
                  else (case releaseCandidates entries of
                          Inl err \<Rightarrow> Finish (Inl err)
                        | Inr candidates \<Rightarrow>
                            if length candidates = 0 then Finish (Inl ErrSource)
                            else inspectRelease lower releases (fst (last (sortBy candidateLess candidates))) releaseID)))) es1 (Inr source)"
    using assms unfolding DiscoverSource_def if_not_P [OF nid] execP_tryP [of "cleanDirectory root"] by blast
  let ?releases = "joinPath [base, ''releases'']"
  obtain es2 listing es3 where "es1 = es2 @ EReadDir ?releases listing # es3"
    and c: "execP (case listing of
                None \<Rightarrow> Finish (Inl ErrSource)
              | Some entries \<Rightarrow>
                  if length entries = 0 then Finish (Inl ErrSource)
                  else (case releaseCandidates entries of
                          Inl err \<Rightarrow> Finish (Inl err)
                        | Inr candidates \<Rightarrow>
                            if length candidates = 0 then Finish (Inl ErrSource)
                            else inspectRelease lower ?releases (fst (last (sortBy candidateLess candidates))) releaseID)) es3 (Inr source)"
    using r(2) unfolding Let_def execP_tryP [of "rejectSymlink _"] execP.simps by blast
  then have "EReadDir ?releases listing \<in> set es" "set es3 \<subseteq> set es" using r(1) by auto
  then show thesis
    using that [OF id] c by (auto split: option.split_asm if_split_asm sum.split_asm)
qed

lemma best_candidate:
  assumes "releaseCandidates entries = Inr candidates" "candidates \<noteq> []" and best: "best = last (sortBy candidateLess candidates)"
  shows "productVersionKey (fst best) = Some (snd best)" "fst best \<in> de_Name ` set entries" "list_all releaseEntry entries"
    "entry \<in> set entries \<Longrightarrow> productVersionKey (de_Name entry) = Some k \<Longrightarrow> \<not> versionKeyLess (snd best) k"
proof -
  note cand = releaseCandidates_Inr [OF assms(1)]
  then have keys: "\<forall>(name, key) \<in> set candidates. productVersionKey name = Some key" by blast
  note srt = sort_candidates [OF keys assms(2), folded best]
  show "productVersionKey (fst best) = Some (snd best)" "fst best \<in> de_Name ` set entries" using cand srt(1) by auto
  show "list_all releaseEntry entries" using cand by blast
  show "\<not> versionKeyLess (snd best) k" if "entry \<in> set entries" "productVersionKey (de_Name entry) = Some k"
  proof -
    have "productVersionKey ''README.md'' = None" by (simp add: productVersionKey_def productVersion_iff del: rmatch.simps)
    then have n: "de_Name entry \<noteq> ''README.md''" using that(2) by auto
    have "de_Name entry = ''README.md'' \<and> de_IsRegular entry \<or> de_Name entry \<in> fst ` set candidates"
      using cand that(1) by (elim conjE) (rule bspec)
    then have "de_Name entry \<in> fst ` set candidates" using n by (elim disjE conjE) simp_all
    then obtain c where "c \<in> set candidates" "de_Name entry = fst c" by auto
    then show ?thesis using srt(2) [of c] keys that(2) by auto
  qed
qed


definition checkout :: filesystem where
  "checkout = \<lparr>fs_Getwd = None, fs_EvalSymlinks = Some,
     fs_Stat = (\<lambda>name. Some \<lparr>fi_Size = 1, fi_IsDir = (name = ''/r''), fi_IsRegular = (name \<noteq> ''/r''), fi_IsSymlink = False\<rparr>),
     fs_Lstat = (\<lambda>name. Some \<lparr>fi_Size = 1, fi_IsDir = (name \<noteq> ''/c''), fi_IsRegular = (name = ''/c''), fi_IsSymlink = False\<rparr>),
     fs_ReadDir = (\<lambda>name. if name = joinPath [''/r'', ''releases'']
        then Some [\<lparr>de_Name = ''v0.0.0.00'', de_IsDir = True, de_IsRegular = False, de_IsSymlink = False\<rparr>]
        else Some [\<lparr>de_Name = ''dar-0.0.0.00.zip'', de_IsDir = False, de_IsRegular = True, de_IsSymlink = False\<rparr>]),
     fs_OpenZip = (\<lambda>_. Some [exampleMember]), 
     fs_ReadFile = (\<lambda>name. Some (if name = ''/c'' then recipientsFile [exampleRecipient] else ''z'', None))\<rparr>"

lemma yields_tree:
  "yields fs (LstatFile n k) w x w' \<longleftrightarrow> yields fs (k (fs_Lstat fs n)) w x w'"
  "yields fs (ReadDir n k1) w x w' \<longleftrightarrow> yields fs (k1 (fs_ReadDir fs n)) w x w'"
  "yields fs (OpenZip n k2) w x w' \<longleftrightarrow> yields fs (k2 (fs_OpenZip fs n)) w x w'"
  by (auto simp: yields_def Let_def split: prod.splits)

lemma inspectRelease_yields:
  assumes "fs_ReadDir fs (joinPath [releases, version]) = Some [entry]"
    "de_Name entry = downloadNameOf version" "\<not> de_IsDir entry" "\<not> de_IsSymlink entry"
    "fs_Stat fs (joinPath [joinPath [releases, version], downloadNameOf version]) = Some info"
    "1 \<le> fi_Size info" "fi_Size info \<le> maxArchiveBytes"
    "yields fs (validateReleaseZIP lower (joinPath [joinPath [releases, version], downloadNameOf version])) w (Inr ()) w"
    "yields fs (fileDigest (joinPath [joinPath [releases, version], downloadNameOf version])) w (Inr digest) w"
  shows "yields fs (inspectRelease lower releases version releaseID) w
    (Inr (sourceOf version releaseID digest (fi_Size info))) w"
proof -
  let ?archive = "joinPath [joinPath [releases, version], downloadNameOf version]"
  have "yields fs (tryP (validateReleaseZIP lower ?archive) (\<lambda>_. tryP (fileDigest ?archive) (\<lambda>digest.
      Finish (Inr (sourceOf version releaseID digest (fi_Size info)))))) w (Inr (sourceOf version releaseID digest (fi_Size info))) w"
    by (rule yields_tryP [OF assms(8)], rule yields_tryP [OF assms(9)]) simp
  then show ?thesis
    using assms(1-7) unfolding inspectRelease_def Let_def sourceOf_def by (simp add: yields_tree yields_files)
qed

lemma DiscoverSource_yields:
  assumes "rmatch releaseIDPattern releaseID" "yields fs (cleanDirectory repositoryRoot) w (Inr root) w"
    "yields fs (rejectSymlink (joinPath [root, ''releases''])) w (Inr ()) w"
    "fs_ReadDir fs (joinPath [root, ''releases'']) = Some (entry # entries)"
    "releaseCandidates (entry # entries) = Inr (candidate # candidates)"
    "yields fs (inspectRelease lower (joinPath [root, ''releases''])
       (fst (last (sortBy candidateLess (candidate # candidates)))) releaseID) w (Inr source) w"
  shows "yields fs (DiscoverSource lower repositoryRoot releaseID) w (Inr source) w"
  unfolding DiscoverSource_def Let_def
  by (subst if_not_P, simp only: not_not assms(1), rule yields_tryP [OF assms(2)], rule yields_tryP [OF assms(3)])
    (simp only: yields_tree assms(4,5) option.case sum.case list.size nat.simps if_False add_is_0 one_neq_zero simp_thms assms(6))

lemma checkout_paths:
  "joinPath [''/r'', ''releases''] \<noteq> ''/c''"
  "joinPath [joinPath [''/r'', ''releases''], ''v0.0.0.00''] \<noteq> joinPath [''/r'', ''releases'']"
proof -
  have "absClean ''/r''" unfolding absClean_def by (intro exI [of _ "[''r'']"]) (simp add: goodElement_def)
  then have r: "joinPath [''/r'', ''releases''] = ''/r'' @ slash # ''releases''" "absClean (''/r'' @ slash # ''releases'')"
    using joinPath_below [of "''/r''" "[''releases'']"] by (simp_all add: goodElement_def)
  then have "joinPath [joinPath [''/r'', ''releases''], ''v0.0.0.00''] = (''/r'' @ slash # ''releases'') @ slash # ''v0.0.0.00''"
    using joinPath_below(1) [OF r(2), of "[''v0.0.0.00'']"] by (simp add: goodElement_def)
  then show "joinPath [''/r'', ''releases''] \<noteq> ''/c''"
    "joinPath [joinPath [''/r'', ''releases''], ''v0.0.0.00''] \<noteq> joinPath [''/r'', ''releases'']" unfolding r(1) by simp_all
qed

lemma checkout_discovered: "\<exists>source. yields checkout (DiscoverSource toLower ''/r'' ''r'') emptyPubWorld (Inr source) emptyPubWorld"
proof -
  let ?rel = "joinPath [''/r'', ''releases'']"
  let ?dir = "joinPath [?rel, ''v0.0.0.00'']" and ?name = "''dar-0.0.0.00.zip''"
  have name: "downloadNameOf ''v0.0.0.00'' = ?name" by (simp add: downloadNameOf_def trimPrefix_def hasPrefix_def)
  have d: "yields checkout (cleanDirectory ''/r'') emptyPubWorld (Inr ''/r'') emptyPubWorld"
  proof -
    have "trimSpace ''/r'' = ''/r''" by (rule trimSpace_id) (simp_all add: isSpace_def)
    moreover have "yields checkout (absPath ''/r'') emptyPubWorld (Inr ''/r'') emptyPubWorld"
      using example_paths(4) by (simp add: absPath_def hasPrefix_def)
    ultimately show ?thesis
      unfolding cleanDirectory_def by (simp, intro yields_tryP) (assumption, simp add: yields_links yields_files checkout_def example_paths(4))
  qed
  have z: "yields checkout (validateReleaseZIP toLower a) emptyPubWorld (Inr ()) emptyPubWorld" for a
    using example_member by (simp add: validateReleaseZIP_def yields_tree checkout_def)
  have "\<exists>digest. yields checkout (fileDigest a) emptyPubWorld (Inr digest) emptyPubWorld" for a
    by (simp add: fileDigest_def yields_files checkout_def)
  then obtain digest where g: "yields checkout (fileDigest (joinPath [?dir, ?name])) emptyPubWorld (Inr digest) emptyPubWorld" by blast
  have l: "fs_ReadDir checkout ?dir = Some [\<lparr>de_Name = ?name, de_IsDir = False, de_IsRegular = True, de_IsSymlink = False\<rparr>]"
    using checkout_paths(2) unfolding checkout_def filesystem.select_convs by (simp only: if_False)
  have t: "\<exists>info. fs_Stat checkout a = Some info \<and> fi_Size info = 1" for a by (simp add: checkout_def)
  obtain source where i: "yields checkout (inspectRelease toLower ?rel ''v0.0.0.00'' ''r'') emptyPubWorld (Inr source) emptyPubWorld"
  proof -
    obtain info where f: "fs_Stat checkout (joinPath [?dir, ?name]) = Some info" "fi_Size info = 1" using t by blast
    have "yields checkout (inspectRelease toLower ?rel ''v0.0.0.00'' ''r'') emptyPubWorld
        (Inr (sourceOf ''v0.0.0.00'' ''r'' digest (fi_Size info))) emptyPubWorld"
      by (rule inspectRelease_yields [of checkout ?rel "''v0.0.0.00''", unfolded name, OF l _ _ _ f(1) _ _ z g])
        (simp_all add: f(2) maxArchiveBytes_def MaxObjectSize_def)
    then show thesis by (rule that)
  qed
  have c: "releaseCandidates [\<lparr>de_Name = ''v0.0.0.00'', de_IsDir = True, de_IsRegular = False, de_IsSymlink = False\<rparr>] =
      Inr [(''v0.0.0.00'', [0, 0, 0, 0])]" by (simp add: example_version)
  have s: "fst (last (sortBy candidateLess [(''v0.0.0.00'', [0, 0, 0, 0])])) = ''v0.0.0.00''" by (simp add: sortBy_def)
  have k: "yields checkout (rejectSymlink ?rel) emptyPubWorld (Inr ()) emptyPubWorld"
    using checkout_paths(1) by (simp add: rejectSymlink_def yields_tree checkout_def)
  have r: "rmatch releaseIDPattern ''r''" using example_patterns(4) by (simp add: pub_patterns del: rmatch.simps)
  have e: "fs_ReadDir checkout ?rel = Some [\<lparr>de_Name = ''v0.0.0.00'', de_IsDir = True, de_IsRegular = False, de_IsSymlink = False\<rparr>]"
    unfolding checkout_def filesystem.select_convs by (simp only: if_True simp_thms)
  show ?thesis by (rule exI, rule DiscoverSource_yields [OF r d k e c, unfolded s, OF i])
qed


end
