(* ===== verification/PublisherMain.thy ===== *)
theory PublisherMain
  imports Discovery
begin

text \<open>
  \<open>cmd/dar-release-publisher/main.go\<close>: the command line of the publisher. \<open>validate\<close> looks at the checkout and the
  recipients file only; \<open>publish\<close> takes its input from the environment, validates the same way, and only then
  creates the Azure clients and publishes. The constructors of the Azure SDK are parameters, as is the
  \<open>strings.ToLower\<close> of the archive check.
\<close>

section \<open>Input\<close>

definition environmentStep :: "environment \<Rightarrow> string \<Rightarrow> environment" where
  "environmentStep result entry =
     (if CHR ''='' \<in> set entry
      then result(takeWhile (\<lambda>c. c \<noteq> CHR ''='') entry \<mapsto> tl (dropWhile (\<lambda>c. c \<noteq> CHR ''='') entry))
      else result)"

definition environmentMap :: "string list \<Rightarrow> environment" where
  "environmentMap entries = foldl environmentStep Map.empty entries"

text \<open>
  \<open>flag.FlagSet.Parse\<close> with string flags: a flag is \<open>-name\<close> or \<open>--name\<close> with its value after an equals sign or in the
  next argument; \<open>--\<close> and the first argument that is no flag end the flags. The result is the values and the
  arguments that remain, or an error.
\<close>

definition flagName :: "string \<Rightarrow> string" where
  "flagName s = (if hasPrefix s ''--'' then drop 2 s else drop 1 s)"

fun parseFlags :: "string list \<Rightarrow> string list \<Rightarrow> (string \<rightharpoonup> string) \<Rightarrow> ((string \<rightharpoonup> string) \<times> string list) option" where
  "parseFlags names [] values = Some (values, [])"
| "parseFlags names (s # rest) values =
     (if length s < 2 \<or> hd s \<noteq> CHR ''-'' then Some (values, s # rest)
      else if s = ''--'' then Some (values, rest)
      else let spec = flagName s
           in if spec = [] \<or> hd spec = CHR ''-'' \<or> hd spec = CHR ''='' then None
              else let name = takeWhile (\<lambda>c. c \<noteq> CHR ''='') spec
                   in if name \<notin> set names then None
                      else if CHR ''='' \<in> set spec
                      then parseFlags names rest (values(name \<mapsto> tl (dropWhile (\<lambda>c. c \<noteq> CHR ''='') spec)))
                      else (case rest of
                              [] \<Rightarrow> None
                            | value # rest' \<Rightarrow> parseFlags names rest' (values(name \<mapsto> value))))"

definition loadInput ::
  "(string \<Rightarrow> string) \<Rightarrow> string \<Rightarrow> string \<Rightarrow> string \<Rightarrow> (SourceRelease \<times> Recipient list) result pub" where
  "loadInput lower repositoryRoot releaseID recipientsPath =
     tryP (DiscoverSource lower repositoryRoot releaseID) (\<lambda>source.
     LstatFile recipientsPath (\<lambda>info. case info of
       None \<Rightarrow> Finish (Inl ErrSource)
     | Some recipientFileInfo \<Rightarrow>
         if \<not> fi_IsRegular recipientFileInfo \<or> fi_IsSymlink recipientFileInfo then Finish (Inl ErrSource)
         else ReadFile recipientsPath (\<lambda>file. Finish (case file of
                None \<Rightarrow> Inl ErrSource
              | Some reader \<Rightarrow>
                  (case ParseRecipients (Some reader) of
                     Inl err \<Rightarrow> Inl err
                   | Inr recipients \<Rightarrow> Inr (source, recipients))))))"

section \<open>Commands\<close>

text \<open>\<open>json.Encoder\<close> prints the value and a newline with one write, which may fail.\<close>

definition encodeJSON :: "bool \<Rightarrow> json \<Rightarrow> string result" where
  "encodeJSON writes value = (if writes then Inr (jprint value @ [newline]) else Inl ErrOther)"

definition validJson :: "SourceRelease \<Rightarrow> Recipient list \<Rightarrow> json" where
  "validJson source recipients =
     JObj [(''artifact_sha256'', JStr (sr_DARSHA256 source)), (''recipient_count'', jint (int (length recipients))),
           (''release_id'', JStr (sr_ReleaseID source)), (''release_version'', JStr (sr_Version source)),
           (''status'', JStr ''VALID'')]"

definition publishedJson :: "PublicationResult \<Rightarrow> json" where
  "publishedJson result =
     JObj [(''batch_count'', jint (rs_BatchCount result)), (''operation_id'', JStr (rs_OperationID result)),
           (''release_id'', JStr (rs_ReleaseID result)), (''release_version'', JStr (rs_ReleaseVersion result)),
           (''status'', JStr ''PUBLISHED'')]"

definition flagValue :: "(string \<rightharpoonup> string) \<Rightarrow> string \<Rightarrow> string" where
  "flagValue values name = (case values name of Some v \<Rightarrow> v | None \<Rightarrow> [])"

definition validateCommand :: "(string \<Rightarrow> string) \<Rightarrow> bool \<Rightarrow> string list \<Rightarrow> string result pub" where
  "validateCommand lower writes args =
     (case parseFlags [''repository-root'', ''release-id'', ''recipients-file''] args Map.empty of
        Some (values, []) \<Rightarrow>
          tryP (loadInput lower (flagValue values ''repository-root'') (flagValue values ''release-id'')
                  (flagValue values ''recipients-file''))
            (\<lambda>(source, recipients). Finish (encodeJSON writes (validJson source recipients)))
      | _ \<Rightarrow> Finish (Inl ErrSource))"

record pubSdk =
  ps_Credential :: bool
  ps_Storage :: bool
  ps_ServiceBus :: bool
  ps_Sender :: bool

definition publishRequestOf :: "PubEnvironment \<Rightarrow> SourceRelease \<Rightarrow> Recipient list \<Rightarrow> PublishRequest" where
  "publishRequestOf environment source recipients =
     \<lparr>pq_RepositoryRoot = pe_RepositoryRoot environment, pq_Source = source, pq_Recipients = recipients,
      pq_CommitSHA = pe_CommitSHA environment, pq_CreatedAt = pe_CreatedAt environment\<rparr>"

text \<open>The publisher is created from its environment once the SDK clients are there.\<close>

definition publisherFor :: "pubSdk \<Rightarrow> PubEnvironment \<Rightarrow> Publisher result" where
  "publisherFor sdk environment =
     (if \<not> ps_Credential sdk \<or> \<not> ps_Storage sdk then Inl errPublication
      else case NewAzureBlobWriter False of
        Inl err \<Rightarrow> Inl err
      | Inr blobs \<Rightarrow>
          if \<not> ps_ServiceBus sdk \<or> \<not> ps_Sender sdk then Inl errPublication
          else case NewAzureQueueWriter False of
            Inl err \<Rightarrow> Inl err
          | Inr queue \<Rightarrow> NewPublisher (PublisherConfig environment) (Some blobs) (Some queue))"

definition publishCommand :: "(string \<Rightarrow> string) \<Rightarrow> pubSdk \<Rightarrow> bool \<Rightarrow> environment \<Rightarrow> string result pub" where
  "publishCommand lower sdk writes values =
     (case ParsePubEnvironment values of
        Inl err \<Rightarrow> Finish (Inl err)
      | Inr environment \<Rightarrow>
          tryP (loadInput lower (pe_RepositoryRoot environment) (pe_ReleaseID environment) (pe_RecipientsFile environment))
            (\<lambda>(source, recipients).
               case publisherFor sdk environment of
                 Inl err \<Rightarrow> Finish (Inl err)
               | Inr publisher \<Rightarrow>
                   tryP (Publish False publisher (publishRequestOf environment source recipients))
                     (\<lambda>result. Finish (encodeJSON writes (publishedJson result)))))"

text \<open>The exit code, the output and the line on the error stream.\<close>

definition execute ::
  "(string \<Rightarrow> string) \<Rightarrow> pubSdk \<Rightarrow> bool \<Rightarrow> environment \<Rightarrow> string list \<Rightarrow> (int \<times> string \<times> string) pub" where
  "execute lower sdk writes env args =
     (case args of
        [] \<Rightarrow> Finish (2, [], ''expected validate or publish'')
      | command # rest \<Rightarrow>
          if command = ''validate'' then
            bindP (validateCommand lower writes rest) (\<lambda>r. Finish (case r of
              Inl _ \<Rightarrow> (1, [], ''release validation failed'') | Inr out \<Rightarrow> (0, out, [])))
          else if command = ''publish'' then
            (if rest \<noteq> [] then Finish (1, [], ''release publication failed'')
             else bindP (publishCommand lower sdk writes env) (\<lambda>r. Finish (case r of
               Inl _ \<Rightarrow> (1, [], ''release publication failed'') | Inr out \<Rightarrow> (0, out, []))))
          else Finish (2, [], ''unknown command''))"

section \<open>What the commands may touch\<close>

fun remoteEvent :: "pubEvent \<Rightarrow> bool" where
  "remoteEvent (EGetProperties _ _ _) = True"
| "remoteEvent (EDownloadBlob _ _ _) = True"
| "remoteEvent (EUpload _ _) = True"
| "remoteEvent (EEnqueue _ _) = True"
| "remoteEvent _ = False"

lemma localOnly_events: "execP t es x \<Longrightarrow> localOnly t \<Longrightarrow> list_all (\<lambda>e. \<not> remoteEvent e) es"
  by (induction t arbitrary: es) (auto, blast+)

lemma localOnly_DiscoverSource: "localOnly (DiscoverSource lower root releaseID)"
proof -
  have "localOnly (inspectRelease lower releases version releaseID)" for releases version
    by (auto simp: inspectRelease_def validateReleaseZIP_def Let_def split: option.splits list.splits)
  then show ?thesis
    using localOnly_cleanDirectory
    by (auto simp: DiscoverSource_def rejectSymlink_def Let_def split: option.splits sum.splits)
qed

lemma localOnly_loadInput: "localOnly (loadInput lower root releaseID path)"
  using localOnly_DiscoverSource by (auto simp: loadInput_def split: option.splits)

lemma validateCommand_exec:
  assumes "execP (validateCommand lower writes args) es r"
  shows "list_all (\<lambda>e. \<not> remoteEvent e) es"
    and "r = Inr out \<Longrightarrow> \<exists>root releaseID path source recipients e. execP (loadInput lower root releaseID path) e (Inr (source, recipients)) \<and>
      out = jprint (validJson source recipients) @ [newline]"
proof -
  have "localOnly (validateCommand lower writes args)"
    using localOnly_loadInput by (auto simp: validateCommand_def split: option.splits prod.splits list.splits)
  then show "list_all (\<lambda>e. \<not> remoteEvent e) es" using localOnly_events [OF assms] by simp
  show "\<exists>root releaseID path source recipients e. execP (loadInput lower root releaseID path) e (Inr (source, recipients)) \<and>
      out = jprint (validJson source recipients) @ [newline]" if "r = Inr out"
    using assms that
    by (auto simp: validateCommand_def execP_tryP encodeJSON_def simp del: jprint.simps
        split: option.split_asm prod.split_asm list.split_asm if_split_asm) blast
qed

lemma publishCommand_exec:
  assumes "execP (publishCommand lower sdk writes env) es r"
  obtains "list_all (\<lambda>e. \<not> remoteEvent e) es" "\<And>out. r \<noteq> Inr out"
  | environment source recipients publisher e1 e2 p where "es = e1 @ e2" "list_all (\<lambda>e. \<not> remoteEvent e) e1"
    "ParsePubEnvironment env = Inr environment"
    "execP (loadInput lower (pe_RepositoryRoot environment) (pe_ReleaseID environment) (pe_RecipientsFile environment)) e1
       (Inr (source, recipients))"
    "NewPublisher (PublisherConfig environment) (Some azureBlobWriter) (Some azureQueueWriter) = Inr publisher"
    "execP (Publish False publisher (publishRequestOf environment source recipients)) e2 p"
    "\<And>out. r = Inr out \<Longrightarrow> \<exists>result. p = Inr result \<and> out = jprint (publishedJson result) @ [newline]"
proof (cases "ParsePubEnvironment env")
  case (Inl err)
  then show thesis using assms that(1) by (simp add: publishCommand_def)
next
  case (Inr environment)
  let ?load = "loadInput lower (pe_RepositoryRoot environment) (pe_ReleaseID environment) (pe_RecipientsFile environment)"
  note local = localOnly_events [OF _ localOnly_loadInput]
  consider err where "execP ?load es (Inl err)" "r = Inl err"
    | e1 source recipients e2 where "es = e1 @ e2" "execP ?load e1 (Inr (source, recipients))"
      "execP (case publisherFor sdk environment of Inl err \<Rightarrow> Finish (Inl err)
         | Inr publisher \<Rightarrow> tryP (Publish False publisher (publishRequestOf environment source recipients))
             (\<lambda>result. Finish (encodeJSON writes (publishedJson result)))) e2 r"
    using assms Inr by (auto simp: publishCommand_def execP_tryP)
  then show thesis
  proof cases
    case 1
    then show ?thesis using that(1) local by blast
  next
    case 2
    show ?thesis
    proof (cases "publisherFor sdk environment")
      case (Inl err)
      then show ?thesis using 2 that(1) local [OF 2(2)] by simp
    next
      case (Inr publisher)
      then have n: "NewPublisher (PublisherConfig environment) (Some azureBlobWriter) (Some azureQueueWriter) = Inr publisher"
        by (auto simp: publisherFor_def NewAzureBlobWriter_def NewAzureQueueWriter_def split: if_splits)
      obtain p where "execP (Publish False publisher (publishRequestOf environment source recipients)) e2 p"
        "\<And>out. r = Inr out \<Longrightarrow> \<exists>result. p = Inr result \<and> out = jprint (publishedJson result) @ [newline]"
        using 2(3) Inr by (auto simp: execP_tryP encodeJSON_def simp del: jprint.simps split: if_split_asm)
      then show ?thesis
        using that(2) [OF 2(1) local [OF 2(2)] \<open>ParsePubEnvironment env = Inr environment\<close> 2(2) n] by blast
    qed
  qed
qed

text \<open>The two kinds of output.\<close>

definition summarisesInput :: "(string \<Rightarrow> string) \<Rightarrow> string \<Rightarrow> bool" where
  "summarisesInput lower out \<longleftrightarrow>
     (\<exists>root releaseID path source recipients e. execP (loadInput lower root releaseID path) e (Inr (source, recipients)) \<and>
        out = jprint (validJson source recipients) @ [newline])"

definition summarisesPublication :: "(string \<Rightarrow> string) \<Rightarrow> string \<Rightarrow> bool" where
  "summarisesPublication lower out \<longleftrightarrow>
     (\<exists>root releaseID path source recipients e publisher request result e'.
        execP (loadInput lower root releaseID path) e (Inr (source, recipients)) \<and>
        pq_Source request = source \<and> pq_Recipients request = recipients \<and>
        execP (Publish False publisher request) e' (Inr result) \<and> out = jprint (publishedJson result) @ [newline])"

lemma summaries_nonempty: "summarisesInput lower out \<or> summarisesPublication lower out \<Longrightarrow> out \<noteq> []"
  unfolding summarisesInput_def summarisesPublication_def by (elim disjE exE conjE) simp_all

text \<open>What a command may do: the conclusion of the claim below, for the two commands and for everything else.\<close>

definition failsClosed ::
  "(string \<Rightarrow> string) \<Rightarrow> environment \<Rightarrow> string list \<Rightarrow> pubEvent list \<Rightarrow> int \<Rightarrow> string \<Rightarrow> bool" where
  "failsClosed lower env args es code out \<longleftrightarrow>
     code \<in> {0, 1, 2} \<and> (code = 0 \<longleftrightarrow> out \<noteq> []) \<and>
     (list_all (\<lambda>e. \<not> remoteEvent e) es \<or>
      args = [''publish''] \<and>
      (\<exists>environment source recipients e1 e2. es = e1 @ e2 \<and> list_all (\<lambda>e. \<not> remoteEvent e) e1 \<and>
         ParsePubEnvironment env = Inr environment \<and>
         execP (loadInput lower (pe_RepositoryRoot environment) (pe_ReleaseID environment) (pe_RecipientsFile environment)) e1
           (Inr (source, recipients)))) \<and>
     (out = [] \<or> summarisesInput lower out \<or> summarisesPublication lower out)"

lemma validate_closed:
  assumes "execP (validateCommand lower writes rest) es r"
    and "(code, out, message) = (case r of Inl _ \<Rightarrow> (1, [], err) | Inr out \<Rightarrow> (0, out, []))"
  shows "failsClosed lower env args es code out"
proof -
  have "r = Inr out \<and> code = 0 \<or> out = [] \<and> code = 1" using assms(2) by (auto split: sum.split_asm)
  then consider "out = []" "code = 1" | "r = Inr out" "code = 0" by blast
  then show ?thesis
  proof cases
    case 2
    then have "summarisesInput lower out" using validateCommand_exec(2) [OF assms(1) 2(1)] by (simp only: summarisesInput_def)
    moreover from this have "out \<noteq> []" using summaries_nonempty by blast
    ultimately show ?thesis using validateCommand_exec(1) [OF assms(1)] 2(2) by (simp add: failsClosed_def)
  qed (use validateCommand_exec(1) [OF assms(1)] in \<open>simp add: failsClosed_def\<close>)
qed

lemma publish_closed:
  assumes "execP (publishCommand lower sdk writes env) es r"
    and "(code, out, message) = (case r of Inl _ \<Rightarrow> (1, [], err) | Inr out \<Rightarrow> (0, out, []))"
  shows "failsClosed lower env [''publish''] es code out"
proof -
  have c: "r = Inr out \<and> code = 0 \<or> (\<forall>out. r \<noteq> Inr out) \<and> out = [] \<and> code = 1" using assms(2) by (auto split: sum.split_asm)
  show ?thesis
    using assms(1)
  proof (cases rule: publishCommand_exec)
    case 1
    then show ?thesis using c by (auto simp: failsClosed_def)
  next
    case (2 environment source recipients publisher e1 e2 q)
    have s: "pq_Source (publishRequestOf environment source recipients) = source"
      "pq_Recipients (publishRequestOf environment source recipients) = recipients" by (simp_all add: publishRequestOf_def)
    have o: "summarisesPublication lower out" if "r = Inr out"
    proof -
      obtain result where "q = Inr result" "out = jprint (publishedJson result) @ [newline]" using 2(7) \<open>r = Inr out\<close> by blast
      then show ?thesis unfolding summarisesPublication_def using 2(4,6) s by blast
    qed
    have "code \<in> {0, 1, 2} \<and> (code = 0 \<longleftrightarrow> out \<noteq> []) \<and> (out = [] \<or> summarisesPublication lower out)"
      using c
    proof (elim disjE conjE)
      assume "r = Inr out" "code = 0"
      then show ?thesis using o summaries_nonempty by blast
    qed simp
    then show ?thesis using 2(1-4) unfolding failsClosed_def by blast
  qed
qed

section \<open>Claim\<close>

text \<open>
  C23. The publisher's commands fail closed: no request reaches storage or queue unless the only argument is \<open>publish\<close>,
  the environment was accepted and release, archive and recipients file were read and accepted first.
  \<open>validate\<close> touches the file system only. The exit code is 0 exactly when something was printed, and the
  output is the summary of the input that was validated or of the publication that succeeded.
\<close>

theorem commands_fail_closed:
  assumes "execP (execute lower sdk writes env args) es (code, out, message)"
  shows "failsClosed lower env args es code out"
proof (cases args)
  case Nil
  then show ?thesis using assms by (simp add: execute_def failsClosed_def)
next
  case (Cons command rest)
  consider "command = ''validate''" | "command = ''publish''" "rest = []" | "es = []" "out = []" "code \<in> {1, 2}"
    using assms Cons by (auto simp: execute_def split: if_split_asm)
  then show ?thesis
  proof cases
    case 1
    then show ?thesis using assms Cons validate_closed by (auto simp: execute_def execP_bindP)
  next
    case 2
    then show ?thesis using assms Cons publish_closed by (auto simp: execute_def execP_bindP)
  qed (auto simp: failsClosed_def)
qed

lemma checkout_recipients: "ParseRecipients (Some (recipientsFile [exampleRecipient], None)) = Inr [exampleRecipient]"
proof -
  have "trimmed exampleRecipient"
    unfolding trimmed_def exampleRecipient_def by (simp add: trimSpace_id isSpace_def)
  moreover have "length (recipientsFile [exampleRecipient]) \<le> 1048576"
    by (simp add: recipientsFile_def exampleRecipient_def csvLine_def)
  ultimately show ?thesis
    using recipients_roundtrip [of "[exampleRecipient]"] exampleRecipient_ok by simp
qed

lemma checkout_loaded: "\<exists>source. yields checkout (loadInput toLower ''/r'' ''r'' ''/c'') emptyPubWorld (Inr (source, [exampleRecipient])) emptyPubWorld"
proof -
  obtain source where s: "yields checkout (DiscoverSource toLower ''/r'' ''r'') emptyPubWorld (Inr source) emptyPubWorld"
    using checkout_discovered by blast
  have f: "fs_Lstat checkout ''/c'' = Some \<lparr>fi_Size = 1, fi_IsDir = False, fi_IsRegular = True, fi_IsSymlink = False\<rparr>"
    "fs_ReadFile checkout ''/c'' = Some (recipientsFile [exampleRecipient], None)" by (simp_all add: checkout_def)
  have "yields checkout (loadInput toLower ''/r'' ''r'' ''/c'') emptyPubWorld (Inr (source, [exampleRecipient])) emptyPubWorld"
    unfolding loadInput_def
    by (rule yields_tryP [OF s]) (simp add: yields_tree yields_files f checkout_recipients)
  then show ?thesis by blast
qed

theorem commands_fail_closed_witness:
  "\<exists>es source. execP (execute toLower \<lparr>ps_Credential = True, ps_Storage = True, ps_ServiceBus = True, ps_Sender = True\<rparr> True Map.empty
       [''validate'', ''--repository-root=/r'', ''--release-id'', ''r'', ''-recipients-file=/c'']) es
     (0, jprint (validJson source [exampleRecipient]) @ [newline], []) \<and> list_all (\<lambda>e. \<not> remoteEvent e) es"
proof -
  let ?args = "[''--repository-root=/r'', ''--release-id'', ''r'', ''-recipients-file=/c'']"
  obtain source es where l: "execP (loadInput toLower ''/r'' ''r'' ''/c'') es (Inr (source, [exampleRecipient]))"
    using checkout_loaded unfolding yields_def by (elim exE) (rule that, erule runP_execP)
  have "parseFlags [''repository-root'', ''release-id'', ''recipients-file''] ?args Map.empty =
      Some ([''repository-root'' \<mapsto> ''/r'', ''release-id'' \<mapsto> ''r'', ''recipients-file'' \<mapsto> ''/c''], [])"
    by (simp add: flagName_def hasPrefix_def)
  then have "execP (validateCommand toLower True ?args) es (Inr (jprint (validJson source [exampleRecipient]) @ [newline]))"
    using l by (simp add: validateCommand_def flagValue_def execP_tryP encodeJSON_def del: jprint.simps parseFlags.simps) force
  then have "execP (execute toLower \<lparr>ps_Credential = True, ps_Storage = True, ps_ServiceBus = True, ps_Sender = True\<rparr> True Map.empty
      (''validate'' # ?args)) es (0, jprint (validJson source [exampleRecipient]) @ [newline], [])"
    by (force simp: execute_def execP_bindP simp del: jprint.simps)
  moreover from this have "list_all (\<lambda>e. \<not> remoteEvent e) es"
    using commands_fail_closed [of toLower _ True Map.empty "''validate'' # ?args" es] unfolding failsClosed_def by blast
  ultimately show ?thesis by blast
qed

section \<open>An origin that no message survives\<close>

text \<open>
  The publisher's check of the application origin and the worker's check of the link disagree on an origin with an empty
  query: the environment is accepted, and every message of the publication is refused after its blobs were
  written.
\<close>

lemma empty_query_origin:
  "validApplicationOrigin ''https://a.example.internal?'' \<and>
   \<not> validApplicationURL (''https://a.example.internal?'' @ ''/v1/releases/v1.2.3.04/download/dar-1.2.3.04.zip'') ''v1.2.3.04''"
  by code_simp

end
