(* ===== verification/Base64.thy ===== *)
theory Base64
  imports GoStrings
begin

text \<open>
  \<open>encoding/base64\<close> with \<open>StdEncoding\<close> and \<open>Strict\<close>: the encoder, and the decoder that skips line
  breaks, wants padding and refuses non-zero trailing bits. The main result is that the strict decoder
  inverts the encoder.
\<close>

section \<open>Alphabet\<close>

definition b64Char :: "nat \<Rightarrow> char" where
  "b64Char n =
     (if n < 26 then char_of (65 + n) else if n < 52 then char_of (71 + n) else if n < 62 then char_of (n - 4)
      else if n = 62 then CHR ''+'' else CHR ''/'')"

definition b64Value :: "char \<Rightarrow> nat option" where
  "b64Value c =
     (if is_upper c then Some (byte c - 65) else if is_lower c then Some (byte c - 71)
      else if is_digit c then Some (byte c + 4) else if c = CHR ''+'' then Some 62
      else if c = CHR ''/'' then Some 63 else None)"

section \<open>Encoding\<close>

fun b64Encode :: "string \<Rightarrow> string" where
  "b64Encode [] = []"
| "b64Encode [a] = [b64Char (byte a div 4), b64Char (byte a mod 4 * 16), CHR ''='', CHR ''='']"
| "b64Encode [a, b] =
     [b64Char (byte a div 4), b64Char (byte a mod 4 * 16 + byte b div 16), b64Char (byte b mod 16 * 4), CHR ''='']"
| "b64Encode (a # b # c # s) =
     [b64Char (byte a div 4), b64Char (byte a mod 4 * 16 + byte b div 16),
      b64Char (byte b mod 16 * 4 + byte c div 64), b64Char (byte c mod 64)] @ b64Encode s"

section \<open>Strict decoding\<close>

fun b64Groups :: "string \<Rightarrow> string option" where
  "b64Groups [] = Some []"
| "b64Groups (p # q # r # s # rest) =
     (case (b64Value p, b64Value q) of
        (Some x, Some y) \<Rightarrow>
          (case b64Value r of
             None \<Rightarrow>
               if r = CHR ''='' \<and> s = CHR ''='' \<and> rest = [] \<and> y mod 16 = 0
               then Some [char_of (x * 4 + y div 16)] else None
           | Some z \<Rightarrow>
               (case b64Value s of
                  None \<Rightarrow>
                    if s = CHR ''='' \<and> rest = [] \<and> z mod 4 = 0
                    then Some [char_of (x * 4 + y div 16), char_of (y mod 16 * 16 + z div 4)] else None
                | Some w \<Rightarrow>
                    map_option (\<lambda>t. [char_of (x * 4 + y div 16), char_of (y mod 16 * 16 + z div 4),
                                     char_of (z mod 4 * 64 + w)] @ t) (b64Groups rest)))
      | _ \<Rightarrow> None)"
| "b64Groups _ = None"

definition b64Decode :: "string \<Rightarrow> string option" where
  "b64Decode s = b64Groups (filter (\<lambda>c. c \<noteq> newline \<and> c \<noteq> CHR 0x0D) s)"

section \<open>Round trip\<close>

lemma b64_all: "\<forall>n \<in> set [0..<64]. b64Value (b64Char n) = Some n \<and> b64Char n \<noteq> newline \<and> b64Char n \<noteq> CHR 0x0D"
  by (simp add: upt_rec b64Value_def b64Char_def newline_def char_class_defs char_eval)

lemma b64Value_Char [simp]: "n < 64 \<Longrightarrow> b64Value (b64Char n) = Some n"
  and b64Char_line [simp]: "n < 64 \<Longrightarrow> b64Char n \<noteq> newline" "n < 64 \<Longrightarrow> b64Char n \<noteq> CHR 0x0D"
  using b64_all by simp_all

lemma b64Value_pad [simp]: "b64Value CHR ''='' = None"
  by (simp add: b64Value_def char_class_defs)

lemma byte_limit: "byte c < (256::nat)"
  by (rule nat_of_char_less_256)

lemma sextets:
  assumes "a < 256" "b < 256" "c < (256::nat)"
  shows "a div 4 < 64" "a mod 4 * 16 + b div 16 < 64" "b mod 16 * 4 + c div 64 < 64" "c mod 64 < 64"
    "a mod 4 * 16 < 64" "b mod 16 * 4 < 64"
    "a div 4 * 4 + (a mod 4 * 16 + b div 16) div 16 = a" "a div 4 * 4 + a mod 4 * 16 div 16 = a"
    "(a mod 4 * 16 + b div 16) mod 16 * 16 + (b mod 16 * 4 + c div 64) div 4 = b"
    "(a mod 4 * 16 + b div 16) mod 16 * 16 + b mod 16 * 4 div 4 = b"
    "(b mod 16 * 4 + c div 64) mod 4 * 64 + c mod 64 = c"
proof -
  show "a div 4 < 64" "c mod 64 < 64" "a mod 4 * 16 < 64" "b mod 16 * 4 < 64" using assms by auto
  have "b div 16 < 16" "c div 64 < 4" "a mod 4 \<le> 3" "b mod 16 \<le> 15" using assms by auto
  then show "a mod 4 * 16 + b div 16 < 64" "b mod 16 * 4 + c div 64 < 64" by linarith+
  have "(a mod 4 * 16 + b div 16) div 16 = a mod 4" "(a mod 4 * 16 + b div 16) mod 16 = b div 16"
    "(b mod 16 * 4 + c div 64) div 4 = b mod 16" "(b mod 16 * 4 + c div 64) mod 4 = c div 64"
    using \<open>b div 16 < 16\<close> \<open>c div 64 < 4\<close> by simp_all
  then show "a div 4 * 4 + (a mod 4 * 16 + b div 16) div 16 = a" "a div 4 * 4 + a mod 4 * 16 div 16 = a"
    "(a mod 4 * 16 + b div 16) mod 16 * 16 + (b mod 16 * 4 + c div 64) div 4 = b"
    "(a mod 4 * 16 + b div 16) mod 16 * 16 + b mod 16 * 4 div 4 = b"
    "(b mod 16 * 4 + c div 64) mod 4 * 64 + c mod 64 = c"
    by simp_all
qed

lemma b64Groups_full:
  assumes "x < 64" "y < 64" "z < 64" "w < 64"
  shows "b64Groups ([b64Char x, b64Char y, b64Char z, b64Char w] @ rest) =
    map_option ((@) [char_of (x * 4 + y div 16), char_of (y mod 16 * 16 + z div 4), char_of (z mod 4 * 64 + w)])
      (b64Groups rest)"
    "y mod 16 = 0 \<Longrightarrow> b64Groups [b64Char x, b64Char y, CHR ''='', CHR ''=''] = Some [char_of (x * 4 + y div 16)]"
    "z mod 4 = 0 \<Longrightarrow> b64Groups [b64Char x, b64Char y, b64Char z, CHR ''=''] =
       Some [char_of (x * 4 + y div 16), char_of (y mod 16 * 16 + z div 4)]"
  using assms by simp_all

lemma b64Groups_Encode: "b64Groups (b64Encode s) = Some s"
proof (induction s rule: b64Encode.induct)
  case (2 a)
  note t = sextets [OF byte_limit [of a] byte_limit [of a] byte_limit [of a]]
  show ?case unfolding b64Encode.simps b64Groups_full(2) [OF t(1,5,4,4) mod_mult_self2_is_0] t(8) by simp
next
  case (3 a b)
  note t = sextets [OF byte_limit [of a] byte_limit [of b] byte_limit [of b]]
  show ?case unfolding b64Encode.simps b64Groups_full(3) [OF t(1,2,6,4) mod_mult_self2_is_0] t(7,10) by simp
next
  case (4 a b c s)
  note t = sextets [OF byte_limit [of a] byte_limit [of b] byte_limit [of c]]
  show ?case unfolding b64Encode.simps b64Groups_full(1) [OF t(1-4)] t(7,9,11) 4 by simp
qed simp

lemma b64Encode_lines: "c \<in> set (b64Encode s) \<Longrightarrow> c \<noteq> newline \<and> c \<noteq> CHR 0x0D"
proof (induction s rule: b64Encode.induct)
  case (2 a)
  note t = sextets [OF byte_limit [of a] byte_limit [of a] byte_limit [of a]]
  have "c = b64Char (byte a div 4) \<or> c = b64Char (byte a mod 4 * 16) \<or> c = CHR ''=''" using 2 by auto
  then show ?case using b64Char_line [OF t(1)] b64Char_line [OF t(5)] by (auto simp: newline_def)
next
  case (3 a b)
  note t = sextets [OF byte_limit [of a] byte_limit [of b] byte_limit [of b]]
  have "c = b64Char (byte a div 4) \<or> c = b64Char (byte a mod 4 * 16 + byte b div 16) \<or> c = b64Char (byte b mod 16 * 4) \<or>
      c = CHR ''=''" using 3 by auto
  then show ?case using b64Char_line [OF t(1)] b64Char_line [OF t(2)] b64Char_line [OF t(6)] by (auto simp: newline_def)
next
  case (4 x y z s)
  note t = sextets [OF byte_limit [of x] byte_limit [of y] byte_limit [of z]]
  have "c = b64Char (byte x div 4) \<or> c = b64Char (byte x mod 4 * 16 + byte y div 16) \<or>
      c = b64Char (byte y mod 16 * 4 + byte z div 64) \<or> c = b64Char (byte z mod 64) \<or> c \<in> set (b64Encode s)" using "4.prems" by auto
  then show ?case
    using b64Char_line [OF t(1)] b64Char_line [OF t(2)] b64Char_line [OF t(3)] b64Char_line [OF t(4)] "4.IH" by metis
qed simp

lemma b64Encode_filter: "filter (\<lambda>c. c \<noteq> newline \<and> c \<noteq> CHR 0x0D) (b64Encode s) = b64Encode s"
  using b64Encode_lines by (simp add: filter_id_conv)

theorem b64Decode_Encode: "b64Decode (b64Encode s) = Some s"
  by (simp add: b64Decode_def b64Encode_filter b64Groups_Encode)

lemma b64Encode_length: "length (b64Encode s) = 4 * ((length s + 2) div 3)"
proof (induction s rule: b64Encode.induct)
  case (4 a b c s)
  have "(length (a # b # c # s) + 2) div 3 = Suc ((length s + 2) div 3)" by simp
  then show ?case using 4 by simp
qed simp_all

end
