(* ===== verification/WorkerConfig.thy ===== *)
theory WorkerConfig
  imports Mail AppConfig Base64
begin

text \<open>
  \<open>internal/distribution/config.go\<close>: the policy of the notification worker and its environment. The main
  results: the accepted policies are exactly the valid ones, and none of them makes a constructor of the
  worker fail.
\<close>

section \<open>The policy\<close>

definition WorkerIdentityClientIDEnv :: string where "WorkerIdentityClientIDEnv = ''DAR_WORKER_IDENTITY_CLIENT_ID''"
definition WorkerStorageAccountEnv :: string where "WorkerStorageAccountEnv = ''DAR_STORAGE_ACCOUNT_NAME''"
definition WorkerServiceBusNamespaceEnv :: string where "WorkerServiceBusNamespaceEnv = ''DAR_SERVICEBUS_NAMESPACE''"
definition WorkerServiceBusQueueEnv :: string where "WorkerServiceBusQueueEnv = ''DAR_SERVICEBUS_QUEUE''"
definition WorkerManifestsContainerEnv :: string where "WorkerManifestsContainerEnv = ''DAR_MANIFESTS_CONTAINER''"
definition WorkerBatchesContainerEnv :: string where "WorkerBatchesContainerEnv = ''DAR_BATCHES_CONTAINER''"
definition WorkerReceiptsContainerEnv :: string where "WorkerReceiptsContainerEnv = ''DAR_RECEIPTS_CONTAINER''"
definition WorkerHMACKeyEnv :: string where "WorkerHMACKeyEnv = ''DAR_RECEIPT_HMAC_KEY_B64''"
definition WorkerHMACKeyVersionEnv :: string where "WorkerHMACKeyVersionEnv = ''DAR_RECEIPT_HMAC_KEY_VERSION''"
definition WorkerMailModeEnv :: string where "WorkerMailModeEnv = ''DAR_MAIL_MODE''"
definition WorkerMailFromEmailEnv :: string where "WorkerMailFromEmailEnv = ''DAR_MAIL_FROM_EMAIL''"
definition WorkerMailFromNameEnv :: string where "WorkerMailFromNameEnv = ''DAR_MAIL_FROM_NAME''"
definition WorkerAllowedRecipientsEnv :: string where "WorkerAllowedRecipientsEnv = ''DAR_MAIL_ALLOWED_RECIPIENTS_JSON''"
definition WorkerMailAPIKeyEnv :: string where "WorkerMailAPIKeyEnv = ''DAR_MAIL_API_KEY''"
definition WorkerStubEndpointEnv :: string where "WorkerStubEndpointEnv = ''DAR_STUB_ENDPOINT''"
definition WorkerMaxAttemptsEnv :: string where "WorkerMaxAttemptsEnv = ''DAR_MAX_ATTEMPTS''"
definition WorkerClaimTimeoutSecondsEnv :: string where "WorkerClaimTimeoutSecondsEnv = ''DAR_CLAIM_TIMEOUT_SECONDS''"
definition WorkerMailTimeoutSecondsEnv :: string where "WorkerMailTimeoutSecondsEnv = ''DAR_MAIL_TIMEOUT_SECONDS''"
definition WorkerHealthPortEnv :: string where "WorkerHealthPortEnv = ''DAR_HEALTH_PORT''"

lemmas worker_names =
  WorkerIdentityClientIDEnv_def WorkerStorageAccountEnv_def WorkerServiceBusNamespaceEnv_def WorkerServiceBusQueueEnv_def
  WorkerManifestsContainerEnv_def WorkerBatchesContainerEnv_def WorkerReceiptsContainerEnv_def WorkerHMACKeyEnv_def
  WorkerHMACKeyVersionEnv_def WorkerMailModeEnv_def WorkerMailFromEmailEnv_def WorkerMailFromNameEnv_def
  WorkerAllowedRecipientsEnv_def WorkerMailAPIKeyEnv_def WorkerStubEndpointEnv_def WorkerMaxAttemptsEnv_def
  WorkerClaimTimeoutSecondsEnv_def WorkerMailTimeoutSecondsEnv_def WorkerHealthPortEnv_def

definition workerStorageAccountPattern :: rexp where
  "workerStorageAccountPattern = rbetween 3 24 (RCls (\<lambda>c. is_lower c \<or> is_digit c))"

definition workerNamespacePattern :: rexp where
  "workerNamespacePattern =
     rseqs [RCls (\<lambda>c. is_lower c \<or> is_digit c), rbetween 4 48 (RCls (\<lambda>c. is_lower c \<or> is_digit c \<or> c = CHR ''-'')),
            RCls (\<lambda>c. is_lower c \<or> is_digit c), rlit ''.servicebus.windows.net'']"

definition queuePattern :: rexp where
  "queuePattern =
     rseqs [RCls is_alnum,
            rupto 258 (RCls (\<lambda>c. is_alnum c \<or> c = CHR ''.'' \<or> c = CHR ''_'' \<or> c = CHR ''/'' \<or> c = CHR ''-'')),
            RCls is_alnum]"

record RuntimeConfig =
  rt_IdentityClientID :: string
  rt_StorageAccount :: string
  rt_ServiceBusNamespace :: string
  rt_ServiceBusQueue :: string
  rt_ManifestsContainer :: string
  rt_BatchesContainer :: string
  rt_ReceiptsContainer :: string
  rt_HMACKeyVersion :: string
  rt_MailMode :: MailMode
  rt_MailFromEmail :: string
  rt_MailFromName :: string
  rt_MaxAttempts :: int
  rt_ClaimTimeout :: duration
  rt_MailTimeout :: duration
  rt_HealthPort :: int
  rt_hmacKey :: string
  rt_allowedRecipients :: "string list"
  rt_mailAPIKey :: string
  rt_stubEndpoint :: string

definition configString :: "RuntimeConfig \<Rightarrow> string" where
  "configString config =
     ''RuntimeConfig{IdentityClientID:'' @ rt_IdentityClientID config @ '' StorageAccount:'' @ rt_StorageAccount config @
     '' ServiceBusNamespace:'' @ rt_ServiceBusNamespace config @ '' ServiceBusQueue:'' @ rt_ServiceBusQueue config @
     '' MailMode:'' @ rt_MailMode config @ '' HMACKeyVersion:'' @ rt_HMACKeyVersion config @ ''}''"

definition HMACKey :: "RuntimeConfig \<Rightarrow> string" where
  "HMACKey config = rt_hmacKey config"

definition Provider :: "RuntimeConfig \<Rightarrow> string" where
  "Provider config = (if rt_MailMode config = MailModeStub then ''stub'' else ''sendgrid'')"

definition MailerConfig :: "RuntimeConfig \<Rightarrow> MailConfig" where
  "MailerConfig config =
     \<lparr>mc_Mode = rt_MailMode config, mc_FromEmail = rt_MailFromEmail config, mc_FromName = rt_MailFromName config,
      mc_AllowedRecipients = rt_allowedRecipients config, mc_APIKey = rt_mailAPIKey config,
      mc_StubEndpoint = rt_stubEndpoint config, mc_Timeout = rt_MailTimeout config, mc_Client = None\<rparr>"

section \<open>Reading the environment\<close>

definition boundedInteger :: "string \<Rightarrow> int \<Rightarrow> int \<Rightarrow> int \<Rightarrow> int result" where
  "boundedInteger raw defaultValue minimum maximum =
     (if raw = [] then Inr defaultValue
      else case parseInt raw of
        None \<Rightarrow> Inl ErrWorkerConfig
      | Some value \<Rightarrow> if value < minimum \<or> value > maximum then Inl ErrWorkerConfig else Inr value)"

text \<open>
  \<open>json.Unmarshal\<close> of one document into a nil \<open>[]string\<close>: \<open>null\<close> leaves it nil, a \<open>null\<close> element is the
  empty string, any other value that is not a string is an error.
\<close>

fun stringElements :: "json list \<Rightarrow> string list option" where
  "stringElements [] = Some []"
| "stringElements (j # js) =
     (case j of
        JStr s \<Rightarrow> map_option ((#) s) (stringElements js)
      | JNull \<Rightarrow> map_option ((#) []) (stringElements js)
      | _ \<Rightarrow> None)"

definition unmarshalStrings :: "string \<Rightarrow> string list option" where
  "unmarshalStrings raw =
     (case json_doc raw of
        Some (JArr js) \<Rightarrow> stringElements js
      | Some JNull \<Rightarrow> Some []
      | _ \<Rightarrow> None)"

definition workerRequired :: "string list" where
  "workerRequired =
     [WorkerIdentityClientIDEnv, WorkerStorageAccountEnv, WorkerServiceBusNamespaceEnv, WorkerServiceBusQueueEnv,
      WorkerManifestsContainerEnv, WorkerBatchesContainerEnv, WorkerReceiptsContainerEnv, WorkerHMACKeyEnv,
      WorkerHMACKeyVersionEnv, WorkerMailModeEnv, WorkerMailFromEmailEnv, WorkerMailFromNameEnv]"

definition hmacKeyOf :: "string \<Rightarrow> string result" where
  "hmacKeyOf raw =
     (case b64Decode raw of
        None \<Rightarrow> Inl ErrWorkerConfig
      | Some hmacKey \<Rightarrow>
          if length hmacKey < 32 \<or> length hmacKey > 64 \<or> b64Encode hmacKey \<noteq> raw then Inl ErrWorkerConfig
          else Inr hmacKey)"

definition recipientsOf :: "MailMode \<Rightarrow> environment \<Rightarrow> string list result" where
  "recipientsOf mailMode env =
     (if mailMode = MailModeLive then
        (if env WorkerAllowedRecipientsEnv \<noteq> None then Inl ErrWorkerConfig else Inr [])
      else case unmarshalStrings (valueOf env WorkerAllowedRecipientsEnv) of
        None \<Rightarrow> Inl ErrWorkerConfig
      | Some recipients \<Rightarrow> if recipients = [] then Inl ErrWorkerConfig else Inr recipients)"

text \<open>The checks of the names of identity, storage, queue and key.\<close>

definition namesAccepted :: "environment \<Rightarrow> bool" where
  "namesAccepted env =
     (let identity = valueOf env WorkerIdentityClientIDEnv;
          storageAccount = valueOf env WorkerStorageAccountEnv;
          namespace = toLower (valueOf env WorkerServiceBusNamespaceEnv);
          queue = valueOf env WorkerServiceBusQueueEnv;
          manifests = valueOf env WorkerManifestsContainerEnv;
          batches = valueOf env WorkerBatchesContainerEnv;
          receipts = valueOf env WorkerReceiptsContainerEnv
      in \<not> (\<not> IsCanonicalUUID identity \<or> \<not> rmatch workerStorageAccountPattern storageAccount \<or>
            \<not> rmatch workerNamespacePattern namespace \<or> \<not> rmatch queuePattern queue \<or>
            contains queue ''//'' \<or> contains queue ''..'' \<or>
            \<not> validContainer manifests \<or> \<not> validContainer batches \<or> \<not> validContainer receipts \<or>
            manifests = batches \<or> manifests = receipts \<or> batches = receipts \<or>
            \<not> rmatch versionLabelPattern (valueOf env WorkerHMACKeyVersionEnv)))"

text \<open>Go's \<open>if err != nil { return err }\<close>.\<close>

definition tryR :: "'a result \<Rightarrow> ('a \<Rightarrow> 'b result) \<Rightarrow> 'b result" where
  "tryR r f = (case r of Inl err \<Rightarrow> Inl err | Inr x \<Rightarrow> f x)"

lemma tryR_simps [simp]: "tryR (Inr x) f = f x" "tryR (Inl e) f = Inl e"
  by (simp_all add: tryR_def)

lemma tryR_Inr: "tryR r f = Inr y \<longleftrightarrow> (\<exists>x. r = Inr x \<and> f x = Inr y)"
  by (cases r) simp_all

definition ParseWorkerEnvironment :: "environment \<Rightarrow> RuntimeConfig result" where
  "ParseWorkerEnvironment env =
     (if list_ex (\<lambda>name. trimSpace (valueOf env name) = []) workerRequired then Inl ErrWorkerConfig
      else if \<not> namesAccepted env then Inl ErrWorkerConfig
      else tryR (hmacKeyOf (valueOf env WorkerHMACKeyEnv)) (\<lambda>hmacKey.
           tryR (recipientsOf (valueOf env WorkerMailModeEnv) env) (\<lambda>recipients.
           tryR (boundedInteger (valueOf env WorkerMaxAttemptsEnv) 5 1 5) (\<lambda>maxAttempts.
           tryR (boundedInteger (valueOf env WorkerClaimTimeoutSecondsEnv) 300 30 900) (\<lambda>claimSeconds.
           tryR (boundedInteger (valueOf env WorkerMailTimeoutSecondsEnv) 10 1 30) (\<lambda>mailSeconds.
           tryR (boundedInteger (valueOf env WorkerHealthPortEnv) 8081 1024 65535) (\<lambda>healthPort.
           let config =
             \<lparr>rt_IdentityClientID = valueOf env WorkerIdentityClientIDEnv,
              rt_StorageAccount = valueOf env WorkerStorageAccountEnv,
              rt_ServiceBusNamespace = toLower (valueOf env WorkerServiceBusNamespaceEnv),
              rt_ServiceBusQueue = valueOf env WorkerServiceBusQueueEnv,
              rt_ManifestsContainer = valueOf env WorkerManifestsContainerEnv,
              rt_BatchesContainer = valueOf env WorkerBatchesContainerEnv,
              rt_ReceiptsContainer = valueOf env WorkerReceiptsContainerEnv,
              rt_HMACKeyVersion = valueOf env WorkerHMACKeyVersionEnv, rt_MailMode = valueOf env WorkerMailModeEnv,
              rt_MailFromEmail = valueOf env WorkerMailFromEmailEnv, rt_MailFromName = valueOf env WorkerMailFromNameEnv,
              rt_MaxAttempts = maxAttempts, rt_ClaimTimeout = claimSeconds * second,
              rt_MailTimeout = mailSeconds * second, rt_HealthPort = healthPort, rt_hmacKey = hmacKey,
              rt_allowedRecipients = recipients, rt_mailAPIKey = valueOf env WorkerMailAPIKeyEnv,
              rt_stubEndpoint = valueOf env WorkerStubEndpointEnv\<rparr>
           in case NewHTTPMailer (MailerConfig config) of
                Inl _ \<Rightarrow> Inl ErrWorkerConfig
              | Inr _ \<Rightarrow> Inr config)))))))"

text \<open>\<open>LoadWorkerEnvironment\<close> looks up the documented names in the environment of the process.\<close>

definition workerDocumented :: "string list" where
  "workerDocumented =
     workerRequired @ [WorkerAllowedRecipientsEnv, WorkerMailAPIKeyEnv, WorkerStubEndpointEnv, WorkerMaxAttemptsEnv,
       WorkerClaimTimeoutSecondsEnv, WorkerMailTimeoutSecondsEnv, WorkerHealthPortEnv]"

definition LoadWorkerEnvironment :: "environment \<Rightarrow> RuntimeConfig result" where
  "LoadWorkerEnvironment osEnv =
     ParseWorkerEnvironment (\<lambda>name. if name \<in> set workerDocumented then osEnv name else None)"

section \<open>Valid policies\<close>

definition validRuntime :: "RuntimeConfig \<Rightarrow> bool" where
  "validRuntime config \<longleftrightarrow>
     IsCanonicalUUID (rt_IdentityClientID config) \<and> rmatch workerStorageAccountPattern (rt_StorageAccount config) \<and>
     rmatch workerNamespacePattern (rt_ServiceBusNamespace config) \<and> rmatch queuePattern (rt_ServiceBusQueue config) \<and>
     \<not> contains (rt_ServiceBusQueue config) ''//'' \<and> \<not> contains (rt_ServiceBusQueue config) ''..'' \<and>
     list_all validContainer [rt_ManifestsContainer config, rt_BatchesContainer config, rt_ReceiptsContainer config] \<and>
     distinct [rt_ManifestsContainer config, rt_BatchesContainer config, rt_ReceiptsContainer config] \<and>
     rmatch versionLabelPattern (rt_HMACKeyVersion config) \<and>
     32 \<le> length (rt_hmacKey config) \<and> length (rt_hmacKey config) \<le> 64 \<and>
     list_all utf8_valid (rt_allowedRecipients config) \<and> trimSpace (rt_MailFromName config) \<noteq> [] \<and>
     1 \<le> rt_MaxAttempts config \<and> rt_MaxAttempts config \<le> 5 \<and>
     (\<exists>s. 30 \<le> s \<and> s \<le> 900 \<and> rt_ClaimTimeout config = s * second) \<and>
     (\<exists>s. 1 \<le> s \<and> s \<le> 30 \<and> rt_MailTimeout config = s * second) \<and>
     1024 \<le> rt_HealthPort config \<and> rt_HealthPort config \<le> 65535 \<and>
     is_ok (NewHTTPMailer (MailerConfig config))"

lemma boundedInteger_range:
  "boundedInteger raw d lo hi = Inr v \<Longrightarrow> lo \<le> d \<Longrightarrow> d \<le> hi \<Longrightarrow> lo \<le> v \<and> v \<le> hi"
  by (auto simp: boundedInteger_def split: if_splits option.splits)

lemma boundedInteger_itoa:
  assumes "lo \<le> v" "v \<le> hi" "int64_ok v"
  shows "boundedInteger (itoa v) d lo hi = Inr v"
  using assms parseInt_itoa [of v] itoa_hd [of v] by (auto simp: boundedInteger_def)

lemma stringElements_valid: "stringElements js = Some ss \<Longrightarrow> list_all jstrings js \<Longrightarrow> list_all utf8_valid ss"
  by (induction js arbitrary: ss) (auto split: json.splits)

lemma unmarshalStrings_valid: "unmarshalStrings raw = Some ss \<Longrightarrow> list_all utf8_valid ss"
  using json_doc_strings [of raw] stringElements_valid
  by (auto simp: unmarshalStrings_def split: option.splits json.splits)

lemma unmarshalStrings_print:
  assumes "list_all utf8_valid ss"
  shows "unmarshalStrings (jprint (JArr (map JStr ss))) = Some ss"
proof -
  have "jwf (JArr (map JStr ss))" using assms by (induction ss) simp_all
  moreover have "stringElements (map JStr ss) = Some ss" by (induction ss) simp_all
  ultimately show ?thesis unfolding unmarshalStrings_def by (subst json_doc_print) simp_all
qed

lemma ParseWorkerEnvironment_valid:
  assumes "ParseWorkerEnvironment env = Inr config"
  shows "validRuntime config"
proof -
  have n: "\<not> list_ex (\<lambda>name. trimSpace (valueOf env name) = []) workerRequired" "namesAccepted env"
    using assms by (simp_all only: ParseWorkerEnvironment_def split: if_split_asm) simp_all
  from assms n obtain key recipients attempts claim mail port where r:
    "hmacKeyOf (valueOf env WorkerHMACKeyEnv) = Inr key" "recipientsOf (valueOf env WorkerMailModeEnv) env = Inr recipients"
    "boundedInteger (valueOf env WorkerMaxAttemptsEnv) 5 1 5 = Inr attempts"
    "boundedInteger (valueOf env WorkerClaimTimeoutSecondsEnv) 300 30 900 = Inr claim"
    "boundedInteger (valueOf env WorkerMailTimeoutSecondsEnv) 10 1 30 = Inr mail"
    "boundedInteger (valueOf env WorkerHealthPortEnv) 8081 1024 65535 = Inr port"
    by (simp only: ParseWorkerEnvironment_def tryR_Inr if_False not_True_eq_False) blast
  note p = assms [unfolded ParseWorkerEnvironment_def r tryR_simps if_not_P [OF n(1)] Let_def]
  have "32 \<le> length key \<and> length key \<le> 64" using r(1) by (auto simp: hmacKeyOf_def split: option.splits if_splits)
  moreover have "list_all utf8_valid recipients"
    using r(2) unmarshalStrings_valid by (auto simp: recipientsOf_def split: option.splits if_splits)
  moreover have "trimSpace (valueOf env WorkerMailFromNameEnv) \<noteq> []" using n(1) by (simp add: workerRequired_def)
  moreover note boundedInteger_range [OF r(3)] boundedInteger_range [OF r(4)] boundedInteger_range [OF r(5)]
    boundedInteger_range [OF r(6)]
  ultimately show ?thesis
    using p n(2) unfolding validRuntime_def namesAccepted_def Let_def
    by (auto simp: is_ok_iff split: sum.splits)
qed

text \<open>The environment that spells a policy out.\<close>

definition workerEnvironmentOf :: "RuntimeConfig \<Rightarrow> environment" where
  "workerEnvironmentOf config = map_of (
     [(WorkerIdentityClientIDEnv, rt_IdentityClientID config), (WorkerStorageAccountEnv, rt_StorageAccount config),
      (WorkerServiceBusNamespaceEnv, rt_ServiceBusNamespace config), (WorkerServiceBusQueueEnv, rt_ServiceBusQueue config),
      (WorkerManifestsContainerEnv, rt_ManifestsContainer config), (WorkerBatchesContainerEnv, rt_BatchesContainer config),
      (WorkerReceiptsContainerEnv, rt_ReceiptsContainer config), (WorkerHMACKeyEnv, b64Encode (rt_hmacKey config)),
      (WorkerHMACKeyVersionEnv, rt_HMACKeyVersion config), (WorkerMailModeEnv, rt_MailMode config),
      (WorkerMailFromEmailEnv, rt_MailFromEmail config), (WorkerMailFromNameEnv, rt_MailFromName config),
      (WorkerMailAPIKeyEnv, rt_mailAPIKey config), (WorkerStubEndpointEnv, rt_stubEndpoint config),
      (WorkerMaxAttemptsEnv, itoa (rt_MaxAttempts config)),
      (WorkerClaimTimeoutSecondsEnv, itoa (rt_ClaimTimeout config div second)),
      (WorkerMailTimeoutSecondsEnv, itoa (rt_MailTimeout config div second)),
      (WorkerHealthPortEnv, itoa (rt_HealthPort config))] @
     (if rt_MailMode config = MailModeLive then []
      else [(WorkerAllowedRecipientsEnv, jprint (JArr (map JStr (rt_allowedRecipients config))))]))"

lemma workerEnvironmentOf_lookup:
  "valueOf (workerEnvironmentOf config) WorkerIdentityClientIDEnv = rt_IdentityClientID config"
  "valueOf (workerEnvironmentOf config) WorkerStorageAccountEnv = rt_StorageAccount config"
  "valueOf (workerEnvironmentOf config) WorkerServiceBusNamespaceEnv = rt_ServiceBusNamespace config"
  "valueOf (workerEnvironmentOf config) WorkerServiceBusQueueEnv = rt_ServiceBusQueue config"
  "valueOf (workerEnvironmentOf config) WorkerManifestsContainerEnv = rt_ManifestsContainer config"
  "valueOf (workerEnvironmentOf config) WorkerBatchesContainerEnv = rt_BatchesContainer config"
  "valueOf (workerEnvironmentOf config) WorkerReceiptsContainerEnv = rt_ReceiptsContainer config"
  "valueOf (workerEnvironmentOf config) WorkerHMACKeyEnv = b64Encode (rt_hmacKey config)"
  "valueOf (workerEnvironmentOf config) WorkerHMACKeyVersionEnv = rt_HMACKeyVersion config"
  "valueOf (workerEnvironmentOf config) WorkerMailModeEnv = rt_MailMode config"
  "valueOf (workerEnvironmentOf config) WorkerMailFromEmailEnv = rt_MailFromEmail config"
  "valueOf (workerEnvironmentOf config) WorkerMailFromNameEnv = rt_MailFromName config"
  "valueOf (workerEnvironmentOf config) WorkerMailAPIKeyEnv = rt_mailAPIKey config"
  "valueOf (workerEnvironmentOf config) WorkerStubEndpointEnv = rt_stubEndpoint config"
  "valueOf (workerEnvironmentOf config) WorkerMaxAttemptsEnv = itoa (rt_MaxAttempts config)"
  "valueOf (workerEnvironmentOf config) WorkerClaimTimeoutSecondsEnv = itoa (rt_ClaimTimeout config div second)"
  "valueOf (workerEnvironmentOf config) WorkerMailTimeoutSecondsEnv = itoa (rt_MailTimeout config div second)"
  "valueOf (workerEnvironmentOf config) WorkerHealthPortEnv = itoa (rt_HealthPort config)"
  "workerEnvironmentOf config WorkerAllowedRecipientsEnv =
     (if rt_MailMode config = MailModeLive then None else Some (jprint (JArr (map JStr (rt_allowedRecipients config)))))"
  by (simp_all add: valueOf_def workerEnvironmentOf_def worker_names)

text \<open>Valid values are not blank, and a namespace is in lower case already.\<close>

lemma alnum_head_not_blank:
  assumes "rmatch (RSeq (RCls P) r) s" "\<And>c. P c \<Longrightarrow> is_alnum c"
  shows "trimSpace s \<noteq> []"
  using assms class_not_blank by (auto simp: rmatch_cls_seq split: list.splits)

lemma plain_not_blank:
  assumes "s \<noteq> []" "list_all (\<lambda>c. byte c < 0x80 \<and> \<not> isSpace (byte c)) s"
  shows "trimSpace s \<noteq> []"
  using assms trimSpace_nonempty by (cases s) simp_all

lemma worker_values_not_blank:
  "rmatch workerStorageAccountPattern a \<Longrightarrow> trimSpace a \<noteq> []"
  "rmatch workerNamespacePattern n \<Longrightarrow> trimSpace n \<noteq> []"
  "rmatch queuePattern q \<Longrightarrow> trimSpace q \<noteq> []"
  "validContainer c \<Longrightarrow> trimSpace c \<noteq> []"
  "rmatch versionLabelPattern v \<Longrightarrow> trimSpace v \<noteq> []"
proof -
  show "rmatch workerStorageAccountPattern a \<Longrightarrow> trimSpace a \<noteq> []"
    using account_not_blank [of a] unfolding workerStorageAccountPattern_def storageAccountPattern_def .
  show "rmatch workerNamespacePattern n \<Longrightarrow> trimSpace n \<noteq> []" "rmatch queuePattern q \<Longrightarrow> trimSpace q \<noteq> []"
    unfolding workerNamespacePattern_def queuePattern_def rseqs.simps
    using alnum_head_not_blank by (blast intro: is_alnum_def [THEN iffD2] is_alpha_def [THEN iffD2])+
  show "validContainer c \<Longrightarrow> trimSpace c \<noteq> []"
    unfolding validContainer_def containerPattern_def rseqs.simps
    by (elim conjE alnum_head_not_blank) (auto simp: is_alnum_def is_alpha_def)
  have c: "byte c < 0x80 \<and> \<not> isSpace (byte c)" if "repositoryChar c" for c
    using that by (auto simp: char_class_defs isSpace_def)
  show "rmatch versionLabelPattern v \<Longrightarrow> trimSpace v \<noteq> []"
  proof -
    assume "rmatch versionLabelPattern v"
    moreover have "(1::nat) \<le> 64" by simp
    ultimately have l: "1 \<le> length v" "list_all repositoryChar v"
      unfolding versionLabelPattern_def using rmatch_rbetween_cls by blast+
    have "v \<noteq> []" using l(1) by (cases v) simp_all
    moreover have "list_all (\<lambda>c. byte c < 0x80 \<and> \<not> isSpace (byte c)) v" using l(2) c by (rule list.pred_mono_strong)
    ultimately show ?thesis by (rule plain_not_blank)
  qed
qed

lemma namespace_lower: "rmatch workerNamespacePattern n \<Longrightarrow> toLower n = n"
proof (rule toLower_id)
  assume m: "rmatch workerNamespacePattern n"
  have "byte c < 0x80 \<and> \<not> is_upper c" if "c \<in> set n" for c
    using rmatch_bytes [OF m that]
    by (auto simp: workerNamespacePattern_def rbytes_unfold char_class_defs dest!: rbytes_dest)
  then show "ascii n" "list_all (\<lambda>c. \<not> is_upper c) n" by (auto simp: ascii_def list_all_iff)
qed

lemma b64Encode_not_blank: "s \<noteq> [] \<Longrightarrow> trimSpace (b64Encode s) \<noteq> []"
proof -
  have "\<forall>n \<in> set [0..<64]. byte (b64Char n) < 0x80 \<and> \<not> isSpace (byte (b64Char n))"
    by (simp add: upt_rec b64Char_def isSpace_def)
  then have "trimSpace (b64Char n # t) \<noteq> []" if "n < 64" for n t using trimSpace_nonempty that by simp
  moreover have "byte c div 4 < (64::nat)" for c using byte_limit [of c] by linarith
  ultimately show "s \<noteq> [] \<Longrightarrow> trimSpace (b64Encode s) \<noteq> []" by (induction s rule: b64Encode.induct) simp_all
qed

lemma mailer_modes:
  assumes "NewHTTPMailer config = Inr mailer"
  shows "mc_Mode config \<in> {MailModeStub, MailModeSandbox, MailModeLive}" "trimSpace (mc_FromEmail config) \<noteq> []"
    "mc_Mode config = MailModeLive \<longleftrightarrow> mc_AllowedRecipients config = []"
proof -
  show "mc_Mode config \<in> {MailModeStub, MailModeSandbox, MailModeLive}"
    using mailer_facts(4) [OF assms] by (auto simp: endpointFor_def split: if_splits)
  show "mc_Mode config = MailModeLive \<longleftrightarrow> mc_AllowedRecipients config = []"
    using mailer_facts(3) [OF assms] by (auto simp: allowedFor_def Let_def split: if_splits)
  have "snd (canonicalEmail (mc_FromEmail config))"
    using assms by (auto simp: NewHTTPMailer_def split: prod.splits if_splits)
  moreover have "\<not> snd (canonicalEmail s)" if "trimSpace s = []" for s
    by (simp add: canonicalEmail_def that toLower_id emailPattern_def rmatch_RSeq rmatch_rplus_cls del: rmatch.simps)
  ultimately show "trimSpace (mc_FromEmail config) \<noteq> []" by blast
qed

lemma ParseWorkerEnvironment_spelled:
  assumes "validRuntime config"
  shows "ParseWorkerEnvironment (workerEnvironmentOf config) = Inr config"
proof -
  let ?env = "workerEnvironmentOf config"
  note v = assms [unfolded validRuntime_def] and l = workerEnvironmentOf_lookup [of config]
  obtain mailer where m: "NewHTTPMailer (MailerConfig config) = Inr mailer" using v by (auto simp: is_ok_iff)
  note mm = mailer_modes [OF m, unfolded MailerConfig_def MailConfig.select_convs]
  obtain cs ms where t: "rt_ClaimTimeout config = cs * second" "30 \<le> cs" "cs \<le> 900"
    "rt_MailTimeout config = ms * second" "1 \<le> ms" "ms \<le> 30" using v by blast
  have d: "rt_ClaimTimeout config div second = cs" "rt_MailTimeout config div second = ms" by (simp_all add: t second_def)
  have "trimSpace (rt_MailMode config) \<noteq> []" using mm(1) class_not_blank by (auto simp: char_class_defs)
  moreover have "rt_hmacKey config \<noteq> []" using v by auto
  ultimately have "\<not> list_ex (\<lambda>name. trimSpace (valueOf ?env name) = []) workerRequired"
    using v mm(2) worker_values_not_blank uuid_not_blank b64Encode_not_blank [of "rt_hmacKey config"]
    by (auto simp: workerRequired_def l)
  moreover have "namesAccepted ?env" using v by (simp add: namesAccepted_def l namespace_lower)
  moreover have "hmacKeyOf (b64Encode (rt_hmacKey config)) = Inr (rt_hmacKey config)"
    using v by (simp add: hmacKeyOf_def b64Decode_Encode)
  moreover have "recipientsOf (rt_MailMode config) ?env = Inr (rt_allowedRecipients config)"
    using v mm(3) unmarshalStrings_print by (simp add: recipientsOf_def l valueOf_def [of _ WorkerAllowedRecipientsEnv] del: jprint.simps)
  moreover have "boundedInteger (itoa (rt_MaxAttempts config)) 5 1 5 = Inr (rt_MaxAttempts config)"
    "boundedInteger (itoa cs) 300 30 900 = Inr cs" "boundedInteger (itoa ms) 10 1 30 = Inr ms"
    "boundedInteger (itoa (rt_HealthPort config)) 8081 1024 65535 = Inr (rt_HealthPort config)"
    using v t by (simp_all add: boundedInteger_itoa int64_ok_def)
  ultimately show ?thesis
    using v m t(1,4) unfolding ParseWorkerEnvironment_def l d by (cases config) (simp add: namespace_lower Let_def)
qed

lemma ParseWorkerEnvironment_documented:
  assumes "\<forall>name \<in> set workerDocumented. env name = env' name"
  shows "ParseWorkerEnvironment env = ParseWorkerEnvironment env'"
proof -
  have v: "\<forall>name \<in> set workerDocumented. valueOf env name = valueOf env' name" using assms by (simp add: valueOf_def)
  then have "recipientsOf m env = recipientsOf m env'" "namesAccepted env = namesAccepted env'" for m
    using assms by (simp_all add: recipientsOf_def namesAccepted_def workerDocumented_def workerRequired_def)
  then show ?thesis using v by (simp add: workerDocumented_def workerRequired_def ParseWorkerEnvironment_def)
qed

lemma LoadWorkerEnvironment_eq: "LoadWorkerEnvironment osEnv = ParseWorkerEnvironment osEnv"
  unfolding LoadWorkerEnvironment_def by (rule ParseWorkerEnvironment_documented) simp

section \<open>Claims\<close>

text \<open>
  C27. The policies that some environment of the worker yields are exactly the valid ones, and each of them is yielded by
  the environment that spells it out, with the key in base64 and the recipients as a JSON list; the process
  environment matters only through the documented names.
\<close>

theorem worker_policies_exact:
  "{config. \<exists>env. ParseWorkerEnvironment env = Inr config} = {config. validRuntime config} \<and>
   {config. ParseWorkerEnvironment (workerEnvironmentOf config) = Inr config} = {config. validRuntime config} \<and>
   LoadWorkerEnvironment = ParseWorkerEnvironment"
  using ParseWorkerEnvironment_valid ParseWorkerEnvironment_spelled LoadWorkerEnvironment_eq by blast

end
