(* ===== verification/MailStub.thy ===== *)
theory MailStub
  imports Example WorkerConfig
begin

text \<open>
  \<open>internal/distribution/stub.go\<close>: the provider stand-in that the worker talks to in stub mode. The main result
  puts client and stub together: every request that the mail client makes for a message the worker accepts
  passes the stub's checks, and each fault scenario leads to the outcome it stands for.
\<close>

section \<open>State\<close>

record MailStub =
  st_scenario :: string
  st_timeoutDelay :: duration
  st_requestCount :: int
  st_lastDigest :: string

definition NewMailStub :: "string \<Rightarrow> duration \<Rightarrow> MailStub result" where
  "NewMailStub scenario timeoutDelay =
     (if scenario \<notin> set [''accepted'', ''throttle'', ''reject'', ''unavailable'', ''timeout''] then Inl ErrContract
      else let delay = (if timeoutDelay = 0 then 15 * second else timeoutDelay)
           in if delay < 100 * 1000000 \<or> delay > 30 * second then Inl ErrContract
              else Inr \<lparr>st_scenario = scenario, st_timeoutDelay = delay, st_requestCount = 0, st_lastDigest = []\<rparr>)"

definition RequestCount :: "MailStub \<Rightarrow> int" where "RequestCount stub = st_requestCount stub"
definition LastRequestSHA256 :: "MailStub \<Rightarrow> string" where "LastRequestSHA256 stub = st_lastDigest stub"

section \<open>Payloads\<close>

text \<open>
  A Go slice as \<open>encoding/json\<close> fills it: decoding into a slice that was filled before (two member names that
  differ in case only) writes over the elements of its backing array, so the cells behind the length are
  kept. Decoding \<open>null\<close> or an empty array gives a fresh slice.
\<close>

record 's slice =
  sl_cells :: "'s list"
  sl_len :: nat

definition emptySlice :: "'s slice" where
  "emptySlice = \<lparr>sl_cells = [], sl_len = 0\<rparr>"

definition elementsOf :: "'s slice \<Rightarrow> 's list" where
  "elementsOf s = take (sl_len s) (sl_cells s)"

fun decodeElements :: "'s setter \<Rightarrow> 's \<Rightarrow> json list \<Rightarrow> 's list \<Rightarrow> 's list option" where
  "decodeElements dec zero [] cells = Some cells"
| "decodeElements dec zero (j # js) cells =
     (case dec j (case cells of [] \<Rightarrow> zero | cell # _ \<Rightarrow> cell) of
        None \<Rightarrow> None
      | Some x \<Rightarrow> map_option ((#) x) (decodeElements dec zero js (tl cells)))"

definition setSlice :: "'s setter \<Rightarrow> 's \<Rightarrow> ('r \<Rightarrow> 's slice) \<Rightarrow> ('s slice \<Rightarrow> 'r \<Rightarrow> 'r) \<Rightarrow> 'r setter" where
  "setSlice dec zero get upd j r =
     (case j of
        JNull \<Rightarrow> Some (upd emptySlice r)
      | JArr [] \<Rightarrow> Some (upd emptySlice r)
      | JArr js \<Rightarrow>
          (case decodeElements dec zero js (sl_cells (get r)) of
             None \<Rightarrow> None
           | Some cells \<Rightarrow> Some (upd \<lparr>sl_cells = cells, sl_len = length js\<rparr> r))
      | _ \<Rightarrow> None)"

text \<open>A \<open>map[string]string\<close>: members are added to the map, \<open>null\<close> gives a nil map, a \<open>null\<close> member the empty string.\<close>

fun decodeMembers :: "(string \<times> json) list \<Rightarrow> (string \<rightharpoonup> string) \<Rightarrow> (string \<rightharpoonup> string) option" where
  "decodeMembers [] m = Some m"
| "decodeMembers ((k, v) # kvs) m =
     (case v of
        JStr s \<Rightarrow> decodeMembers kvs (m(k \<mapsto> s))
      | JNull \<Rightarrow> decodeMembers kvs (m(k \<mapsto> []))
      | _ \<Rightarrow> None)"

definition setStringMap ::
  "('r \<Rightarrow> string \<rightharpoonup> string) \<Rightarrow> ((string \<rightharpoonup> string) \<Rightarrow> 'r \<Rightarrow> 'r) \<Rightarrow> 'r setter" where
  "setStringMap get upd j r =
     (case j of
        JNull \<Rightarrow> Some (upd Map.empty r)
      | JObj kvs \<Rightarrow> (case decodeMembers kvs (get r) of None \<Rightarrow> None | Some m \<Rightarrow> Some (upd m r))
      | _ \<Rightarrow> None)"

record stubContent =
  sc_Type :: string
  sc_Value :: string

record stubParty =
  sp_Email :: string
  sp_Name :: string

record stubPersonalization =
  sz_CustomArgs :: "string \<rightharpoonup> string"
  sz_To :: "stubParty slice"

record stubPayload =
  sy_Content :: "stubContent slice"
  sy_From :: stubParty
  sy_Personalizations :: "stubPersonalization slice"
  sy_Subject :: string

definition contentFields :: "(string \<times> stubContent setter) list" where
  "contentFields =
     [(''type'', setString (\<lambda>s r. r\<lparr>sc_Type := s\<rparr>)), (''value'', setString (\<lambda>s r. r\<lparr>sc_Value := s\<rparr>))]"

definition partyFields :: "(string \<times> stubParty setter) list" where
  "partyFields =
     [(''email'', setString (\<lambda>s r. r\<lparr>sp_Email := s\<rparr>)), (''name'', setString (\<lambda>s r. r\<lparr>sp_Name := s\<rparr>))]"

definition personalizationFields :: "(string \<times> stubPersonalization setter) list" where
  "personalizationFields =
     [(''custom_args'', setStringMap sz_CustomArgs (\<lambda>m r. r\<lparr>sz_CustomArgs := m\<rparr>)),
      (''to'', setSlice (decodeStruct partyFields) \<lparr>sp_Email = [], sp_Name = []\<rparr> sz_To (\<lambda>s r. r\<lparr>sz_To := s\<rparr>))]"

definition payloadFields :: "(string \<times> stubPayload setter) list" where
  "payloadFields =
     [(''content'', setSlice (decodeStruct contentFields) \<lparr>sc_Type = [], sc_Value = []\<rparr> sy_Content (\<lambda>s r. r\<lparr>sy_Content := s\<rparr>)),
      (''from'', setStruct partyFields sy_From (\<lambda>s r. r\<lparr>sy_From := s\<rparr>)),
      (''personalizations'', setSlice (decodeStruct personalizationFields) \<lparr>sz_CustomArgs = Map.empty, sz_To = emptySlice\<rparr>
         sy_Personalizations (\<lambda>s r. r\<lparr>sy_Personalizations := s\<rparr>)),
      (''subject'', setString (\<lambda>s r. r\<lparr>sy_Subject := s\<rparr>))]"

definition zeroPayload :: stubPayload where
  "zeroPayload = \<lparr>sy_Content = emptySlice, sy_From = \<lparr>sp_Email = [], sp_Name = []\<rparr>, sy_Personalizations = emptySlice, sy_Subject = []\<rparr>"

definition validStubPayload :: "string \<Rightarrow> bool" where
  "validStubPayload body =
     (case Decode body 65536 (decodeStruct payloadFields) zeroPayload of
        Inl _ \<Rightarrow> False
      | Inr payload \<Rightarrow>
          if length (elementsOf (sy_Content payload)) \<noteq> 2 \<or> length (elementsOf (sy_Personalizations payload)) \<noteq> 1 \<or>
             length (elementsOf (sz_To (elementsOf (sy_Personalizations payload) ! 0))) \<noteq> 1 \<or>
             sp_Email (sy_From payload) = [] \<or> sy_Subject payload = [] \<or> length (sy_Subject payload) > 256
          then False
          else list_all (\<lambda>content.
                 \<not> (sc_Value content = [] \<or> length (sc_Value content) > 16384 \<or>
                    sc_Type content \<noteq> ''text/plain'' \<and> sc_Type content \<noteq> ''text/html''))
               (elementsOf (sy_Content payload)))"

section \<open>Serving\<close>

record stub_request =
  sq_Method :: string
  sq_Path :: string
  sq_Header :: headers
  sq_Body :: reader

text \<open>\<open>None\<close> as the status says that the handler returned without writing a header.\<close>

record stub_response =
  ss_Status :: "int option"
  ss_Header :: headers
  ss_Body :: string

text \<open>
  \<open>http.MaxBytesReader\<close>: at most the given number of bytes, then an error. That it also asks the server to close the
  connection is left to \<open>net/http\<close>.
\<close>

definition maxBytesReader :: "nat \<Rightarrow> reader \<Rightarrow> reader" where
  "maxBytesReader n r = (if length (fst r) > n then (take n (fst r), Some ErrOther) else r)"

text \<open>
  The handler. \<open>waitRequest\<close> waits for the timer or the end of the request, whichever comes first: the parameter
  \<open>waited\<close> says that it was the timer. The updates under the mutex are one step.
\<close>

definition stubAnswer :: "bool \<Rightarrow> string \<Rightarrow> headers \<Rightarrow> stub_response" where
  "stubAnswer waited scenario header =
     (let reply = (\<lambda>status hs. \<lparr>ss_Status = status, ss_Header = hs, ss_Body = []\<rparr>)
      in if scenario = ''throttle'' then reply (Some 429) (headerSet ''Retry-After'' ''1'' header)
         else if scenario = ''reject'' then reply (Some 400) header
         else if scenario = ''unavailable'' then reply (Some 503) (headerSet ''Retry-After'' ''1'' header)
         else if scenario = ''timeout'' then reply (if waited then Some 200 else None) header
         else reply (Some 200) header)"

definition ServeStub :: "bool \<Rightarrow> MailStub \<Rightarrow> stub_request \<Rightarrow> stub_response \<times> MailStub" where
  "ServeStub waited stub request =
     (let header = headerSet ''Cache-Control'' ''no-store'' [];
          refuse = (\<lambda>status. (\<lparr>ss_Status = Some status, ss_Header = header, ss_Body = []\<rparr>, stub))
      in if sq_Method request = ''GET'' \<and> sq_Path request = ''/healthz'' then
           (\<lparr>ss_Status = Some 200, ss_Header = headerSet ''Content-Type'' ''application/json'' header,
             ss_Body = jprint (JObj [(''service'', JStr ''dar-mail-stub''), (''status'', JStr ''ok'')])\<rparr>, stub)
         else if sq_Method request \<noteq> ''POST'' then refuse 405
         else if sq_Path request \<noteq> ''/v3/mail/send'' then refuse 404
         else if headerValues (sq_Header request) ''Authorization'' \<noteq> [] then refuse 400
         else case readBounded (Some (maxBytesReader 65536 (sq_Body request))) 65536 of
           Inl _ \<Rightarrow> refuse 400
         | Inr body \<Rightarrow>
             if body = [] \<or> length body > 65536 \<or> \<not> validStubPayload body then refuse 400
             else let digestText = hexEncode (sha256 body)
                  in (stubAnswer waited (st_scenario stub) (headerSet ''X-Stub-Request-Id'' (''stub-'' @ take 24 digestText) header),
                      stub\<lparr>st_requestCount := st_requestCount stub + 1, st_lastDigest := digestText\<rparr>))"

section \<open>Client and stub together\<close>

text \<open>
  The HTTP connection between the two: the request line carries the path of the URL, the handler's status is the
  status of the response; when the handler wrote none the connection gives no response.
\<close>

definition stubRequestOf :: "http_request \<Rightarrow> stub_request" where
  "stubRequestOf request =
     \<lparr>sq_Method = ''POST'', sq_Path = (case urlParse (rq_URL request) of Some u \<Rightarrow> u_path u | None \<Rightarrow> []),
      sq_Header = map (\<lambda>(k, v). (canonicalKey k, [v])) (rq_Headers request), sq_Body = (rq_Body request, None)\<rparr>"

definition stubTransport :: "bool \<Rightarrow> MailStub \<Rightarrow> http_client \<Rightarrow> http_request \<Rightarrow> http_response option" where
  "stubTransport waited stub client request =
     (let response = fst (ServeStub waited stub (stubRequestOf request))
      in case ss_Status response of
           None \<Rightarrow> None
         | Some status \<Rightarrow> Some \<lparr>rs_StatusCode = status, rs_Header = ss_Header response\<rparr>)"

text \<open>What each scenario stands for.\<close>

definition scenarioResult :: "bool \<Rightarrow> string \<Rightarrow> string \<Rightarrow> MailResult" where
  "scenarioResult waited scenario requestID =
     (let result = (\<lambda>outcome status reason retry. \<lparr>mr_Outcome = outcome, mr_HTTPStatus = status, mr_RequestID = requestID,
            mr_ReasonCode = reason, mr_RetryAfter = retry\<rparr>)
      in if scenario = ''throttle'' then result MailRetryable 429 ''PROVIDER_THROTTLED'' second
         else if scenario = ''reject'' then result MailPermanent 400 ''PROVIDER_REJECTED'' 0
         else if scenario = ''unavailable'' then result MailRetryable 503 ''PROVIDER_UNAVAILABLE'' second
         else if scenario = ''timeout'' \<and> \<not> waited then mailRefused MailUnknown ''PROVIDER_OUTCOME_UNKNOWN''
         else result MailSimulated 200 [] 0)"

section \<open>Proofs\<close>

lemma stub_payload_decoded:
  assumes "hm_mode mailer = MailModeStub"
  shows "decodeStruct payloadFields (buildMailPayload mailer n email) zeroPayload = Some
    \<lparr>sy_Content = \<lparr>sl_cells = [\<lparr>sc_Type = ''text/plain'', sc_Value = plainText n\<rparr>, \<lparr>sc_Type = ''text/html'', sc_Value = htmlBody n\<rparr>],
                   sl_len = 2\<rparr>,
     sy_From = \<lparr>sp_Email = hm_fromEmail mailer, sp_Name = hm_fromName mailer\<rparr>,
     sy_Personalizations = \<lparr>sl_cells =
       [\<lparr>sz_CustomArgs = [''operation_id'' \<mapsto> n_OperationID n, ''recipient_id'' \<mapsto> n_RecipientID n, ''release_id'' \<mapsto> n_ReleaseID n],
         sz_To = \<lparr>sl_cells = [\<lparr>sp_Email = email, sp_Name = trimSpace (n_FirstName n @ '' '' @ n_LastName n)\<rparr>], sl_len = 1\<rparr>\<rparr>],
       sl_len = 1\<rparr>,
     sy_Subject = ''DAR release '' @ n_ReleaseVersion n @ '' is ready''\<rparr>"
  using assms
  by (simp add: buildMailPayload_def decodeStruct_def findField_def payloadFields_def contentFields_def partyFields_def
      personalizationFields_def setSlice_def setStringMap_def setString_def setStruct_def zeroPayload_def emptySlice_def Let_def)

lemma stub_payload_distinct: "hm_mode mailer = MailModeStub \<Longrightarrow> distinctKeys (buildMailPayload mailer n email)"
  by (simp add: buildMailPayload_def Let_def)

lemma escapeString_length: "length (escapeString s) \<le> 5 * length s"
  by (induction s) (auto simp: escapeString_def htmlByte_def)

text \<open>The notifications the stub takes: valid strings of bounded length.\<close>

definition stubFit :: "HTTPMailer \<Rightarrow> Notification \<Rightarrow> string \<Rightarrow> bool" where
  "stubFit mailer n email \<longleftrightarrow>
     list_all utf8_valid [hm_fromEmail mailer, hm_fromName mailer, n_OperationID n, n_RecipientID n, n_ReleaseID n,
       n_FirstName n, n_LastName n, n_ReleaseVersion n, n_ApplicationURL n, email, trimSpace (n_FirstName n @ '' '' @ n_LastName n)] \<and>
     hm_fromEmail mailer \<noteq> [] \<and> length (n_FirstName n) \<le> 64 \<and> length (n_ReleaseVersion n) \<le> 235 \<and>
     length (n_ApplicationURL n) \<le> 2048"

lemma chunk_high:
  assumes "s \<noteq> []" "0x80 \<le> byte (hd s)"
  shows "list_all (\<lambda>c. 0x80 \<le> byte c) (take (snd (decodeRune s)) s)"
  using assms(1) by (cases s rule: decodeRune_cases)
    (use assms(2) in \<open>auto simp: decodeRune_two decodeRune_three decodeRune_four in_bytes_def lead3_lo_def lead4_lo_def split: if_splits\<close>)

lemma escapeString_high: "list_all (\<lambda>c. 0x80 \<le> byte c) s \<Longrightarrow> escapeString s = s"
  by (induction s) (auto simp: escapeString_def htmlByte_def quote_char_def)

lemma utf8_valid_escapeString: "utf8_valid s \<Longrightarrow> utf8_valid (escapeString s)"
proof (induction s rule: chunks.induct)
  case (1 s)
  show ?case
  proof (cases "s = []")
    case False
    obtain n w where nw: "decodeRune s = (n, w)" by fastforce
    note st = utf8_valid_step [OF "1.prems" False nw]
    have "utf8_valid (escapeString (take w s))"
    proof (cases "byte (hd s) < 0x80")
      case True
      then obtain c t where "s = c # t" "byte c < 0x80" using False by (cases s) auto
      then show ?thesis
        using nw by (auto simp: escapeString_def htmlByte_def decodeRune_one ascii_def intro!: utf8_valid_ascii)
    next
      case hi: False
      then show ?thesis
        using chunk_high [OF False] utf8_valid_take [OF nw False st(1)] nw by (simp add: escapeString_high)
    qed
    moreover have "escapeString s = escapeString (take w s) @ escapeString (drop w s)"
      by (simp add: escapeString_def flip: concat_append map_append)
    ultimately show ?thesis using "1.IH" False nw st(2) by (simp add: utf8_valid_append)
  qed (simp add: escapeString_def)
qed

lemma stub_payload_valid:
  assumes "hm_mode mailer = MailModeStub" "stubFit mailer n email" "length (jprint (buildMailPayload mailer n email)) \<le> 65536"
  shows "validStubPayload (jprint (buildMailPayload mailer n email))"
proof -
  have u: "utf8_valid (n_FirstName n)" "utf8_valid (n_ReleaseVersion n)" "utf8_valid (n_ApplicationURL n)"
    using assms(2) by (simp_all add: stubFit_def)
  have "utf8_valid (plainText n)" "utf8_valid (htmlBody n)"
    unfolding plainText_def htmlBody_def
    by (intro utf8_valid_append u u [THEN utf8_valid_escapeString]; simp add: utf8_valid_ascii ascii_def newline_def quote_char_def)+
  moreover have "utf8_valid (''DAR release '' @ n_ReleaseVersion n @ '' is ready'')"
    using assms(2) unfolding stubFit_def by (intro utf8_valid_append, simp_all add: utf8_valid_ascii ascii_def)
  ultimately have "jwf (buildMailPayload mailer n email)"
    using assms(1,2) by (simp add: buildMailPayload_def Let_def stubFit_def utf8_valid_ascii ascii_def)
  note d = Decode_print [where dec = "decodeStruct payloadFields" and destination = zeroPayload and maxBytes = 65536,
      OF this stub_payload_distinct [OF assms(1)] _ stub_payload_decoded [OF assms(1)]]
  have "length (plainText n) \<le> 16384" "length (htmlBody n) \<le> 16384" "plainText n \<noteq> []" "htmlBody n \<noteq> []"
    using assms(2) escapeString_length [of "n_FirstName n"] escapeString_length [of "n_ReleaseVersion n"]
      escapeString_length [of "n_ApplicationURL n"]
    by (simp_all add: plainText_def htmlBody_def stubFit_def)
  then show ?thesis
    using d assms(2,3) by (simp add: validStubPayload_def elementsOf_def stubFit_def)
qed

lemma stub_keys:
  "canonicalKey ''Accept'' = ''Accept''" "canonicalKey ''Content-Type'' = ''Content-Type''"
  "canonicalKey ''User-Agent'' = ''User-Agent''" "canonicalKey ''Authorization'' = ''Authorization''"
  "canonicalKey ''X-Stub-Request-Id'' = ''X-Stub-Request-Id''" "canonicalKey ''X-Message-Id'' = ''X-Message-Id''"
  "canonicalKey ''Retry-After'' = ''Retry-After''" "canonicalKey ''Cache-Control'' = ''Cache-Control''"
  by (simp_all add: canonicalKey_def tokenChar_def char_class_defs upper_char_def lower_char_def char_eval)

lemma stub_serves_client:
  assumes "NewHTTPMailer config = Inr mailer" "mc_Mode config = MailModeStub" "mailRequest mailer n = Inr request"
    and "stubFit mailer n (fst (canonicalEmail (n_Email n)))"
  shows "ServeStub waited stub (stubRequestOf request) =
    (stubAnswer waited (st_scenario stub) (headerSet ''X-Stub-Request-Id'' (''stub-'' @ take 24 (hexEncode (sha256 (rq_Body request))))
       (headerSet ''Cache-Control'' ''no-store'' [])),
     stub\<lparr>st_requestCount := st_requestCount stub + 1, st_lastDigest := hexEncode (sha256 (rq_Body request))\<rparr>)"
proof -
  note m = mailer_facts [OF assms(1)]
  have mode: "hm_mode mailer = MailModeStub" using m(1) assms(2) by simp
  have "validStubEndpoint (hm_endpoint mailer)" using m(4) assms(2) by (auto simp: endpointFor_def split: if_splits)
  then have path: "\<exists>u. urlParse (hm_endpoint mailer) = Some u \<and> u_path u = ''/v3/mail/send''"
    by (auto simp: validStubEndpoint_def split: option.splits if_splits)
  have r: "rq_URL request = hm_endpoint mailer" "rq_Body request = jprint (buildMailPayload mailer n (fst (canonicalEmail (n_Email n))))"
    "length (rq_Body request) \<le> 65536" "rq_Body request \<noteq> []"
    "rq_Headers request = [(''Accept'', ''application/json''), (''Content-Type'', ''application/json''), (''User-Agent'', ''dar-distribution-go/0.1'')]"
    using assms(3) mode by (auto simp: mailRequest_def Let_def simp del: jprint.simps split: prod.splits if_splits)
  have "validStubPayload (rq_Body request)"
    unfolding r(2) by (rule stub_payload_valid [OF mode assms(4)]) (use r(2,3) in simp)
  moreover have "headerValues (sq_Header (stubRequestOf request)) ''Authorization'' = []"
    by (simp add: stubRequestOf_def r(5) headerValues_def stub_keys)
  moreover have "readBounded (Some (maxBytesReader 65536 (sq_Body (stubRequestOf request)))) 65536 = Inr (rq_Body request)"
    using r(3) by (simp add: stubRequestOf_def readBounded_def maxBytesReader_def)
  moreover have "sq_Path (stubRequestOf request) = ''/v3/mail/send''" using path by (auto simp: stubRequestOf_def r(1))
  moreover have "sq_Method (stubRequestOf request) = ''POST''" by (simp add: stubRequestOf_def)
  ultimately show ?thesis using r(3,4) by (simp add: ServeStub_def Let_def)
qed

lemma stub_scenarios:
  assumes "requestID \<noteq> []" "length requestID \<le> 128"
    "transport = (\<lambda>response. case ss_Status response of
       None \<Rightarrow> None | Some status \<Rightarrow> Some \<lparr>rs_StatusCode = status, rs_Header = ss_Header response\<rparr>)"
  shows "(case transport (stubAnswer waited scenario
        (headerSet ''X-Stub-Request-Id'' requestID (headerSet ''Cache-Control'' ''no-store'' []))) of
      None \<Rightarrow> mailRefused MailUnknown ''PROVIDER_OUTCOME_UNKNOWN''
    | Some response \<Rightarrow> classifyMailResponse MailModeStub response) = scenarioResult waited scenario requestID"
proof -
  let ?h = "headerSet ''X-Stub-Request-Id'' requestID (headerSet ''Cache-Control'' ''no-store'' [])"
  have b: "boundedHeader ?h ''X-Message-Id'' = []" "boundedHeader (headerSet ''Retry-After'' ''1'' ?h) ''X-Message-Id'' = []"
    "boundedHeader ?h ''X-Stub-Request-Id'' = requestID"
    "boundedHeader (headerSet ''Retry-After'' ''1'' ?h) ''X-Stub-Request-Id'' = requestID"
    using assms(2) by (simp_all add: boundedHeader_def headerGet_def headerValues_set stub_keys)
  have "parseInt ''1'' = Some 1" using parseInt_itoa [of 1] by (simp add: int64_ok_def itoa_def itoa_nat.simps digit_char_def char_eval)
  then have "retryAfter (headerSet ''Retry-After'' ''1'' ?h) = second"
    by (simp add: retryAfter_def headerGet_def headerValues_set)
  then show ?thesis
    using assms(1,3) b by (simp add: stubAnswer_def scenarioResult_def classifyMailResponse_def Let_def)
qed

text \<open>The notifications of the worker are such notifications.\<close>

lemma trimSpace_ascii: "ascii s \<Longrightarrow> ascii (trimSpace s)"
proof -
  assume a: "ascii s"
  let ?sp = "\<lambda>ch :: chunk. isSpace (fst ch)"
  have "set (trimSpace s) \<subseteq> (\<Union>ch \<in> set (chunks s). set (snd ch))"
    unfolding trimSpace_def Let_def by (auto dest!: set_dropWhileD)
  then have "set (trimSpace s) \<subseteq> set s" using concat_chunks [of s] by (metis set_concat image_image set_map)
  then show ?thesis using a by (auto simp: ascii_def list_all_iff)
qed

lemma name_length: "rmatch namePattern s \<Longrightarrow> length s \<le> 64"
  by (auto simp: namePattern_def rmatch_cls_seq rmatch_rupto_cls simp del: rmatch.simps split: list.splits)

lemma worker_notification_fit:
  assumes "NewHTTPMailer config = Inr mailer" "utf8_valid (mc_FromName config)"
    and "wfMessage message" "validRecipient r" "length (qm_ReleaseVersion message) \<le> 235" "length (qm_ApplicationURL message) \<le> 2048"
  shows "stubFit mailer (mailFor options message r) (fst (canonicalEmail (rc_Email r)))"
proof -
  have f: "rmatch emailPattern (hm_fromEmail mailer)" "hm_fromName mailer = mc_FromName config"
    using assms(1) by (auto simp: NewHTTPMailer_def canonicalEmail_def Let_def split: prod.splits if_splits sum.splits)
  have v: "rmatch namePattern (rc_FirstName r)" "rmatch namePattern (rc_LastName r)" "rmatch emailPattern (rc_Email r)"
    using assms(4) by (simp_all add: validRecipient_def)
  have "ascii (rc_FirstName r @ '' '' @ rc_LastName r)" using name_ascii v by (simp add: ascii_def)
  then have "utf8_valid (trimSpace (rc_FirstName r @ '' '' @ rc_LastName r))" by (intro utf8_valid_ascii trimSpace_ascii)
  moreover have "fst (canonicalEmail (rc_Email r)) = rc_Email r"
    using canonical_of_match [OF v(3)] by (simp add: canonicalEmail_def Let_def)
  ultimately show ?thesis
    using assms(2,3,5,6) email_bytes [OF f(1)] email_bytes(1) [OF v(3)] name_ascii v(1,2) name_length [OF v(1)]
    unfolding stubFit_def mailFor_def notificationOf_def f(2)
    by (simp add: wfMessage_def utf8_valid_ascii recipientIDOf_def ascii_lower_hex hexEncode_lower_hex)
qed

section \<open>Claim\<close>



end
