(* ===== verification/Runtime.thy ===== *)
theory Runtime
  imports WorkerConfig
begin

text \<open>
  \<open>internal/distribution/runtime.go\<close>: the handling of one received queue message. A goroutine renews the lock of
  the message while the worker processes it; when the worker is done the renewal is stopped and the message is
  settled. The main results: the renewal ends within its budget, and a message is settled at most once, as the
  worker decided, and only while its lock is known to be held.
\<close>

section \<open>Lock renewal\<close>

definition renewInterval :: duration where "renewInterval = 30 * second"
definition renewBudget :: duration where "renewBudget = 15 * 60 * second"
definition renewTimeout :: duration where "renewTimeout = 10 * second"

lemmas renew_defs = renewInterval_def renewBudget_def renewTimeout_def second_def

text \<open>
  What the loop depends on: when its context is cancelled by others (time since the start), how long the renewal
  at a tick takes and whether it succeeds, and which of several ready cases a \<open>select\<close> picks. The call to the
  broker gets a context with a timeout and returns when that ends.
\<close>

record lockEnv =
  le_cancelAt :: "duration option"
  le_renew :: "nat \<Rightarrow> duration \<times> bool"
  le_pick :: "nat \<Rightarrow> nat"

datatype renewEvent = CtxDone | DeadlineC | TickerC

datatype lockError = BudgetExhausted | RenewalFailed

definition cancelledBy :: "lockEnv \<Rightarrow> duration \<Rightarrow> bool" where
  "cancelledBy env t = (case le_cancelAt env of None \<Rightarrow> False | Some c \<Rightarrow> c \<le> t)"

definition renewTook :: "lockEnv \<Rightarrow> nat \<Rightarrow> duration" where
  "renewTook env i = max 0 (min (fst (le_renew env i)) renewTimeout)"

text \<open>
  The \<open>select\<close> after tick \<open>i\<close>, whose renewal took some time: each case with the time at which it is ready, the
  earliest of them, and the pick among the cases ready then. The next tick is always in the future, because a
  renewal ends before it.
\<close>

definition selectCases :: "lockEnv \<Rightarrow> nat \<Rightarrow> (renewEvent \<times> duration) list" where
  "selectCases env i =
     (let t = int i * renewInterval + (if i = 0 then 0 else renewTook env i)
      in (case le_cancelAt env of None \<Rightarrow> [] | Some c \<Rightarrow> [(CtxDone, max c t)]) @
         [(DeadlineC, max renewBudget t), (TickerC, int (Suc i) * renewInterval)])"

definition selectCase :: "lockEnv \<Rightarrow> nat \<Rightarrow> renewEvent \<times> duration" where
  "selectCase env i =
     (let cases = selectCases env i;
          earliest = fold min (map snd cases) (snd (hd cases));
          ready = filter (\<lambda>c. snd c = earliest) cases
      in ready ! (le_pick env i mod length ready))"

lemma renewTook_range: "0 \<le> renewTook env i" "renewTook env i \<le> renewTimeout"
  by (auto simp: renewTook_def renew_defs)

lemma fold_min_earliest: "fold min xs (a :: duration) = Min (insert a (set xs))"
  using Min.set_eq_fold [of a xs] by simp

lemma selectCase_in:
  "selectCase env i \<in> set (selectCases env i)" "c \<in> set (selectCases env i) \<Longrightarrow> snd (selectCase env i) \<le> snd c"
proof -
  let ?cs = "selectCases env i"
  have ne: "?cs \<noteq> []" by (simp add: selectCases_def Let_def)
  define earliest where "earliest = fold min (map snd ?cs) (snd (hd ?cs))"
  have e: "earliest = Min (snd ` set ?cs)"
    unfolding earliest_def fold_min_earliest using ne by (simp add: insert_absorb)
  define ready where "ready = filter (\<lambda>c. snd c = earliest) ?cs"
  have "earliest \<in> snd ` set ?cs" unfolding e using ne by (intro Min_in) auto
  then have "ready \<noteq> []" unfolding ready_def filter_empty_conv by auto
  then have "ready ! (le_pick env i mod length ready) \<in> set ready" by (intro nth_mem) simp
  then have s: "selectCase env i \<in> set ready"
    unfolding selectCase_def Let_def earliest_def [symmetric] ready_def [symmetric] .
  then show "selectCase env i \<in> set ?cs" by (simp add: ready_def)
  show "c \<in> set ?cs \<Longrightarrow> snd (selectCase env i) \<le> snd c" using s by (simp add: ready_def e)
qed

lemma selectCase_tick:
  assumes "selectCase env i = (TickerC, t)"
  shows "t = int (Suc i) * renewInterval" "Suc i \<le> 30"
proof -
  show t: "t = int (Suc i) * renewInterval"
    using selectCase_in(1) [of env i] assms by (auto simp: selectCases_def Let_def split: option.splits)
  let ?t = "int i * renewInterval + (if i = 0 then 0 else renewTook env i)"
  have "(DeadlineC, max renewBudget ?t) \<in> set (selectCases env i)" by (simp add: selectCases_def Let_def)
  then have "t \<le> max renewBudget ?t" using selectCase_in(2) [of _ env i] assms by fastforce
  moreover have "?t < t" using renewTook_range [of env i] by (simp add: t renew_defs algebra_simps)
  ultimately have "t \<le> renewBudget" by simp
  then show "Suc i \<le> 30" by (simp add: t renew_defs)
qed

text \<open>
  The loop, from the \<open>select\<close> after tick \<open>i\<close> on: what is sent on \<open>done\<close>, when, and the times at which renewals
  started.
\<close>

function renewFrom :: "lockEnv \<Rightarrow> nat \<Rightarrow> lockError option \<times> duration \<times> duration list" where
  "renewFrom env i =
     (case selectCase env i of
        (CtxDone, at) \<Rightarrow> (None, at, [])
      | (DeadlineC, at) \<Rightarrow> (Some BudgetExhausted, at, [])
      | (TickerC, at) \<Rightarrow>
          if snd (le_renew env (Suc i))
          then (case renewFrom env (Suc i) of (sent, ended, starts) \<Rightarrow> (sent, ended, at # starts))
          else ((if cancelledBy env (at + renewTook env (Suc i)) then None else Some RenewalFailed),
                at + renewTook env (Suc i), [at]))"
  by pat_completeness auto
termination
proof (relation "measure (\<lambda>(env, i). 30 - i)")
  fix env i x at
  assume "(x, at) = selectCase env i" "x = TickerC"
  then show "((env, Suc i), env, i) \<in> measure (\<lambda>(env, i). 30 - i)"
    using selectCase_tick(2) [of env i at] by simp
qed simp

declare renewFrom.simps [simp del]

definition renewMessageLock :: "lockEnv \<Rightarrow> lockError option \<times> duration \<times> duration list" where
  "renewMessageLock env = renewFrom env 0"

text \<open>Renewals start at the ticks, at most thirty of them, and each ended in success except perhaps the last.\<close>

lemma renewFrom_runs:
  assumes "renewFrom env i = (sent, ended, starts)" "i \<le> 30"
  shows "starts = map (\<lambda>k. int k * renewInterval) [Suc i ..< Suc i + length starts] \<and> i + length starts \<le> 30 \<and>
    ended \<le> renewBudget + renewTimeout \<and>
    (\<forall>k. i < k \<and> k < i + length starts \<longrightarrow> snd (le_renew env k)) \<and>
    (sent = Some BudgetExhausted \<longrightarrow> renewBudget \<le> ended \<and> (\<forall>k. i < k \<and> k \<le> i + length starts \<longrightarrow> snd (le_renew env k))) \<and>
    (sent = Some RenewalFailed \<longrightarrow> starts \<noteq> [] \<and> \<not> snd (le_renew env (i + length starts)) \<and> \<not> cancelledBy env ended) \<and>
    (sent = None \<longrightarrow> cancelledBy env ended)"
  using assms
proof (induction "30 - i" arbitrary: i sent ended starts rule: less_induct)
  case less
  obtain e at where s: "selectCase env i = (e, at)" by fastforce
  let ?t = "int i * renewInterval + (if i = 0 then 0 else renewTook env i)"
  have lim: "?t \<le> renewBudget + renewTimeout"
    using renewTook_range [of env i] less.prems(2) by (simp add: renew_defs)
  have d: "at \<le> max renewBudget ?t"
    using selectCase_in(2) [of "(DeadlineC, max renewBudget ?t)" env i] s by (simp add: selectCases_def Let_def)
  have m: "(e, at) \<in> set (selectCases env i)" using selectCase_in(1) [of env i] s by simp
  show ?case
  proof (cases e)
    case CtxDone
    then obtain c where c: "le_cancelAt env = Some c" "at = max c ?t"
      using m by (cases "le_cancelAt env") (simp_all add: selectCases_def Let_def)
    then have "sent = None" "ended = at" "starts = []" using less.prems(1) s CtxDone by (simp_all add: renewFrom.simps [of env i])
    then show ?thesis using c d lim less.prems(2) by (auto simp: cancelledBy_def) (simp_all add: renew_defs)
  next
    case DeadlineC
    then show ?thesis
      using less.prems s m d lim
      by (auto simp: renewFrom.simps [of env i] selectCases_def Let_def split: option.splits) (simp_all add: renew_defs)
  next
    case TickerC
    note tick = selectCase_tick [OF s [unfolded TickerC]]
    have en: "at + renewTook env (Suc i) \<le> renewBudget + renewTimeout"
      using tick renewTook_range [of env "Suc i"] by (simp add: renew_defs)
    show ?thesis
    proof (cases "snd (le_renew env (Suc i))")
      case True
      obtain sent' ended' starts' where r: "renewFrom env (Suc i) = (sent', ended', starts')" by (cases "renewFrom env (Suc i)")
      have q: "sent = sent'" "ended = ended'" "starts = at # starts'"
        using less.prems(1) s TickerC True r by (auto simp: renewFrom.simps [of env i])
      have ih: "starts' = map (\<lambda>k. int k * renewInterval) [Suc (Suc i) ..< Suc (Suc i) + length starts'] \<and>
          Suc i + length starts' \<le> 30 \<and> ended' \<le> renewBudget + renewTimeout \<and>
          (\<forall>k. Suc i < k \<and> k < Suc i + length starts' \<longrightarrow> snd (le_renew env k)) \<and>
          (sent' = Some BudgetExhausted \<longrightarrow> renewBudget \<le> ended' \<and> (\<forall>k. Suc i < k \<and> k \<le> Suc i + length starts' \<longrightarrow> snd (le_renew env k))) \<and>
          (sent' = Some RenewalFailed \<longrightarrow> starts' \<noteq> [] \<and> \<not> snd (le_renew env (Suc i + length starts')) \<and> \<not> cancelledBy env ended') \<and>
          (sent' = None \<longrightarrow> cancelledBy env ended')"
        by (rule less.hyps [OF _ r tick(2)]) (use tick(2) in simp)
      note ih2 = ih [THEN conjunct2]
      have "[Suc i ..< Suc i + length (at # starts')] = Suc i # [Suc (Suc i) ..< Suc (Suc i) + length starts']"
        by (simp add: upt_conv_Cons del: upt_Suc)
      then have c1: "at # starts' = map (\<lambda>k. int k * renewInterval) [Suc i ..< Suc i + length (at # starts')]"
        using ih [THEN conjunct1] tick(1) by (simp only: list.map)
      have k: "snd (le_renew env k)" if "i < k" "Suc i < k \<Longrightarrow> snd (le_renew env k)" for k
        using that True by (cases "k = Suc i") simp_all
      have c4: "\<forall>k. i < k \<and> k < i + length (at # starts') \<longrightarrow> snd (le_renew env k)"
        by (intro allI impI, rule k) (use ih2 in simp_all)
      have c5: "sent' = Some BudgetExhausted \<longrightarrow>
          renewBudget \<le> ended' \<and> (\<forall>k. i < k \<and> k \<le> i + length (at # starts') \<longrightarrow> snd (le_renew env k))"
        by (intro conjI allI impI, simp add: ih2, rule k) (use ih2 in simp_all)
      have c: "i + length (at # starts') \<le> 30" "ended' \<le> renewBudget + renewTimeout" "sent' = None \<longrightarrow> cancelledBy env ended'"
        "sent' = Some RenewalFailed \<longrightarrow> at # starts' \<noteq> [] \<and> \<not> snd (le_renew env (i + length (at # starts'))) \<and> \<not> cancelledBy env ended'"
        using ih2 by simp_all
      show ?thesis unfolding q by (intro conjI c1 c c4 c5)
    next
      case False
      then have q: "ended = at + renewTook env (Suc i)" "starts = [at]"
        "sent = (if cancelledBy env ended then None else Some RenewalFailed)"
        using less.prems(1) s TickerC by (auto simp: renewFrom.simps [of env i])
      then show ?thesis using tick en False by (auto split: if_splits)
    qed
  qed
qed

text \<open>
  C21. The renewal loop ends: at most fifteen minutes and ten seconds after its start it has sent exactly one value. Its
  renewals, at most thirty, start thirty seconds apart; it reports a lost lock exactly when a renewal failed
  before anything else cancelled the work, a spent budget only after fifteen minutes of successful renewals,
  and no error only when the work was cancelled or finished.
\<close>

theorem renewal_terminates:
  "case renewMessageLock env of (sent, ended, starts) \<Rightarrow>
     ended \<le> renewBudget + renewTimeout \<and> length starts \<le> 30 \<and>
     starts = map (\<lambda>k. int k * renewInterval) [1 ..< Suc (length starts)] \<and>
     (sent = Some BudgetExhausted \<longrightarrow> renewBudget \<le> ended \<and> (\<forall>k. 0 < k \<and> k \<le> length starts \<longrightarrow> snd (le_renew env k))) \<and>
     (sent = Some RenewalFailed \<longrightarrow> \<not> snd (le_renew env (length starts)) \<and> \<not> cancelledBy env ended) \<and>
     (sent = None \<longrightarrow> cancelledBy env ended)"
  using renewFrom_runs [of env 0] by (cases "renewFrom env 0") (simp add: renewMessageLock_def)

theorem renewal_terminates_witness:
  "\<exists>ended starts. renewMessageLock \<lparr>le_cancelAt = None, le_renew = (\<lambda>_. (second, True)), le_pick = (\<lambda>_. 0)\<rparr> =
     (Some BudgetExhausted, ended, starts) \<and> renewBudget \<le> ended \<and> length starts \<le> 30"
proof -
  let ?env = "\<lparr>le_cancelAt = None, le_renew = (\<lambda>_. (second, True)), le_pick = (\<lambda>_. 0)\<rparr>"
  obtain sent ended starts where r: "renewMessageLock ?env = (sent, ended, starts)" by (cases "renewMessageLock ?env")
  have t: "sent = Some BudgetExhausted \<longrightarrow> renewBudget \<le> ended" "sent \<noteq> Some RenewalFailed" "sent \<noteq> None" "length starts \<le> 30"
    using renewal_terminates [of ?env] unfolding r by (simp_all add: cancelledBy_def)
  have "sent = Some BudgetExhausted" by (cases sent; cases "the sent") (use t(2,3) in auto)
  then show ?thesis using r t(1,4) by simp
qed

section \<open>Settlement\<close>

datatype settlement = CompleteMessage | DeadLetterMessage string string | AbandonMessage

definition settlementOf :: "ProcessResult \<Rightarrow> settlement" where
  "settlementOf result =
     (case pr_Disposition result of
        Complete \<Rightarrow> CompleteMessage
      | DeadLetter \<Rightarrow>
          DeadLetterMessage (if pr_ReasonCode result = [] then ''WORKER_REJECTED'' else pr_ReasonCode result)
            ''DAR distribution worker rejected the bounded operation''
      | Abandon \<Rightarrow> AbandonMessage)"

text \<open>
  The two goroutines of \<open>processReceivedMessage\<close> as a step relation. The main one processes, waits if the message is
  to be abandoned, cancels, joins the renewal and settles; the renewal runs beside it and reports once. The
  context of the message is cancelled by the parent, by the renewal or by the main goroutine.
\<close>

datatype handlerReturn = ReturnCanceled | ReturnLock lockError | ReturnSettled "go_error option"

datatype mainPhase =
    Processing
  | Delaying ProcessResult
  | Joining "ProcessResult option"
  | Settling ProcessResult
  | Returned handlerReturn

datatype renewPhase = Renewing | Sent "lockError option"

record handling =
  h_main :: mainPhase
  h_renew :: renewPhase
  h_cancelled :: bool
  h_renewals :: nat
  h_settled :: "settlement list"

definition handlingStart :: handling where
  "handlingStart = \<lparr>h_main = Processing, h_renew = Renewing, h_cancelled = False, h_renewals = 0, h_settled = []\<rparr>"

definition afterProcess :: "ProcessResult \<Rightarrow> handling \<Rightarrow> handling" where
  "afterProcess result s =
     (if pr_Disposition result = Abandon then s\<lparr>h_main := Delaying result\<rparr>
      else s\<lparr>h_main := Joining (Some result), h_cancelled := True\<rparr>)"

definition afterJoin :: "ProcessResult option \<Rightarrow> lockError option \<Rightarrow> handling \<Rightarrow> handling" where
  "afterJoin x sent s =
     s\<lparr>h_main := (case x of
         None \<Rightarrow> Returned ReturnCanceled
       | Some result \<Rightarrow> (case sent of Some err \<Rightarrow> Returned (ReturnLock err) | None \<Rightarrow> Settling result))\<rparr>"

text \<open>\<open>works\<close> holds of the results that the worker may return for the message.\<close>

inductive hstep :: "(ProcessResult \<Rightarrow> bool) \<Rightarrow> handling \<Rightarrow> handling \<Rightarrow> bool" for works where
  parent_cancel: "hstep works s (s\<lparr>h_cancelled := True\<rparr>)"
| renew_again: "h_renew s = Renewing \<Longrightarrow> hstep works s (s\<lparr>h_renewals := Suc (h_renewals s)\<rparr>)"
| renew_done: "h_renew s = Renewing \<Longrightarrow> h_cancelled s \<Longrightarrow> hstep works s (s\<lparr>h_renew := Sent None\<rparr>)"
| renew_budget: "h_renew s = Renewing \<Longrightarrow> hstep works s (s\<lparr>h_renew := Sent (Some BudgetExhausted), h_cancelled := True\<rparr>)"
| renew_failed: "h_renew s = Renewing \<Longrightarrow> \<not> h_cancelled s \<Longrightarrow>
    hstep works s (s\<lparr>h_renew := Sent (Some RenewalFailed), h_cancelled := True\<rparr>)"
| process_returns: "h_main s = Processing \<Longrightarrow> works result \<Longrightarrow> hstep works s (afterProcess result s)"
| delay_over: "h_main s = Delaying result \<Longrightarrow> hstep works s (s\<lparr>h_main := Joining (Some result), h_cancelled := True\<rparr>)"
| delay_cut: "h_main s = Delaying result \<Longrightarrow> h_cancelled s \<Longrightarrow> hstep works s (s\<lparr>h_main := Joining None\<rparr>)"
| joins: "h_main s = Joining x \<Longrightarrow> h_renew s = Sent sent \<Longrightarrow> hstep works s (afterJoin x sent s)"
| settles: "h_main s = Settling result \<Longrightarrow>
    hstep works s (s\<lparr>h_main := Returned (ReturnSettled answer), h_settled := h_settled s @ [settlementOf result]\<rparr>)"

inductive hreach :: "(ProcessResult \<Rightarrow> bool) \<Rightarrow> handling \<Rightarrow> bool" for works where
  start: "hreach works handlingStart"
| more: "hreach works s \<Longrightarrow> hstep works s s' \<Longrightarrow> hreach works s'"

text \<open>What each phase of the main goroutine knows.\<close>

definition handlingOk :: "(ProcessResult \<Rightarrow> bool) \<Rightarrow> handling \<Rightarrow> bool" where
  "handlingOk works s \<longleftrightarrow>
     (h_renew s \<noteq> Renewing \<longrightarrow> h_cancelled s) \<and>
     (case h_main s of
        Processing \<Rightarrow> h_settled s = []
      | Delaying result \<Rightarrow> h_settled s = [] \<and> works result \<and> pr_Disposition result = Abandon
      | Joining x \<Rightarrow> h_settled s = [] \<and> h_cancelled s \<and> (\<forall>result. x = Some result \<longrightarrow> works result)
      | Settling result \<Rightarrow> h_settled s = [] \<and> h_renew s = Sent None \<and> works result
      | Returned (ReturnSettled _) \<Rightarrow> h_renew s = Sent None \<and> (\<exists>result. works result \<and> h_settled s = [settlementOf result])
      | Returned ReturnCanceled \<Rightarrow> h_settled s = [] \<and> h_renew s \<noteq> Renewing
      | Returned (ReturnLock err) \<Rightarrow> h_settled s = [] \<and> h_renew s = Sent (Some err))"

lemma hstep_ok: "hstep works s s' \<Longrightarrow> handlingOk works s \<Longrightarrow> handlingOk works s'"
  by (induction rule: hstep.induct)
    (auto simp: handlingOk_def afterProcess_def afterJoin_def split: mainPhase.splits handlerReturn.splits option.splits)

lemma hreach_ok: "hreach works s \<Longrightarrow> handlingOk works s"
  by (induction rule: hreach.induct) (use hstep_ok in \<open>auto simp: handlingOk_def handlingStart_def\<close>)

text \<open>Steps left for the handler itself; the parent and successful renewals do not count.\<close>

definition stepsLeft :: "handling \<Rightarrow> nat" where
  "stepsLeft s =
     (case h_main s of Processing \<Rightarrow> 4 | Delaying _ \<Rightarrow> 3 | Joining _ \<Rightarrow> 2 | Settling _ \<Rightarrow> 1 | Returned _ \<Rightarrow> 0) +
     (if h_renew s = Renewing then 1 else 0)"



section \<open>Start of the worker\<close>

text \<open>
  \<open>RunWorker\<close> up to its loop. The constructors of the Azure SDK are parameters: each says whether it succeeds.
  \<open>NewAzureReceiptStore\<close> refuses a nil client only, which the SDK never hands out; \<open>NewWorker\<close> panics on unsafe options.
\<close>

record sdk =
  sdk_Credential :: bool
  sdk_Storage :: bool
  sdk_ServiceBus :: bool
  sdk_Receiver :: bool

datatype startup = Failed go_error | Panicked | Ready WorkerOptions HTTPMailer

definition startWorker :: "sdk \<Rightarrow> RuntimeConfig \<Rightarrow> startup" where
  "startWorker s config =
     (if \<not> sdk_Credential s \<or> \<not> sdk_Storage s then Failed ErrWorkerConfig
      else case NewAzureBlobStore False [rt_ManifestsContainer config, rt_BatchesContainer config] of
        Inl err \<Rightarrow> Failed err
      | Inr blobs \<Rightarrow>
          (case NewHTTPMailer (MailerConfig config) of
             Inl err \<Rightarrow> Failed err
           | Inr mailer \<Rightarrow>
               (case NewWorker False
                   \<lparr>wo_Blobs = blobs, wo_HMACKey = HMACKey config, wo_HMACKeyVersion = rt_HMACKeyVersion config,
                    wo_Provider = Provider config, wo_MaxAttempts = rt_MaxAttempts config,
                    wo_ClaimTimeout = rt_ClaimTimeout config\<rparr> of
                  None \<Rightarrow> Panicked
                | Some options \<Rightarrow>
                    if \<not> sdk_ServiceBus s \<or> \<not> sdk_Receiver s then Failed ErrWorkerConfig else Ready options mailer)))"

text \<open>
  C26. A policy that the environment parser accepts never makes the worker panic, and makes it start whenever the SDK
  clients can be created: with the two containers readable, a key of 32 to 64 bytes, one to five attempts, a
  claim timeout of 30 to 900 seconds, a provider label that fits the mail mode, and a mail client whose
  timeout is at most 30 seconds.
\<close>

theorem accepted_policy_starts:
  assumes "ParseWorkerEnvironment env = Inr config"
  shows "startWorker s config \<noteq> Panicked \<and>
    (sdk_Credential s \<and> sdk_Storage s \<and> sdk_ServiceBus s \<and> sdk_Receiver s \<longrightarrow>
      (\<exists>options mailer. startWorker s config = Ready options mailer \<and>
         bs_allowed (wo_Blobs options) = [rt_ManifestsContainer config, rt_BatchesContainer config] \<and>
         32 \<le> length (wo_HMACKey options) \<and> length (wo_HMACKey options) \<le> 64 \<and>
         1 \<le> wo_MaxAttempts options \<and> wo_MaxAttempts options \<le> 5 \<and>
         30 * second \<le> wo_ClaimTimeout options \<and> wo_ClaimTimeout options \<le> 900 * second \<and>
         (wo_Provider options = ''stub'') = (hm_mode mailer = MailModeStub) \<and>
         hc_Timeout (hm_client mailer) \<le> 30 * second))"
proof -
  note v = ParseWorkerEnvironment_valid [OF assms, unfolded validRuntime_def]
  obtain mailer where m: "NewHTTPMailer (MailerConfig config) = Inr mailer" using v by (auto simp: is_ok_iff)
  let ?blobs = "\<lparr>bs_allowed = [rt_ManifestsContainer config, rt_BatchesContainer config]\<rparr>"
  have b: "NewAzureBlobStore False [rt_ManifestsContainer config, rt_BatchesContainer config] = Inr ?blobs"
    using v by (simp add: NewAzureBlobStore_def)
  let ?options = "\<lparr>wo_Blobs = ?blobs, wo_HMACKey = HMACKey config, wo_HMACKeyVersion = rt_HMACKeyVersion config,
      wo_Provider = Provider config, wo_MaxAttempts = rt_MaxAttempts config, wo_ClaimTimeout = rt_ClaimTimeout config\<rparr>"
  have c: "30 * second \<le> rt_ClaimTimeout config" "rt_ClaimTimeout config \<le> 900 * second" "0 < rt_ClaimTimeout config"
    using v by (auto simp: second_def)
  have w: "NewWorker False ?options = Some ?options"
    using v c(3) by (simp add: NewWorker_def HMACKey_def Provider_def del: rmatch.simps)
  have t: "1 * second \<le> rt_MailTimeout config" "rt_MailTimeout config \<le> 30 * second" using v by (auto simp: second_def)
  have "hc_Timeout (hm_client mailer) = rt_MailTimeout config"
    using m t(1) by (auto simp: NewHTTPMailer_def MailerConfig_def Let_def second_def split: prod.splits if_splits sum.splits)
  moreover have "hm_mode mailer = rt_MailMode config" using mailer_facts(1) [OF m] by (simp add: MailerConfig_def)
  ultimately show ?thesis
    using v c t(2) unfolding startWorker_def b m w sum.case option.case by (auto simp: HMACKey_def Provider_def)
qed

section \<open>The receive loop\<close>

text \<open>
  One iteration of the loop of \<open>RunWorker\<close>, by what it meets: the end of the context, the end of the health server, a
  receive that ran into its own deadline, a receive that failed (and whether the pause after it ended by the
  timer), or messages. The handling of a message is the one above; an interrupted one is only logged.
\<close>

datatype healthExit = HealthNil | HealthClosed | HealthBroken

datatype 'm loopEvent =
    LoopStopped
  | LoopHealth healthExit
  | LoopDeadline
  | LoopReceiveFailed bool
  | LoopMessages "'m list"

datatype runReturn = ReturnedNil | HealthServerStopped

fun runLoop :: "'m loopEvent list \<Rightarrow> 'm list \<times> runReturn option" where
  "runLoop [] = ([], None)"
| "runLoop (LoopStopped # es) = ([], Some ReturnedNil)"
| "runLoop (LoopHealth exit # es) = ([], Some (if exit = HealthBroken then HealthServerStopped else ReturnedNil))"
| "runLoop (LoopDeadline # es) = runLoop es"
| "runLoop (LoopReceiveFailed waited # es) = (if waited then runLoop es else ([], Some ReturnedNil))"
| "runLoop (LoopMessages messages # es) = (case runLoop es of (handled, r) \<Rightarrow> (messages @ handled, r))"

definition ends :: "'m loopEvent \<Rightarrow> bool" where
  "ends e = (case e of LoopStopped \<Rightarrow> True | LoopHealth _ \<Rightarrow> True | LoopReceiveFailed waited \<Rightarrow> \<not> waited | _ \<Rightarrow> False)"

definition messagesOf :: "'m loopEvent \<Rightarrow> 'm list" where
  "messagesOf e = (case e of LoopMessages messages \<Rightarrow> messages | _ \<Rightarrow> [])"

text \<open>
  Every message received before the end is handled once, in order; the worker returns at the first event that ends it,
  with an error only for a broken health server.
\<close>

lemma runLoop_handles:
  "fst (runLoop es) = concat (map messagesOf (takeWhile (\<lambda>e. \<not> ends e) es)) \<and>
   (snd (runLoop es) = None) = list_all (\<lambda>e. \<not> ends e) es \<and>
   (snd (runLoop es) = Some HealthServerStopped) = (find ends es = Some (LoopHealth HealthBroken))"
proof (induction es rule: runLoop.induct)
  case (5 waited es)
  then show ?case by (cases waited) (auto simp: ends_def messagesOf_def split: prod.splits)
qed (auto simp: ends_def messagesOf_def split: prod.splits)

section \<open>Health and audit\<close>

definition workerHealth :: "bool \<Rightarrow> int \<times> headers \<times> string" where
  "workerHealth ready =
     (let header = headerSet ''Content-Type'' ''application/json'' (headerSet ''Cache-Control'' ''no-store'' []);
          body = (\<lambda>status. jprint (JObj [(''service'', JStr ''dar-distribution-worker''), (''status'', JStr status)]))
      in if \<not> ready then (503, header, body ''starting'') else (200, header, body ''ok''))"

record serverLimits =
  sv_Addr :: string
  sv_ReadHeaderTimeout :: duration
  sv_ReadTimeout :: duration
  sv_WriteTimeout :: duration
  sv_IdleTimeout :: duration

definition workerHealthServer :: "int \<Rightarrow> serverLimits" where
  "workerHealthServer port =
     \<lparr>sv_Addr = '':'' @ itoa port, sv_ReadHeaderTimeout = 5 * second, sv_ReadTimeout = 5 * second,
      sv_WriteTimeout = 5 * second, sv_IdleTimeout = 30 * second\<rparr>"

text \<open>The attributes of the log line for an audit event.\<close>

definition emitted :: "AuditEvent \<Rightarrow> (string \<times> json) list" where
  "emitted event =
     [(''schema_version'', JStr ''1.0''), (''event'', JStr (ae_EventName event)), (''occurred_at'', JStr (ae_OccurredAt event)),
      (''operation_id'', JStr (ae_OperationID event)), (''release_id'', JStr (ae_ReleaseID event)),
      (''release_version'', JStr (ae_ReleaseVersion event)), (''recipient_id'', JStr (ae_RecipientID event)),
      (''hmac_key_version'', JStr (ae_HMACKeyVersion event)), (''queue_message_id'', JStr (ae_QueueMessageID event)),
      (''provider'', JStr (ae_Provider event)), (''receipt_status'', JStr (ae_ReceiptStatus event)),
      (''receipt_state_version'', jint (ae_ReceiptStateVersion event)), (''attempt_count'', jint (ae_AttemptCount event)),
      (''provider_http_status'', jint (ae_ProviderHTTPStatus event)), (''reason_code'', JStr (ae_ReasonCode event))]"

section \<open>The process\<close>

text \<open>
  \<open>cmd/dar-distribution-worker/main.go\<close>: the exit code, from the environment, the start and the return of the loop. A
  panic ends a Go process with code 2.
\<close>

definition workerExit :: "environment \<Rightarrow> sdk \<Rightarrow> 'm loopEvent list \<Rightarrow> int option" where
  "workerExit osEnv s es =
     (case LoadWorkerEnvironment osEnv of
        Inl _ \<Rightarrow> Some 1
      | Inr config \<Rightarrow>
          (case startWorker s config of
             Failed _ \<Rightarrow> Some 1
           | Panicked \<Rightarrow> Some 2
           | Ready _ _ \<Rightarrow> map_option (\<lambda>r. if r = HealthServerStopped then 1 else 0) (snd (runLoop es))))"

end
