(* ===== verification/Auth.thy ===== *)
theory Auth
  imports AppConfig Base64 GoHttp StrictJson
begin

text \<open>
  Package \<open>internal/auth\<close>: identity evidence from the trusted boundary in front of the download application
  (\<open>oidc.go\<close>, \<open>azure_container_apps.go\<close>, \<open>azure_container_apps_oidc.go\<close>). \<open>Authenticate\<close> returns one
  identity or refuses, by one of three adapters that the configuration selects.
\<close>

section \<open>Identities and policy\<close>

record Identity =
  id_Issuer :: string
  id_Subject :: string

record BoundaryPolicy =
  bp_ExpectedIssuer :: string
  bp_Mode :: TrustedIdentityMode
  bp_ExpectedAzureTenantID :: string
  bp_ExpectedOIDCProviderName :: string

definition IssuerHeader :: string where "IssuerHeader = ''X-DAR-OIDC-Issuer''"
definition SubjectHeader :: string where "SubjectHeader = ''X-DAR-OIDC-Subject''"
definition containerAppsPrincipalHeader :: string where "containerAppsPrincipalHeader = ''X-MS-CLIENT-PRINCIPAL''"
definition containerAppsPrincipalIDHeader :: string where "containerAppsPrincipalIDHeader = ''X-MS-CLIENT-PRINCIPAL-ID''"
definition containerAppsPrincipalIDPHeader :: string where "containerAppsPrincipalIDPHeader = ''X-MS-CLIENT-PRINCIPAL-IDP''"

definition azureAuthenticationType :: string where "azureAuthenticationType = ''aad''"
definition maxPrincipalHeaderBytes :: nat where "maxPrincipalHeaderBytes = 16 * 1024"
definition maxPrincipalClaims :: nat where "maxPrincipalClaims = 64"
definition maxClaimTypeBytes :: nat where "maxClaimTypeBytes = 512"
definition maxClaimValueBytes :: nat where "maxClaimValueBytes = 4096"
definition mappedAzureObjectIDClaim :: string where
  "mappedAzureObjectIDClaim = ''http://schemas.microsoft.com/identity/claims/objectidentifier''"
definition mappedAzureTenantIDClaim :: string where
  "mappedAzureTenantIDClaim = ''http://schemas.microsoft.com/identity/claims/tenantid''"
definition standardAzureObjectIDClaim :: string where "standardAzureObjectIDClaim = ''oid''"
definition standardAzureTenantIDClaim :: string where "standardAzureTenantIDClaim = ''tid''"

section \<open>Provider-neutral headers\<close>

definition authenticateOIDCHeaders :: "headers \<Rightarrow> string \<Rightarrow> Identity option" where
  "authenticateOIDCHeaders hs expectedIssuer =
     (if \<not> IsValidOIDCIssuer expectedIssuer then None
      else case (headerValues hs IssuerHeader, headerValues hs SubjectHeader) of
        ([issuer], [subject]) \<Rightarrow>
          if \<not> IsValidOIDCIssuer issuer \<or> issuer \<noteq> expectedIssuer \<or> \<not> IsValidOIDCSubject subject then None
          else Some \<lparr>id_Issuer = issuer, id_Subject = subject\<rparr>
      | _ \<Rightarrow> None)"

definition hasGenericOIDCIdentityHeaders :: "headers \<Rightarrow> bool" where
  "hasGenericOIDCIdentityHeaders hs \<longleftrightarrow> headerValues hs IssuerHeader \<noteq> [] \<or> headerValues hs SubjectHeader \<noteq> []"

section \<open>Container Apps principals\<close>

record containerAppsClaim =
  cl_Type :: string
  cl_Value :: string

record containerAppsPrincipal =
  cp_AuthenticationType :: string
  cp_Claims :: "containerAppsClaim list"
  cp_NameType :: string
  cp_RoleType :: string

definition zeroClaim :: containerAppsClaim where
  "zeroClaim = \<lparr>cl_Type = [], cl_Value = []\<rparr>"

definition zeroPrincipal :: containerAppsPrincipal where
  "zeroPrincipal = \<lparr>cp_AuthenticationType = [], cp_Claims = [], cp_NameType = [], cp_RoleType = []\<rparr>"

definition claimFields :: "(string \<times> containerAppsClaim setter) list" where
  "claimFields = [(''typ'', setString (\<lambda>v r. r\<lparr>cl_Type := v\<rparr>)), (''val'', setString (\<lambda>v r. r\<lparr>cl_Value := v\<rparr>))]"

text \<open>A JSON array into a slice of structs: every element starts from the zero value.\<close>

fun decodeElements :: "'r setter \<Rightarrow> 'r \<Rightarrow> json list \<Rightarrow> 'r list option" where
  "decodeElements dec zero [] = Some []"
| "decodeElements dec zero (j # js) =
     (case dec j zero of
        None \<Rightarrow> None
      | Some r \<Rightarrow> map_option ((#) r) (decodeElements dec zero js))"

definition setSlice :: "'e setter \<Rightarrow> 'e \<Rightarrow> ('e list \<Rightarrow> 'r \<Rightarrow> 'r) \<Rightarrow> 'r setter" where
  "setSlice dec zero upd j r =
     (case j of
        JNull \<Rightarrow> Some (upd [] r)
      | JArr js \<Rightarrow> map_option (\<lambda>es. upd es r) (decodeElements dec zero js)
      | _ \<Rightarrow> None)"

definition principalFields :: "(string \<times> containerAppsPrincipal setter) list" where
  "principalFields =
     [(''auth_typ'', setString (\<lambda>v r. r\<lparr>cp_AuthenticationType := v\<rparr>)),
      (''claims'', setSlice (decodeStruct claimFields) zeroClaim (\<lambda>v r. r\<lparr>cp_Claims := v\<rparr>)),
      (''name_typ'', setString (\<lambda>v r. r\<lparr>cp_NameType := v\<rparr>)),
      (''role_typ'', setString (\<lambda>v r. r\<lparr>cp_RoleType := v\<rparr>))]"

definition decodeCanonicalPrincipal :: "string \<Rightarrow> string option" where
  "decodeCanonicalPrincipal encodedPrincipal =
     (case b64Decode encodedPrincipal of
        None \<Rightarrow> None
      | Some decoded \<Rightarrow> if b64Encode decoded \<noteq> encodedPrincipal then None else Some decoded)"

text \<open>
  The exact schema test reads the document into maps: a repeated name counts once, its last value wins.
  Absent members read as the empty document, which is no valid JSON.
\<close>

definition hasExactJSONFields :: "(string \<times> json) list \<Rightarrow> string list \<Rightarrow> bool" where
  "hasExactJSONFields fs names \<longleftrightarrow>
     card (set (map fst fs)) = length names \<and> list_all (\<lambda>name. name \<in> set (map fst fs)) names"

definition claimSchema :: "json \<Rightarrow> bool" where
  "claimSchema j =
     (case j of
        JObj fs \<Rightarrow> hasExactJSONFields fs [''typ'', ''val'']
      | _ \<Rightarrow> False)"

definition hasExactPrincipalSchema :: "string \<Rightarrow> bool" where
  "hasExactPrincipalSchema raw =
     (case json_doc raw of
        Some (JObj fs) \<Rightarrow>
          hasExactJSONFields fs [''auth_typ'', ''claims'', ''name_typ'', ''role_typ''] \<and>
          (case map_of (rev fs) ''claims'' of
             Some (JArr js) \<Rightarrow> list_all claimSchema js
           | Some JNull \<Rightarrow> True
           | _ \<Rightarrow> False)
      | _ \<Rightarrow> False)"

definition hasAzureIdentityHeaders :: "headers \<Rightarrow> bool" where
  "hasAzureIdentityHeaders hs \<longleftrightarrow> list_ex (\<lambda>nv. hasPrefix (toUpper (fst nv)) ''X-MS-CLIENT-PRINCIPAL'') hs"

definition validClaimText :: "string \<Rightarrow> nat \<Rightarrow> bool" where
  "validClaimText value maximumBytes \<longleftrightarrow>
     \<not> (value = [] \<or> length value > maximumBytes \<or> \<not> utf8_valid value) \<and>
     list_all (\<lambda>character. \<not> isControl character) (runes value)"

definition readPrincipal :: "string \<Rightarrow> string \<Rightarrow> containerAppsPrincipal option" where
  "readPrincipal encodedPrincipal authenticationType =
     (if encodedPrincipal = [] \<or> length encodedPrincipal > maxPrincipalHeaderBytes then None
      else case decodeCanonicalPrincipal encodedPrincipal of
        None \<Rightarrow> None
      | Some decoded \<Rightarrow>
          if \<not> hasExactPrincipalSchema decoded then None
          else case Decode decoded (int maxPrincipalHeaderBytes) (decodeStruct principalFields) zeroPrincipal of
            Inl _ \<Rightarrow> None
          | Inr prin \<Rightarrow>
              if cp_AuthenticationType prin \<noteq> authenticationType \<or> length (cp_Claims prin) < 1 \<or>
                 length (cp_Claims prin) > maxPrincipalClaims
              then None else Some prin)"

section \<open>Entra principals\<close>

record claimScan =
  cs_tenantID :: string
  cs_objectID :: string
  cs_tenantClaims :: nat
  cs_objectClaims :: nat

fun scanClaims :: "containerAppsClaim list \<Rightarrow> claimScan \<Rightarrow> claimScan option" where
  "scanClaims [] st = Some st"
| "scanClaims (claim # claims) st =
     (if \<not> validClaimText (cl_Type claim) maxClaimTypeBytes \<or> \<not> validClaimText (cl_Value claim) maxClaimValueBytes then None
      else scanClaims claims
        (if cl_Type claim = standardAzureTenantIDClaim \<or> cl_Type claim = mappedAzureTenantIDClaim
         then st\<lparr>cs_tenantClaims := cs_tenantClaims st + 1, cs_tenantID := cl_Value claim\<rparr>
         else if cl_Type claim = standardAzureObjectIDClaim \<or> cl_Type claim = mappedAzureObjectIDClaim
         then st\<lparr>cs_objectClaims := cs_objectClaims st + 1, cs_objectID := cl_Value claim\<rparr>
         else st))"

definition authenticateAzureContainerApps :: "headers \<Rightarrow> string \<Rightarrow> string \<Rightarrow> Identity option" where
  "authenticateAzureContainerApps hs expectedIssuer expectedTenantID =
     (if \<not> IsAzureContainerAppsIssuer expectedIssuer expectedTenantID then None
      else case (headerValues hs containerAppsPrincipalHeader, headerValues hs containerAppsPrincipalIDHeader) of
        ([encodedPrincipal], [principalID]) \<Rightarrow>
          (let idpValues = headerValues hs containerAppsPrincipalIDPHeader
           in if length idpValues > 1 \<or> (length idpValues = 1 \<and> idpValues ! 0 \<noteq> azureAuthenticationType) then None
              else if \<not> IsCanonicalUUID principalID then None
              else case readPrincipal encodedPrincipal azureAuthenticationType of
                None \<Rightarrow> None
              | Some prin \<Rightarrow>
                  (case scanClaims (cp_Claims prin)
                          \<lparr>cs_tenantID = [], cs_objectID = [], cs_tenantClaims = 0, cs_objectClaims = 0\<rparr> of
                     None \<Rightarrow> None
                   | Some st \<Rightarrow>
                       if cs_tenantClaims st \<noteq> 1 \<or> cs_objectClaims st \<noteq> 1 \<or> \<not> IsCanonicalUUID (cs_tenantID st) \<or>
                          cs_tenantID st \<noteq> expectedTenantID \<or> \<not> IsCanonicalUUID (cs_objectID st) \<or>
                          cs_objectID st \<noteq> principalID
                       then None
                       else Some \<lparr>id_Issuer = expectedIssuer, id_Subject = principalID\<rparr>))
      | _ \<Rightarrow> None)"

section \<open>Custom providers\<close>

record customEvidence =
  ce_encodedPrincipal :: string
  ce_principalID :: string
  ce_identityProvider :: string

definition readCustomEvidence :: "headers \<Rightarrow> customEvidence option" where
  "readCustomEvidence hs =
     (case (headerValues hs containerAppsPrincipalHeader, headerValues hs containerAppsPrincipalIDHeader,
            headerValues hs containerAppsPrincipalIDPHeader) of
        ([p], [i], [d]) \<Rightarrow> Some \<lparr>ce_encodedPrincipal = p, ce_principalID = i, ce_identityProvider = d\<rparr>
      | _ \<Rightarrow> None)"

definition validContainerAppsClaims :: "containerAppsClaim list \<Rightarrow> bool" where
  "validContainerAppsClaims claims \<longleftrightarrow>
     list_all (\<lambda>claim. validClaimText (cl_Type claim) maxClaimTypeBytes \<and> validClaimText (cl_Value claim) maxClaimValueBytes) claims"

definition validCustomPrincipal :: "string \<Rightarrow> string \<Rightarrow> bool" where
  "validCustomPrincipal encodedPrincipal expectedProviderName =
     (case readPrincipal encodedPrincipal expectedProviderName of
        None \<Rightarrow> False
      | Some prin \<Rightarrow> validContainerAppsClaims (cp_Claims prin))"

definition authenticateAzureContainerAppsOIDC :: "headers \<Rightarrow> string \<Rightarrow> string \<Rightarrow> Identity option" where
  "authenticateAzureContainerAppsOIDC hs expectedIssuer expectedProviderName =
     (if \<not> IsValidOIDCIssuer expectedIssuer \<or> \<not> IsValidOIDCProviderName expectedProviderName then None
      else case readCustomEvidence hs of
        None \<Rightarrow> None
      | Some evidence \<Rightarrow>
          if ce_identityProvider evidence \<noteq> expectedProviderName \<or> \<not> IsValidOIDCSubject (ce_principalID evidence) \<or>
             \<not> validCustomPrincipal (ce_encodedPrincipal evidence) expectedProviderName
          then None
          else Some \<lparr>id_Issuer = expectedIssuer, id_Subject = ce_principalID evidence\<rparr>)"

section \<open>Dispatch\<close>

definition Authenticate :: "headers \<Rightarrow> BoundaryPolicy \<Rightarrow> Identity option" where
  "Authenticate hs policy =
     (if bp_Mode policy = ModeOIDCHeaders then
        (if bp_ExpectedAzureTenantID policy \<noteq> [] \<or> bp_ExpectedOIDCProviderName policy \<noteq> [] \<or> hasAzureIdentityHeaders hs
         then None else authenticateOIDCHeaders hs (bp_ExpectedIssuer policy))
      else if bp_Mode policy = ModeAzureContainerApps then
        (if bp_ExpectedOIDCProviderName policy \<noteq> [] \<or> hasGenericOIDCIdentityHeaders hs then None
         else authenticateAzureContainerApps hs (bp_ExpectedIssuer policy) (bp_ExpectedAzureTenantID policy))
      else if bp_Mode policy = ModeAzureContainerAppsOIDC then
        (if bp_ExpectedAzureTenantID policy \<noteq> [] \<or> hasGenericOIDCIdentityHeaders hs then None
         else authenticateAzureContainerAppsOIDC hs (bp_ExpectedIssuer policy) (bp_ExpectedOIDCProviderName policy))
      else None)"

section \<open>Canonical encoding\<close>

lemma decodeCanonicalPrincipal_iff: "decodeCanonicalPrincipal s = Some d \<longleftrightarrow> s = b64Encode d"
  by (auto simp: decodeCanonicalPrincipal_def b64Decode_Encode split: option.splits)

lemma readPrincipal_iff:
  "readPrincipal s typ = Some prin \<longleftrightarrow>
     s \<noteq> [] \<and> length s \<le> maxPrincipalHeaderBytes \<and>
     (\<exists>doc. s = b64Encode doc \<and> hasExactPrincipalSchema doc \<and>
        Decode doc (int maxPrincipalHeaderBytes) (decodeStruct principalFields) zeroPrincipal = Inr prin) \<and>
     cp_AuthenticationType prin = typ \<and> 1 \<le> length (cp_Claims prin) \<and> length (cp_Claims prin) \<le> maxPrincipalClaims"
proof (cases "decodeCanonicalPrincipal s")
  case None
  then have "s \<noteq> b64Encode doc" for doc using decodeCanonicalPrincipal_iff [of s doc] by simp
  with None show ?thesis by (simp add: readPrincipal_def)
next
  case (Some d)
  have ex: "(\<exists>doc. s = b64Encode doc \<and> Q doc) \<longleftrightarrow> Q d" for Q
    unfolding decodeCanonicalPrincipal_iff [symmetric] using Some by simp
  show ?thesis unfolding ex unfolding readPrincipal_def Some
    by (cases "Decode d (int maxPrincipalHeaderBytes) (decodeStruct principalFields) zeroPrincipal") (auto simp: Suc_le_eq)
qed

section \<open>The claim scan\<close>

definition tenantClaim :: "containerAppsClaim \<Rightarrow> bool" where
  "tenantClaim c \<longleftrightarrow> cl_Type c = standardAzureTenantIDClaim \<or> cl_Type c = mappedAzureTenantIDClaim"

definition objectClaim :: "containerAppsClaim \<Rightarrow> bool" where
  "objectClaim c \<longleftrightarrow> cl_Type c = standardAzureObjectIDClaim \<or> cl_Type c = mappedAzureObjectIDClaim"

lemmas azure_claim_types = standardAzureTenantIDClaim_def mappedAzureTenantIDClaim_def standardAzureObjectIDClaim_def
  mappedAzureObjectIDClaim_def

lemma claim_kinds_exclusive: "tenantClaim c \<Longrightarrow> \<not> objectClaim c"
  by (auto simp: tenantClaim_def objectClaim_def azure_claim_types)

definition scanned :: "containerAppsClaim list \<Rightarrow> claimScan \<Rightarrow> claimScan" where
  "scanned claims st =
     \<lparr>cs_tenantID = last (cs_tenantID st # map cl_Value (filter tenantClaim claims)),
      cs_objectID = last (cs_objectID st # map cl_Value (filter objectClaim claims)),
      cs_tenantClaims = cs_tenantClaims st + length (filter tenantClaim claims),
      cs_objectClaims = cs_objectClaims st + length (filter objectClaim claims)\<rparr>"

lemma scanClaims_eq:
  "scanClaims claims st = (if validContainerAppsClaims claims then Some (scanned claims st) else None)"
proof (induction claims arbitrary: st)
  case (Cons c claims)
  consider "tenantClaim c" "\<not> objectClaim c" | "objectClaim c" "\<not> tenantClaim c" | "\<not> tenantClaim c" "\<not> objectClaim c"
    using claim_kinds_exclusive by blast
  then show ?case
    by cases (simp_all add: Cons.IH validContainerAppsClaims_def scanned_def tenantClaim_def objectClaim_def)
qed (simp add: validContainerAppsClaims_def scanned_def)

lemma single_claim: "length xs = 1 \<and> last (v # map cl_Value xs) = w \<longleftrightarrow> (\<exists>c. xs = [c] \<and> cl_Value c = w)"
  by (auto simp: length_Suc_conv)

section \<open>Exact acceptance by the Entra adapter\<close>

text \<open>What the Entra boundary must have asserted for an object id.\<close>

definition entraEvidence :: "headers \<Rightarrow> string \<Rightarrow> string \<Rightarrow> bool" where
  "entraEvidence hs tenantID objectID \<longleftrightarrow>
     (\<exists>encoded prin.
        headerValues hs containerAppsPrincipalHeader = [encoded] \<and>
        headerValues hs containerAppsPrincipalIDHeader = [objectID] \<and>
        headerValues hs containerAppsPrincipalIDPHeader \<in> {[], [azureAuthenticationType]} \<and>
        readPrincipal encoded azureAuthenticationType = Some prin \<and>
        validContainerAppsClaims (cp_Claims prin) \<and>
        (\<exists>t. filter tenantClaim (cp_Claims prin) = [t] \<and> cl_Value t = tenantID) \<and>
        (\<exists>ob. filter objectClaim (cp_Claims prin) = [ob] \<and> cl_Value ob = objectID))"

lemma idp_values:
  "\<not> (length vs > 1 \<or> (length vs = 1 \<and> vs ! 0 \<noteq> typ)) \<longleftrightarrow> vs \<in> {[], [typ]}"
  by (cases vs) (auto simp: not_less le_Suc_eq)

lemma entra_scan:
  "(case scanClaims claims \<lparr>cs_tenantID = [], cs_objectID = [], cs_tenantClaims = 0, cs_objectClaims = 0\<rparr> of
      None \<Rightarrow> None
    | Some st \<Rightarrow>
        if cs_tenantClaims st \<noteq> 1 \<or> cs_objectClaims st \<noteq> 1 \<or> \<not> IsCanonicalUUID (cs_tenantID st) \<or>
           cs_tenantID st \<noteq> t \<or> \<not> IsCanonicalUUID (cs_objectID st) \<or> cs_objectID st \<noteq> w
        then None else Some x) = Some i \<longleftrightarrow>
   validContainerAppsClaims claims \<and> IsCanonicalUUID t \<and> IsCanonicalUUID w \<and> i = x \<and>
   (\<exists>c. filter tenantClaim claims = [c] \<and> cl_Value c = t) \<and> (\<exists>c. filter objectClaim claims = [c] \<and> cl_Value c = w)"
proof -
  have t: "(\<exists>c. filter tenantClaim claims = [c] \<and> cl_Value c = t) \<longleftrightarrow>
      length (filter tenantClaim claims) = 1 \<and> last ([] # map cl_Value (filter tenantClaim claims)) = t"
    and w: "(\<exists>c. filter objectClaim claims = [c] \<and> cl_Value c = w) \<longleftrightarrow>
      length (filter objectClaim claims) = 1 \<and> last ([] # map cl_Value (filter objectClaim claims)) = w"
    by (simp_all only: single_claim)
  show ?thesis unfolding t w by (auto simp: scanClaims_eq scanned_def simp del: last.simps)
qed

lemma authenticateAzureContainerApps_iff:
  "authenticateAzureContainerApps hs issuer tenantID = Some i \<longleftrightarrow>
     IsAzureContainerAppsIssuer issuer tenantID \<and> id_Issuer i = issuer \<and> IsCanonicalUUID (id_Subject i) \<and>
     entraEvidence hs tenantID (id_Subject i)"
proof (cases "\<exists>encoded principalID. headerValues hs containerAppsPrincipalHeader = [encoded] \<and>
    headerValues hs containerAppsPrincipalIDHeader = [principalID]")
  case True
  then obtain encoded principalID where h: "headerValues hs containerAppsPrincipalHeader = [encoded]"
    "headerValues hs containerAppsPrincipalIDHeader = [principalID]" by blast
  let ?idp = "headerValues hs containerAppsPrincipalIDPHeader"
  show ?thesis
  proof (cases "IsAzureContainerAppsIssuer issuer tenantID \<and> ?idp \<in> {[], [azureAuthenticationType]} \<and> IsCanonicalUUID principalID")
    case False
    then show ?thesis using h idp_values [of ?idp azureAuthenticationType]
      by (auto simp: authenticateAzureContainerApps_def entraEvidence_def)
  next
    case ok: True
    have "IsCanonicalUUID tenantID" using ok by (simp add: IsAzureContainerAppsIssuer_def)
    have "authenticateAzureContainerApps hs issuer tenantID = Some i \<longleftrightarrow>
        (\<exists>prin. readPrincipal encoded azureAuthenticationType = Some prin \<and>
           validContainerAppsClaims (cp_Claims prin) \<and> i = \<lparr>id_Issuer = issuer, id_Subject = principalID\<rparr> \<and>
           (\<exists>t. filter tenantClaim (cp_Claims prin) = [t] \<and> cl_Value t = tenantID) \<and>
           (\<exists>ob. filter objectClaim (cp_Claims prin) = [ob] \<and> cl_Value ob = principalID))"
      unfolding authenticateAzureContainerApps_def h
      using ok idp_values [of ?idp azureAuthenticationType] \<open>IsCanonicalUUID tenantID\<close>
      by (cases "readPrincipal encoded azureAuthenticationType") (auto simp: Let_def entra_scan)
    then show ?thesis using ok by (auto simp: entraEvidence_def h)
  qed
qed (auto simp: authenticateAzureContainerApps_def entraEvidence_def split: list.splits)

section \<open>The contract of an adapter\<close>

text \<open>
  What the dispatcher relies on: an adapter asserts only its expected issuer and only valid subjects, and
  reads nothing but its evidence headers.
\<close>

locale identity_boundary =
  fixes authenticate :: "headers \<Rightarrow> Identity option"
    and issuer :: string
    and idHeader :: string
    and evidence :: "string list"
  assumes identity: "authenticate hs = Some i \<Longrightarrow>
      id_Issuer i = issuer \<and> IsValidOIDCSubject (id_Subject i) \<and> headerValues hs idHeader = [id_Subject i]"
    and evidence_only: "(\<And>name. name \<in> set evidence \<Longrightarrow> headerValues hs name = headerValues hs' name) \<Longrightarrow>
      authenticate hs = authenticate hs'"
begin

lemma other_header_irrelevant:
  assumes "\<And>e. e \<in> set evidence \<Longrightarrow> canonicalKey e \<noteq> canonicalKey name"
  shows "authenticate (headerSet name v hs) = authenticate hs"
  using assms by (intro evidence_only) (simp add: headerValues_set)

end

lemma uuid_subject:
  assumes "IsCanonicalUUID s"
  shows "IsValidOIDCSubject s"
proof -
  have b: "rbytes uuidPattern c \<Longrightarrow> byte c < 0x80 \<and> \<not> (byte c < 0x20 \<or> byte c = 0x7f)" for c
    by (auto simp: uuidPattern_def char_class_defs rbytes_rlit dest!: rbytes_rexact simp del: rlit.simps rexact.simps)
  have a: "ascii s" "list_all (\<lambda>c. \<not> (byte c < 0x20 \<or> byte c = 0x7f)) s"
    using b rmatch_bytes [of uuidPattern s] assms by (auto simp: IsCanonicalUUID_def ascii_def list_all_iff)
  have "length s = 36" using assms
    by (auto simp: IsCanonicalUUID_def uuidPattern_def rmatch_RSeq rmatch_rexact_cls rmatch_rlit
        simp del: rlit.simps rexact.simps rmatch.simps)
  then show ?thesis using a utf8_valid_ascii [of s] validControlFree_ascii [of s]
    by (auto simp: IsValidOIDCSubject_def validBoundedText_def MaxOIDCSubjectBytes_def)
qed

interpretation oidc: identity_boundary "\<lambda>hs. authenticateOIDCHeaders hs issuer" issuer SubjectHeader
    "[IssuerHeader, SubjectHeader]" for issuer
proof
  fix hs i
  assume "authenticateOIDCHeaders hs issuer = Some i"
  then show "id_Issuer i = issuer \<and> IsValidOIDCSubject (id_Subject i) \<and> headerValues hs SubjectHeader = [id_Subject i]"
    by (auto simp: authenticateOIDCHeaders_def split: if_splits list.splits)
qed (simp add: authenticateOIDCHeaders_def)

interpretation entra: identity_boundary "\<lambda>hs. authenticateAzureContainerApps hs issuer tenantID" issuer
    containerAppsPrincipalIDHeader
    "[containerAppsPrincipalHeader, containerAppsPrincipalIDHeader, containerAppsPrincipalIDPHeader]" for issuer tenantID
proof
  fix hs i
  assume "authenticateAzureContainerApps hs issuer tenantID = Some i"
  then show "id_Issuer i = issuer \<and> IsValidOIDCSubject (id_Subject i) \<and>
      headerValues hs containerAppsPrincipalIDHeader = [id_Subject i]"
    by (auto simp: authenticateAzureContainerApps_iff entraEvidence_def uuid_subject)
next
  fix hs hs'
  assume "\<And>name. name \<in> set [containerAppsPrincipalHeader, containerAppsPrincipalIDHeader, containerAppsPrincipalIDPHeader] \<Longrightarrow>
      headerValues hs name = headerValues hs' name"
  then have "headerValues hs containerAppsPrincipalHeader = headerValues hs' containerAppsPrincipalHeader"
    "headerValues hs containerAppsPrincipalIDHeader = headerValues hs' containerAppsPrincipalIDHeader"
    "headerValues hs containerAppsPrincipalIDPHeader = headerValues hs' containerAppsPrincipalIDPHeader" by simp_all
  then show "authenticateAzureContainerApps hs issuer tenantID = authenticateAzureContainerApps hs' issuer tenantID"
    by (simp only: authenticateAzureContainerApps_def)
qed

lemma authenticateOIDC_iff:
  "authenticateAzureContainerAppsOIDC hs issuer provider = Some i \<longleftrightarrow>
     IsValidOIDCIssuer issuer \<and> IsValidOIDCProviderName provider \<and> id_Issuer i = issuer \<and> IsValidOIDCSubject (id_Subject i) \<and>
     (\<exists>encoded.
        headerValues hs containerAppsPrincipalHeader = [encoded] \<and>
        headerValues hs containerAppsPrincipalIDHeader = [id_Subject i] \<and>
        headerValues hs containerAppsPrincipalIDPHeader = [provider] \<and>
        validCustomPrincipal encoded provider)"
  by (cases i) (auto simp: authenticateAzureContainerAppsOIDC_def readCustomEvidence_def split: list.splits)

interpretation custom: identity_boundary "\<lambda>hs. authenticateAzureContainerAppsOIDC hs issuer provider" issuer
    containerAppsPrincipalIDHeader
    "[containerAppsPrincipalHeader, containerAppsPrincipalIDHeader, containerAppsPrincipalIDPHeader]" for issuer provider
proof
  fix hs i
  assume "authenticateAzureContainerAppsOIDC hs issuer provider = Some i"
  then show "id_Issuer i = issuer \<and> IsValidOIDCSubject (id_Subject i) \<and>
      headerValues hs containerAppsPrincipalIDHeader = [id_Subject i]"
    by (auto simp: authenticateOIDC_iff)
qed (simp add: authenticateAzureContainerAppsOIDC_def readCustomEvidence_def)

section \<open>Header names\<close>

lemma identity_keys:
  "canonicalKey IssuerHeader = ''X-Dar-Oidc-Issuer''" "canonicalKey SubjectHeader = ''X-Dar-Oidc-Subject''"
  by (simp_all add: SubjectHeader_def IssuerHeader_def canonicalKey_def tokenChar_def char_class_defs upper_char_def
      lower_char_def char_eval)

lemma identity_keys_upper:
  "\<not> hasPrefix (toUpper (canonicalKey IssuerHeader)) ''X-MS-CLIENT-PRINCIPAL''"
  "\<not> hasPrefix (toUpper (canonicalKey SubjectHeader)) ''X-MS-CLIENT-PRINCIPAL''"
  by (simp_all add: identity_keys toUpper_ascii hasPrefix_def upper_char_def char_class_defs char_eval)

lemma hasAzureIdentityHeaders_headerSet:
  "\<not> hasPrefix (toUpper (canonicalKey name)) ''X-MS-CLIENT-PRINCIPAL'' \<Longrightarrow>
     hasAzureIdentityHeaders (headerSet name v hs) \<Longrightarrow> hasAzureIdentityHeaders hs"
  unfolding hasAzureIdentityHeaders_def by (drule headerSet_names) simp

section \<open>Properties\<close>

text \<open>The policy that the handler derives from the configuration.\<close>

definition boundaryPolicy :: "Config \<Rightarrow> BoundaryPolicy" where
  "boundaryPolicy cfg =
     \<lparr>bp_ExpectedIssuer = cf_OIDCIssuer cfg, bp_Mode = cf_TrustedIdentityMode cfg,
      bp_ExpectedAzureTenantID = cf_AzureContainerAppsTenantID cfg,
      bp_ExpectedOIDCProviderName = cf_OIDCProviderName cfg\<rparr>"



text \<open>
  Under every accepted provider-neutral configuration, the private ingress can log in any valid subject: setting the
  two identity headers on a request without platform identity headers authenticates exactly that subject.
\<close>

lemma header_identity_accepted:
  assumes "ParseEnvironment env = Inr cfg" and "cf_TrustedIdentityMode cfg = ModeOIDCHeaders"
    and "IsValidOIDCSubject subject" and "\<not> hasAzureIdentityHeaders hs"
  shows "Authenticate (headerSet IssuerHeader (cf_OIDCIssuer cfg) (headerSet SubjectHeader subject hs)) (boundaryPolicy cfg) =
    Some \<lparr>id_Issuer = cf_OIDCIssuer cfg, id_Subject = subject\<rparr>"
proof -
  let ?hs = "headerSet IssuerHeader (cf_OIDCIssuer cfg) (headerSet SubjectHeader subject hs)"
  have "headerValues ?hs IssuerHeader = [cf_OIDCIssuer cfg]" "headerValues ?hs SubjectHeader = [subject]"
    by (simp_all add: headerValues_set identity_keys)
  moreover have "\<not> hasAzureIdentityHeaders ?hs"
    using assms(4) hasAzureIdentityHeaders_headerSet identity_keys_upper by blast
  ultimately show ?thesis using assms ParseEnvironment_valid [OF assms(1)]
    by (simp add: Authenticate_def boundaryPolicy_def authenticateOIDCHeaders_def validPolicy_def)
qed

end
