(* ===== verification/ByteRange.thy ===== *)
theory ByteRange
  imports GoStrings
begin

text \<open>
  Package \<open>internal/download\<close>: the HTTP byte-range contract (file \<open>range.go\<close>). The theory
  models \<open>Select\<close> and every helper below it, and shows that a selection always lies inside
  the object, that the three range forms of the grammar mean what RFC 9110 says of them, that a
  stale \<open>If-Range\<close> validator always yields the full representation, and that no arithmetic of
  the package leaves the \<open>int64\<close> range.
\<close>

section \<open>Definitions\<close>

definition maxValidatorBytes :: nat where
  [go_defs]: "maxValidatorBytes = 128"

record ByteRange =
  rangeStart :: int
  rangeEnd :: int

record Selection =
  selOffset :: int
  selLength :: int
  selPartial :: bool
  selRange :: "ByteRange option"

definition parseDecimal :: "string \<Rightarrow> int result" where
  [go_defs]: "parseDecimal value =
     (case parseUint value 63 of None \<Rightarrow> Inl ErrInvalidRange | Some n \<Rightarrow> Inr (int n))"

definition isStrongETag :: "string \<Rightarrow> bool" where
  [go_defs]: "isStrongETag value \<longleftrightarrow>
     \<not> (length value < 2 \<or> hd value \<noteq> quote_char \<or> last value \<noteq> quote_char \<or>
        hasPrefix value ''W/'') \<and>
     list_all (\<lambda>c. \<not> (c = quote_char \<or> byte c < 0x21 \<or> byte c = 0x7f)) (butlast (tl value))"

definition ifRangePermits :: "string list \<Rightarrow> string \<Rightarrow> bool" where
  [go_defs]: "ifRangePermits values currentETag =
     (case values of
        [] \<Rightarrow> True
      | [v] \<Rightarrow> if length v > maxValidatorBytes \<or> \<not> isStrongETag v then False else v = currentETag
      | _ \<Rightarrow> False)"

text \<open>The two parts of \<open>strings.SplitN(s, d, 2)\<close> when the separator occurs.\<close>

definition splitFirst :: "char \<Rightarrow> string \<Rightarrow> string \<times> string" where
  [go_defs]: "splitFirst d s = (takeWhile (\<lambda>c. c \<noteq> d) s, tl (dropWhile (\<lambda>c. c \<noteq> d) s))"

definition parseRange :: "string \<Rightarrow> int \<Rightarrow> ByteRange result" where
  "parseRange header objSize =
     (if length header = 0 \<or> length header > maxValidatorBytes \<or> objSize \<le> 0 \<or>
         \<not> hasPrefix header ''bytes='' \<or> contains header '',''
      then Inl ErrInvalidRange
      else let specification = trimPrefix header ''bytes='' in
        if count_list specification CHR ''-'' \<noteq> 1 then Inl ErrInvalidRange
        else let (part0, part1) = splitFirst CHR ''-'' specification in
          if part0 = [] \<and> part1 = [] then Inl ErrInvalidRange
          else if part0 = [] then
            (case parseDecimal part1 of
               Inl _ \<Rightarrow> Inl ErrInvalidRange
             | Inr suffix \<Rightarrow>
                 if suffix \<le> 0 then Inl ErrInvalidRange
                 else let start = objSize - suffix;
                          start' = (if start < 0 then 0 else start)
                      in Inr \<lparr>rangeStart = start', rangeEnd = objSize - 1\<rparr>)
          else
            (case parseDecimal part0 of
               Inl _ \<Rightarrow> Inl ErrInvalidRange
             | Inr start \<Rightarrow>
                 if start \<ge> objSize then Inl ErrInvalidRange
                 else if part1 \<noteq> [] then
                   (case parseDecimal part1 of
                      Inl _ \<Rightarrow> Inl ErrInvalidRange
                    | Inr end \<Rightarrow>
                        if end < start then Inl ErrInvalidRange
                        else Inr \<lparr>rangeStart = start,
                                  rangeEnd = (if end \<ge> objSize then objSize - 1 else end)\<rparr>)
                 else Inr \<lparr>rangeStart = start, rangeEnd = objSize - 1\<rparr>))"

definition Select :: "string list \<Rightarrow> string list \<Rightarrow> int \<Rightarrow> string \<Rightarrow> Selection result" where
  "Select rangeValues ifRangeValues objSize currentETag =
     (let full = \<lparr>selOffset = 0, selLength = objSize, selPartial = False, selRange = None\<rparr> in
      if objSize < 0 then Inl ErrInvalidRange
      else if length rangeValues = 0 then Inr full
      else if length rangeValues \<noteq> 1 then Inl ErrInvalidRange
      else if \<not> ifRangePermits ifRangeValues currentETag then Inr full
      else (case parseRange (rangeValues ! 0) objSize of
              Inl e \<Rightarrow> Inl e
            | Inr interval \<Rightarrow>
                Inr \<lparr>selOffset = rangeStart interval,
                     selLength = rangeEnd interval - rangeStart interval + 1,
                     selPartial = True, selRange = Some interval\<rparr>))"

section \<open>Lemmas\<close>

lemma parseDecimal_bounds: "parseDecimal s = Inr n \<Longrightarrow> 0 \<le> n \<and> n < 2 ^ 63"
  by (auto simp: parseDecimal_def parseUint_def split: option.splits if_splits)

lemma parseRange_inside:
  "parseRange h objSize = Inr r \<Longrightarrow>
     0 \<le> rangeStart r \<and> rangeStart r \<le> rangeEnd r \<and> rangeEnd r < objSize"
  by (auto simp: parseRange_def Let_def split_beta split: if_splits sum.splits
      dest: parseDecimal_bounds)

lemma splitFirst_append: "d \<notin> set a \<Longrightarrow> splitFirst d (a @ d # b) = (a, b)"
  by (induction a) (auto simp: splitFirst_def)

lemma contains_single: "contains s [c] \<longleftrightarrow> c \<in> set s"
  by (induction s) (auto simp: hasPrefix_def)

lemma count_list_notin: "c \<notin> set s \<Longrightarrow> count_list s c = 0"
  by (induction s) auto

text \<open>
  The reference meaning of a range header, stated on its two halves: an interval of byte
  positions clamped to the object, an open tail, or a suffix length.
\<close>

definition rangeHeader :: "string \<Rightarrow> string \<Rightarrow> string" where
  "rangeHeader a b = ''bytes='' @ a @ CHR ''-'' # b"

definition rangeMeaning :: "string \<Rightarrow> string \<Rightarrow> int \<Rightarrow> ByteRange option" where
  "rangeMeaning a b objSize =
     (case (parseUint a 63, parseUint b 63) of
        (Some x, Some y) \<Rightarrow>
          if int x < objSize \<and> x \<le> y
          then Some \<lparr>rangeStart = int x, rangeEnd = min (int y) (objSize - 1)\<rparr> else None
      | (Some x, None) \<Rightarrow>
          if b = [] \<and> int x < objSize then Some \<lparr>rangeStart = int x, rangeEnd = objSize - 1\<rparr> else None
      | (None, Some y) \<Rightarrow>
          if a = [] \<and> 0 < y
          then Some \<lparr>rangeStart = max 0 (objSize - int y), rangeEnd = objSize - 1\<rparr> else None
      | (None, None) \<Rightarrow> None)"

lemma rangeHeader_guards:
  assumes "CHR ''-'' \<notin> set a" "CHR ''-'' \<notin> set b" "CHR '','' \<notin> set a" "CHR '','' \<notin> set b"
  shows "hasPrefix (rangeHeader a b) ''bytes=''"
    and "\<not> contains (rangeHeader a b) '',''"
    and "trimPrefix (rangeHeader a b) ''bytes='' = a @ CHR ''-'' # b"
    and "count_list (a @ CHR ''-'' # b) CHR ''-'' = 1"
    and "rangeHeader a b \<noteq> []"
  using assms unfolding rangeHeader_def
  by (simp_all only: hasPrefix_append trimPrefix_append contains_single)
     (simp_all add: count_list_notin count_list_append)

lemma parseUint_chars:
  assumes "parseUint s 63 = Some n \<or> s = []" and "\<not> is_digit c"
  shows "c \<notin> set s"
  using assms by (auto simp: parseUint_def list_all_iff split: if_splits)

lemma sep_not_digit: "\<not> is_digit CHR ''-''" "\<not> is_digit CHR '',''"
  by (simp_all add: is_digit_def between_def)

lemma parseUint_Nil [simp]: "parseUint [] b = None"
  by (simp add: parseUint_def)

lemma rangeMeaning_seps:
  assumes "rangeMeaning a b objSize = Some r"
  shows "CHR ''-'' \<notin> set a \<and> CHR ''-'' \<notin> set b \<and> CHR '','' \<notin> set a \<and> CHR '','' \<notin> set b"
proof -
  have "\<exists>n. parseUint a 63 = Some n \<or> a = []" and "\<exists>n. parseUint b 63 = Some n \<or> b = []"
    using assms by (auto simp: rangeMeaning_def split: option.splits if_splits)
  then show ?thesis using parseUint_chars sep_not_digit by blast
qed

lemma parseRange_header:
  assumes "CHR ''-'' \<notin> set a" "CHR ''-'' \<notin> set b" "CHR '','' \<notin> set a" "CHR '','' \<notin> set b"
    and "length (rangeHeader a b) \<le> maxValidatorBytes" "0 < objSize"
  shows "parseRange (rangeHeader a b) objSize =
           (case rangeMeaning a b objSize of None \<Rightarrow> Inl ErrInvalidRange | Some r \<Rightarrow> Inr r)"
proof -
  have "splitFirst CHR ''-'' (a @ CHR ''-'' # b) = (a, b)"
    using assms(1) by (rule splitFirst_append)
  then show ?thesis
    using assms rangeHeader_guards [OF assms(1-4)]
    by (auto simp: parseRange_def rangeMeaning_def parseDecimal_def Let_def not_le
        split: option.splits)
qed

lemma count_one_split:
  assumes "count_list s c = 1"
  shows "\<exists>a b. s = a @ c # b \<and> c \<notin> set a \<and> c \<notin> set b"
proof -
  have "c \<in> set s" using assms by (metis count_list_notin zero_neq_one)
  then obtain a b where ab: "s = a @ c # b" "c \<notin> set a" by (meson split_list_first)
  then have "count_list b c = 0" using assms by (simp add: count_list_append)
  then show ?thesis using ab by (metis count_list_0_iff)
qed

lemma parseRange_shape:
  assumes "parseRange h objSize = Inr r"
  shows "\<exists>a b. h = rangeHeader a b \<and> CHR ''-'' \<notin> set a \<and> CHR ''-'' \<notin> set b \<and>
           CHR '','' \<notin> set a \<and> CHR '','' \<notin> set b \<and> length h \<le> maxValidatorBytes \<and> 0 < objSize"
proof -
  have g: "hasPrefix h ''bytes=''" "CHR '','' \<notin> set h" "length h \<le> maxValidatorBytes" "0 < objSize"
    "count_list (trimPrefix h ''bytes='') CHR ''-'' = 1"
    using assms by (auto simp: parseRange_def Let_def contains_single split: if_splits)
  then obtain t where t: "h = ''bytes='' @ t" by (auto simp: hasPrefix_iff)
  with g(5) obtain a b where "t = a @ CHR ''-'' # b" "CHR ''-'' \<notin> set a" "CHR ''-'' \<notin> set b"
    using count_one_split by (metis trimPrefix_append)
  with t g show ?thesis by (auto simp: rangeHeader_def)
qed

lemma Select_inside:
  assumes "Select rangeValues ifRangeValues objSize currentETag = Inr sel"
  shows "0 \<le> selOffset sel \<and> 0 \<le> selLength sel \<and> selOffset sel + selLength sel \<le> objSize \<and>
         (if selPartial sel
          then 1 \<le> selLength sel \<and>
               selRange sel = Some \<lparr>rangeStart = selOffset sel,
                                   rangeEnd = selOffset sel + selLength sel - 1\<rparr>
          else selOffset sel = 0 \<and> selLength sel = objSize \<and> selRange sel = None)"
  using assms
  by (auto simp: Select_def Let_def split: if_splits sum.splits dest!: parseRange_inside)

section \<open>Properties\<close>

text \<open>
  Whatever the \<open>Range\<close> and \<open>If-Range\<close> headers hold, a selection that \<open>Select\<close> returns
  lies inside the object: it starts at or after byte 0, ends at or before the last byte, and a
  partial selection is non-empty and reports exactly its own interval.
\<close>

lemma Select_inside_object:
  assumes "Select rangeValues ifRangeValues objSize currentETag = Inr sel"
  shows "0 \<le> selOffset sel \<and> 0 \<le> selLength sel \<and> selOffset sel + selLength sel \<le> objSize \<and>
         (if selPartial sel
          then 1 \<le> selLength sel \<and>
               selRange sel = Some \<lparr>rangeStart = selOffset sel,
                                   rangeEnd = selOffset sel + selLength sel - 1\<rparr>
          else selOffset sel = 0 \<and> selLength sel = objSize \<and> selRange sel = None)"
  by (rule Select_inside [OF assms])


text \<open>
  A \<open>Range\<close> request is answered with a partial selection only against the exact current
  entity tag: when one \<open>If-Range\<close> value is sent and it is not the current tag, or several are
  sent, the whole object is selected, whatever the range says.
\<close>

lemma Select_stale_validator_full:
  assumes "0 \<le> objSize" and "length rangeValues \<le> 1"
    and "ifRangeValues \<noteq> []" and "ifRangeValues \<noteq> [currentETag]"
  shows "Select rangeValues ifRangeValues objSize currentETag =
           Inr \<lparr>selOffset = 0, selLength = objSize, selPartial = False, selRange = None\<rparr>"
proof -
  have "\<not> ifRangePermits ifRangeValues currentETag"
    using assms(3,4) by (auto simp: ifRangePermits_def split: list.splits)
  with assms(1,2) show ?thesis by (auto simp: Select_def Let_def le_Suc_eq)
qed

text \<open>
  No value the range arithmetic computes leaves the \<open>int64\<close> range, for every object size
  an \<open>int64\<close> can hold: the parsed numbers, the suffix subtraction and the inclusive length are
  exact, so the model's unbounded integers and the machine's agree.
\<close>

lemma range_arithmetic_in_int64:
  assumes "0 \<le> objSize" and "int64_ok objSize"
  shows "(parseDecimal s = Inr n \<longrightarrow> int64_ok n \<and> int64_ok (objSize - n)) \<and>
         (parseRange h objSize = Inr r \<longrightarrow>
            int64_ok (rangeStart r) \<and> int64_ok (rangeEnd r) \<and>
            int64_ok (rangeEnd r - rangeStart r + 1))"
  using assms parseDecimal_bounds [of s n] parseRange_inside [of h objSize r]
  by (auto simp: int64_ok_def)

end
