(* ===== verification/Web.thy ===== *)
theory Web
  imports GoHttp
begin

text \<open>
  The download application as a program with effects. A value of type \<open>'a web\<close> is the tree of what one request
  does: each node is a call that leaves the process (random bytes, clock, Azure Blob request, response writer,
  request context, log), with a continuation for every reply. \<open>execW\<close> says which event sequences a tree allows,
  under any behaviour of the environment; \<open>runW\<close> computes the one sequence that a given environment leads to.
\<close>

section \<open>Replies\<close>

text \<open>Errors of the Azure SDK as the code tells them apart.\<close>

datatype sdk_error = SdkCanceled | SdkDeadline | SdkResponse int | SdkOther

text \<open>A response body: the bytes that it yields before it ends or fails.\<close>

type_synonym body = string

record properties =
  pr_ContentLength :: "int option"
  pr_ETag :: "string option"

record rangeResponse =
  dr_Body :: "body option"
  dr_ContentLength :: "int option"
  dr_ETag :: "string option"

datatype log_event =
    LogStarted (lg_occurred: string) (lg_session: string) (lg_subject: string) (lg_version: string) (lg_file: string)
      (lg_requested: int)
  | LogTerminal (lg_event: string) (lg_occurred: string) (lg_session: string) (lg_subject: string) (lg_version: string)
      (lg_file: string) (lg_streamed: int) (lg_outcome: string)
  | LogStreamFailure

section \<open>Trees\<close>

text \<open>
  \<open>Head\<close> is \<open>WriteHeader\<close> with the header map of that moment; \<open>Write\<close> is answered by the number of bytes the
  connection takes; \<open>CtxErr\<close> by whether the request context is done; \<open>Close\<close> by whether closing failed.
\<close>

datatype 'a web =
    Done 'a
  | Random "string option \<Rightarrow> 'a web"
  | Clock "string \<Rightarrow> 'a web"
  | Properties string "(sdk_error + properties) \<Rightarrow> 'a web"
  | Download string int int string "(sdk_error + rangeResponse) \<Rightarrow> 'a web"
  | CtxErr "bool \<Rightarrow> 'a web"
  | Head int headers "'a web"
  | Write string "nat \<Rightarrow> 'a web"
  | Close "bool \<Rightarrow> 'a web"
  | Log log_event "'a web"

primrec bindW :: "'a web \<Rightarrow> ('a \<Rightarrow> 'b web) \<Rightarrow> 'b web" where
  "bindW (Done x) f = f x"
| "bindW (Random k) f = Random (\<lambda>r. bindW (k r) f)"
| "bindW (Clock k) f = Clock (\<lambda>r. bindW (k r) f)"
| "bindW (Properties n k) f = Properties n (\<lambda>r. bindW (k r) f)"
| "bindW (Download n off len e k) f = Download n off len e (\<lambda>r. bindW (k r) f)"
| "bindW (CtxErr k) f = CtxErr (\<lambda>r. bindW (k r) f)"
| "bindW (Head s h t) f = Head s h (bindW t f)"
| "bindW (Write d k) f = Write d (\<lambda>r. bindW (k r) f)"
| "bindW (Close k) f = Close (\<lambda>r. bindW (k r) f)"
| "bindW (Log l t) f = Log l (bindW t f)"

section \<open>Executions\<close>

datatype webEvent =
    ERandom "string option"
  | EClock string
  | EProperties string "sdk_error + properties"
  | EDownload string int int string "sdk_error + rangeResponse"
  | ECtxErr bool
  | EHead int headers
  | EWrite string nat
  | EClose bool
  | ELog log_event

primrec execW :: "'a web \<Rightarrow> webEvent list \<Rightarrow> 'a \<Rightarrow> bool" where
  "execW (Done x) es y = (es = [] \<and> y = x)"
| "execW (Random k) es y = (\<exists>r es'. es = ERandom r # es' \<and> execW (k r) es' y)"
| "execW (Clock k) es y = (\<exists>r es'. es = EClock r # es' \<and> execW (k r) es' y)"
| "execW (Properties n k) es y = (\<exists>r es'. es = EProperties n r # es' \<and> execW (k r) es' y)"
| "execW (Download n off len e k) es y = (\<exists>r es'. es = EDownload n off len e r # es' \<and> execW (k r) es' y)"
| "execW (CtxErr k) es y = (\<exists>r es'. es = ECtxErr r # es' \<and> execW (k r) es' y)"
| "execW (Head s h t) es y = (\<exists>es'. es = EHead s h # es' \<and> execW t es' y)"
| "execW (Write d k) es y = (\<exists>n es'. es = EWrite d n # es' \<and> execW (k n) es' y)"
| "execW (Close k) es y = (\<exists>r es'. es = EClose r # es' \<and> execW (k r) es' y)"
| "execW (Log l t) es y = (\<exists>es'. es = ELog l # es' \<and> execW t es' y)"

lemma execW_bindW: "execW (bindW t f) es y \<longleftrightarrow> (\<exists>es1 x es2. es = es1 @ es2 \<and> execW t es1 x \<and> execW (f x) es2 y)"
proof (induction t arbitrary: es)
  case (Done x)
  then show ?case by simp
qed (simp_all, (metis append_Cons)+)

section \<open>Running\<close>

record webEnv =
  ev_Random :: "string option"
  ev_Clock :: string
  ev_Properties :: "string \<Rightarrow> sdk_error + properties"
  ev_Download :: "string \<Rightarrow> int \<Rightarrow> int \<Rightarrow> string \<Rightarrow> sdk_error + rangeResponse"
  ev_CtxErr :: bool
  ev_Write :: "string \<Rightarrow> nat"
  ev_Close :: bool

primrec runW :: "webEnv \<Rightarrow> 'a web \<Rightarrow> webEvent list \<times> 'a" where
  "runW ev (Done x) = ([], x)"
| "runW ev (Random k) = apfst ((#) (ERandom (ev_Random ev))) (runW ev (k (ev_Random ev)))"
| "runW ev (Clock k) = apfst ((#) (EClock (ev_Clock ev))) (runW ev (k (ev_Clock ev)))"
| "runW ev (Properties n k) = apfst ((#) (EProperties n (ev_Properties ev n))) (runW ev (k (ev_Properties ev n)))"
| "runW ev (Download n off len e k) =
     apfst ((#) (EDownload n off len e (ev_Download ev n off len e))) (runW ev (k (ev_Download ev n off len e)))"
| "runW ev (CtxErr k) = apfst ((#) (ECtxErr (ev_CtxErr ev))) (runW ev (k (ev_CtxErr ev)))"
| "runW ev (Head s h t) = apfst ((#) (EHead s h)) (runW ev t)"
| "runW ev (Write d k) = apfst ((#) (EWrite d (ev_Write ev d))) (runW ev (k (ev_Write ev d)))"
| "runW ev (Close k) = apfst ((#) (EClose (ev_Close ev))) (runW ev (k (ev_Close ev)))"
| "runW ev (Log l t) = apfst ((#) (ELog l)) (runW ev t)"

lemma runW_bindW: "runW ev (bindW t f) = apfst ((@) (fst (runW ev t))) (runW ev (f (snd (runW ev t))))"
  by (induction t) (simp_all add: apfst_def map_prod_def split_beta)

lemma runW_execW: "execW t (fst (runW ev t)) (snd (runW ev t))"
  by (induction t) (simp_all add: apfst_def map_prod_def split_beta)

section \<open>Observations\<close>

text \<open>The first \<open>WriteHeader\<close> decides; a handler that never calls it is answered for by the server with 200.\<close>

fun heads :: "webEvent list \<Rightarrow> (int \<times> headers) list" where
  "heads [] = []"
| "heads (EHead s h # es) = (s, h) # heads es"
| "heads (_ # es) = heads es"

definition responseStatus :: "webEvent list \<Rightarrow> int" where
  "responseStatus es = (case heads es of (s, h) # _ \<Rightarrow> s | [] \<Rightarrow> 200)"

text \<open>The bytes of the body that the connection has taken.\<close>

fun sent :: "webEvent list \<Rightarrow> string" where
  "sent [] = []"
| "sent (EWrite d n # es) = take n d @ sent es"
| "sent (_ # es) = sent es"

fun requests :: "webEvent list \<Rightarrow> (string \<times> int \<times> int \<times> string) list" where
  "requests [] = []"
| "requests (EDownload n off len e r # es) = (n, off, len, e) # requests es"
| "requests (_ # es) = requests es"

text \<open>The blobs that an execution asks storage about.\<close>

fun touched :: "webEvent list \<Rightarrow> string list" where
  "touched [] = []"
| "touched (EProperties n r # es) = n # touched es"
| "touched (EDownload n off len e r # es) = n # touched es"
| "touched (_ # es) = touched es"

text \<open>Storage reported a cancellation or a deadline, or the request context was found done.\<close>

fun interrupted :: "webEvent list \<Rightarrow> bool" where
  "interrupted [] = False"
| "interrupted (EProperties n (Inl err) # es) = (err = SdkCanceled \<or> err = SdkDeadline \<or> interrupted es)"
| "interrupted (EDownload n off len e (Inl err) # es) = (err = SdkCanceled \<or> err = SdkDeadline \<or> interrupted es)"
| "interrupted (ECtxErr gone # es) = (gone \<or> interrupted es)"
| "interrupted (_ # es) = interrupted es"

fun logs :: "webEvent list \<Rightarrow> log_event list" where
  "logs [] = []"
| "logs (ELog l # es) = l # logs es"
| "logs (_ # es) = logs es"

lemma heads_append [simp]: "heads (es @ es') = heads es @ heads es'"
  by (induction es rule: heads.induct) simp_all

lemma sent_append [simp]: "sent (es @ es') = sent es @ sent es'"
  by (induction es rule: sent.induct) simp_all

lemma requests_append [simp]: "requests (es @ es') = requests es @ requests es'"
  by (induction es rule: requests.induct) simp_all

lemma logs_append [simp]: "logs (es @ es') = logs es @ logs es'"
  by (induction es rule: logs.induct) simp_all

lemma touched_append [simp]: "touched (es @ es') = touched es @ touched es'"
  by (induction es rule: touched.induct) simp_all

lemma interrupted_append [simp]: "interrupted (es @ es') \<longleftrightarrow> interrupted es \<or> interrupted es'"
  by (induction es rule: interrupted.induct) auto

end
