(* ===== verification/BlobStore.thy ===== *)
theory BlobStore
  imports AppConfig ByteRange Web
begin

text \<open>
  Package \<open>internal/blob\<close> (\<open>azure.go\<close>): the read-only storage boundary of the download application. The Azure SDK is
  the environment; its two calls are nodes of the tree. \<open>Store\<close> is the interface the handler sees.
\<close>

section \<open>The adapter\<close>

definition StorageAudience :: string where "StorageAudience = ''https://storage.azure.com/''"

record Snapshot =
  sn_Size :: int
  sn_ETag :: string

record Store =
  st_Stat :: "string \<Rightarrow> Snapshot result web"
  st_OpenRange :: "string \<Rightarrow> int \<Rightarrow> int \<Rightarrow> string \<Rightarrow> body result web"

definition translateError :: "sdk_error \<Rightarrow> go_error" where
  "translateError err =
     (case err of
        SdkCanceled \<Rightarrow> ErrCanceled
      | SdkDeadline \<Rightarrow> ErrDeadlineExceeded
      | SdkResponse code \<Rightarrow> if code = 404 then ErrNotFound else if code = 412 then ErrChanged else ErrUnavailable
      | SdkOther \<Rightarrow> ErrUnavailable)"

definition validStrongETag :: "string \<Rightarrow> bool" where
  "validStrongETag value \<longleftrightarrow>
     \<not> (length value < 2 \<or> length value > 128 \<or> hd value \<noteq> quote_char \<or> last value \<noteq> quote_char) \<and>
     list_all (\<lambda>character. \<not> (character = quote_char \<or> byte character < 0x21 \<or> byte character = 0x7f)) (butlast (tl value))"

definition statReply :: "sdk_error + properties \<Rightarrow> Snapshot result" where
  "statReply reply =
     (case reply of
        Inl err \<Rightarrow> Inl (translateError err)
      | Inr response \<Rightarrow>
          (case (pr_ContentLength response, pr_ETag response) of
             (Some contentLength, Some etag) \<Rightarrow>
               if contentLength < 0 then Inl ErrUnavailable
               else if \<not> validStrongETag etag then Inl ErrUnavailable
               else Inr \<lparr>sn_Size = contentLength, sn_ETag = etag\<rparr>
           | _ \<Rightarrow> Inl ErrUnavailable))"

definition Stat :: "string \<Rightarrow> Snapshot result web" where
  "Stat blobName = Properties blobName (\<lambda>reply. Done (statReply reply))"

definition openReply :: "int \<Rightarrow> string \<Rightarrow> sdk_error + rangeResponse \<Rightarrow> body result web" where
  "openReply len etag reply =
     (case reply of
        Inl err \<Rightarrow> Done (Inl (translateError err))
      | Inr response \<Rightarrow>
          (case dr_Body response of
             None \<Rightarrow> Done (Inl ErrUnavailable)
           | Some body \<Rightarrow>
               if dr_ContentLength response \<noteq> Some len \<or> dr_ETag response \<noteq> Some etag
               then Close (\<lambda>_. Done (Inl ErrUnavailable))
               else Done (Inr body)))"

definition OpenRange :: "string \<Rightarrow> int \<Rightarrow> int \<Rightarrow> string \<Rightarrow> body result web" where
  "OpenRange blobName offset len etag =
     (if offset < 0 \<or> offset > MaxObjectSize \<or> len < 1 \<or> len > MaxStorageSegment \<or> \<not> validStrongETag etag
      then Done (Inl ErrUnavailable)
      else Download blobName offset len etag (openReply len etag))"

definition azureStore :: Store where
  "azureStore = \<lparr>st_Stat = Stat, st_OpenRange = OpenRange\<rparr>"

text \<open>
  Construction: the two SDK factories are parameters. The result carries the container client that the SDK calls go
  through.
\<close>

definition containerURL :: "Config \<Rightarrow> string" where
  "containerURL cfg = ''https://'' @ cf_StorageAccountName cfg @ ''.blob.core.windows.net/'' @ cf_StorageContainer cfg"

definition newAzureStore ::
    "(string \<Rightarrow> go_error + 'credential) \<Rightarrow> (string \<Rightarrow> 'credential \<Rightarrow> string \<Rightarrow> go_error + 'client) \<Rightarrow> Config \<Rightarrow> 'client result" where
  "newAzureStore credentialFactory containerFactory cfg =
     (case credentialFactory (cf_ManagedIdentityClientID cfg) of
        Inl _ \<Rightarrow> Inl ErrUnavailable
      | Inr credential \<Rightarrow>
          (case containerFactory (containerURL cfg) credential StorageAudience of
             Inl _ \<Rightarrow> Inl ErrUnavailable
           | Inr client \<Rightarrow> Inr client))"

section \<open>What the handler relies on\<close>

text \<open>
  A store either refuses or hands out a snapshot with a usable size and validator; it answers a range only by a
  request for exactly that range under exactly that validator, it asks about no other blob, it blames a cancellation or
  deadline only when storage reported one, and it never touches the response, the log or the
  request context.
\<close>

definition storageEvent :: "webEvent \<Rightarrow> bool" where
  "storageEvent ev = (case ev of EProperties _ _ \<Rightarrow> True | EDownload _ _ _ _ _ \<Rightarrow> True | EClose _ \<Rightarrow> True | _ \<Rightarrow> False)"

definition usable :: "Snapshot \<Rightarrow> bool" where
  "usable sn \<longleftrightarrow> 0 \<le> sn_Size sn \<and> validStrongETag (sn_ETag sn)"

locale blob_store =
  fixes store :: Store
  assumes stat_usable: "execW (st_Stat store name) es (Inr sn) \<Longrightarrow> usable sn"
    and stat_snapshot: "execW (st_Stat store name) es (Inr sn) \<Longrightarrow>
      \<exists>reply. es = [EProperties name (Inr reply)] \<and> pr_ContentLength reply = Some (sn_Size sn) \<and> pr_ETag reply = Some (sn_ETag sn)"
    and stat_events: "execW (st_Stat store name) es r \<Longrightarrow> list_all storageEvent es \<and> requests es = [] \<and> set (touched es) \<subseteq> {name}"
    and open_events: "execW (st_OpenRange store name offset len etag) es rb \<Longrightarrow>
      list_all storageEvent es \<and> set (touched es) \<subseteq> {name} \<and>
      (requests es = [] \<or> requests es = [(name, offset, len, etag)])"
    and open_body: "execW (st_OpenRange store name offset len etag) es (Inr b) \<Longrightarrow>
      \<exists>reply. es = [EDownload name offset len etag (Inr reply)] \<and> dr_Body reply = Some b \<and>
        dr_ContentLength reply = Some len \<and> dr_ETag reply = Some etag"
    and stat_interrupted: "execW (st_Stat store name) es (Inl err) \<Longrightarrow> err \<in> {ErrCanceled, ErrDeadlineExceeded} \<Longrightarrow> interrupted es"
    and open_interrupted: "execW (st_OpenRange store name offset len etag) es (Inl err) \<Longrightarrow>
      err \<in> {ErrCanceled, ErrDeadlineExceeded} \<Longrightarrow> interrupted es"
begin

lemma quiet_events: "list_all storageEvent es \<Longrightarrow> heads es = [] \<and> sent es = [] \<and> logs es = []"
  by (induction es) (auto simp: storageEvent_def split: webEvent.splits)

lemmas stat_quiet = stat_events [THEN conjunct1, THEN quiet_events]
lemmas open_quiet = open_events [THEN conjunct1, THEN quiet_events]

end

lemma statReply_snapshot:
  "statReply reply = Inr sn \<Longrightarrow>
     \<exists>response. reply = Inr response \<and> pr_ContentLength response = Some (sn_Size sn) \<and> pr_ETag response = Some (sn_ETag sn)"
  by (auto simp: statReply_def split: sum.splits option.splits if_splits)

lemma statReply_usable: "statReply reply = Inr sn \<Longrightarrow> usable sn"
  by (auto simp: statReply_def usable_def split: sum.splits option.splits if_splits)

lemma openReply_cases:
  "execW (openReply len etag reply) es r \<Longrightarrow>
     (es = [] \<or> (\<exists>failed. es = [EClose failed])) \<and>
       (\<exists>e. r = Inl e \<and> (e \<in> {ErrCanceled, ErrDeadlineExceeded} \<longrightarrow> reply \<in> {Inl SdkCanceled, Inl SdkDeadline})) \<or>
     (\<exists>b response. es = [] \<and> r = Inr b \<and> reply = Inr response \<and> dr_Body response = Some b \<and>
        dr_ContentLength response = Some len \<and> dr_ETag response = Some etag)"
  by (cases reply) (auto simp: openReply_def translateError_def split: option.split_asm if_split_asm sdk_error.split_asm)

interpretation azure: blob_store azureStore
proof
  fix name es sn
  assume "execW (st_Stat azureStore name) es (Inr sn)"
  then show "usable sn" by (auto simp: azureStore_def Stat_def statReply_usable dest!: sym [of "Inr sn"])
next
  fix name es sn
  assume "execW (st_Stat azureStore name) es (Inr sn)"
  then show "\<exists>reply. es = [EProperties name (Inr reply)] \<and> pr_ContentLength reply = Some (sn_Size sn) \<and>
      pr_ETag reply = Some (sn_ETag sn)"
    by (auto simp: azureStore_def Stat_def dest!: sym [of "Inr sn"] statReply_snapshot)
next
  fix name es r
  assume "execW (st_Stat azureStore name) es r"
  then show "list_all storageEvent es \<and> requests es = [] \<and> set (touched es) \<subseteq> {name}"
    by (auto simp: azureStore_def Stat_def storageEvent_def)
next
  fix name offset len etag es r
  assume "execW (st_OpenRange azureStore name offset len etag) es r"
  then show "list_all storageEvent es \<and> set (touched es) \<subseteq> {name} \<and>
      (requests es = [] \<or> requests es = [(name, offset, len, etag)])"
    by (auto simp: azureStore_def OpenRange_def storageEvent_def split: if_split_asm dest!: openReply_cases)
next
  fix name offset len etag es b
  assume "execW (st_OpenRange azureStore name offset len etag) es (Inr b)"
  then show "\<exists>reply. es = [EDownload name offset len etag (Inr reply)] \<and> dr_Body reply = Some b \<and>
        dr_ContentLength reply = Some len \<and> dr_ETag reply = Some etag"
    by (auto simp: azureStore_def OpenRange_def split: if_split_asm dest!: openReply_cases)
next
  fix name es err
  assume "execW (st_Stat azureStore name) es (Inl err)" "err \<in> {ErrCanceled, ErrDeadlineExceeded}"
  then obtain reply where "es = [EProperties name reply]" "statReply reply = Inl err"
    by (auto simp: azureStore_def Stat_def)
  then show "interrupted es" using \<open>err \<in> _\<close>
    by (cases reply) (auto simp: statReply_def translateError_def split: option.split_asm if_split_asm sdk_error.split_asm)
next
  fix name offset len etag es err
  assume "execW (st_OpenRange azureStore name offset len etag) es (Inl err)" "err \<in> {ErrCanceled, ErrDeadlineExceeded}"
  then show "interrupted es"
    by (auto simp: azureStore_def OpenRange_def split: if_split_asm dest!: openReply_cases)
qed

section \<open>Validators\<close>

lemma validStrongETag_strong: "validStrongETag e \<Longrightarrow> isStrongETag e \<and> length e \<le> maxValidatorBytes"
  by (cases e) (auto simp: validStrongETag_def isStrongETag_def hasPrefix_def maxValidatorBytes_def quote_char_def)

lemma own_validator_permits: "validStrongETag e \<Longrightarrow> ifRangePermits [e] e"
  using validStrongETag_strong [of e] by (simp add: ifRangePermits_def not_less)

end
