(* ===== verification/Handler.thy ===== *)
theory Handler
  imports Auth BlobStore Sha256
begin

text \<open>
  Package \<open>internal/httpapi\<close> (\<open>handler.go\<close>): the HTTP surface of the download application. \<open>ServeHTTP\<close> is the tree of
  everything one request does. The header map of the response is passed along explicitly, as the code mutates it
  before the one call of \<open>WriteHeader\<close>.
\<close>

section \<open>Requests and targets\<close>

text \<open>The server always sets the URL of a request, so its test against nil is not modelled.\<close>

record request =
  rq_Method :: string
  rq_URL :: url
  rq_RequestURI :: string
  rq_Header :: headers

record downloadTarget =
  tg_blobName :: string
  tg_fileName :: string
  tg_version :: string

record selectedDownload =
  sd_target :: downloadTarget
  sd_snapshot :: Snapshot
  sd_selection :: Selection

record streamResult =
  sr_outcome :: string
  sr_bytes :: int

definition maxVersionBytes :: nat where "maxVersionBytes = 96"
definition maxFileNameBytes :: nat where "maxFileNameBytes = 128"

text \<open>\<open>strings.Trim\<close> with a cutset of one character.\<close>

definition trimChar :: "char \<Rightarrow> string \<Rightarrow> string" where
  "trimChar d s = rev (dropWhile (\<lambda>c. c = d) (rev (dropWhile (\<lambda>c. c = d) s)))"

definition validDownloadSegment :: "string \<Rightarrow> nat \<Rightarrow> bool" where
  "validDownloadSegment value maximumBytes \<longleftrightarrow>
     \<not> (value = [] \<or> length value > maximumBytes \<or> trimChar CHR ''.'' value = []) \<and>
     list_all (\<lambda>character.
       \<not> ((byte character < byte CHR ''A'' \<or> byte character > byte CHR ''Z'') \<and>
          (byte character < byte CHR ''a'' \<or> byte character > byte CHR ''z'') \<and>
          (byte character < byte CHR ''0'' \<or> byte character > byte CHR ''9'') \<and>
          character \<noteq> CHR ''.'' \<and> character \<noteq> CHR ''_'' \<and> character \<noteq> CHR ''-'')) value"

definition downloadTargetFromRequest :: "request \<Rightarrow> downloadTarget option" where
  "downloadTargetFromRequest request =
     (if u_opaque (rq_URL request) \<noteq> [] \<or> u_rawPath (rq_URL request) \<noteq> [] \<or> u_rawQuery (rq_URL request) \<noteq> [] \<or>
         u_forceQuery (rq_URL request) \<or> contains (rq_RequestURI request) ''%''
      then None
      else let parts = split CHR ''/'' (u_path (rq_URL request))
           in if length parts \<noteq> 6 \<or> parts ! 0 \<noteq> [] \<or> parts ! 1 \<noteq> ''v1'' \<or> parts ! 2 \<noteq> ''releases'' \<or>
                 parts ! 4 \<noteq> ''download'' \<or> \<not> validDownloadSegment (parts ! 3) maxVersionBytes \<or>
                 \<not> validDownloadSegment (parts ! 5) maxFileNameBytes
              then None
              else Some \<lparr>tg_blobName = parts ! 3 @ ''/'' @ parts ! 5, tg_fileName = parts ! 5, tg_version = parts ! 3\<rparr>)"

section \<open>Response headers\<close>

definition setSecurityHeaders :: "headers \<Rightarrow> headers" where
  "setSecurityHeaders h =
     headerSet ''X-Frame-Options'' ''DENY''
     (headerSet ''X-Content-Type-Options'' ''nosniff''
     (headerSet ''Strict-Transport-Security'' ''max-age=31536000; includeSubDomains''
     (headerSet ''Referrer-Policy'' ''no-referrer''
     (headerSet ''Permissions-Policy'' ''camera=(), geolocation=(), microphone=()''
     (headerSet ''Cross-Origin-Resource-Policy'' ''same-origin''
     (headerSet ''Content-Security-Policy'' ''default-src 'none'; frame-ancestors 'none'; sandbox'' h))))))"

definition setDownloadHeaders :: "headers \<Rightarrow> selectedDownload \<Rightarrow> headers" where
  "setDownloadHeaders h selected =
     (let selection = sd_selection selected;
          h1 = headerSet ''ETag'' (sn_ETag (sd_snapshot selected))
              (headerSet ''Content-Type'' ''application/octet-stream''
              (headerSet ''Content-Length'' (itoa (selLength selection))
              (headerSet ''Content-Disposition'' (''attachment; filename='' @ [quote_char] @ tg_fileName (sd_target selected) @ [quote_char])
              (headerSet ''Cache-Control'' ''private, no-store''
              (headerSet ''Accept-Ranges'' ''bytes'' h)))))
      in case selRange selection of
           Some r \<Rightarrow>
             if selPartial selection
             then headerSet ''Content-Range''
                    (''bytes '' @ itoa (rangeStart r) @ ''-'' @ itoa (rangeEnd r) @ ''/'' @ itoa (sn_Size (sd_snapshot selected))) h1
             else h1
         | None \<Rightarrow> h1)"

definition jsonBody :: "string \<Rightarrow> string \<Rightarrow> string" where
  "jsonBody name value = ''{'' @ [quote_char] @ name @ [quote_char] @ '':'' @ [quote_char] @ value @ [quote_char] @ ''}''"

definition healthBody :: string where
  "healthBody = ''{'' @ [quote_char] @ ''service'' @ [quote_char] @ '':'' @ [quote_char] @ ''dar-download'' @ [quote_char] @ '','' @
     [quote_char] @ ''status'' @ [quote_char] @ '':'' @ [quote_char] @ ''ok'' @ [quote_char] @ ''}''"

definition setJSONHeaders :: "headers \<Rightarrow> string \<Rightarrow> headers" where
  "setJSONHeaders h body =
     headerSet ''Content-Type'' ''application/json'' (headerSet ''Content-Length'' (itoa (int (length body)))
       (headerSet ''Cache-Control'' ''no-store'' h))"

definition writeHealth :: "headers \<Rightarrow> unit web" where
  "writeHealth h = Head 200 (setJSONHeaders h healthBody) (Write healthBody (\<lambda>_. Done ()))"

definition writeJSON :: "headers \<Rightarrow> int \<Rightarrow> string \<Rightarrow> unit web" where
  "writeJSON h status code =
     (let body = jsonBody ''error'' code
      in Head status (setJSONHeaders h body) (Write body (\<lambda>_. Done ())))"

definition writeStorageError :: "headers \<Rightarrow> go_error \<Rightarrow> unit web" where
  "writeStorageError h err =
     (if err = ErrCanceled \<or> err = ErrDeadlineExceeded then Done ()
      else CtxErr (\<lambda>gone.
        if gone then Done ()
        else if err = ErrNotFound then writeJSON h 404 ''release_not_found''
        else writeJSON h 502 ''storage_unavailable''))"

section \<open>Streaming\<close>

definition streamFailureOutcome :: "string web" where
  "streamFailureOutcome = CtxErr (\<lambda>gone. Done (if gone then ''STREAM_ABANDONED'' else ''STREAM_FAILED''))"

text \<open>
  \<open>io.CopyN\<close> copies at most the asked length of what the body yields; it reports an error exactly when fewer bytes
  were taken by the writer.
\<close>

definition copySegment :: "body \<Rightarrow> int \<Rightarrow> (int \<times> bool) web" where
  "copySegment reader len =
     (let data = take (nat len) reader
      in Write data (\<lambda>n.
           let written = int (min n (length data))
           in Close (\<lambda>closeFailed.
                if written \<noteq> len \<or> closeFailed then Log LogStreamFailure (Done (written, False))
                else Done (written, True))))"

definition failedStream :: "int \<Rightarrow> streamResult web" where
  "failedStream totalBytes = bindW streamFailureOutcome (\<lambda>outcome. Done \<lparr>sr_outcome = outcome, sr_bytes = totalBytes\<rparr>)"

function streamRest :: "Store \<Rightarrow> selectedDownload \<Rightarrow> int \<Rightarrow> int \<Rightarrow> int \<Rightarrow> streamResult web" where
  "streamRest store selected offset remaining totalWritten =
     (if \<not> remaining > 0 then Done \<lparr>sr_outcome = ''STREAM_COMPLETED'', sr_bytes = totalWritten\<rparr>
      else CtxErr (\<lambda>gone.
        if gone then Done \<lparr>sr_outcome = ''STREAM_ABANDONED'', sr_bytes = totalWritten\<rparr>
        else let len = min remaining MaxStorageSegment
             in bindW (st_OpenRange store (tg_blobName (sd_target selected)) offset len (sn_ETag (sd_snapshot selected))) (\<lambda>opened.
                  case opened of
                    Inl _ \<Rightarrow> Log LogStreamFailure (Done \<lparr>sr_outcome = ''STREAM_FAILED'', sr_bytes = totalWritten\<rparr>)
                  | Inr reader \<Rightarrow>
                      bindW (copySegment reader len) (\<lambda>(written, copied).
                        if \<not> copied then failedStream (totalWritten + written)
                        else streamRest store selected (offset + len) (remaining - len) (totalWritten + written)))))"
  by pat_completeness auto
termination
  by (relation "measure (\<lambda>(store, selected, offset, remaining, written). nat remaining)") (auto simp: MaxStorageSegment_def)

declare streamRest.simps [simp del]

definition stream :: "Store \<Rightarrow> headers \<Rightarrow> selectedDownload \<Rightarrow> streamResult web" where
  "stream store h selected =
     (let selection = sd_selection selected
      in if selLength selection = 0 then
           Head 200 (setDownloadHeaders h selected) (Done \<lparr>sr_outcome = ''STREAM_COMPLETED'', sr_bytes = 0\<rparr>)
         else
           let firstLength = min (selLength selection) MaxStorageSegment
           in bindW (st_OpenRange store (tg_blobName (sd_target selected)) (selOffset selection) firstLength
                       (sn_ETag (sd_snapshot selected))) (\<lambda>opened.
                case opened of
                  Inl err \<Rightarrow>
                    bindW (writeStorageError h err) (\<lambda>_. Done \<lparr>sr_outcome = ''STORAGE_UNAVAILABLE'', sr_bytes = 0\<rparr>)
                | Inr reader \<Rightarrow>
                    Head (if selPartial selection then 206 else 200) (setDownloadHeaders h selected)
                      (bindW (copySegment reader firstLength) (\<lambda>(written, copied).
                         if \<not> copied then failedStream written
                         else streamRest store selected (selOffset selection + firstLength)
                                (selLength selection - firstLength) written))))"

section \<open>The handler\<close>

definition newSessionID :: "string option web" where
  "newSessionID = Random (\<lambda>random. Done (map_option hexEncode random))"

definition logDownload :: "string \<Rightarrow> string \<Rightarrow> downloadTarget \<Rightarrow> int \<Rightarrow> streamResult web \<Rightarrow> unit web" where
  "logDownload sessionID subject target requested body =
     Clock (\<lambda>startedAt.
       Log (LogStarted startedAt sessionID subject (tg_version target) (tg_fileName target) requested)
         (bindW body (\<lambda>streamed.
            Clock (\<lambda>endedAt.
              Log (LogTerminal (''dar.download.'' @ toLower (sr_outcome streamed)) endedAt sessionID subject
                     (tg_version target) (tg_fileName target) (sr_bytes streamed) (sr_outcome streamed))
                (Done ())))))"

definition serveSnapshot :: "Store \<Rightarrow> headers \<Rightarrow> request \<Rightarrow> downloadTarget \<Rightarrow> string \<Rightarrow> string \<Rightarrow> Snapshot \<Rightarrow> unit web" where
  "serveSnapshot store h request target sessionID subject snapshot =
     (if sn_Size snapshot > MaxObjectSize then writeJSON h 413 ''release_too_large''
      else case Select (headerValues (rq_Header request) ''Range'') (headerValues (rq_Header request) ''If-Range'')
                  (sn_Size snapshot) (sn_ETag snapshot) of
        Inl _ \<Rightarrow>
          writeJSON (headerSet ''Content-Range'' (''bytes */'' @ itoa (sn_Size snapshot)) (headerSet ''Accept-Ranges'' ''bytes'' h))
            416 ''invalid_range''
      | Inr selection \<Rightarrow>
          logDownload sessionID subject target (selLength selection)
            (stream store h \<lparr>sd_target = target, sd_snapshot = snapshot, sd_selection = selection\<rparr>))"

definition serveTarget :: "Config \<Rightarrow> Store \<Rightarrow> headers \<Rightarrow> request \<Rightarrow> downloadTarget \<Rightarrow> unit web" where
  "serveTarget cfg store h request target =
     (case Authenticate (rq_Header request) (boundaryPolicy cfg) of
        None \<Rightarrow> writeJSON h 401 ''authentication_required''
      | Some identity \<Rightarrow>
          bindW newSessionID (\<lambda>session.
            case session of
              None \<Rightarrow> writeJSON h 500 ''audit_unavailable''
            | Some sessionID \<Rightarrow>
                bindW (st_Stat store (tg_blobName target)) (\<lambda>reply.
                  case reply of
                    Inl err \<Rightarrow> writeStorageError h err
                  | Inr snapshot \<Rightarrow> serveSnapshot store h request target sessionID (id_Subject identity) snapshot)))"

definition ServeHTTP :: "Config \<Rightarrow> Store \<Rightarrow> request \<Rightarrow> unit web" where
  "ServeHTTP cfg store request =
     (let h = setSecurityHeaders []
      in if rq_Method request \<noteq> ''GET'' then writeJSON (headerSet ''Allow'' ''GET'' h) 405 ''method_not_allowed''
         else if u_path (rq_URL request) = ''/healthz'' then writeHealth h
         else case downloadTargetFromRequest request of
           None \<Rightarrow> writeJSON h 404 ''release_not_found''
         | Some target \<Rightarrow> serveTarget cfg store h request target)"

end
