(* ===== verification/Serving.thy ===== *)
theory Serving
  imports Handler "HOL-Library.Sublist"
begin

text \<open>
  What the download handler guarantees over all executions: who reaches storage, which ranges are read, which bytes
  are sent, what every response carries. The lemmas rest on the contract \<open>blob_store\<close> only; the properties are
  stated for the Azure adapter.
\<close>

section \<open>Segments\<close>

function segments :: "int \<Rightarrow> int \<Rightarrow> (int \<times> int) list" where
  "segments offset remaining =
     (if remaining \<le> 0 then []
      else let len = min remaining MaxStorageSegment in (offset, len) # segments (offset + len) (remaining - len))"
  by pat_completeness auto
termination
  by (relation "measure (\<lambda>(offset, remaining). nat remaining)") (auto simp: MaxStorageSegment_def)

declare segments.simps [simp del]

lemma segments_done [simp]: "remaining \<le> 0 \<Longrightarrow> segments offset remaining = []"
  by (simp add: segments.simps)

lemma segments_step:
  "0 < remaining \<Longrightarrow> segments offset remaining =
     (offset, min remaining MaxStorageSegment) #
       segments (offset + min remaining MaxStorageSegment) (remaining - min remaining MaxStorageSegment)"
  by (simp add: segments.simps [of offset] Let_def)

lemma segments_inside:
  "(o', l) \<in> set (segments offset remaining) \<Longrightarrow>
     offset \<le> o' \<and> 1 \<le> l \<and> l \<le> MaxStorageSegment \<and> o' + l \<le> offset + remaining"
proof (induction offset remaining rule: segments.induct)
  case (1 offset remaining)
  show ?case
  proof (cases "0 < remaining")
    case True
    let ?len = "min remaining MaxStorageSegment"
    have l: "1 \<le> ?len" "?len \<le> MaxStorageSegment" "?len \<le> remaining" using True by (auto simp: MaxStorageSegment_def)
    from 1(2) True have "(o', l) = (offset, ?len) \<or> (o', l) \<in> set (segments (offset + ?len) (remaining - ?len))"
      by (simp add: segments_step)
    then show ?thesis using 1(1) [OF _ refl] True l by fastforce
  qed (use 1 in simp)
qed

section \<open>What storage holds\<close>

definition byteSlice :: "int \<Rightarrow> int \<Rightarrow> string \<Rightarrow> string" where
  "byteSlice offset len content = take (nat len) (drop (nat offset) content)"

text \<open>
  A validator identifies one content of a blob: the length that storage reports is its length, and what a range
  answer yields are its bytes from the requested offset on, possibly cut short.
\<close>

definition honest :: "(string \<Rightarrow> string \<Rightarrow> string) \<Rightarrow> webEvent list \<Rightarrow> bool" where
  "honest contents es \<longleftrightarrow>
     (\<forall>name offset len etag reply b e. EDownload name offset len etag (Inr reply) \<in> set es \<longrightarrow>
        dr_Body reply = Some b \<longrightarrow> dr_ETag reply = Some e \<longrightarrow>
        prefix (take (nat len) b) (drop (nat offset) (contents name e))) \<and>
     (\<forall>name reply n e. EProperties name (Inr reply) \<in> set es \<longrightarrow>
        pr_ContentLength reply = Some n \<longrightarrow> pr_ETag reply = Some e \<longrightarrow> n = int (length (contents name e)))"

lemma honest_simps [simp]:
  "honest contents []" "honest contents (ECtxErr g # es) = honest contents es" "honest contents (ELog l # es) = honest contents es"
  "honest contents (EHead s h # es) = honest contents es" "honest contents (EClock t # es) = honest contents es"
  "honest contents (ERandom x # es) = honest contents es" "honest contents (EWrite d n # es) = honest contents es"
  "honest contents (EClose f # es) = honest contents es"
  by (simp_all add: honest_def)

lemma honest_append [simp]: "honest contents (es @ es') \<longleftrightarrow> honest contents es \<and> honest contents es'"
  by (auto simp: honest_def)

lemma slice_split:
  assumes "0 \<le> a" "0 \<le> b" "0 \<le> offset"
  shows "byteSlice offset (a + b) content = byteSlice offset a content @ byteSlice (offset + a) b content"
  using assms by (simp add: byteSlice_def nat_add_distrib take_add add.commute)

lemma slice_length: "0 \<le> len \<Longrightarrow> int (length (byteSlice offset len content)) \<le> len"
  by (simp add: byteSlice_def)

lemma prefix_slice: "prefix s (drop (nat offset) content) \<Longrightarrow> length s \<le> nat len \<Longrightarrow> prefix s (byteSlice offset len content)"
  by (auto simp: byteSlice_def prefix_def)

lemma prefix_full:
  assumes "prefix s (byteSlice offset len content)" "int (length s) = len"
  shows "s = byteSlice offset len content"
proof -
  have "length (byteSlice offset len content) \<le> length s" using slice_length [of len offset content] assms(2) by simp
  then show ?thesis using assms(1) by (auto simp: prefix_def)
qed

lemma take_prefix_take: "n \<le> m \<Longrightarrow> prefix (take n s) (take m s)"
  by (metis le_Suc_ex take_add prefixI)

section \<open>Streaming\<close>

lemma copySegment_cases:
  assumes "execW (copySegment reader len) es (written, copied)"
  shows "heads es = [] \<and> requests es = [] \<and> touched es = [] \<and> prefix (sent es) (take (nat len) reader) \<and> written = int (length (sent es)) \<and>
    (copied \<longrightarrow> written = len)"
  using assms take_prefix_take [of _ "nat len" reader]
  by (auto simp: copySegment_def Let_def min_def split: if_splits)

text \<open>Progress of a stream: bytes of the selection in order, counted, and all of them when it completed.\<close>

definition progress :: "string \<Rightarrow> int \<Rightarrow> int \<Rightarrow> int \<Rightarrow> webEvent list \<Rightarrow> streamResult \<Rightarrow> bool" where
  "progress content offset len before es r \<longleftrightarrow>
     prefix (sent es) (byteSlice offset len content) \<and> sr_bytes r = before + int (length (sent es)) \<and>
     sr_outcome r \<in> {''STREAM_COMPLETED'', ''STREAM_ABANDONED'', ''STREAM_FAILED''} \<and>
     (sr_outcome r = ''STREAM_COMPLETED'' \<longrightarrow> int (length (sent es)) = len)"

lemma failedStream_cases:
  "execW (failedStream n) es r \<Longrightarrow>
     heads es = [] \<and> requests es = [] \<and> touched es = [] \<and> sent es = [] \<and> sr_bytes r = n \<and>
     sr_outcome r \<in> {''STREAM_ABANDONED'', ''STREAM_FAILED''}"
  by (auto simp: failedStream_def streamFailureOutcome_def execW_bindW split: if_splits)

lemma streamRest_cases:
  assumes "execW (streamRest store selected offset remaining before) es r" "0 < remaining"
    and "len = min remaining MaxStorageSegment"
    and "opening = st_OpenRange store (tg_blobName (sd_target selected)) offset len (sn_ETag (sd_snapshot selected))"
  obtains (gone) "es = [ECtxErr True]" "r = \<lparr>sr_outcome = ''STREAM_ABANDONED'', sr_bytes = before\<rparr>"
  | (refused) eo e where "es = ECtxErr False # eo @ [ELog LogStreamFailure]" "execW opening eo (Inl e)"
      "r = \<lparr>sr_outcome = ''STREAM_FAILED'', sr_bytes = before\<rparr>"
  | (broken) eo reader ec written ef where "es = ECtxErr False # eo @ ec @ ef" "execW opening eo (Inr reader)"
      "execW (copySegment reader len) ec (written, False)" "execW (failedStream (before + written)) ef r"
  | (copied) eo reader ec written er where "es = ECtxErr False # eo @ ec @ er" "execW opening eo (Inr reader)"
      "execW (copySegment reader len) ec (written, True)"
      "execW (streamRest store selected (offset + len) (remaining - len) (before + written)) er r"
proof -
  let ?tail = "\<lambda>opened. case opened of
      Inl _ \<Rightarrow> Log LogStreamFailure (Done \<lparr>sr_outcome = ''STREAM_FAILED'', sr_bytes = before\<rparr>)
    | Inr reader \<Rightarrow> bindW (copySegment reader len) (\<lambda>(written, copied).
        if \<not> copied then failedStream (before + written)
        else streamRest store selected (offset + len) (remaining - len) (before + written))"
  have "streamRest store selected offset remaining before =
      CtxErr (\<lambda>gone. if gone then Done \<lparr>sr_outcome = ''STREAM_ABANDONED'', sr_bytes = before\<rparr> else bindW opening ?tail)"
    unfolding assms(3,4) using assms(2) by (subst streamRest.simps) (simp add: Let_def cong: if_cong)
  with assms(1) consider "es = [ECtxErr True]" "r = \<lparr>sr_outcome = ''STREAM_ABANDONED'', sr_bytes = before\<rparr>"
    | eo opened er where "es = ECtxErr False # eo @ er" "execW opening eo opened" "execW (?tail opened) er r"
    by (auto simp: execW_bindW split: if_split_asm)
  then show ?thesis
  proof cases
    case 1
    then show ?thesis by (rule gone)
  next
    case (2 eo opened er)
    show ?thesis
    proof (cases opened)
      case (Inl e)
      then show ?thesis using 2 by (intro refused) auto
    next
      case (Inr reader)
      then obtain ec written ok et where c: "er = ec @ et" "execW (copySegment reader len) ec (written, ok)"
        "execW (if \<not> ok then failedStream (before + written)
          else streamRest store selected (offset + len) (remaining - len) (before + written)) et r"
        using 2(3) by (auto simp: execW_bindW)
      show ?thesis
        using 2 c Inr by (cases ok) (auto intro: broken copied)
    qed
  qed
qed

lemma stream_cases:
  assumes "execW (stream store h selected) es r"
    and "len = min (selLength (sd_selection selected)) MaxStorageSegment" "offset = selOffset (sd_selection selected)"
    and "opening = st_OpenRange store (tg_blobName (sd_target selected)) offset len (sn_ETag (sd_snapshot selected))"
    and "begun = EHead (if selPartial (sd_selection selected) then 206 else 200) (setDownloadHeaders h selected)"
  obtains (empty) "selLength (sd_selection selected) = 0" "es = [EHead 200 (setDownloadHeaders h selected)]"
      "r = \<lparr>sr_outcome = ''STREAM_COMPLETED'', sr_bytes = 0\<rparr>"
  | (refused) eo e ew where "selLength (sd_selection selected) \<noteq> 0" "es = eo @ ew" "execW opening eo (Inl e)"
      "execW (writeStorageError h e) ew ()" "r = \<lparr>sr_outcome = ''STORAGE_UNAVAILABLE'', sr_bytes = 0\<rparr>"
  | (broken) eo reader ec written ef where "selLength (sd_selection selected) \<noteq> 0" "es = eo @ begun # ec @ ef"
      "execW opening eo (Inr reader)" "execW (copySegment reader len) ec (written, False)" "execW (failedStream written) ef r"
  | (copied) eo reader ec written er where "selLength (sd_selection selected) \<noteq> 0" "es = eo @ begun # ec @ er"
      "execW opening eo (Inr reader)" "execW (copySegment reader len) ec (written, True)"
      "execW (streamRest store selected (offset + len) (selLength (sd_selection selected) - len) written) er r"
proof (cases "selLength (sd_selection selected) = 0")
  case True
  then show ?thesis using assms(1) by (intro empty) (simp_all add: stream_def)
next
  case False
  let ?tail = "\<lambda>opened. case opened of
      Inl err \<Rightarrow> bindW (writeStorageError h err) (\<lambda>_. Done \<lparr>sr_outcome = ''STORAGE_UNAVAILABLE'', sr_bytes = 0\<rparr>)
    | Inr reader \<Rightarrow> Head (if selPartial (sd_selection selected) then 206 else 200) (setDownloadHeaders h selected)
        (bindW (copySegment reader len) (\<lambda>(written, copied).
           if \<not> copied then failedStream written
           else streamRest store selected (offset + len) (selLength (sd_selection selected) - len) written))"
  have "stream store h selected = bindW opening ?tail"
    unfolding assms(2-4) using False by (simp add: stream_def Let_def cong: if_cong)
  with assms(1) obtain eo opened er where e: "es = eo @ er" "execW opening eo opened" "execW (?tail opened) er r"
    by (auto simp: execW_bindW)
  show ?thesis
  proof (cases opened)
    case (Inl err)
    then show ?thesis using e False by (intro refused [of eo er err]) (auto simp: execW_bindW)
  next
    case (Inr reader)
    then obtain ec written ok et where c: "er = begun # ec @ et" "execW (copySegment reader len) ec (written, ok)"
      "execW (if \<not> ok then failedStream written
        else streamRest store selected (offset + len) (selLength (sd_selection selected) - len) written) et r"
      using e(3) assms(5) by (auto simp: execW_bindW)
    show ?thesis using e c Inr False by (cases ok) (auto intro: broken copied)
  qed
qed

text \<open>The ranges read are the first segments of the selection, in order, all under the validator of the snapshot.\<close>

definition asked :: "selectedDownload \<Rightarrow> (int \<times> int) list \<Rightarrow> (string \<times> int \<times> int \<times> string) list" where
  "asked selected = map (\<lambda>(off, len). (tg_blobName (sd_target selected), off, len, sn_ETag (sd_snapshot selected)))"

context blob_store
begin

lemma opened_segment:
  assumes "execW (st_OpenRange store name offset len etag) es (Inr reader)" "honest contents es"
  shows "prefix (take (nat len) reader) (drop (nat offset) (contents name etag))"
  using open_body [OF assms(1)] assms(2) unfolding honest_def by fastforce

lemma copied_segment:
  assumes "execW (st_OpenRange store name offset len etag) eo (Inr reader)" "honest contents eo"
    and "execW (copySegment reader len) ec (written, ok)" "0 \<le> len"
  shows "heads eo = [] \<and> sent eo = [] \<and> heads ec = [] \<and> prefix (sent ec) (byteSlice offset len (contents name etag)) \<and>
    written = int (length (sent ec)) \<and> (ok \<longrightarrow> written = len \<and> sent ec = byteSlice offset len (contents name etag))"
proof -
  note c = copySegment_cases [OF assms(3)] and q = open_quiet [OF assms(1)]
  have p: "prefix (sent ec) (drop (nat offset) (contents name etag))"
    using c opened_segment [OF assms(1,2)] prefix_order.trans by blast
  have "length (sent ec) \<le> nat len" using c prefix_length_le by fastforce
  then have s: "prefix (sent ec) (byteSlice offset len (contents name etag))" by (rule prefix_slice [OF p])
  have "ok \<Longrightarrow> sent ec = byteSlice offset len (contents name etag)" using c by (intro prefix_full [OF s]) auto
  with s show ?thesis using c q by auto
qed

lemma streamRest_progress:
  assumes "execW (streamRest store selected offset remaining before) es r"
    and "honest contents es" "0 \<le> offset" "0 \<le> remaining"
    and "content = contents (tg_blobName (sd_target selected)) (sn_ETag (sd_snapshot selected))"
  shows "heads es = [] \<and> progress content offset remaining before es r"
  using assms
proof (induction "nat remaining" arbitrary: offset remaining before es rule: less_induct)
  case less
  define len where "len = min remaining MaxStorageSegment"
  show ?case
  proof (cases "0 < remaining")
    case False
    then show ?thesis using less.prems by (auto simp: streamRest.simps [of store] progress_def)
  next
    case True
    then have len: "0 < len" "len \<le> remaining" by (auto simp: len_def MaxStorageSegment_def)
    have sl: "byteSlice offset remaining content = byteSlice offset len content @ byteSlice (offset + len) (remaining - len) content"
      using slice_split [of len "remaining - len" offset content] len less.prems by simp
    from less.prems(1) True len_def refl show ?thesis
    proof (cases rule: streamRest_cases)
      case gone
      then show ?thesis by (simp add: progress_def)
    next
      case (refused eo e)
      then show ?thesis using open_quiet [OF refused(2)] by (simp add: progress_def)
    next
      case (broken eo reader ec written ef)
      have c: "heads eo = [] \<and> sent eo = [] \<and> heads ec = [] \<and> prefix (sent ec) (byteSlice offset len content) \<and>
          written = int (length (sent ec))"
        using copied_segment [OF broken(2) _ broken(3), of contents] broken(1) len less.prems by simp
      then show ?thesis using failedStream_cases [OF broken(4)] broken(1) by (auto simp: progress_def sl)
    next
      case (copied eo reader ec written er)
      have c: "heads eo = [] \<and> sent eo = [] \<and> heads ec = [] \<and> written = len \<and>
          written = int (length (sent ec)) \<and> sent ec = byteSlice offset len content"
        using copied_segment [OF copied(2) _ copied(3), of contents] copied(1) len less.prems by auto
      have "heads er = [] \<and> progress content (offset + len) (remaining - len) (before + written) er r"
        using len less.prems copied(1) by (intro less.hyps [OF _ copied(4)]) auto
      with c show ?thesis using copied(1) by (auto simp: progress_def sl)
    qed
  qed
qed

lemma opened_request:
  "execW (st_OpenRange store name offset len etag) eo (Inr reader) \<Longrightarrow> requests eo = [(name, offset, len, etag)]"
  using open_body [of name offset len etag eo reader] by auto

lemma refused_request:
  "execW (st_OpenRange store name offset len etag) eo e \<Longrightarrow> prefix (requests eo) ((name, offset, len, etag) # rest)"
  using open_events [of name offset len etag eo e] by auto

lemma streamRest_events:
  assumes "execW (streamRest store selected offset remaining before) es r"
  shows "prefix (requests es) (asked selected (segments offset remaining)) \<and>
    set (touched es) \<subseteq> {tg_blobName (sd_target selected)} \<and> heads es = []"
  using assms
proof (induction "nat remaining" arbitrary: offset remaining before es rule: less_induct)
  case less
  define len where "len = min remaining MaxStorageSegment"
  show ?case
  proof (cases "0 < remaining")
    case False
    then show ?thesis using less.prems by (simp add: streamRest.simps [of store])
  next
    case True
    then have seg: "segments offset remaining = (offset, len) # segments (offset + len) (remaining - len)"
      by (simp add: segments_step len_def)
    from less.prems True len_def refl show ?thesis
    proof (cases rule: streamRest_cases)
      case (refused eo e)
      then show ?thesis using refused_request [OF refused(2)] open_quiet [OF refused(2)] open_events [OF refused(2)]
        by (simp add: seg asked_def)
    next
      case (broken eo reader ec written ef)
      then show ?thesis using opened_request [OF broken(2)] copySegment_cases [OF broken(3)] failedStream_cases [OF broken(4)]
          open_quiet [OF broken(2)] open_events [OF broken(2)]
        by (simp add: seg asked_def)
    next
      case (copied eo reader ec written er)
      have "prefix (requests er) (asked selected (segments (offset + len) (remaining - len))) \<and>
          set (touched er) \<subseteq> {tg_blobName (sd_target selected)} \<and> heads er = []"
        using True by (intro less.hyps [OF _ copied(4)]) (auto simp: len_def MaxStorageSegment_def)
      then show ?thesis using copied opened_request [OF copied(2)] copySegment_cases [OF copied(3)]
          open_quiet [OF copied(2)] open_events [OF copied(2)]
        by (simp add: seg asked_def)
    qed simp
  qed
qed

lemma storageError_events:
  assumes "execW (writeStorageError h err) es x"
  shows "requests es = [] \<and> touched es = [] \<and>
    (heads es = [] \<and> (err \<in> {ErrCanceled, ErrDeadlineExceeded} \<or> interrupted es) \<or>
     (\<exists>status body. heads es = [(status, setJSONHeaders h body)]))"
  using assms by (auto simp: writeStorageError_def writeJSON_def Let_def split: if_split_asm)

lemma stream_events:
  assumes "execW (stream store h selected) es r" "0 \<le> selLength (sd_selection selected)"
  shows "prefix (requests es) (asked selected (segments (selOffset (sd_selection selected)) (selLength (sd_selection selected)))) \<and>
    set (touched es) \<subseteq> {tg_blobName (sd_target selected)} \<and>
    (heads es = [] \<and> interrupted es \<or> (\<exists>status body. heads es = [(status, setJSONHeaders h body)]) \<or>
     (\<exists>status. heads es = [(status, setDownloadHeaders h selected)]))"
proof (cases "selLength (sd_selection selected) = 0")
  case True
  then show ?thesis using assms(1) by (auto simp: stream_def)
next
  case False
  define len where "len = min (selLength (sd_selection selected)) MaxStorageSegment"
  define offset where "offset = selOffset (sd_selection selected)"
  have seg: "segments offset (selLength (sd_selection selected)) =
      (offset, len) # segments (offset + len) (selLength (sd_selection selected) - len)"
    using False assms(2) by (simp add: segments_step len_def)
  from assms(1) len_def offset_def refl refl show ?thesis
  proof (cases rule: stream_cases)
    case (refused eo e ew)
    then show ?thesis using refused_request [OF refused(3)] storageError_events [OF refused(4)]
        open_quiet [OF refused(3)] open_events [OF refused(3)] open_interrupted [OF refused(3)]
      by (auto simp: seg [unfolded offset_def] asked_def offset_def)
  next
    case (broken eo reader ec written ef)
    then show ?thesis using opened_request [OF broken(3)] copySegment_cases [OF broken(4)] failedStream_cases [OF broken(5)]
        open_quiet [OF broken(3)] open_events [OF broken(3)]
      by (simp add: seg [unfolded offset_def] asked_def offset_def)
  next
    case (copied eo reader ec written er)
    then show ?thesis
      using opened_request [OF copied(3)] copySegment_cases [OF copied(4)] streamRest_events [OF copied(5)]
        open_quiet [OF copied(3)] open_events [OF copied(3)]
      by (simp add: seg [unfolded offset_def] asked_def offset_def)
  qed (use False in simp)
qed

lemma stream_faithful:
  assumes "execW (stream store h selected) es r" "honest contents es"
    and "selected = \<lparr>sd_target = target, sd_snapshot = sn, sd_selection = sel\<rparr>"
    and "0 \<le> selOffset sel" "0 \<le> selLength sel" "selPartial sel \<longrightarrow> 0 < selLength sel"
  shows "sr_outcome r = ''STORAGE_UNAVAILABLE'' \<and> sr_bytes r = 0 \<or>
    heads es = [(if selPartial sel then 206 else 200, setDownloadHeaders h selected)] \<and>
    progress (contents (tg_blobName target) (sn_ETag sn)) (selOffset sel) (selLength sel) 0 es r"
proof -
  define len where "len = min (selLength sel) MaxStorageSegment"
  define content where "content = contents (tg_blobName target) (sn_ETag sn)"
  have len: "0 \<le> len" "len \<le> selLength sel" using assms(5) by (auto simp: len_def MaxStorageSegment_def)
  have sl: "byteSlice (selOffset sel) (selLength sel) content =
      byteSlice (selOffset sel) len content @ byteSlice (selOffset sel + len) (selLength sel - len) content"
    using slice_split [of len "selLength sel - len" "selOffset sel" content] len assms(4) by simp
  have f: "sd_target selected = target" "sd_snapshot selected = sn" "sd_selection selected = sel" using assms(3) by simp_all
  have eqs: "len = min (selLength (sd_selection selected)) MaxStorageSegment" "selOffset sel = selOffset (sd_selection selected)"
    by (simp_all add: f len_def)
  from assms(1) eqs refl refl show ?thesis
  proof (cases rule: stream_cases)
    case empty
    then show ?thesis using assms(6) by (auto simp: progress_def byteSlice_def f)
  next
    case (refused eo e ew)
    then show ?thesis by simp
  next
    case (broken eo reader ec written ef)
    note br = broken [unfolded f]
    have "heads eo = [] \<and> sent eo = [] \<and> heads ec = [] \<and> prefix (sent ec) (byteSlice (selOffset sel) len content) \<and>
        written = int (length (sent ec))"
      using copied_segment [OF br(3) _ br(4), of contents] br(2) len assms(2) by (simp add: content_def)
    then show ?thesis using failedStream_cases [OF br(5)] br(2) by (auto simp: progress_def sl content_def [symmetric])
  next
    case (copied eo reader ec written er)
    note cp = copied [unfolded f]
    have c: "heads eo = [] \<and> sent eo = [] \<and> heads ec = [] \<and> written = len \<and>
        written = int (length (sent ec)) \<and> sent ec = byteSlice (selOffset sel) len content"
      using copied_segment [OF cp(3) _ cp(4), of contents] cp(2) len assms(2) by (auto simp: content_def)
    have "heads er = [] \<and> progress content (selOffset sel + len) (selLength sel - len) written er r"
      using len assms(2,4) cp(2) f by (intro streamRest_progress [OF cp(5)]) (auto simp: content_def)
    with c show ?thesis using cp(2) by (auto simp: progress_def sl content_def [symmetric])
  qed
qed

end

section \<open>Shapes of executions\<close>

lemma writeJSON_events: "execW (writeJSON h status code) es x \<Longrightarrow>
    \<exists>n. es = [EHead status (setJSONHeaders h (jsonBody ''error'' code)), EWrite (jsonBody ''error'' code) n]"
  by (auto simp: writeJSON_def Let_def)

lemma serve_cases:
  assumes "execW (ServeHTTP cfg store req) es x" "h = setSecurityHeaders []"
  obtains (answered) status h' body n where "es = [EHead status (setJSONHeaders h' body), EWrite body n]"
      "h' = h \<or> h' = headerSet ''Allow'' ''GET'' h"
  | (audit) body n where "es = [ERandom None, EHead 500 (setJSONHeaders h body), EWrite body n]"
  | (unavailable) target identity raw eo e ew where "rq_Method req = ''GET''" "downloadTargetFromRequest req = Some target"
      "Authenticate (rq_Header req) (boundaryPolicy cfg) = Some identity"
      "es = ERandom (Some raw) # eo @ ew" "execW (st_Stat store (tg_blobName target)) eo (Inl e)"
      "execW (writeStorageError h e) ew x"
  | (found) target identity raw eo sn ew where "rq_Method req = ''GET''" "downloadTargetFromRequest req = Some target"
      "Authenticate (rq_Header req) (boundaryPolicy cfg) = Some identity"
      "es = ERandom (Some raw) # eo @ ew" "execW (st_Stat store (tg_blobName target)) eo (Inr sn)"
      "execW (serveSnapshot store h req target (hexEncode raw) (id_Subject identity) sn) ew x"
proof -
  consider status h' body n where "es = [EHead status (setJSONHeaders h' body), EWrite body n]"
      "h' = h \<or> h' = headerSet ''Allow'' ''GET'' h"
    | target where "rq_Method req = ''GET''" "downloadTargetFromRequest req = Some target"
      "execW (serveTarget cfg store h req target) es x"
    using assms by (auto simp: ServeHTTP_def Let_def writeHealth_def dest!: writeJSON_events split: if_split_asm option.split_asm)
  then show ?thesis
  proof cases
    case 1
    then show ?thesis by (rule answered)
  next
    case (2 target)
    show ?thesis
    proof (cases "Authenticate (rq_Header req) (boundaryPolicy cfg)")
      case None
      then show ?thesis using 2 by (auto simp: serveTarget_def dest!: writeJSON_events intro: answered)
    next
      case (Some identity)
      from 2(3) Some obtain raw er where er: "es = ERandom raw # er" "execW (case map_option hexEncode raw of
          None \<Rightarrow> writeJSON h 500 ''audit_unavailable''
        | Some sid \<Rightarrow> bindW (st_Stat store (tg_blobName target)) (\<lambda>reply. case reply of
            Inl err \<Rightarrow> writeStorageError h err
          | Inr sn \<Rightarrow> serveSnapshot store h req target sid (id_Subject identity) sn)) er x"
        by (auto simp: serveTarget_def newSessionID_def)
      show ?thesis
      proof (cases raw)
        case None
        then show ?thesis using er by (auto dest!: writeJSON_events intro: audit)
      next
        case (Some bytes)
        then obtain eo reply ew where "er = eo @ ew" "execW (st_Stat store (tg_blobName target)) eo reply"
          "execW (case reply of Inl err \<Rightarrow> writeStorageError h err
             | Inr sn \<Rightarrow> serveSnapshot store h req target (hexEncode bytes) (id_Subject identity) sn) ew x"
          using er(2) by (auto simp: execW_bindW)
        then show ?thesis using 2 er(1) Some \<open>Authenticate _ _ = Some identity\<close>
          by (cases reply) (auto intro: unavailable found)
      qed
    qed
  qed
qed

lemma snapshot_cases:
  assumes "execW (serveSnapshot store h req target sid subject sn) es x"
  obtains (rejected) status h' body n where "es = [EHead status (setJSONHeaders h' body), EWrite body n]"
      "h' = h \<or> h' = headerSet ''Content-Range'' (''bytes */'' @ itoa (sn_Size sn)) (headerSet ''Accept-Ranges'' ''bytes'' h)"
  | (started) sel t1 et r t2 where "sn_Size sn \<le> MaxObjectSize"
      "Select (headerValues (rq_Header req) ''Range'') (headerValues (rq_Header req) ''If-Range'') (sn_Size sn) (sn_ETag sn) = Inr sel"
      "execW (stream store h \<lparr>sd_target = target, sd_snapshot = sn, sd_selection = sel\<rparr>) et r"
      "es = EClock t1 # ELog (LogStarted t1 sid subject (tg_version target) (tg_fileName target) (selLength sel)) # et @
         [EClock t2, ELog (LogTerminal (''dar.download.'' @ toLower (sr_outcome r)) t2 sid subject (tg_version target)
            (tg_fileName target) (sr_bytes r) (sr_outcome r))]"
proof (cases "sn_Size sn > MaxObjectSize")
  case True
  then show ?thesis using assms by (auto simp: serveSnapshot_def dest!: writeJSON_events intro: rejected)
next
  case False
  show ?thesis
  proof (cases "Select (headerValues (rq_Header req) ''Range'') (headerValues (rq_Header req) ''If-Range'') (sn_Size sn) (sn_ETag sn)")
    case (Inl e)
    then show ?thesis using assms False by (auto simp: serveSnapshot_def dest!: writeJSON_events intro: rejected)
  next
    case (Inr sel)
    then show ?thesis using assms False
      by (auto simp: serveSnapshot_def logDownload_def execW_bindW intro: started)
  qed
qed

end
