(* ===== verification/Downloads.thy ===== *)
theory Downloads
  imports Serving
begin

text \<open>
  The properties of the download application, over every execution of \<open>ServeHTTP\<close> with the Azure adapter: any request,
  any replies of storage, any behaviour of the connection.
\<close>

section \<open>Headers of responses\<close>

definition securityHeaders :: "(string \<times> string) list" where
  "securityHeaders =
     [(''Content-Security-Policy'', ''default-src 'none'; frame-ancestors 'none'; sandbox''),
      (''Cross-Origin-Resource-Policy'', ''same-origin''),
      (''Permissions-Policy'', ''camera=(), geolocation=(), microphone=()''),
      (''Referrer-Policy'', ''no-referrer''),
      (''Strict-Transport-Security'', ''max-age=31536000; includeSubDomains''),
      (''X-Content-Type-Options'', ''nosniff''),
      (''X-Frame-Options'', ''DENY'')]"

definition secured :: "headers \<Rightarrow> bool" where
  "secured h \<longleftrightarrow> list_all (\<lambda>(name, value). headerValues h name = [value]) securityHeaders"

lemmas canonical_eval = canonicalKey_def tokenChar_def char_class_defs upper_char_def lower_char_def char_eval

lemma canonical_security:
  "canonicalKey ''Content-Security-Policy'' = ''Content-Security-Policy''"
  "canonicalKey ''Cross-Origin-Resource-Policy'' = ''Cross-Origin-Resource-Policy''"
  "canonicalKey ''Permissions-Policy'' = ''Permissions-Policy''"
  "canonicalKey ''Referrer-Policy'' = ''Referrer-Policy''"
  "canonicalKey ''Strict-Transport-Security'' = ''Strict-Transport-Security''"
  "canonicalKey ''X-Content-Type-Options'' = ''X-Content-Type-Options''"
  "canonicalKey ''X-Frame-Options'' = ''X-Frame-Options''"
  by (simp_all add: canonical_eval)

lemma canonical_content:
  "canonicalKey ''Allow'' = ''Allow''" "canonicalKey ''Accept-Ranges'' = ''Accept-Ranges''"
  "canonicalKey ''Cache-Control'' = ''Cache-Control''" "canonicalKey ''Content-Disposition'' = ''Content-Disposition''"
  "canonicalKey ''Content-Length'' = ''Content-Length''" "canonicalKey ''Content-Range'' = ''Content-Range''"
  "canonicalKey ''Content-Type'' = ''Content-Type''" "canonicalKey ''ETag'' = ''Etag''"
  by (simp_all add: canonical_eval)

lemma secured_initial: "secured (setSecurityHeaders h)"
  by (simp add: secured_def securityHeaders_def setSecurityHeaders_def headerValues_set canonical_security)

lemma security_names: "(name, value) \<in> set securityHeaders \<Longrightarrow> canonicalKey name = name"
  by (auto simp: securityHeaders_def canonical_security)

lemma secured_set:
  assumes "secured h" "canonicalKey name \<notin> fst ` set securityHeaders"
  shows "secured (headerSet name value h)"
proof -
  have "headerValues (headerSet name value h) n = [v]" if "(n, v) \<in> set securityHeaders" for n v
    using that assms security_names [OF that] by (force simp: secured_def list_all_iff headerValues_set)
  then show ?thesis by (auto simp: secured_def list_all_iff)
qed

lemma secured_content:
  assumes "secured h"
    and "name \<in> {''Allow'', ''Accept-Ranges'', ''Cache-Control'', ''Content-Disposition'', ''Content-Length'', ''Content-Range'',
      ''Content-Type'', ''ETag''}"
  shows "secured (headerSet name value h)"
proof (rule secured_set [OF assms(1)])
  show "canonicalKey name \<notin> fst ` set securityHeaders"
    using assms(2) by (auto simp: canonical_content securityHeaders_def)
qed

lemma secured_json: "secured h \<Longrightarrow> secured (setJSONHeaders h body)"
  by (simp add: setJSONHeaders_def secured_content)

lemma secured_download: "secured h \<Longrightarrow> secured (setDownloadHeaders h selected)"
  by (auto simp: setDownloadHeaders_def Let_def secured_content split: option.splits)

lemma download_content_headers:
  "headerValues (setDownloadHeaders h selected) ''Content-Length'' = [itoa (selLength (sd_selection selected))]"
  "headerValues (setDownloadHeaders h selected) ''ETag'' = [sn_ETag (sd_snapshot selected)]"
  by (auto simp: setDownloadHeaders_def Let_def headerValues_set canonical_content split: option.splits)

section \<open>Every execution\<close>

text \<open>
  \<open>startedDownload\<close>: the execution \<open>es\<close> passed all checks and ran the stream \<open>et\<close> with result \<open>r\<close>, for the target and snapshot
  that storage reported and the selection of the request, between its two log entries.
\<close>

definition startedDownload :: "Config \<Rightarrow> Store \<Rightarrow> request \<Rightarrow> webEvent list \<Rightarrow> downloadTarget \<Rightarrow> Snapshot \<Rightarrow> Selection \<Rightarrow>
    webEvent list \<Rightarrow> streamResult \<Rightarrow> bool" where
  "startedDownload cfg store req es target sn sel et r \<longleftrightarrow>
     downloadTargetFromRequest req = Some target \<and> sn_Size sn \<le> MaxObjectSize \<and>
     Select (headerValues (rq_Header req) ''Range'') (headerValues (rq_Header req) ''If-Range'') (sn_Size sn) (sn_ETag sn) = Inr sel \<and>
     execW (stream store (setSecurityHeaders []) \<lparr>sd_target = target, sd_snapshot = sn, sd_selection = sel\<rparr>) et r \<and>
     (\<exists>identity raw reply t1 t2.
        Authenticate (rq_Header req) (boundaryPolicy cfg) = Some identity \<and>
        pr_ContentLength reply = Some (sn_Size sn) \<and> pr_ETag reply = Some (sn_ETag sn) \<and>
        es = ERandom (Some raw) # EProperties (tg_blobName target) (Inr reply) # EClock t1 #
          ELog (LogStarted t1 (hexEncode raw) (id_Subject identity) (tg_version target) (tg_fileName target) (selLength sel)) # et @
          [EClock t2, ELog (LogTerminal (''dar.download.'' @ toLower (sr_outcome r)) t2 (hexEncode raw) (id_Subject identity)
             (tg_version target) (tg_fileName target) (sr_bytes r) (sr_outcome r))])"

lemma startedDownload_facts:
  assumes "startedDownload cfg store req es target sn sel et r"
  shows "Select (headerValues (rq_Header req) ''Range'') (headerValues (rq_Header req) ''If-Range'') (sn_Size sn) (sn_ETag sn) = Inr sel"
    "execW (stream store (setSecurityHeaders []) \<lparr>sd_target = target, sd_snapshot = sn, sd_selection = sel\<rparr>) et r"
    "downloadTargetFromRequest req = Some target" "sn_Size sn \<le> MaxObjectSize"
  using assms by (simp_all add: startedDownload_def)

lemma startedDownload_observed:
  assumes "startedDownload cfg store req es target sn sel et r"
  shows "requests es = requests et" "heads es = heads et" "sent es = sent et"
    "\<exists>ev t sid subject. last (logs es) =
       LogTerminal ev t sid subject (tg_version target) (tg_fileName target) (sr_bytes r) (sr_outcome r)"
  using assms by (auto simp: startedDownload_def)

lemma startedDownload_honest:
  assumes "startedDownload cfg store req es target sn sel et r" "honest contents es"
  shows "honest contents et" "sn_Size sn = int (length (contents (tg_blobName target) (sn_ETag sn)))"
proof -
  obtain pre reply post where e: "es = pre @ EProperties (tg_blobName target) (Inr reply) # post"
    "pr_ContentLength reply = Some (sn_Size sn)" "pr_ETag reply = Some (sn_ETag sn)" "\<exists>post1 post2. post = post1 @ et @ post2"
    using assms(1) unfolding startedDownload_def
    by (metis append_Cons append_Nil)
  then show "sn_Size sn = int (length (contents (tg_blobName target) (sn_ETag sn)))"
    using assms(2) by (auto simp: honest_def)
  obtain post1 post2 where "es = (pre @ EProperties (tg_blobName target) (Inr reply) # post1) @ et @ post2" using e by auto
  then show "honest contents et" using assms(2) honest_append by metis
qed

context blob_store
begin

lemma serve_touched:
  assumes "execW (ServeHTTP cfg store req) es x" "touched es \<noteq> []"
  shows "\<exists>target identity raw. rq_Method req = ''GET'' \<and> downloadTargetFromRequest req = Some target \<and>
    Authenticate (rq_Header req) (boundaryPolicy cfg) = Some identity \<and> ERandom (Some raw) = hd es \<and>
    set (touched es) = {tg_blobName target}"
  using assms(1) refl
proof (cases rule: serve_cases)
  case (unavailable target identity raw eo e ew)
  then have "set (touched es) \<subseteq> {tg_blobName target}"
    using stat_events [OF unavailable(5)] storageError_events [OF unavailable(6)] by auto
  then have "set (touched es) = {tg_blobName target}" using assms(2) by (cases "touched es") auto
  then show ?thesis using unavailable(1-4) by auto
next
  case (found target identity raw eo sn ew)
  have "set (touched ew) \<subseteq> {tg_blobName target}" using found(6)
  proof (cases rule: snapshot_cases)
    case (started sel t1 et r t2)
    then show ?thesis using stream_events [OF started(3)] Select_inside [OF started(2)] by simp
  qed simp
  then have "set (touched es) \<subseteq> {tg_blobName target}" using stat_events [OF found(5)] found(4) by simp
  then have "set (touched es) = {tg_blobName target}" using assms(2) by (cases "touched es") auto
  then show ?thesis using found(1-4) by auto
qed (use assms(2) in auto)

lemma serve_heads:
  assumes "execW (ServeHTTP cfg store req) es x"
  shows "heads es = [] \<and> interrupted es \<or> (\<exists>status h. heads es = [(status, h)] \<and> secured h)"
  using assms refl
proof (cases rule: serve_cases)
  case (answered status h' body n)
  then show ?thesis using secured_initial secured_content by (auto intro!: secured_json)
next
  case (audit body n)
  then show ?thesis by (simp add: secured_json secured_initial)
next
  case (unavailable target identity raw eo e ew)
  then show ?thesis using stat_quiet [OF unavailable(5)] stat_interrupted [OF unavailable(5)] storageError_events [OF unavailable(6)]
    by (auto simp: secured_json secured_initial)
next
  case (found target identity raw eo sn ew)
  have "heads ew = [] \<and> interrupted ew \<or> (\<exists>status h. heads ew = [(status, h)] \<and> secured h)" using found(6)
  proof (cases rule: snapshot_cases)
    case (rejected status h' body n)
    then show ?thesis by (auto simp: secured_content secured_initial intro!: secured_json)
  next
    case (started sel t1 et r t2)
    then show ?thesis using stream_events [OF started(3)] Select_inside [OF started(2)]
      by (auto simp: secured_json secured_download secured_initial)
  qed
  then show ?thesis using stat_quiet [OF found(5)] found(4) by auto
qed

lemma serve_started:
  assumes "execW (ServeHTTP cfg store req) es x" "requests es \<noteq> [] \<or> logs es \<noteq> []"
  obtains target sn sel et r where "startedDownload cfg store req es target sn sel et r"
  using assms(1) refl
proof (cases rule: serve_cases)
  case (unavailable target identity raw eo e ew)
  have "logs ew = []" using unavailable(6) by (auto simp: writeStorageError_def writeJSON_def Let_def split: if_split_asm)
  then show ?thesis using assms(2) unavailable(4) stat_events [OF unavailable(5)] stat_quiet [OF unavailable(5)]
      storageError_events [OF unavailable(6)] by simp
next
  case (found target identity raw eo sn ew)
  obtain reply where reply: "eo = [EProperties (tg_blobName target) (Inr reply)]"
    "pr_ContentLength reply = Some (sn_Size sn)" "pr_ETag reply = Some (sn_ETag sn)"
    using stat_snapshot [OF found(5)] by blast
  from found(6) show ?thesis
  proof (cases rule: snapshot_cases)
    case (rejected status h' body n)
    then show ?thesis using assms(2) found(4) reply(1) by simp
  next
    case (started sel t1 et r t2)
    have "startedDownload cfg store req es target sn sel et r"
      unfolding startedDownload_def using found(2,3,4) reply started
      by (intro conjI exI [of _ identity] exI [of _ raw] exI [of _ reply] exI [of _ t1] exI [of _ t2]) simp_all
    then show ?thesis by (rule that)
  qed
qed (use assms(2) in auto)

lemma serve_requests:
  assumes "execW (ServeHTTP cfg store req) es x" "requests es \<noteq> []"
  shows "\<exists>target (sn :: Snapshot) sel.
    downloadTargetFromRequest req = Some target \<and> sn_Size sn \<le> MaxObjectSize \<and>
    Select (headerValues (rq_Header req) ''Range'') (headerValues (rq_Header req) ''If-Range'') (sn_Size sn) (sn_ETag sn) = Inr sel \<and>
    prefix (requests es) (map (\<lambda>(off, len). (tg_blobName target, off, len, sn_ETag sn)) (segments (selOffset sel) (selLength sel)))"
proof -
  obtain target sn sel et r where st: "startedDownload cfg store req es target sn sel et r"
    using serve_started [OF assms(1)] assms(2) by metis
  note facts = startedDownload_facts [OF st]
  have "prefix (requests es) (map (\<lambda>(off, len). (tg_blobName target, off, len, sn_ETag sn)) (segments (selOffset sel) (selLength sel)))"
    using startedDownload_observed(1) [OF st] stream_events [OF facts(2)] Select_inside [OF facts(1)] by (simp add: asked_def)
  then show ?thesis using facts(1,3,4) by blast
qed

lemma serve_faithful:
  assumes "execW (ServeHTTP cfg store req) es x" "honest contents es" "logs es \<noteq> []"
    and "last (logs es) = LogTerminal ev t sid subject version file streamed outcome" "outcome \<noteq> ''STORAGE_UNAVAILABLE''"
  shows "\<exists>target etag sel h. let content = contents (tg_blobName target) etag in
    downloadTargetFromRequest req = Some target \<and>
    Select (headerValues (rq_Header req) ''Range'') (headerValues (rq_Header req) ''If-Range'') (int (length content)) etag = Inr sel \<and>
    heads es = [(if selPartial sel then 206 else 200, h)] \<and>
    headerValues h ''Content-Length'' = [itoa (selLength sel)] \<and> headerValues h ''ETag'' = [etag] \<and>
    prefix (sent es) (byteSlice (selOffset sel) (selLength sel) content) \<and> streamed = int (length (sent es)) \<and>
    (outcome = ''STREAM_COMPLETED'' \<longrightarrow> sent es = byteSlice (selOffset sel) (selLength sel) content)"
proof -
  obtain target sn sel et r where st: "startedDownload cfg store req es target sn sel et r"
    using serve_started [OF assms(1)] assms(3) by metis
  note o = startedDownload_observed [OF st]
  let ?content = "contents (tg_blobName target) (sn_ETag sn)"
  let ?selected = "\<lparr>sd_target = target, sd_snapshot = sn, sd_selection = sel\<rparr>"
  note hon = startedDownload_honest [OF st assms(2)]
  note facts = startedDownload_facts [OF st]
  have r: "sr_outcome r = outcome" "sr_bytes r = streamed" using o(4) assms(4) by auto
  have "sr_outcome r = ''STORAGE_UNAVAILABLE'' \<and> sr_bytes r = 0 \<or>
      heads et = [(if selPartial sel then 206 else 200, setDownloadHeaders (setSecurityHeaders []) ?selected)] \<and>
      progress ?content (selOffset sel) (selLength sel) 0 et r"
    using Select_inside [OF facts(1)] by (intro stream_faithful [OF facts(2) hon(1) refl]) (auto split: if_splits)
  then have "heads es = [(if selPartial sel then 206 else 200, setDownloadHeaders (setSecurityHeaders []) ?selected)]"
    and p: "progress ?content (selOffset sel) (selLength sel) 0 et r" using r assms(5) o(2) by auto
  moreover have "prefix (sent es) (byteSlice (selOffset sel) (selLength sel) ?content) \<and> streamed = int (length (sent es)) \<and>
      (outcome = ''STREAM_COMPLETED'' \<longrightarrow> sent es = byteSlice (selOffset sel) (selLength sel) ?content)"
    using p r o(3) prefix_full by (auto simp: progress_def)
  ultimately show ?thesis using facts(1,3) hon(2) download_content_headers(1,2) [of "setSecurityHeaders []" ?selected]
    by (intro exI [of _ target] exI [of _ "sn_ETag sn"] exI [of _ sel]) (simp add: Let_def)
qed

end

section \<open>Healthy storage\<close>

text \<open>
  A storage service that answers, a connection that takes every byte, a client that stays: \<open>blobs\<close> gives the validator
  and content of every blob.
\<close>

definition healthyEnv :: "string \<Rightarrow> string \<Rightarrow> (string \<Rightarrow> (string \<times> string) option) \<Rightarrow> webEnv" where
  "healthyEnv raw now blobs =
     \<lparr>ev_Random = Some raw, ev_Clock = now,
      ev_Properties = (\<lambda>name. case blobs name of
         None \<Rightarrow> Inl (SdkResponse 404)
       | Some (etag, content) \<Rightarrow> Inr \<lparr>pr_ContentLength = Some (int (length content)), pr_ETag = Some etag\<rparr>),
      ev_Download = (\<lambda>name offset len e. case blobs name of
         None \<Rightarrow> Inl (SdkResponse 404)
       | Some (etag, content) \<Rightarrow>
           if e \<noteq> etag then Inl (SdkResponse 412)
           else Inr \<lparr>dr_Body = Some (byteSlice offset len content),
                     dr_ContentLength = Some (int (length (byteSlice offset len content))), dr_ETag = Some etag\<rparr>),
      ev_CtxErr = False, ev_Write = length, ev_Close = False\<rparr>"

lemma byteSlice_length:
  "0 \<le> offset \<Longrightarrow> 0 \<le> len \<Longrightarrow> offset + len \<le> int (length content) \<Longrightarrow> int (length (byteSlice offset len content)) = len"
  by (simp add: byteSlice_def)

lemma healthy_open:
  assumes "blobs name = Some (etag, content)" "validStrongETag etag" "int (length content) \<le> MaxObjectSize"
    and "0 \<le> offset" "1 \<le> len" "len \<le> MaxStorageSegment" "offset + len \<le> int (length content)"
  shows "snd (runW (healthyEnv raw now blobs) (st_OpenRange azureStore name offset len etag)) = Inr (byteSlice offset len content)"
  using assms byteSlice_length [of offset len content]
  by (simp add: azureStore_def OpenRange_def openReply_def healthyEnv_def)

lemma healthy_copy:
  assumes "int (length reader) = len"
  shows "snd (runW (healthyEnv raw now blobs) (copySegment reader len)) = (len, True)"
  using assms by (auto simp: copySegment_def Let_def healthyEnv_def)

lemma snd_runW_bindW: "snd (runW ev (bindW t f)) = snd (runW ev (f (snd (runW ev t))))"
  by (simp add: runW_bindW)

lemma healthy_rest:
  assumes "blobs (tg_blobName (sd_target selected)) = Some (sn_ETag (sd_snapshot selected), content)"
    and "validStrongETag (sn_ETag (sd_snapshot selected))" "int (length content) \<le> MaxObjectSize"
    and "0 \<le> offset" "0 \<le> remaining" "offset + remaining \<le> int (length content)"
  shows "sr_outcome (snd (runW (healthyEnv raw now blobs) (streamRest azureStore selected offset remaining before))) = ''STREAM_COMPLETED''"
  using assms(4-6)
proof (induction "nat remaining" arbitrary: offset remaining before rule: less_induct)
  case less
  let ?env = "healthyEnv raw now blobs"
  define len where "len = min remaining MaxStorageSegment"
  show ?case
  proof (cases "0 < remaining")
    case False
    then show ?thesis by (simp add: streamRest.simps [of azureStore])
  next
    case True
    then have len: "1 \<le> len" "len \<le> MaxStorageSegment" "len \<le> remaining" by (auto simp: len_def MaxStorageSegment_def)
    let ?name = "tg_blobName (sd_target selected)" and ?etag = "sn_ETag (sd_snapshot selected)"
    have o: "snd (runW ?env (st_OpenRange azureStore ?name offset len ?etag)) = Inr (byteSlice offset len content)"
      using len less.prems assms(1-3) by (intro healthy_open) auto
    have c: "snd (runW ?env (copySegment (byteSlice offset len content) len)) = (len, True)"
      using len less.prems by (intro healthy_copy byteSlice_length) auto
    have "ev_CtxErr ?env = False" by (simp add: healthyEnv_def)
    then have "snd (runW ?env (streamRest azureStore selected offset remaining before)) =
        snd (runW ?env (streamRest azureStore selected (offset + len) (remaining - len) (before + len)))"
      using True o c by (subst streamRest.simps) (simp add: Let_def snd_runW_bindW len_def [symmetric])
    then show ?thesis using len less.prems less.hyps [of "remaining - len" "offset + len" "before + len"] by simp
  qed
qed

lemma healthy_stream:
  assumes "blobs (tg_blobName target) = Some (sn_ETag sn, content)" "validStrongETag (sn_ETag sn)"
    and "int (length content) \<le> MaxObjectSize"
    and "0 \<le> selOffset sel" "0 \<le> selLength sel" "selOffset sel + selLength sel \<le> int (length content)"
  shows "sr_outcome (snd (runW (healthyEnv raw now blobs)
    (stream azureStore h \<lparr>sd_target = target, sd_snapshot = sn, sd_selection = sel\<rparr>))) = ''STREAM_COMPLETED''"
proof (cases "selLength sel = 0")
  case True
  then show ?thesis by (simp add: stream_def)
next
  case False
  let ?env = "healthyEnv raw now blobs" and ?selected = "\<lparr>sd_target = target, sd_snapshot = sn, sd_selection = sel\<rparr>"
  define len where "len = min (selLength sel) MaxStorageSegment"
  have len: "1 \<le> len" "len \<le> MaxStorageSegment" "len \<le> selLength sel" using False assms(5) by (auto simp: len_def MaxStorageSegment_def)
  have o: "snd (runW ?env (st_OpenRange azureStore (tg_blobName target) (selOffset sel) len (sn_ETag sn))) =
      Inr (byteSlice (selOffset sel) len content)"
    using len assms by (intro healthy_open) auto
  have c: "snd (runW ?env (copySegment (byteSlice (selOffset sel) len content) len)) = (len, True)"
    using len assms by (intro healthy_copy byteSlice_length) auto
  have "snd (runW ?env (stream azureStore h ?selected)) =
      snd (runW ?env (streamRest azureStore ?selected (selOffset sel + len) (selLength sel - len) len))"
    using False o c by (simp add: stream_def Let_def snd_runW_bindW len_def [symmetric])
  then show ?thesis using len assms by (simp add: healthy_rest)
qed

definition storedContent :: "(string \<Rightarrow> (string \<times> string) option) \<Rightarrow> string \<Rightarrow> string \<Rightarrow> string" where
  "storedContent blobs name etag = (case blobs name of Some (e, content) \<Rightarrow> content | None \<Rightarrow> [])"

lemma healthy_replies:
  "honest (storedContent blobs) [EProperties n (ev_Properties (healthyEnv raw now blobs) n)]"
  "honest (storedContent blobs) [EDownload n off len e (ev_Download (healthyEnv raw now blobs) n off len e)]"
  by (auto simp: healthyEnv_def honest_def storedContent_def byteSlice_def take_is_prefix split: option.split_asm if_split_asm)

lemma runW_honest:
  assumes "\<And>n. honest contents [EProperties n (ev_Properties ev n)]"
    and "\<And>n off len e. honest contents [EDownload n off len e (ev_Download ev n off len e)]"
  shows "honest contents (fst (runW ev t))"
proof (induction t)
  case (Properties n k)
  let ?r = "ev_Properties ev n"
  have "honest contents ([EProperties n ?r] @ fst (runW ev (k ?r)))"
    unfolding honest_append using assms(1) Properties by blast
  then show ?case by simp
next
  case (Download n off len e k)
  let ?r = "ev_Download ev n off len e"
  have "honest contents ([EDownload n off len e ?r] @ fst (runW ev (k ?r)))"
    unfolding honest_append using assms(2) Download by blast
  then show ?case by simp
qed simp_all

lemmas healthy_honest = runW_honest [OF healthy_replies]

lemma healthz_no_target: "u_path (rq_URL req) = ''/healthz'' \<Longrightarrow> downloadTargetFromRequest req = None"
  by (simp add: downloadTargetFromRequest_def)

lemma serve_events:
  assumes "rq_Method req = ''GET''" "downloadTargetFromRequest req = Some target"
    and "Authenticate (rq_Header req) (boundaryPolicy cfg) = Some identity"
    and "ev_Properties ev (tg_blobName target) = Inr \<lparr>pr_ContentLength = Some (int (length content)), pr_ETag = Some etag\<rparr>"
    and "validStrongETag etag" "int (length content) \<le> MaxObjectSize"
    and "Select (headerValues (rq_Header req) ''Range'') (headerValues (rq_Header req) ''If-Range'') (int (length content)) etag = Inr sel"
    and "sn = \<lparr>sn_Size = int (length content), sn_ETag = etag\<rparr>"
    and "(et, r) = runW ev (stream azureStore (setSecurityHeaders []) \<lparr>sd_target = target, sd_snapshot = sn, sd_selection = sel\<rparr>)"
    and "ev_Random ev = Some raw" "ev_Clock ev = now"
  shows "fst (runW ev (ServeHTTP cfg azureStore req)) =
      ERandom (Some raw) # EProperties (tg_blobName target) (ev_Properties ev (tg_blobName target)) # EClock now #
      ELog (LogStarted now (hexEncode raw) (id_Subject identity) (tg_version target) (tg_fileName target) (selLength sel)) # et @
      [EClock now, ELog (LogTerminal (''dar.download.'' @ toLower (sr_outcome r)) now (hexEncode raw) (id_Subject identity)
        (tg_version target) (tg_fileName target) (sr_bytes r) (sr_outcome r))]"
proof -
  let ?stream = "stream azureStore (setSecurityHeaders []) \<lparr>sd_target = target, sd_snapshot = sn, sd_selection = sel\<rparr>"
  have sn: "sn_Size sn = int (length content)" "sn_ETag sn = etag" using assms(8) by simp_all
  have st: "st_Stat azureStore = Stat" by (simp add: azureStore_def)
  have et: "et = fst (runW ev ?stream)" "r = snd (runW ev ?stream)" using assms(9) by (metis fst_conv, metis snd_conv)
  have "u_path (rq_URL req) \<noteq> ''/healthz''" using assms(2) healthz_no_target by fastforce
  then show ?thesis using assms(1-7) assms(10,11) sn st
    by (simp add: ServeHTTP_def Let_def serveTarget_def newSessionID_def Stat_def statReply_def assms(8) [symmetric]
        serveSnapshot_def logDownload_def runW_bindW et)
qed

lemma healthy_context:
  "ev_Random (healthyEnv raw now blobs) = Some raw" "ev_Clock (healthyEnv raw now blobs) = now"
  "blobs name = Some (etag, content) \<Longrightarrow>
     ev_Properties (healthyEnv raw now blobs) name = Inr \<lparr>pr_ContentLength = Some (int (length content)), pr_ETag = Some etag\<rparr>"
  by (simp_all add: healthyEnv_def)

lemma healthy_serve:
  assumes "rq_Method req = ''GET''" "downloadTargetFromRequest req = Some target"
    and "Authenticate (rq_Header req) (boundaryPolicy cfg) = Some identity"
    and "blobs (tg_blobName target) = Some (etag, content)" "validStrongETag etag" "int (length content) \<le> MaxObjectSize"
    and "Select (headerValues (rq_Header req) ''Range'') (headerValues (rq_Header req) ''If-Range'') (int (length content)) etag = Inr sel"
    and "es = fst (runW (healthyEnv raw now blobs) (ServeHTTP cfg azureStore req))"
  shows "heads es = [(if selPartial sel then 206 else 200, setDownloadHeaders (setSecurityHeaders [])
      \<lparr>sd_target = target, sd_snapshot = \<lparr>sn_Size = int (length content), sn_ETag = etag\<rparr>, sd_selection = sel\<rparr>)] \<and>
    sent es = byteSlice (selOffset sel) (selLength sel) content \<and>
    last (logs es) = LogTerminal ''dar.download.stream_completed'' now (hexEncode raw) (id_Subject identity) (tg_version target)
      (tg_fileName target) (selLength sel) ''STREAM_COMPLETED''"
proof -
  let ?env = "healthyEnv raw now blobs" and ?h = "setSecurityHeaders []"
  define sn where "sn = \<lparr>sn_Size = int (length content), sn_ETag = etag\<rparr>"
  let ?selected = "\<lparr>sd_target = target, sd_snapshot = sn, sd_selection = sel\<rparr>"
  obtain et r where run: "(et, r) = runW ?env (stream azureStore ?h ?selected)" by (metis surj_pair)
  note es = serve_events [OF assms(1-3) healthy_context(3) [where blobs = blobs, OF assms(4)] assms(5-7) sn_def run healthy_context(1,2), folded assms(8)]
  have ex: "execW (stream azureStore ?h ?selected) et r"
    using runW_execW [of "stream azureStore ?h ?selected" ?env] by (simp add: run [symmetric])
  have hon: "honest (storedContent blobs) et"
    using healthy_honest [of blobs raw now "stream azureStore ?h ?selected"] by (simp add: run [symmetric])
  have comp: "sr_outcome r = ''STREAM_COMPLETED''"
  proof -
    have "blobs (tg_blobName target) = Some (sn_ETag sn, content)" "validStrongETag (sn_ETag sn)" using assms(4,5) by (simp_all add: sn_def)
    then show ?thesis
      using assms(6) Select_inside [OF assms(7)] healthy_stream [of blobs target sn content sel raw now ?h] by (simp add: run [symmetric])
  qed
  have "heads et = [(if selPartial sel then 206 else 200, setDownloadHeaders ?h ?selected)] \<and>
      progress (storedContent blobs (tg_blobName target) (sn_ETag sn)) (selOffset sel) (selLength sel) 0 et r"
    using azure.stream_faithful [OF ex hon refl] Select_inside [OF assms(7)] comp by (auto split: if_splits)
  then have et: "heads et = [(if selPartial sel then 206 else 200, setDownloadHeaders ?h ?selected)]"
    "sent et = byteSlice (selOffset sel) (selLength sel) content" "sr_bytes r = selLength sel"
    using comp assms(4) prefix_full by (auto simp: progress_def storedContent_def)
  have "toLower ''STREAM_COMPLETED'' = ''stream_completed''"
    by (simp add: toLower_ascii lower_char_def char_class_defs char_eval)
  then show ?thesis using et comp unfolding es sn_def [symmetric] by simp
qed

text \<open>Every healthy download with something to send asks storage for a range.\<close>

lemma healthy_requests:
  assumes "validStrongETag (sn_ETag sn)" "0 \<le> selOffset sel" "0 < selLength sel" "selOffset sel \<le> MaxObjectSize"
  shows "requests (fst (runW ev (stream azureStore h \<lparr>sd_target = target, sd_snapshot = sn, sd_selection = sel\<rparr>))) \<noteq> []"
  using assms by (simp add: stream_def Let_def runW_bindW azureStore_def OpenRange_def MaxStorageSegment_def min_def)

section \<open>Resuming\<close>

lemma Select_tail:
  assumes "k < length content" "int (length content) \<le> MaxObjectSize" "validStrongETag etag"
  shows "Select [''bytes='' @ itoa (int k) @ ''-''] [etag] (int (length content)) etag =
    Inr \<lparr>selOffset = int k, selLength = int (length content) - int k, selPartial = True,
         selRange = Some \<lparr>rangeStart = int k, rangeEnd = int (length content) - 1\<rparr>\<rparr>"
proof -
  have it: "itoa (int k) = itoa_nat k" by (simp add: itoa_def)
  have k: "k < 10 ^ 9" "k < 2 ^ 63" using assms by (auto simp: MaxObjectSize_def)
  have u: "parseUint (itoa_nat k) 63 = Some k" by (rule parseUint_itoa_nat [OF k(2)])
  have l: "length (itoa_nat k) \<le> 9" by (rule itoa_nat_length [OF k(1)]) simp
  have hd: "''bytes='' @ itoa (int k) @ ''-'' = rangeHeader (itoa_nat k) []" by (simp add: rangeHeader_def it)
  have ni: "CHR ''-'' \<notin> set (itoa_nat k)" "CHR '','' \<notin> set (itoa_nat k)"
    using parseUint_chars [of "itoa_nat k" k] u sep_not_digit by auto
  have "parseRange (rangeHeader (itoa_nat k) []) (int (length content)) =
      (case rangeMeaning (itoa_nat k) [] (int (length content)) of None \<Rightarrow> Inl ErrInvalidRange | Some r \<Rightarrow> Inr r)"
    using l assms(1) ni by (intro parseRange_header) (auto simp: rangeHeader_def maxValidatorBytes_def)
  also have "\<dots> = Inr \<lparr>rangeStart = int k, rangeEnd = int (length content) - 1\<rparr>"
    using u assms(1) by (simp add: rangeMeaning_def)
  finally show ?thesis using own_validator_permits [OF assms(3)] unfolding hd by (simp add: Select_def Let_def)
qed

section \<open>Properties\<close>

text \<open>
  C14. Storage is asked about a blob only after everything else was checked: the request is a GET of a well-formed download
  path, the configured boundary authenticated its caller and random bytes for the audit session were there; and
  the only blob asked about is the one the path names.
\<close>

theorem storage_after_authentication:
  assumes "execW (ServeHTTP cfg azureStore req) es x" and "touched es \<noteq> []"
  shows "\<exists>target identity raw. rq_Method req = ''GET'' \<and> downloadTargetFromRequest req = Some target \<and>
    Authenticate (rq_Header req) (boundaryPolicy cfg) = Some identity \<and> ERandom (Some raw) = hd es \<and>
    set (touched es) = {tg_blobName target}"
  by (rule azure.serve_touched [OF assms])

text \<open>
  C30. Every request is answered by at most one response head, and that head carries all seven security headers with their
  exact values; only when storage reported a cancellation or deadline or the client is gone is there no head.
\<close>

theorem responses_hardened:
  assumes "execW (ServeHTTP cfg azureStore req) es x"
  shows "heads es = [] \<and> interrupted es \<or> (\<exists>status h. heads es = [(status, h)] \<and> secured h)"
  by (rule azure.serve_heads [OF assms])

text \<open>
  C28. The ranges a download reads from storage are the consecutive segments of its selection, in order and from the
  first on, all conditioned on the validator of the one snapshot; each has between one byte and 4 MiB and lies inside the
  selection, which lies inside the object of at most 256 MiB.
\<close>

theorem segments_bounded:
  assumes "execW (ServeHTTP cfg azureStore req) es x" and "requests es \<noteq> []"
  shows "\<exists>target (sn :: Snapshot) sel. downloadTargetFromRequest req = Some target \<and>
    Select (headerValues (rq_Header req) ''Range'') (headerValues (rq_Header req) ''If-Range'') (sn_Size sn) (sn_ETag sn) = Inr sel \<and>
    prefix (requests es) (map (\<lambda>(off, len). (tg_blobName target, off, len, sn_ETag sn)) (segments (selOffset sel) (selLength sel))) \<and>
    (\<forall>(name, off, len, etag) \<in> set (requests es).
       name = tg_blobName target \<and> etag = sn_ETag sn \<and> 1 \<le> len \<and> len \<le> MaxStorageSegment \<and>
       0 \<le> selOffset sel \<and> selOffset sel \<le> off \<and> off + len \<le> selOffset sel + selLength sel \<and>
       selOffset sel + selLength sel \<le> sn_Size sn \<and> sn_Size sn \<le> MaxObjectSize)"
proof -
  obtain target and sn :: Snapshot and sel where d: "sn_Size sn \<le> MaxObjectSize"
    "Select (headerValues (rq_Header req) ''Range'') (headerValues (rq_Header req) ''If-Range'') (sn_Size sn) (sn_ETag sn) = Inr sel"
    "prefix (requests es) (map (\<lambda>(off, len). (tg_blobName target, off, len, sn_ETag sn)) (segments (selOffset sel) (selLength sel)))"
    "downloadTargetFromRequest req = Some target"
    using azure.serve_requests [OF assms] by blast
  have "set (requests es) \<subseteq> (\<lambda>(off, len). (tg_blobName target, off, len, sn_ETag sn)) ` set (segments (selOffset sel) (selLength sel))"
    using set_mono_prefix [OF d(3)] by simp
  then have "\<forall>(name, off, len, etag) \<in> set (requests es). name = tg_blobName target \<and> etag = sn_ETag sn \<and> 1 \<le> len \<and>
      len \<le> MaxStorageSegment \<and> selOffset sel \<le> off \<and> off + len \<le> selOffset sel + selLength sel"
    using segments_inside by fastforce
  then show ?thesis using d Select_inside [OF d(2)] by (intro exI [of _ target] exI [of _ sn] exI [of _ sel]) auto
qed

text \<open>
  C15. Whatever happens during a download that got past the first read: the head says 206 exactly for a partial selection and
  announces the length of the selection and the validator of the content; the bytes sent are always a prefix of the selected
  bytes of that one content; the audit log reports exactly their number; and it reports completion only when all of them
  were sent.
\<close>

theorem download_faithful:
  assumes "execW (ServeHTTP cfg azureStore req) es x" and "honest contents es" and "logs es \<noteq> []"
    and "last (logs es) = LogTerminal ev t sid subject version file streamed outcome" and "outcome \<noteq> ''STORAGE_UNAVAILABLE''"
  shows "\<exists>target etag sel h. let content = contents (tg_blobName target) etag in
    downloadTargetFromRequest req = Some target \<and>
    Select (headerValues (rq_Header req) ''Range'') (headerValues (rq_Header req) ''If-Range'') (int (length content)) etag = Inr sel \<and>
    heads es = [(if selPartial sel then 206 else 200, h)] \<and>
    headerValues h ''Content-Length'' = [itoa (selLength sel)] \<and> headerValues h ''ETag'' = [etag] \<and>
    prefix (sent es) (byteSlice (selOffset sel) (selLength sel) content) \<and> streamed = int (length (sent es)) \<and>
    (outcome = ''STREAM_COMPLETED'' \<longrightarrow> sent es = byteSlice (selOffset sel) (selLength sel) content)"
  by (rule azure.serve_faithful [OF assms])

text \<open>
  C16. Against storage that answers, an authenticated GET of a stored object of at most 256 MiB gets exactly the selected
  bytes, with 206 for a partial selection and 200 otherwise, and the audit log ends with the completed stream and its size.
\<close>

theorem healthy_download:
  assumes "rq_Method req = ''GET''" and "downloadTargetFromRequest req = Some target"
    and "Authenticate (rq_Header req) (boundaryPolicy cfg) = Some identity"
    and "blobs (tg_blobName target) = Some (etag, content)" and "validStrongETag etag" and "int (length content) \<le> MaxObjectSize"
    and "Select (headerValues (rq_Header req) ''Range'') (headerValues (rq_Header req) ''If-Range'') (int (length content)) etag = Inr sel"
    and "es = fst (runW (healthyEnv raw now blobs) (ServeHTTP cfg azureStore req))"
  shows "heads es = [(if selPartial sel then 206 else 200, setDownloadHeaders (setSecurityHeaders [])
      \<lparr>sd_target = target, sd_snapshot = \<lparr>sn_Size = int (length content), sn_ETag = etag\<rparr>, sd_selection = sel\<rparr>)] \<and>
    sent es = byteSlice (selOffset sel) (selLength sel) content \<and>
    last (logs es) = LogTerminal ''dar.download.stream_completed'' now (hexEncode raw) (id_Subject identity) (tg_version target)
      (tg_fileName target) (selLength sel) ''STREAM_COMPLETED''"
  by (rule healthy_serve [OF assms])

text \<open>
  C17. A download that broke off anywhere can be resumed: asking for the rest from the number of bytes received, with the
  served validator in If-Range, yields exactly the missing bytes of the same content.
\<close>

theorem resumed_download:
  assumes "execW (ServeHTTP cfg azureStore first) es1 x" and "honest (storedContent blobs) es1"
    and "headerValues (rq_Header first) ''Range'' = []" and "logs es1 \<noteq> []"
    and "last (logs es1) = LogTerminal ev t sid subject version file streamed outcome" and "outcome \<noteq> ''STORAGE_UNAVAILABLE''"
    and "downloadTargetFromRequest first = Some target" and "downloadTargetFromRequest req = Some target"
    and "blobs (tg_blobName target) = Some (etag, content)" and "validStrongETag etag" and "int (length content) \<le> MaxObjectSize"
    and "length (sent es1) < length content" and "rq_Method req = ''GET''"
    and "Authenticate (rq_Header req) (boundaryPolicy cfg) = Some identity"
    and "headerValues (rq_Header req) ''Range'' = [''bytes='' @ itoa (int (length (sent es1))) @ ''-'']"
    and "headerValues (rq_Header req) ''If-Range'' = [etag]"
    and "es2 = fst (runW (healthyEnv raw now blobs) (ServeHTTP cfg azureStore req))"
  shows "sent es1 @ sent es2 = content \<and> map fst (heads es2) = [206]"
proof -
  obtain target' etag' sel h where "downloadTargetFromRequest first = Some target'"
    "Select [] (headerValues (rq_Header first) ''If-Range'') (int (length (storedContent blobs (tg_blobName target') etag'))) etag' = Inr sel"
    and p: "prefix (sent es1) (byteSlice (selOffset sel) (selLength sel) (storedContent blobs (tg_blobName target') etag'))"
    using azure.serve_faithful [OF assms(1,2,4-6)] assms(3) by (auto simp: Let_def)
  then have "prefix (sent es1) content"
    using assms(7,9) by (auto simp: Select_def Let_def storedContent_def byteSlice_def)
  then have "take (length (sent es1)) content = sent es1" by (auto simp: prefix_def)
  moreover note Select_tail [OF assms(12,11,10)]
  note run = healthy_serve [OF assms(13,8,14,9-11) this [folded assms(15,16)] assms(17)]
  ultimately show ?thesis using run append_take_drop_id [of "length (sent es1)" content] by (simp add: byteSlice_def)
qed


end
