(* ===== verification/Links.thy ===== *)
theory Links
  imports Contracts Downloads
begin

text \<open>
  The link between the two programs: the application URL that the worker accepts and mails, and the download path that the
  handler serves.
\<close>

section \<open>Path segments\<close>

lemma trimChar_Nil: "trimChar d s = [] \<longleftrightarrow> set s \<subseteq> {d}"
proof
  assume "set s \<subseteq> {d}"
  then have "dropWhile (\<lambda>c. c = d) s = []" by (auto simp: dropWhile_eq_Nil_conv)
  then show "trimChar d s = []" unfolding trimChar_def by (simp only: rev.simps dropWhile.simps)
next
  assume t: "trimChar d s = []"
  have "\<forall>c \<in> set (dropWhile (\<lambda>c. c = d) s). c = d" using t by (simp only: trimChar_def rev_is_Nil_conv dropWhile_eq_Nil_conv set_rev)
  moreover have "dropWhile (\<lambda>c. c = d) s \<noteq> [] \<Longrightarrow> hd (dropWhile (\<lambda>c. c = d) s) \<noteq> d" by (rule hd_dropWhile)
  ultimately have "dropWhile (\<lambda>c. c = d) s = []" using list.set_sel(1) by blast
  then show "set s \<subseteq> {d}" by (simp only: dropWhile_eq_Nil_conv) blast
qed

lemma segmentChar_bytes:
  "\<not> ((byte c < byte CHR ''A'' \<or> byte c > byte CHR ''Z'') \<and> (byte c < byte CHR ''a'' \<or> byte c > byte CHR ''z'') \<and>
     (byte c < byte CHR ''0'' \<or> byte c > byte CHR ''9'') \<and> c \<noteq> CHR ''.'' \<and> c \<noteq> CHR ''_'' \<and> c \<noteq> CHR ''-'') \<longleftrightarrow> segmentChar c"
proof (cases "c = CHR ''/''")
  case False
  then show ?thesis unfolding segmentChar_def pathChar_def char_class_defs not_less de_Morgan_conj de_Morgan_disj by argo
qed (simp add: segmentChar_def)

lemma not_all_dots: "s \<noteq> [] \<and> \<not> set s \<subseteq> {d} \<longleftrightarrow> (\<exists>c \<in> set s. c \<noteq> d)"
  by auto

lemma validDownloadSegment_iff:
  "validDownloadSegment s m \<longleftrightarrow> length s \<le> m \<and> list_all segmentChar s \<and> (\<exists>c \<in> set s. c \<noteq> CHR ''.'')"
  unfolding validDownloadSegment_def trimChar_Nil segmentChar_bytes not_all_dots [symmetric] not_less [symmetric] by argo

lemma numericPart_head: "rmatch numericPart u \<Longrightarrow> \<exists>c t. u = c # t \<and> is_digit c"
  by (auto simp: numericPart_def rmatch_rlit rmatch_cls_seq char_class_defs split: list.splits simp del: rlit.simps rmatch.simps)

lemma version_head:
  assumes "rmatch releaseVersionPattern v"
  shows "\<exists>c t. v = c # t \<and> is_alnum c"
proof -
  from assms consider u w where "v = u @ w" "rmatch numericPart u" | w where "v = ''v'' @ w"
    unfolding releaseVersionPattern_def rmatch_RAlt rseqs.simps rmatch_rlit_seq rmatch_RSeq [of numericPart] by blast
  then show ?thesis
    using numericPart_head by cases (fastforce simp: is_alnum_def, simp add: char_class_defs)
qed

lemma name_head:
  assumes "rmatch downloadNamePattern n"
  shows "length n \<le> 127" "\<exists>c t. n = c # t \<and> is_alnum c"
  using assms unfolding downloadNamePattern_def rseqs.simps rmatch_cls_seq
  by (auto simp: rmatch_RSeq rmatch_rupto_cls rmatch_rlit split: list.splits simp del: rlit.simps rmatch.simps rupto.simps)

lemma alnum_not_dot: "is_alnum c \<Longrightarrow> c \<noteq> CHR ''.''"
  by (auto simp: char_class_defs)

lemma head_not_dots: "\<exists>c t. s = c # t \<and> is_alnum c \<Longrightarrow> \<exists>c \<in> set s. c \<noteq> CHR ''.''"
  using alnum_not_dot by (metis list.set_intros(1))

lemma version_segment: "rmatch releaseVersionPattern v \<Longrightarrow> validDownloadSegment v m \<longleftrightarrow> length v \<le> m"
  unfolding validDownloadSegment_iff using version_path [of v] head_not_dots [OF version_head [of v]] by blast

lemma name_segment: "rmatch downloadNamePattern n \<Longrightarrow> validDownloadSegment n maxFileNameBytes"
  unfolding validDownloadSegment_iff maxFileNameBytes_def
  using download_path [of n] name_head(1) [of n] head_not_dots [OF name_head(2) [of n]] by simp

section \<open>Targets\<close>

definition plainURL :: "request \<Rightarrow> bool" where
  "plainURL req \<longleftrightarrow> u_opaque (rq_URL req) = [] \<and> u_rawPath (rq_URL req) = [] \<and> u_rawQuery (rq_URL req) = [] \<and>
     \<not> u_forceQuery (rq_URL req) \<and> CHR ''%'' \<notin> set (rq_RequestURI req)"

lemma six_parts:
  "length ps = 6 \<and> ps ! 0 = [] \<and> ps ! 1 = ''v1'' \<and> ps ! 2 = ''releases'' \<and> ps ! 4 = ''download'' \<longleftrightarrow>
     (\<exists>v n. ps = [[], ''v1'', ''releases'', v, ''download'', n])"
  by (auto simp: length_Suc_conv eval_nat_numeral)

lemma download_split:
  "split CHR ''/'' p = [[], ''v1'', ''releases'', v, ''download'', n] \<longleftrightarrow>
     p = downloadPath v n \<and> CHR ''/'' \<notin> set v \<and> CHR ''/'' \<notin> set n"
proof
  assume s: "split CHR ''/'' p = [[], ''v1'', ''releases'', v, ''download'', n]"
  then have "p = join CHR ''/'' [[], ''v1'', ''releases'', v, ''download'', n]" using join_split by metis
  then have "p = downloadPath v n" by (simp add: downloadPath_def)
  moreover have "CHR ''/'' \<notin> set v" "CHR ''/'' \<notin> set n" using split_parts_no_sep [of _ "CHR ''/''" p] s by auto
  ultimately show "p = downloadPath v n \<and> CHR ''/'' \<notin> set v \<and> CHR ''/'' \<notin> set n" by simp
qed (simp add: downloadPath_parts)

lemma target_iff:
  "downloadTargetFromRequest req = Some target \<longleftrightarrow>
     plainURL req \<and>
     (\<exists>v n. u_path (rq_URL req) = downloadPath v n \<and> validDownloadSegment v maxVersionBytes \<and>
        validDownloadSegment n maxFileNameBytes \<and>
        target = \<lparr>tg_blobName = v @ ''/'' @ n, tg_fileName = n, tg_version = v\<rparr>)"
proof -
  define ps where "ps = split CHR ''/'' (u_path (rq_URL req))"
  have "downloadTargetFromRequest req = Some target \<longleftrightarrow> plainURL req \<and>
      (length ps = 6 \<and> ps ! 0 = [] \<and> ps ! 1 = ''v1'' \<and> ps ! 2 = ''releases'' \<and> ps ! 4 = ''download'') \<and>
      validDownloadSegment (ps ! 3) maxVersionBytes \<and> validDownloadSegment (ps ! 5) maxFileNameBytes \<and>
      target = \<lparr>tg_blobName = ps ! 3 @ ''/'' @ ps ! 5, tg_fileName = ps ! 5, tg_version = ps ! 3\<rparr>"
    by (auto simp: downloadTargetFromRequest_def plainURL_def contains_single Let_def ps_def)
  also have "\<dots> \<longleftrightarrow> plainURL req \<and> (\<exists>v n. ps = [[], ''v1'', ''releases'', v, ''download'', n] \<and>
      validDownloadSegment v maxVersionBytes \<and> validDownloadSegment n maxFileNameBytes \<and>
      target = \<lparr>tg_blobName = v @ ''/'' @ n, tg_fileName = n, tg_version = v\<rparr>)"
    unfolding six_parts by auto
  also have "\<dots> \<longleftrightarrow> plainURL req \<and> (\<exists>v n. u_path (rq_URL req) = downloadPath v n \<and>
      validDownloadSegment v maxVersionBytes \<and> validDownloadSegment n maxFileNameBytes \<and>
      target = \<lparr>tg_blobName = v @ ''/'' @ n, tg_fileName = n, tg_version = v\<rparr>)"
    unfolding ps_def download_split by (auto simp: validDownloadSegment_iff list_all_iff segmentChar_def)
  finally show ?thesis .
qed

section \<open>Mailed links\<close>

lemma setPath_opaque: "setPath p u = Some u' \<Longrightarrow> u_opaque u' = u_opaque u"
  by (auto simp: setPath_def)

lemma parseNoFragment_opaque:
  assumes "parseNoFragment raw = Some u" "u_opaque u \<noteq> []"
  shows "u_path u = []"
proof -
  have "u_opaque (snd (splitQuery r u0)) = u_opaque u0" "u_path (snd (splitQuery r u0)) = u_path u0" for r u0
    by (simp_all add: splitQuery_def Let_def split_beta)
  then show ?thesis using assms
    by (auto simp: parseNoFragment_def emptyUrl_def split_beta Let_def dest!: setPath_opaque split: if_split_asm option.split_asm)
qed

lemma urlParse_opaque: "urlParse raw = Some u \<Longrightarrow> u_opaque u \<noteq> [] \<Longrightarrow> u_path u = []"
  by (auto simp: urlParse_def split_beta Let_def dest: parseNoFragment_opaque split: if_split_asm option.split_asm)

lemma applicationURL_parts:
  assumes "validApplicationURL url v" "urlParse url = Some u"
  shows "u_rawQuery u = []" "u_opaque u = []" "\<exists>n. u_path u = downloadPath v n \<and> rmatch downloadNamePattern n"
proof -
  define ps where "ps = split CHR ''/'' (u_path u)"
  have d: "u_rawQuery u = []" "length ps = 6 \<and> ps ! 0 = [] \<and> ps ! 1 = ''v1'' \<and> ps ! 2 = ''releases'' \<and> ps ! 4 = ''download''"
    "ps ! 3 = v" "rmatch downloadNamePattern (ps ! 5)"
    using assms by (simp_all add: validApplicationURL_def Let_def ps_def del: rmatch.simps split: if_split_asm)
  then obtain v' n where "ps = [[], ''v1'', ''releases'', v', ''download'', n]" unfolding six_parts by blast
  with d have "ps = [[], ''v1'', ''releases'', v, ''download'', n]" "rmatch downloadNamePattern n" by simp_all
  then show p: "\<exists>n. u_path u = downloadPath v n \<and> rmatch downloadNamePattern n" unfolding ps_def download_split by blast
  show "u_rawQuery u = []" by (rule d(1))
  show "u_opaque u = []" using p urlParse_opaque [OF assms(2)] by (cases "u_opaque u = []") (auto simp: downloadPath_def)
qed

section \<open>Properties\<close>

text \<open>
  C32. The handler recognises exactly the paths of a version and a file name, each of bounded length, of letters, digits, dots,
  underscores and hyphens and not of dots alone, in a request without query and without percent encoding; the blob
  it then asks for is that version, a slash and that file name. No path can name a blob outside this form.
\<close>

theorem download_target_exact:
  "downloadTargetFromRequest req = Some target \<longleftrightarrow>
     plainURL req \<and>
     (\<exists>v n. u_path (rq_URL req) = downloadPath v n \<and>
        length v \<le> 96 \<and> list_all segmentChar v \<and> (\<exists>c \<in> set v. c \<noteq> CHR ''.'') \<and>
        length n \<le> 128 \<and> list_all segmentChar n \<and> (\<exists>c \<in> set n. c \<noteq> CHR ''.'') \<and>
        target = \<lparr>tg_blobName = v @ ''/'' @ n, tg_fileName = n, tg_version = v\<rparr>)"
  unfolding target_iff validDownloadSegment_iff maxVersionBytes_def maxFileNameBytes_def by blast


end
