(* ===== verification/AppExample.thy ===== *)
theory AppExample
  imports Links
begin

text \<open>
  One concrete download: a configuration, a caller, a stored object. It satisfies the hypotheses of the properties of the
  download application, so they apply to requests that really stream bytes.
\<close>

section \<open>Configuration and caller\<close>

definition appUUID :: string where "appUUID = ''00000000-0000-4000-8000-000000000000''"
definition appIssuer :: string where "appIssuer = ''https://id.example/''"

definition appConfig :: Config where
  "appConfig = \<lparr>cf_TrustedIdentityMode = ModeOIDCHeaders, cf_OIDCIssuer = appIssuer, cf_OIDCProviderName = [],
     cf_AzureContainerAppsTenantID = [], cf_StorageAccountName = ''account'', cf_StorageContainer = ''releases'',
     cf_ManagedIdentityClientID = appUUID, cf_Port = 8000\<rparr>"

definition callerHeaders :: headers where
  "callerHeaders = headerSet IssuerHeader appIssuer (headerSet SubjectHeader ''alice'' [])"

definition appURL :: url where
  "appURL = emptyUrl\<lparr>u_path := downloadPath ''1.2.3'' ''a.dar''\<rparr>"

definition appRequest :: "headers \<Rightarrow> request" where
  "appRequest extra = \<lparr>rq_Method = ''GET'', rq_URL = appURL, rq_RequestURI = downloadPath ''1.2.3'' ''a.dar'',
     rq_Header = callerHeaders @ extra\<rparr>"

definition appTarget :: downloadTarget where
  "appTarget = \<lparr>tg_blobName = ''1.2.3/a.dar'', tg_fileName = ''a.dar'', tg_version = ''1.2.3''\<rparr>"

definition appETag :: string where "appETag = [quote_char, CHR ''e'', quote_char]"

definition appBlobs :: "string \<Rightarrow> (string \<times> string) option" where
  "appBlobs = [''1.2.3/a.dar'' \<mapsto> (appETag, ''hello'')]"

lemma appUUID_ok: "IsCanonicalUUID appUUID"
  unfolding IsCanonicalUUID_def appUUID_def by code_simp

lemma appIssuer_ok: "IsValidOIDCIssuer appIssuer"
  using https_issuer [of "''id.example''" "''/''"] by (simp add: appIssuer_def dnsChar_def pathChar_def char_class_defs)

lemma app_names: "rmatch storageAccountPattern ''account''" "validContainerName ''releases''"
proof -
  show "rmatch storageAccountPattern ''account''"
    unfolding storageAccountPattern_def by (subst rmatch_rbetween_cls) (simp_all add: char_class_defs)
  have "rmatch storageContainerPattern (''r'' @ ''elease'' @ ''s'')" unfolding storageContainerPattern_def rseqs.simps
    by (intro rmatch_RSeqI) (simp_all add: rmatch_RCls rmatch_rbetween_cls char_class_defs del: rmatch.simps)
  then show "validContainerName ''releases''" by (simp add: validContainerName_def hasPrefix_def del: rmatch.simps)
qed

lemma appConfig_ok: "validPolicy appConfig" "ParseEnvironment (environmentOf appConfig) = Inr appConfig"
proof -
  show v: "validPolicy appConfig"
    using appUUID_ok appIssuer_ok app_names by (simp add: validPolicy_def appConfig_def del: rmatch.simps)
  show "ParseEnvironment (environmentOf appConfig) = Inr appConfig" by (rule ParseEnvironment_environmentOf [OF v])
qed

lemma alice_ok: "IsValidOIDCSubject ''alice''"
  using validControlFree_ascii [of "''alice''"]
  by (simp add: IsValidOIDCSubject_def validBoundedText_def MaxOIDCSubjectBytes_def utf8_valid_ascii)

lemma callerHeaders_eq:
  "callerHeaders = [(''X-Dar-Oidc-Issuer'', [appIssuer]), (''X-Dar-Oidc-Subject'', [''alice''])]"
  by (simp add: callerHeaders_def headerSet_def identity_keys)

text \<open>Further headers of the request do not matter to the caller's identity.\<close>

lemma caller_values:
  "headerValues (callerHeaders @ extra) IssuerHeader = [appIssuer]"
  "headerValues (callerHeaders @ extra) SubjectHeader = [''alice'']"
  by (simp_all add: callerHeaders_eq headerValues_def identity_keys)

lemma app_authenticated:
  assumes "\<not> hasAzureIdentityHeaders extra"
  shows "Authenticate (rq_Header (appRequest extra)) (boundaryPolicy appConfig) = Some \<lparr>id_Issuer = appIssuer, id_Subject = ''alice''\<rparr>"
proof -
  have "\<not> hasAzureIdentityHeaders (callerHeaders @ extra)"
    using assms identity_keys_upper by (simp add: hasAzureIdentityHeaders_def callerHeaders_eq identity_keys)
  then show ?thesis using appIssuer_ok alice_ok
    by (simp add: Authenticate_def appRequest_def boundaryPolicy_def appConfig_def authenticateOIDCHeaders_def caller_values)
qed

lemma app_target: "downloadTargetFromRequest (appRequest extra) = Some appTarget"
proof -
  have "validDownloadSegment ''1.2.3'' maxVersionBytes" "validDownloadSegment ''a.dar'' maxFileNameBytes"
    using version_segment [OF example_url(2)] name_segment [OF example_url(3)] by (simp_all add: maxVersionBytes_def)
  moreover have "plainURL (appRequest extra)"
    by (simp add: plainURL_def appRequest_def appURL_def emptyUrl_def downloadPath_def)
  ultimately show ?thesis unfolding target_iff
    by (intro conjI exI [of _ "''1.2.3''"] exI [of _ "''a.dar''"]) (simp_all add: appRequest_def appURL_def appTarget_def)
qed

lemma app_stored: "appBlobs (tg_blobName appTarget) = Some (appETag, ''hello'')" "validStrongETag appETag"
    "int (length ''hello'') \<le> MaxObjectSize" "rq_Method (appRequest extra) = ''GET''"
  by (simp_all add: appBlobs_def appTarget_def appETag_def validStrongETag_def MaxObjectSize_def appRequest_def quote_char_def)

section \<open>The run\<close>

definition appEnv :: webEnv where
  "appEnv = healthyEnv (replicate 16 CHR 0x00) ''2024-01-01T00:00:00Z'' appBlobs"

definition appRun :: "headers \<Rightarrow> webEvent list" where
  "appRun extra = fst (runW appEnv (ServeHTTP appConfig azureStore (appRequest extra)))"

definition wholeSelection :: Selection where
  "wholeSelection = \<lparr>selOffset = 0, selLength = 5, selPartial = False, selRange = None\<rparr>"

lemma appRun_exec: "execW (ServeHTTP appConfig azureStore (appRequest extra)) (appRun extra) ()"
  using runW_execW [of "ServeHTTP appConfig azureStore (appRequest extra)" appEnv] by (simp add: appRun_def)

lemma app_no_range: "headerValues (rq_Header (appRequest [])) ''Range'' = []"
  by (simp add: appRequest_def callerHeaders_eq headerValues_def canonical_eval)

lemma app_select: "Select (headerValues (rq_Header (appRequest [])) ''Range'')
    (headerValues (rq_Header (appRequest [])) ''If-Range'') (int (length ''hello'')) appETag = Inr wholeSelection"
  by (simp add: app_no_range Select_def wholeSelection_def)

lemma app_caller: "Authenticate (rq_Header (appRequest [])) (boundaryPolicy appConfig) = Some \<lparr>id_Issuer = appIssuer, id_Subject = ''alice''\<rparr>"
  by (rule app_authenticated) (simp add: hasAzureIdentityHeaders_def)

lemmas app_healthy = app_stored(4) [of "[]"] app_target [of "[]"] app_caller app_stored(1-3) app_select

theorem healthy_download_witness:
  "sent (appRun []) = ''hello'' \<and> map fst (heads (appRun [])) = [200] \<and>
   last (logs (appRun [])) = LogTerminal ''dar.download.stream_completed'' ''2024-01-01T00:00:00Z'' (hexEncode (replicate 16 CHR 0x00))
     ''alice'' ''1.2.3'' ''a.dar'' 5 ''STREAM_COMPLETED''"
  using healthy_download [OF app_healthy appRun_def [of "[]", unfolded appEnv_def]]
  by (simp add: wholeSelection_def byteSlice_def appTarget_def)

section \<open>Events of the run\<close>

definition appSnapshot :: Snapshot where
  "appSnapshot = \<lparr>sn_Size = int (length ''hello''), sn_ETag = appETag\<rparr>"

definition appSelected :: selectedDownload where
  "appSelected = \<lparr>sd_target = appTarget, sd_snapshot = appSnapshot, sd_selection = wholeSelection\<rparr>"

lemma app_events:
  assumes "ev_Random ev = Some raw" "ev_Clock ev = now" "ev_Properties ev = ev_Properties appEnv"
    and "(et, r) = runW ev (stream azureStore (setSecurityHeaders []) appSelected)"
  shows "fst (runW ev (ServeHTTP appConfig azureStore (appRequest []))) =
      ERandom (Some raw) # EProperties ''1.2.3/a.dar'' (ev_Properties ev ''1.2.3/a.dar'') # EClock now #
      ELog (LogStarted now (hexEncode raw) ''alice'' ''1.2.3'' ''a.dar'' 5) # et @
      [EClock now, ELog (LogTerminal (''dar.download.'' @ toLower (sr_outcome r)) now (hexEncode raw) ''alice''
        ''1.2.3'' ''a.dar'' (sr_bytes r) (sr_outcome r))]"
proof -
  have p: "ev_Properties ev (tg_blobName appTarget) = Inr \<lparr>pr_ContentLength = Some (int (length ''hello'')), pr_ETag = Some appETag\<rparr>"
    unfolding assms(3) appEnv_def by (rule healthy_context(3) [where blobs = appBlobs, OF app_stored(1)])
  show ?thesis
    using serve_events [OF app_stored(4) [of "[]"] app_target app_caller p app_stored(2,3) app_select appSnapshot_def
        assms(4) [unfolded appSelected_def] assms(1,2)]
    by (simp add: appTarget_def wholeSelection_def)
qed

lemma appRun_events:
  assumes "(et, r) = runW appEnv (stream azureStore (setSecurityHeaders []) appSelected)"
  shows "touched (appRun []) \<noteq> []" "requests (appRun []) = requests et" "logs (appRun []) \<noteq> []"
  using app_events [OF _ _ refl assms, of "replicate 16 CHR 0x00" "''2024-01-01T00:00:00Z''"]
  by (simp_all add: appRun_def appEnv_def healthy_context)

lemma appRun_facts: "touched (appRun []) \<noteq> []" "requests (appRun []) \<noteq> []" "logs (appRun []) \<noteq> []"
proof -
  obtain et r where e: "(et, r) = runW appEnv (stream azureStore (setSecurityHeaders []) appSelected)" by (metis surj_pair)
  show "touched (appRun []) \<noteq> []" "logs (appRun []) \<noteq> []" using appRun_events [OF e] by simp_all
  have "requests (fst (runW appEnv (stream azureStore (setSecurityHeaders []) appSelected))) \<noteq> []"
    unfolding appSelected_def
    by (rule healthy_requests) (simp_all add: appSnapshot_def wholeSelection_def app_stored(2) MaxObjectSize_def)
  then show "requests (appRun []) \<noteq> []" using appRun_events(2) [OF e] by (simp add: e [symmetric])
qed

theorem storage_after_authentication_witness:
  "touched (appRun []) \<noteq> [] \<and> set (touched (appRun [])) = {''1.2.3/a.dar''}"
  using storage_after_authentication [OF appRun_exec appRun_facts(1)] appRun_facts(1) app_target [of "[]"]
  by (auto simp: appTarget_def)

theorem responses_hardened_witness:
  "\<exists>status h. heads (appRun []) = [(status, h)] \<and> secured h"
proof -
  have "map fst (heads (appRun [])) = [200]"
    using healthy_serve [OF app_healthy appRun_def [of "[]", unfolded appEnv_def]] by (simp add: wholeSelection_def)
  then show ?thesis using responses_hardened [OF appRun_exec [of "[]"]] by auto
qed

theorem segments_bounded_witness:
  "requests (appRun []) \<noteq> [] \<and>
   list_all (\<lambda>(name, off, len, etag). name = ''1.2.3/a.dar'' \<and> 0 \<le> off \<and> off + len \<le> MaxObjectSize) (requests (appRun []))"
proof -
  have t: "downloadTargetFromRequest (appRequest []) = Some target \<Longrightarrow> tg_blobName target = ''1.2.3/a.dar''" for target
    using app_target [of "[]"] by (auto simp: appTarget_def)
  show ?thesis using segments_bounded [OF appRun_exec appRun_facts(2)] appRun_facts(2) t by (fastforce simp: list_all_iff)
qed

lemma appRun_log: "last (logs (appRun [])) = LogTerminal ''dar.download.stream_completed'' ''2024-01-01T00:00:00Z''
    (hexEncode (replicate 16 CHR 0x00)) ''alice'' ''1.2.3'' ''a.dar'' 5 ''STREAM_COMPLETED''"
  using healthy_serve [OF app_healthy appRun_def [of "[]", unfolded appEnv_def]] by (simp add: wholeSelection_def appTarget_def)

theorem download_faithful_witness:
  "honest (storedContent appBlobs) (appRun []) \<and>
   (\<exists>sel. Select [] [] 5 appETag = Inr sel \<and> sent (appRun []) = byteSlice (selOffset sel) (selLength sel) ''hello'')"
proof -
  have h: "honest (storedContent appBlobs) (appRun [])" unfolding appRun_def appEnv_def by (rule healthy_honest)
  have c: "storedContent appBlobs (tg_blobName target) etag = ''hello''"
    if "downloadTargetFromRequest (appRequest []) = Some target" for target etag
    using that app_target [of "[]"] app_stored(1) by (simp add: storedContent_def)
  obtain target etag sel where "downloadTargetFromRequest (appRequest []) = Some target"
    "Select [] (headerValues (rq_Header (appRequest [])) ''If-Range'') (int (length (storedContent appBlobs (tg_blobName target) etag))) etag = Inr sel"
    "sent (appRun []) = byteSlice (selOffset sel) (selLength sel) (storedContent appBlobs (tg_blobName target) etag)"
    using download_faithful [OF appRun_exec h appRun_facts(3) appRun_log] by (auto simp: Let_def app_no_range)
  then show ?thesis using h c by (auto simp: Select_def)
qed

section \<open>A broken download and its resumption\<close>

text \<open>The connection takes two bytes and fails; the client then asks for the rest.\<close>

definition brokenEnv :: webEnv where
  "brokenEnv = appEnv\<lparr>ev_Write := (\<lambda>d. 2)\<rparr>"

definition brokenRun :: "webEvent list" where
  "brokenRun = fst (runW brokenEnv (ServeHTTP appConfig azureStore (appRequest [])))"

definition restHeaders :: headers where
  "restHeaders = [(''Range'', [''bytes=2-'']), (''If-Range'', [appETag])]"

lemma broken_stream:
  "runW brokenEnv (stream azureStore (setSecurityHeaders []) appSelected) =
     ([EDownload ''1.2.3/a.dar'' 0 5 appETag (ev_Download appEnv ''1.2.3/a.dar'' 0 5 appETag),
       EHead 200 (setDownloadHeaders (setSecurityHeaders []) appSelected), EWrite ''hello'' 2, EClose False,
       ELog LogStreamFailure, ECtxErr False], \<lparr>sr_outcome = ''STREAM_FAILED'', sr_bytes = 2\<rparr>)"
proof -
  have d: "ev_Download appEnv ''1.2.3/a.dar'' 0 5 appETag =
      Inr \<lparr>dr_Body = Some ''hello'', dr_ContentLength = Some 5, dr_ETag = Some appETag\<rparr>"
    by (simp add: appEnv_def healthyEnv_def appBlobs_def byteSlice_def)
  have c: "ev_Close appEnv = False" "ev_CtxErr appEnv = False" by (simp_all add: appEnv_def healthyEnv_def)
  show ?thesis using d c app_stored(2)
    by (simp add: brokenEnv_def stream_def appSelected_def wholeSelection_def appTarget_def appSnapshot_def Let_def azureStore_def
        OpenRange_def openReply_def MaxObjectSize_def MaxStorageSegment_def copySegment_def failedStream_def streamFailureOutcome_def)
qed

lemma brokenRun_facts:
  "sent brokenRun = ''he''" "logs brokenRun \<noteq> []" "execW (ServeHTTP appConfig azureStore (appRequest [])) brokenRun ()"
  "honest (storedContent appBlobs) brokenRun"
  "\<exists>ev. last (logs brokenRun) = LogTerminal ev ''2024-01-01T00:00:00Z'' (hexEncode (replicate 16 CHR 0x00)) ''alice'' ''1.2.3'' ''a.dar''
     2 ''STREAM_FAILED''"
proof -
  have c: "ev_Random brokenEnv = Some (replicate 16 CHR 0x00)" "ev_Clock brokenEnv = ''2024-01-01T00:00:00Z''"
    "ev_Properties brokenEnv = ev_Properties appEnv" "ev_Download brokenEnv = ev_Download appEnv"
    by (simp_all add: brokenEnv_def appEnv_def healthyEnv_def)
  note es = app_events [OF c(1-3) broken_stream [symmetric], folded brokenRun_def]
  show "sent brokenRun = ''he''" "logs brokenRun \<noteq> []" unfolding es by (simp_all add: eval_nat_numeral)
  show "\<exists>ev. last (logs brokenRun) = LogTerminal ev ''2024-01-01T00:00:00Z'' (hexEncode (replicate 16 CHR 0x00)) ''alice'' ''1.2.3''
     ''a.dar'' 2 ''STREAM_FAILED''"
    unfolding es by simp
  show "execW (ServeHTTP appConfig azureStore (appRequest [])) brokenRun ()"
    using runW_execW [of "ServeHTTP appConfig azureStore (appRequest [])" brokenEnv] by (simp add: brokenRun_def)
  show "honest (storedContent appBlobs) brokenRun" unfolding brokenRun_def
    by (rule runW_honest) (simp_all only: c appEnv_def healthy_replies)
qed

theorem resumed_download_witness:
  "sent brokenRun @ sent (appRun restHeaders) = ''hello'' \<and> map fst (heads (appRun restHeaders)) = [206]"
proof -
  have len: "length (sent brokenRun) = 2" by (simp add: brokenRun_facts)
  have r: "headerValues (rq_Header (appRequest restHeaders)) ''Range'' = [''bytes='' @ itoa (int (length (sent brokenRun))) @ ''-'']"
    by (simp add: len appRequest_def callerHeaders_eq restHeaders_def headerValues_def canonical_eval itoa_def itoa_nat.simps
        digit_char_def)
  have i: "headerValues (rq_Header (appRequest restHeaders)) ''If-Range'' = [appETag]"
    by (simp add: appRequest_def callerHeaders_eq restHeaders_def headerValues_def canonical_eval)
  have "\<not> hasAzureIdentityHeaders restHeaders"
    by (simp add: hasAzureIdentityHeaders_def restHeaders_def toUpper_ascii hasPrefix_def upper_char_def char_class_defs char_eval)
  note a = app_authenticated [OF this]
  obtain ev where l: "last (logs brokenRun) = LogTerminal ev ''2024-01-01T00:00:00Z'' (hexEncode (replicate 16 CHR 0x00)) ''alice''
      ''1.2.3'' ''a.dar'' 2 ''STREAM_FAILED''" using brokenRun_facts(5) by blast
  show ?thesis
    by (rule resumed_download [OF brokenRun_facts(3,4) app_no_range brokenRun_facts(2) l _ app_target app_target app_stored(1,2,3) _
          app_stored(4) a r i appRun_def [of restHeaders, unfolded appEnv_def]]) (simp_all add: len)
qed


section \<open>Identities and links\<close>



section \<open>An Entra caller\<close>

definition entraConfig :: Config where
  "entraConfig = appConfig\<lparr>cf_TrustedIdentityMode := ModeAzureContainerApps, cf_AzureContainerAppsTenantID := appUUID,
     cf_OIDCIssuer := ''https://login.microsoftonline.com/'' @ appUUID @ ''/v2.0''\<rparr>"

definition entraClaims :: "containerAppsClaim list" where
  "entraClaims = [\<lparr>cl_Type = ''tid'', cl_Value = appUUID\<rparr>, \<lparr>cl_Type = ''oid'', cl_Value = appUUID\<rparr>]"

definition entraPrincipal :: containerAppsPrincipal where
  "entraPrincipal = \<lparr>cp_AuthenticationType = ''aad'', cp_Claims = entraClaims, cp_NameType = ''n'', cp_RoleType = ''r''\<rparr>"

definition entraDocument :: json where
  "entraDocument = JObj [(''auth_typ'', JStr ''aad''),
     (''claims'', JArr [JObj [(''typ'', JStr ''tid''), (''val'', JStr appUUID)], JObj [(''typ'', JStr ''oid''), (''val'', JStr appUUID)]]),
     (''name_typ'', JStr ''n''), (''role_typ'', JStr ''r'')]"

definition entraHeaders :: headers where
  "entraHeaders = headerSet containerAppsPrincipalHeader (b64Encode (jprint entraDocument))
     (headerSet containerAppsPrincipalIDHeader appUUID [])"

lemma entraConfig_ok: "ParseEnvironment (environmentOf entraConfig) = Inr entraConfig"
proof (rule ParseEnvironment_environmentOf)
  have "list_all dnsChar ''login.microsoftonline.com''" "list_all pathChar (CHR ''/'' # appUUID @ ''/v2.0'')"
    by (simp_all add: dnsChar_def pathChar_def char_class_defs appUUID_def)
  then have "IsValidOIDCIssuer (''https://'' @ ''login.microsoftonline.com'' @ (CHR ''/'' # appUUID @ ''/v2.0''))"
    by (intro https_issuer) (simp_all add: appUUID_def)
  then show "validPolicy entraConfig"
    using appUUID_ok app_names
    by (simp add: validPolicy_def entraConfig_def appConfig_def IsAzureContainerAppsIssuer_def del: rmatch.simps)
qed

lemma entraDocument_wf: "jwf entraDocument" "distinctKeys entraDocument" "length (jprint entraDocument) \<le> 2000"
proof -
  show "jwf entraDocument" "distinctKeys entraDocument" by (simp_all add: entraDocument_def utf8_valid_ascii appUUID_def)
  have "jbound entraDocument \<le> 2000" by (simp add: entraDocument_def appUUID_def)
  then show "length (jprint entraDocument) \<le> 2000" using jprint_bound(1) [of entraDocument] by simp
qed

lemma entra_principal: "readPrincipal (b64Encode (jprint entraDocument)) azureAuthenticationType = Some entraPrincipal"
proof -
  have "hasExactPrincipalSchema (jprint entraDocument)"
    using json_doc_print [OF entraDocument_wf(1)]
    by (simp add: hasExactPrincipalSchema_def entraDocument_def hasExactJSONFields_def claimSchema_def)
  moreover have "decodeStruct principalFields entraDocument zeroPrincipal = Some entraPrincipal"
    by code_simp
  then have "Decode (jprint entraDocument) (int maxPrincipalHeaderBytes) (decodeStruct principalFields) zeroPrincipal = Inr entraPrincipal"
    using entraDocument_wf by (intro Decode_print) (simp_all add: maxPrincipalHeaderBytes_def)
  moreover have "b64Encode (jprint entraDocument) \<noteq> []" by (simp add: entraDocument_def b64Encode_length flip: length_greater_0_conv)
  moreover have "length (b64Encode (jprint entraDocument)) \<le> maxPrincipalHeaderBytes"
    using entraDocument_wf(3) unfolding b64Encode_length maxPrincipalHeaderBytes_def by linarith
  ultimately show ?thesis unfolding readPrincipal_iff using \<open>hasExactPrincipalSchema _\<close>
    by (auto simp: entraPrincipal_def entraClaims_def azureAuthenticationType_def maxPrincipalClaims_def)
qed

lemma entra_keys:
  "canonicalKey containerAppsPrincipalHeader = ''X-Ms-Client-Principal''"
  "canonicalKey containerAppsPrincipalIDHeader = ''X-Ms-Client-Principal-Id''"
  "canonicalKey containerAppsPrincipalIDPHeader = ''X-Ms-Client-Principal-Idp''"
  by (simp_all add: containerAppsPrincipalHeader_def containerAppsPrincipalIDHeader_def containerAppsPrincipalIDPHeader_def canonical_eval)

lemma uuid_claim: "validClaimText appUUID maxClaimValueBytes" "validClaimText ''tid'' maxClaimTypeBytes" "validClaimText ''oid'' maxClaimTypeBytes"
  using validControlFree_ascii [of appUUID] validControlFree_ascii [of "''tid''"] validControlFree_ascii [of "''oid''"]
  by (simp_all add: validClaimText_def validControlFree_def utf8_valid_ascii appUUID_def maxClaimValueBytes_def maxClaimTypeBytes_def)

lemma entra_evidence: "entraEvidence entraHeaders appUUID appUUID"
proof -
  have "headerValues entraHeaders containerAppsPrincipalHeader = [b64Encode (jprint entraDocument)]"
    "headerValues entraHeaders containerAppsPrincipalIDHeader = [appUUID]"
    "headerValues entraHeaders containerAppsPrincipalIDPHeader = []"
    by (simp_all add: entraHeaders_def headerValues_set entra_keys)
  moreover have "validContainerAppsClaims (cp_Claims entraPrincipal)"
    using uuid_claim by (simp add: validContainerAppsClaims_def entraPrincipal_def entraClaims_def)
  moreover have "\<exists>t. filter tenantClaim (cp_Claims entraPrincipal) = [t] \<and> cl_Value t = appUUID"
    "\<exists>ob. filter objectClaim (cp_Claims entraPrincipal) = [ob] \<and> cl_Value ob = appUUID"
    by (simp_all add: entraPrincipal_def entraClaims_def tenantClaim_def objectClaim_def azure_claim_types)
  ultimately show ?thesis unfolding entraEvidence_def using entra_principal by blast
qed


end
