(* ===== verification/WorkerExample.thy ===== *)
theory WorkerExample
  imports MailStub Runtime AppExample PubExample
begin

text \<open>A concrete policy of the worker: the environment that spells it out is accepted and the worker starts with it.\<close>

definition exampleRuntime :: RuntimeConfig where
  "exampleRuntime =
     \<lparr>rt_IdentityClientID = appUUID, rt_StorageAccount = ''account'',
      rt_ServiceBusNamespace = ''namespace.servicebus.windows.net'', rt_ServiceBusQueue = ''queue'',
      rt_ManifestsContainer = ''m'', rt_BatchesContainer = ''b'', rt_ReceiptsContainer = ''r'',
      rt_HMACKeyVersion = ''k1'', rt_MailMode = MailModeStub, rt_MailFromEmail = ''u@a.b'', rt_MailFromName = ''N'',
      rt_MaxAttempts = 5, rt_ClaimTimeout = 300 * second, rt_MailTimeout = 10 * second, rt_HealthPort = 8081,
      rt_hmacKey = replicate 32 CHR ''k'', rt_allowedRecipients = [''u@a.b''], rt_mailAPIKey = [],
      rt_stubEndpoint = ''https://s.example.internal/v3/mail/send''\<rparr>"

lemma exampleRuntime_names:
  "rmatch workerStorageAccountPattern ''account''" "rmatch workerNamespacePattern ''namespace.servicebus.windows.net''"
  "rmatch queuePattern ''queue''" "rmatch versionLabelPattern ''k1''"
proof -
  show "rmatch workerStorageAccountPattern ''account''"
    using app_names(1) unfolding workerStorageAccountPattern_def storageAccountPattern_def .
  have "rmatch workerNamespacePattern (''n'' @ ''amespac'' @ ''e'' @ ''.servicebus.windows.net'')"
    unfolding workerNamespacePattern_def rseqs.simps
    by (intro rmatch_RSeqI rmatch_rlit [THEN iffD2] HOL.refl)
      (simp_all add: rmatch_RCls rmatch_rbetween_cls char_class_defs del: rmatch.simps)
  then show "rmatch workerNamespacePattern ''namespace.servicebus.windows.net''" by (simp del: rmatch.simps)
  have "rmatch queuePattern (''q'' @ ''ueu'' @ ''e'')"
    unfolding queuePattern_def rseqs.simps
    by (intro rmatch_RSeqI) (simp_all add: rmatch_RCls rmatch_rupto_cls char_class_defs del: rmatch.simps)
  then show "rmatch queuePattern ''queue''" by (simp del: rmatch.simps)
  show "rmatch versionLabelPattern ''k1''"
    unfolding versionLabelPattern_def by (subst rmatch_rbetween_cls) (simp_all add: char_class_defs)
qed

lemma exampleRuntime_valid: "validRuntime exampleRuntime"
proof -
  have "MailerConfig exampleRuntime = exampleMailConfig\<lparr>mc_Timeout := 10 * second\<rparr>"
    by (simp add: MailerConfig_def exampleRuntime_def exampleMailConfig_def)
  then have "is_ok (NewHTTPMailer (MailerConfig exampleRuntime))"
    using example_canonical example_stub(2)
    by (simp add: NewHTTPMailer_def exampleMailConfig_def allowedFor_def endpointFor_def controlFree_bytes second_def)
  moreover have "validContainer ''m''" "validContainer ''b''" "validContainer ''r''"
    using letter_container by (simp_all add: validContainer_def char_class_defs hasPrefix_def del: rmatch.simps)
  moreover have "trimSpace ''N'' \<noteq> []" using class_not_blank [of "CHR ''N''" "[]"] by (simp add: char_class_defs)
  moreover have "utf8_valid ''u@a.b''" by (simp add: utf8_valid_ascii)
  moreover have "\<not> contains ''queue'' ''//''" "\<not> contains ''queue'' ''..''" by (simp_all add: hasPrefix_def)
  ultimately show ?thesis
    using exampleRuntime_names appUUID_ok unfolding validRuntime_def exampleRuntime_def RuntimeConfig.select_convs
    by (simp add: second_def del: rmatch.simps contains.simps)
qed

theorem accepted_policy_starts_witness:
  "\<exists>options mailer. startWorker \<lparr>sdk_Credential = True, sdk_Storage = True, sdk_ServiceBus = True, sdk_Receiver = True\<rparr> exampleRuntime =
     Ready options mailer \<and> 32 \<le> length (wo_HMACKey options)"
  using accepted_policy_starts [OF ParseWorkerEnvironment_spelled [OF exampleRuntime_valid],
      of "\<lparr>sdk_Credential = True, sdk_Storage = True, sdk_ServiceBus = True, sdk_Receiver = True\<rparr>"] by auto

end
