(* ===== verification/AppMain.thy ===== *)
theory AppMain
  imports BlobStore
begin

text \<open>
  \<open>cmd/dar-download/main.go\<close>: the download service from its environment to the end of its HTTP server. The server
  itself is \<open>net/http\<close>: it is represented by what its two calls return.
\<close>

record httpServer =
  hs_Addr :: string
  hs_ReadHeaderTimeout :: duration
  hs_ReadTimeout :: duration
  hs_WriteTimeout :: duration
  hs_IdleTimeout :: duration
  hs_MaxHeaderBytes :: int

definition newHTTPServer :: "int \<Rightarrow> httpServer" where
  "newHTTPServer port =
     \<lparr>hs_Addr = '':'' @ itoa port, hs_ReadHeaderTimeout = 5 * second, hs_ReadTimeout = 15 * second,
      hs_WriteTimeout = 10 * 60 * second, hs_IdleTimeout = 60 * second, hs_MaxHeaderBytes = 32 * 1024\<rparr>"

text \<open>What \<open>ListenAndServe\<close> returns, and what happens first: the context ends or the server does.\<close>

datatype serveReturn = ServeNil | ServeClosed | ServeFailed

datatype serviceEnd = Interrupted bool serveReturn | ServerEnded serveReturn

datatype serviceError =
    ConfigurationRejected
  | StorageRejected
  | ShutdownFailed
  | ServerFailed

definition serviceResult :: "serviceEnd \<Rightarrow> serviceError option" where
  "serviceResult e =
     (case e of
        Interrupted shutdownFailed serveErr \<Rightarrow>
          if shutdownFailed then Some ShutdownFailed
          else if serveErr = ServeFailed then Some ServerFailed
          else None
      | ServerEnded serveErr \<Rightarrow> if serveErr = ServeNil \<or> serveErr = ServeClosed then None else Some ServerFailed)"

text \<open>\<open>run\<close>: the error it returns, and the server that was started, if any. The exit code of \<open>main\<close> is 1 on an error.\<close>

definition runService ::
    "(string \<Rightarrow> go_error + 'credential) \<Rightarrow> (string \<Rightarrow> 'credential \<Rightarrow> string \<Rightarrow> go_error + 'client) \<Rightarrow> environment \<Rightarrow> serviceEnd \<Rightarrow>
     serviceError option \<times> httpServer option" where
  "runService credentialFactory containerFactory osEnv e =
     (case LoadEnvironment osEnv of
        Inl _ \<Rightarrow> (Some ConfigurationRejected, None)
      | Inr cfg \<Rightarrow>
          (case newAzureStore credentialFactory containerFactory cfg of
             Inl _ \<Rightarrow> (Some StorageRejected, None)
           | Inr store \<Rightarrow> (serviceResult e, Some (newHTTPServer (cf_Port cfg)))))"

definition exitCode :: "serviceError option \<Rightarrow> int" where
  "exitCode r = (case r of None \<Rightarrow> 0 | Some _ \<Rightarrow> 1)"

text \<open>A server is started only for a valid policy, on its port; a graceful stop is no error.\<close>

lemma runService_started:
  assumes "runService credentialFactory containerFactory osEnv e = (r, Some server)"
  shows "\<exists>cfg. ParseEnvironment osEnv = Inr cfg \<and> validPolicy cfg \<and> server = newHTTPServer (cf_Port cfg) \<and> r = serviceResult e"
  using assms ParseEnvironment_valid unfolding LoadEnvironment_eq [symmetric]
  by (auto simp: runService_def LoadEnvironment_eq split: sum.splits)

lemma serviceResult_graceful: "serviceResult (Interrupted False ServeClosed) = None"
  by (simp add: serviceResult_def)

end
