(* ===== verification/Spec2Isabelle.thy ===== *)
theory Spec2Isabelle
  imports EndToEnd BatchFiles PublisherMain WorkerExample AppMain
begin

text \<open>
  A verification of the DAR release services (Go): a publisher that puts a release into storage and queues notifications,
  a worker that mails the notifications, and a download service that serves the release to authenticated users.

  \<^bold>\<open>The parts and how they interact.\<close>
  The publisher (\<open>cmd/dar-release-publisher\<close>, \<open>internal/publication\<close>) discovers the highest release of a checkout,
  validates its archive and the recipients file, stores identity, artifact, manifest and recipient batches as immutable
  blobs, queues one message per batch and advances the current manifest. The worker (\<open>cmd/dar-distribution-worker\<close>,
  \<open>internal/distribution\<close>) receives a message, verifies manifest and batch by digest, and for every recipient keeps a
  receipt blob that is written conditionally before and after the call to the mail provider, so that concurrent and
  repeated deliveries neither skip nor multiply mails. The mailed link leads to the download service
  (\<open>cmd/dar-download\<close>, \<open>internal/httpapi\<close>, \<open>auth\<close>, \<open>blob\<close>, \<open>download\<close>, \<open>config\<close>), which authenticates
  the caller from headers of a trusted boundary and streams byte ranges of one blob version.

  \<^bold>\<open>Conventions.\<close>
  A Go \<open>string\<close> or \<open>[]byte\<close> is a list of bytes (\<open>char list\<close>); structs are records, whose field prefixes only keep
  the names apart; errors are values of \<open>go_error\<close> in a sum; \<open>int\<close> and \<open>int64\<close> are \<open>int\<close>, with the range shown where it
  matters; durations and instants count nanoseconds. Code that leaves the process is a tree: a node per call
  with a continuation for every possible reply (\<open>'a eff\<close> for the worker in Effects, \<open>'a pub\<close> for the publisher in PubTree,
  \<open>'a web\<close> for a download request in Web). Over a tree there are two semantics: all event sequences under arbitrary replies
  (safety properties), and a run against a service that answers (liveness properties). The Azure SDK, the mail
  provider, \<open>net/http\<close> servers and clients and the file system are this environment and have no definition of
  their own; where a property needs something of them, it is a named hypothesis of the property.

  \<^bold>\<open>Theories and sources.\<close>
  \<^item> Go's library as far as the program uses it: Prelude, GoStrings (\<open>strings\<close>, \<open>strconv\<close>), Utf8, Json (\<open>encoding/json\<close>
    printing, parsing and decoding into structs), Base64, Csv, GoTime, GoPath, GoHttp (header maps), Url (\<open>net/url\<close>), Regex
    (the anchored patterns, by derivatives), Sha256 (SHA-256 and HMAC on words). Main results: printing and parsing of JSON,
    base64 and CSV are inverse; the parser's fuel, the length of the input plus one, is always enough (\<open>pv_fuel_stable\<close>).
  \<^item> \<open>internal/strictjson\<close>: StrictJson, with the locales \<open>wire_codec\<close> and \<open>document\<close> for canonical documents, interpreted for
    every document of the program.
  \<^item> \<open>internal/distribution\<close>: Contracts (\<open>contracts.go\<close>), Receipt and ReceiptHistory (\<open>receipt.go\<close>), Effects, Storage
    (\<open>azure_storage.go\<close>), Worker (\<open>worker.go\<close>), Mail (\<open>mail.go\<close>), WorkerConfig (\<open>config.go\<close>), MailStub (\<open>stub.go\<close>), Runtime
    (\<open>runtime.go\<close> and the worker's \<open>main.go\<close>). Properties over executions: Protocol and Fleet (any number of workers,
    duplicated deliveries, lost replies, crashes), Delivery, Findings, FaultFree and Completion (a service that answers),
    Example and WorkerExample (concrete instances).
  \<^item> \<open>internal/publication\<close>: PubTree, Source (\<open>source.go\<close>), PubConfig (\<open>config.go\<close>), PubAzure (\<open>azure.go\<close>), Publisher
    (\<open>publisher.go\<close>), PublisherMain (the command line). Properties: Releases, Cohort, Batches, BatchFiles, Discovery about the
    input; Writers (the contract of \<open>BlobWriter\<close> and \<open>QueueWriter\<close> as locales, interpreted by the Azure writers), Publishing and
    Publication (every execution), PubContracts and PubRun (a service that answers), PubExample.
  \<^item> the download service: AppConfig (\<open>internal/config\<close>), Auth (\<open>internal/auth\<close>), ByteRange (\<open>internal/download\<close>), Web,
    BlobStore (\<open>internal/blob\<close>; what the handler relies on is a locale over the store, interpreted by the Azure adapter),
    Handler (\<open>internal/httpapi\<close>), AppMain (the process). Auth has a locale for an identity boundary, interpreted by the three
    adapters. Properties: Serving, Downloads, AppExample.
  \<^item> the parts together: Links (mailed links and served paths), EndToEnd (a publication followed by its deliveries).

  \<^bold>\<open>What is shown.\<close>
  \<^item> Worker: the mails per recipient stay within the attempt budget in every interleaving, no mail precedes its committed
    receipt, every receipt is one linear journal, everything is validated before the first effect, a valid delivery
    completes, a repeated one is silent, every answer of the provider can be recorded.
  \<^item> Handling of messages: settled at most once and only under a held lock; the renewal terminates; accepted policies are
    exactly the valid ones and always start the worker; client and stub agree.
  \<^item> Publisher: messages are sent only for content that storage confirmed and the worker accepts, everyone is
    announced, publication succeeds on a service that answers and is idempotent, batch files refine the
    cohort, archives and releases are chosen exactly as specified, the command line fails closed.
  \<^item> End to end: publishing and then delivering mails every recipient exactly once, with a link that the handler serves.
  \<^item> Downloads: storage is reached only after authentication, the bytes sent are the selected bytes of one version,
    a broken download can be resumed, every response is hardened, the identity adapters and parsers are exact.
  \<^item> Faults of the code that the model exposed are lemmas too (Findings, Downloads, Links, PublisherMain).

  \<^bold>\<open>Bounds and fuel.\<close>
  Recursion is structural or has a termination proof; the JSON parser has fuel with a proof that it suffices; the stream
  and the renewal loop terminate by measures on the remaining bytes and on the ticks left. The renewal loop assumes
  that a call with a context returns when the context ends and that the loop's own instructions take no time.
  No property assumes that SHA-256 has no collisions; where different recipients must have different ids, that is a
  hypothesis of the property.

  \<^bold>\<open>Not modelled.\<close>
  The test doubles (\<open>internal/testsupport\<close>), the lint fixture under \<open>security/testdata\<close>, log lines other than the audit
  records, the HTTP servers of \<open>net/http\<close> below their handlers, TLS and credentials of the Azure SDK, and
  the DEFLATE stream inside a ZIP member (a member is what reading it yields).
\<close>

end
